(* ===== verification/Prelude.thy ===== *)
theory Prelude
  imports Main "HOL-Library.Sublist"
begin

text \<open>
  Shared material of the development: results of fallible code, the nullish operator,
  the list facts that the string components use, and the collections of simplification
  rules (\<open>result_simps\<close> for fallible computations, \<open>js_defs\<close> for the small string
  helpers that are normally unfolded).
\<close>

named_theorems result_simps \<open>rules that take apart a bind of fallible computations\<close>
named_theorems js_defs \<open>small definitions that proofs unfold\<close>

subsection \<open>Fallible computations\<close>

text \<open>
  A TypeScript function that may throw is a value of \<open>'e + 'a\<close>: \<open>Inl\<close> is the thrown
  error and \<open>Inr\<close> the returned value. Sequencing is \<open>ebind\<close>.
\<close>

type_synonym ('e, 'a) result = "'e + 'a"

fun ebind :: "('e, 'a) result \<Rightarrow> ('a \<Rightarrow> ('e, 'b) result) \<Rightarrow> ('e, 'b) result" where
  "ebind (Inl e) f = Inl e"
| "ebind (Inr a) f = f a"

lemma ebind_eq_Inr [result_simps]:
  "ebind m f = Inr b \<longleftrightarrow> (\<exists>a. m = Inr a \<and> f a = Inr b)"
  by (cases m) auto

lemma ebind_eq_Inl [result_simps]:
  "ebind m f = Inl e \<longleftrightarrow> m = Inl e \<or> (\<exists>a. m = Inr a \<and> f a = Inl e)"
  by (cases m) auto

lemma ebind_assoc: "ebind (ebind m f) g = ebind m (\<lambda>a. ebind (f a) g)"
  by (cases m) auto

lemma if_throw_eq_Inr [result_simps]:
  "(if b then Inl e else m) = Inr a \<longleftrightarrow> \<not> b \<and> m = Inr a"
  by simp

lemma if_throw_eq_Inl [result_simps]:
  "(if b then Inl e else Inr a) = Inl e' \<longleftrightarrow> b \<and> e = e'"
  by simp

text \<open>The nullish operator \<open>x ?? d\<close>: \<open>None\<close> is \<open>undefined\<close> or \<open>null\<close>.\<close>

fun nullish :: "'a option \<Rightarrow> 'a \<Rightarrow> 'a" where
  "nullish None d = d"
| "nullish (Some x) d = x"

subsection \<open>Lists\<close>

lemma dropWhile_hd_id: "xs = [] \<or> \<not> P (hd xs) \<Longrightarrow> dropWhile P xs = xs"
  by (cases xs) auto

lemma dropWhile_hd: "dropWhile P xs \<noteq> [] \<Longrightarrow> \<not> P (hd (dropWhile P xs))"
  by (induction xs) auto

lemma length_dropWhile_less:
  "xs \<noteq> [] \<Longrightarrow> P (hd xs) \<Longrightarrow> length (dropWhile P xs) < length xs"
  by (cases xs) (auto intro: le_imp_less_Suc length_dropWhile_le)

lemma takeWhile_append_stop:
  "\<forall>x\<in>set xs. P x \<Longrightarrow> \<not> P y \<Longrightarrow> takeWhile P (xs @ y # ys) = xs"
  by (induction xs) auto

lemma dropWhile_append_stop:
  "\<forall>x\<in>set xs. P x \<Longrightarrow> \<not> P y \<Longrightarrow> dropWhile P (xs @ y # ys) = y # ys"
  by (induction xs) auto

lemma takeWhile_all [simp]: "\<forall>x\<in>set xs. P x \<Longrightarrow> takeWhile P xs = xs"
  by (induction xs) auto

lemma butlast_hd: "length xs > 1 \<Longrightarrow> hd (butlast xs) = hd xs"
  by (cases xs) auto

end
