(* ===== verification/JsString.thy ===== *)
theory JsString
  imports Prelude
begin

text \<open>
  JavaScript strings as the source uses them. A string is its list of UTF-16 code units
  (natural numbers below 65536), so \<open>length\<close>, indexing and slicing count what the
  language counts. \<open>js\<close> turns an ASCII literal into such a list; the Chinese literals of
  the source are written as lists of code units.
\<close>

type_synonym jchar = nat
type_synonym jstring = "jchar list"

definition js :: "string \<Rightarrow> jstring" where
  "js s = map of_char s"

lemma js_Nil [simp]: "js [] = []"
  by (simp add: js_def)

lemma js_Cons [simp]: "js (c # cs) = of_char c # js cs"
  by (simp add: js_def)

lemma js_inject [simp]: "js s = js t \<longleftrightarrow> s = t"
  unfolding js_def by (rule inj_map_eq_map) (rule inj_of_char)

definition is_code_units :: "jstring \<Rightarrow> bool" where
  "is_code_units s \<longleftrightarrow> (\<forall>c\<in>set s. c < 65536)"

subsection \<open>White space and \<open>trim\<close>\<close>

text \<open>
  \<open>String.prototype.trim\<close> and the class \<open>\\s\<close> of regular expressions share one set of
  code units: the white space and the line terminators of the language.
\<close>

definition isWhite :: "jchar \<Rightarrow> bool" where
  "isWhite c \<longleftrightarrow> (9 \<le> c \<and> c \<le> 13) \<or> c = 32 \<or> c = 160 \<or> c = 5760 \<or> (8192 \<le> c \<and> c \<le> 8202)
     \<or> c = 8232 \<or> c = 8233 \<or> c = 8239 \<or> c = 8287 \<or> c = 12288 \<or> c = 65279"

definition trimStart :: "jstring \<Rightarrow> jstring" where
  "trimStart s = dropWhile isWhite s"

definition trimEnd :: "jstring \<Rightarrow> jstring" where
  "trimEnd s = rev (dropWhile isWhite (rev s))"

definition trim :: "jstring \<Rightarrow> jstring" where
  "trim s = trimEnd (trimStart s)"

definition trimmed :: "jstring \<Rightarrow> bool" where
  "trimmed s \<longleftrightarrow> s = [] \<or> (\<not> isWhite (hd s) \<and> \<not> isWhite (last s))"

lemma trimEnd_snoc_split:
  "\<exists>w. s = trimEnd s @ w \<and> (\<forall>c\<in>set w. isWhite c)"
proof -
  let ?w = "rev (takeWhile isWhite (rev s))"
  have "rev s = takeWhile isWhite (rev s) @ dropWhile isWhite (rev s)" by simp
  then have "s = rev (dropWhile isWhite (rev s)) @ ?w"
    by (metis rev_append rev_rev_ident)
  moreover have "\<forall>c\<in>set ?w. isWhite c" by (auto dest: set_takeWhileD)
  ultimately show ?thesis unfolding trimEnd_def by blast
qed

lemma trim_trimmed: "trimmed (trim s)"
proof (cases "trim s = []")
  case True
  then show ?thesis by (simp add: trimmed_def)
next
  case False
  let ?t = "trimStart s"
  obtain w where w: "?t = trim s @ w" using trimEnd_snoc_split[of ?t] by (auto simp: trim_def)
  with False have "?t \<noteq> []" by auto
  then have "\<not> isWhite (hd ?t)" unfolding trimStart_def by (rule dropWhile_hd)
  with w False have h: "\<not> isWhite (hd (trim s))" by (simp add: hd_append)
  have "dropWhile isWhite (rev ?t) \<noteq> []" using False by (simp add: trim_def trimEnd_def)
  then have "\<not> isWhite (hd (dropWhile isWhite (rev ?t)))" by (rule dropWhile_hd)
  with False have "\<not> isWhite (last (trim s))" by (simp add: trim_def trimEnd_def last_rev)
  with h show ?thesis by (simp add: trimmed_def)
qed

lemma trim_id: "trimmed s \<Longrightarrow> trim s = s"
  by (auto simp: trimmed_def trim_def trimEnd_def trimStart_def hd_rev dropWhile_hd_id)

lemma trim_trim [simp]: "trim (trim s) = trim s"
  by (rule trim_id[OF trim_trimmed])

lemma trim_Nil [simp]: "trim [] = []"
  by (simp add: trim_def trimStart_def trimEnd_def)

lemma trim_iff: "trimmed s \<longleftrightarrow> trim s = s"
  using trim_id trim_trimmed[of s] by metis

lemma set_trim: "set (trim s) \<subseteq> set s"
  by (auto simp: trim_def trimEnd_def trimStart_def dest!: set_dropWhileD)

lemma trim_eq_Nil_iff: "trim s = [] \<longleftrightarrow> (\<forall>c\<in>set s. isWhite c)"
proof
  assume "trim s = []"
  then have "\<forall>c\<in>set (trimStart s). isWhite c"
    by (simp add: trim_def trimEnd_def)
  then have "trimStart s = []"
    by (metis dropWhile_hd hd_in_set trimStart_def)
  then show "\<forall>c\<in>set s. isWhite c" by (simp add: trimStart_def)
next
  assume "\<forall>c\<in>set s. isWhite c"
  then have "trimStart s = []" by (simp add: trimStart_def)
  then show "trim s = []" by (simp add: trim_def trimEnd_def)
qed

lemma trimmed_no_white: "\<forall>c\<in>set s. \<not> isWhite c \<Longrightarrow> trimmed s"
  by (auto simp: trimmed_def)

subsection \<open>Lower case\<close>

text \<open>
  \<open>toLowerCase\<close> on one code unit: ASCII, Latin-1, Greek, Cyrillic and full-width letters,
  and the three letters outside these blocks whose lower case is Latin (dotted capital I,
  the Kelvin and the Angstrom sign). The source only compares lower-cased text with ASCII
  and Chinese keywords, on which the remaining cased scripts have no effect; they are left
  unchanged.
\<close>

definition lowerUnit :: "jchar \<Rightarrow> jstring" where
  "lowerUnit c =
     (if 65 \<le> c \<and> c \<le> 90 then [c + 32]
      else if 192 \<le> c \<and> c \<le> 222 \<and> c \<noteq> 215 then [c + 32]
      else if 913 \<le> c \<and> c \<le> 939 \<and> c \<noteq> 930 then [c + 32]
      else if 1024 \<le> c \<and> c \<le> 1039 then [c + 80]
      else if 1040 \<le> c \<and> c \<le> 1071 then [c + 32]
      else if 65313 \<le> c \<and> c \<le> 65338 then [c + 32]
      else if c = 304 then [105, 775]
      else if c = 8490 then [107]
      else if c = 8491 then [229]
      else [c])"

definition toLowerCase :: "jstring \<Rightarrow> jstring" where
  "toLowerCase s = concat (map lowerUnit s)"

lemma lowerUnit_fixed: "x \<in> set (lowerUnit c) \<Longrightarrow> lowerUnit x = [x]"
  by (auto simp: lowerUnit_def split: if_splits)

lemma toLowerCase_Nil [simp]: "toLowerCase [] = []"
  by (simp add: toLowerCase_def)

lemma toLowerCase_Cons [simp]: "toLowerCase (c # s) = lowerUnit c @ toLowerCase s"
  by (simp add: toLowerCase_def)

lemma toLowerCase_append [simp]: "toLowerCase (s @ t) = toLowerCase s @ toLowerCase t"
  by (simp add: toLowerCase_def)

lemma toLowerCase_fixed: "\<forall>c\<in>set s. lowerUnit c = [c] \<Longrightarrow> toLowerCase s = s"
  by (induction s) auto

lemma toLowerCase_idem [simp]: "toLowerCase (toLowerCase s) = toLowerCase s"
  by (rule toLowerCase_fixed) (auto simp: toLowerCase_def dest: lowerUnit_fixed)

lemma lowerUnit_nonempty [simp]: "lowerUnit c \<noteq> []"
  by (simp add: lowerUnit_def)

lemma toLowerCase_eq_Nil [simp]: "toLowerCase s = [] \<longleftrightarrow> s = []"
  by (cases s) auto

subsection \<open>Searching and slicing\<close>

fun includesStr :: "jstring \<Rightarrow> jstring \<Rightarrow> bool" where
  "includesStr [] k = (k = [])"
| "includesStr (c # s) k = (prefix k (c # s) \<or> includesStr s k)"

lemma includesStr_iff: "includesStr s k \<longleftrightarrow> (\<exists>p q. s = p @ k @ q)"
proof (induction s)
  case Nil
  show ?case by auto
next
  case (Cons c s)
  show ?case (is "_ \<longleftrightarrow> ?R")
  proof
    assume "includesStr (c # s) k"
    then consider "prefix k (c # s)" | "includesStr s k" by auto
    then show ?R
    proof cases
      case 1
      then obtain q where "c # s = [] @ k @ q" by (auto simp: prefix_def)
      then show ?thesis by blast
    next
      case 2
      then obtain p q where "s = p @ k @ q" using Cons.IH by blast
      then have "c # s = (c # p) @ k @ q" by simp
      then show ?thesis by blast
    qed
  next
    assume ?R
    then obtain p q where pq: "c # s = p @ k @ q" by blast
    show "includesStr (c # s) k"
    proof (cases p)
      case Nil
      with pq have "prefix k (c # s)" by (simp add: prefix_def)
      then show ?thesis by simp
    next
      case (Cons c' p')
      with pq have "s = p' @ k @ q" by simp
      with Cons.IH show ?thesis by auto
    qed
  qed
qed

lemma includesStr_sub: "includesStr s k \<Longrightarrow> includesStr k k' \<Longrightarrow> includesStr s k'"
  by (metis append.assoc includesStr_iff)

text \<open>\<open>indexOf\<close> of a single character, \<open>None\<close> for the result \<open>-1\<close>.\<close>

fun indexOf :: "jstring \<Rightarrow> jchar \<Rightarrow> nat option" where
  "indexOf [] c = None"
| "indexOf (x # s) c = (if x = c then Some 0 else map_option Suc (indexOf s c))"

lemma indexOf_None: "indexOf s c = None \<longleftrightarrow> c \<notin> set s"
  by (induction s) auto

lemma indexOf_append_stop: "c \<notin> set p \<Longrightarrow> indexOf (p @ c # q) c = Some (length p)"
  by (induction p) auto

lemma indexOf_Some_split:
  "indexOf s c = Some i \<Longrightarrow> s = take i s @ c # drop (Suc i) s \<and> c \<notin> set (take i s) \<and> i < length s"
  by (induction s arbitrary: i) (auto split: if_splits)

fun startsWith :: "jstring \<Rightarrow> jstring \<Rightarrow> bool" where
  "startsWith s p = prefix p s"

definition endsWith :: "jstring \<Rightarrow> jstring \<Rightarrow> bool" where
  "endsWith s p = suffix p s"

fun join :: "jstring \<Rightarrow> jstring list \<Rightarrow> jstring" where
  "join sep [] = []"
| "join sep [x] = x"
| "join sep (x # y # xs) = x @ sep @ join sep (y # xs)"

text \<open>\<open>s.split(/\\s+/)\<close>: the fields between the maximal runs of white space.\<close>

function splitWhite :: "jstring \<Rightarrow> jstring list" where
  "splitWhite s =
     (let w = takeWhile (\<lambda>c. \<not> isWhite c) s; r = dropWhile (\<lambda>c. \<not> isWhite c) s
      in if r = [] then [w] else w # splitWhite (dropWhile isWhite r))"
  by pat_completeness auto
termination
proof (relation "measure length", goal_cases)
  case 1
  show ?case by simp
next
  case (2 s w r)
  then have "isWhite (hd r)" using dropWhile_hd[of "\<lambda>c. \<not> isWhite c" s] by simp
  with 2 have "length (dropWhile isWhite r) < length r" by (simp add: length_dropWhile_less)
  also have "\<dots> \<le> length s" using 2 by (simp add: length_dropWhile_le)
  finally show ?case by simp
qed

declare splitWhite.simps [simp del]

lemma splitWhite_word: "\<forall>c\<in>set s. \<not> isWhite c \<Longrightarrow> splitWhite s = [s]"
  by (simp add: splitWhite.simps[of s])

lemma splitWhite_step:
  assumes "\<forall>c\<in>set w. \<not> isWhite c" "isWhite x"
  shows "splitWhite (w @ x # s) = w # splitWhite (dropWhile isWhite s)"
  using assms by (simp add: splitWhite.simps[of "w @ x # s"] takeWhile_append_stop dropWhile_append_stop)

lemma splitWhite_nonempty [simp]: "splitWhite s \<noteq> []"
  by (simp add: splitWhite.simps[of s] Let_def)

lemma splitWhite_no_white: "w \<in> set (splitWhite s) \<Longrightarrow> c \<in> set w \<Longrightarrow> \<not> isWhite c"
proof (induction s rule: splitWhite.induct)
  case (1 s)
  then show ?case
    by (auto simp: splitWhite.simps[of s] Let_def dest: set_takeWhileD split: if_splits)
qed

text \<open>On a trimmed non-empty string every field is a non-empty word.\<close>

lemma last_dropWhile: "dropWhile P s \<noteq> [] \<Longrightarrow> last (dropWhile P s) = last s"
  by (induction s) (auto split: if_splits)

lemma splitWhite_words:
  "trimmed s \<Longrightarrow> s \<noteq> [] \<Longrightarrow> w \<in> set (splitWhite s) \<Longrightarrow> w \<noteq> []"
proof (induction s rule: splitWhite.induct)
  case (1 s)
  let ?w = "takeWhile (\<lambda>c. \<not> isWhite c) s" and ?r = "dropWhile (\<lambda>c. \<not> isWhite c) s"
  let ?t = "dropWhile isWhite ?r"
  have w: "?w \<noteq> []" using "1.prems"(1,2) by (cases s) (auto simp: trimmed_def)
  show ?case
  proof (cases "?r = []")
    case True
    with "1.prems" w show ?thesis by (simp add: splitWhite.simps[of s])
  next
    case False
    then have last: "last ?r = last s" by (rule last_dropWhile)
    have nw: "\<not> isWhite (last s)" using "1.prems"(1,2) by (simp add: trimmed_def)
    have t: "?t \<noteq> []"
    proof
      assume "?t = []"
      then have "\<forall>c\<in>set ?r. isWhite c" by (rule dropWhile_eq_Nil_conv[THEN iffD1])
      then have "isWhite (last ?r)" using last_in_set[OF False] by blast
      with last nw show False by simp
    qed
    have "trimmed ?t"
      using t last nw dropWhile_hd[OF t] last_dropWhile[OF t] by (simp add: trimmed_def)
    with "1.IH"[OF refl refl False] t have "w \<in> set (splitWhite ?t) \<Longrightarrow> w \<noteq> []" by blast
    moreover have "w = ?w \<or> w \<in> set (splitWhite ?t)"
      using "1.prems"(3) False by (auto simp: splitWhite.simps[of s] Let_def split: if_splits)
    ultimately show ?thesis using w by metis
  qed
qed

lemma splitWhite_join:
  assumes "ws \<noteq> []" "\<forall>w\<in>set ws. w \<noteq> [] \<and> (\<forall>c\<in>set w. \<not> isWhite c)"
  shows "splitWhite (join [32] ws) = ws"
  using assms
proof (induction ws rule: induct_list012)
  case (2 w)
  then show ?case by (simp add: splitWhite_word)
next
  case (3 w v ws)
  let ?rest = "join [32] (v # ws)"
  have "?rest \<noteq> [] \<and> \<not> isWhite (hd ?rest)"
    using "3.prems" by (cases ws) (auto simp: hd_append)
  then have "dropWhile isWhite ?rest = ?rest" using dropWhile_hd_id by blast
  moreover have "\<forall>c\<in>set w. \<not> isWhite c" using "3.prems" by simp
  moreover have "isWhite 32" by (simp add: isWhite_def)
  ultimately have "splitWhite (w @ 32 # ?rest) = w # splitWhite ?rest"
    using splitWhite_step[of w 32 ?rest] by simp
  then show ?case using "3.IH"(2) "3.prems" by simp
qed simp

lemma trimmed_join_words:
  assumes "ws \<noteq> []" "\<forall>w\<in>set ws. w \<noteq> [] \<and> (\<forall>c\<in>set w. \<not> isWhite c)"
  shows "trimmed (join [32] ws) \<and> join [32] ws \<noteq> []"
  using assms
proof (induction ws rule: induct_list012)
  case (2 w)
  then show ?case by (auto simp: trimmed_def)
next
  case (3 w v ws)
  then have "trimmed (join [32] (v # ws)) \<and> join [32] (v # ws) \<noteq> []" by simp
  with "3.prems" show ?case by (auto simp: trimmed_def hd_append)
qed simp

subsection \<open>Decimal integers\<close>

fun natString :: "nat \<Rightarrow> jstring" where
  "natString n = (if n < 10 then [48 + n] else natString (n div 10) @ [48 + n mod 10])"

declare natString.simps [simp del]

definition intString :: "int \<Rightarrow> jstring" where
  "intString i = (if i < 0 then 45 # natString (nat (- i)) else natString (nat i))"

definition isDigit :: "jchar \<Rightarrow> bool" where
  "isDigit c \<longleftrightarrow> 48 \<le> c \<and> c \<le> 57"

definition digitsValue :: "jstring \<Rightarrow> nat" where
  "digitsValue s = foldl (\<lambda>a c. 10 * a + (c - 48)) 0 s"

lemma digitsValue_snoc [simp]: "digitsValue (s @ [c]) = 10 * digitsValue s + (c - 48)"
  by (simp add: digitsValue_def)

lemma natString_digits: "c \<in> set (natString n) \<Longrightarrow> isDigit c"
proof (induction n rule: natString.induct)
  case (1 n)
  show ?case
  proof (cases "n < 10")
    case True
    with "1.prems" show ?thesis by (auto simp: natString.simps[of n] isDigit_def)
  next
    case False
    with 1 show ?thesis by (auto simp: natString.simps[of n] isDigit_def)
  qed
qed

lemma natString_nonempty [simp]: "natString n \<noteq> []"
  by (simp add: natString.simps[of n])

lemma digitsValue_natString [simp]: "digitsValue (natString n) = n"
proof (induction n rule: natString.induct)
  case (1 n)
  then show ?case by (cases "n < 10") (simp_all add: natString.simps[of n] digitsValue_def)
qed

lemma natString_inject [simp]: "natString m = natString n \<longleftrightarrow> m = n"
  by (metis digitsValue_natString)

end
