(* ===== verification/WalletErrors.thy ===== *)
theory WalletErrors
  imports JsString
begin

text \<open>
  The error model of the SDK, \<open>soulon-wallet/src/core/errors.ts\<close>: the class
  \<open>SoulonWalletError\<close>, the classification of a delivered transaction
  (\<open>mapTxError\<close>) and of a thrown value (\<open>mapBroadcastError\<close>). The two disagree on the
  Chinese texts for a gas shortage.
\<close>

record SoulonWalletError =
  code :: jstring
  message :: jstring

definition wallet_error :: "jstring \<Rightarrow> jstring \<Rightarrow> SoulonWalletError" where
  "wallet_error c m = \<lparr>code = c, message = m\<rparr>"

text \<open>A thrown JavaScript value as \<open>catch (error)\<close> sees it: an instance of the class, another
  \<open>Error\<close> with its message, or any other value with its string form.\<close>

datatype thrown = ThrownWallet SoulonWalletError | ThrownError jstring | ThrownValue jstring

definition throwWallet :: "jstring \<Rightarrow> jstring \<Rightarrow> (thrown, 'a) result" where
  "throwWallet c m = Inl (ThrownWallet (wallet_error c m))"

lemma throwWallet_neq_Inr [simp, result_simps]: "throwWallet c m \<noteq> Inr x" "Inr x \<noteq> throwWallet c m"
  by (simp_all add: throwWallet_def)

lemma throwWallet_inject [simp]: "throwWallet c m = throwWallet c' m' \<longleftrightarrow> c = c' \<and> m = m'"
  by (auto simp: throwWallet_def wallet_error_def)

lemma ebind_throwWallet [simp]: "ebind (throwWallet c m) f = throwWallet c m"
  by (simp add: throwWallet_def)

definition INVALID_ARGUMENT :: jstring where "INVALID_ARGUMENT = js ''INVALID_ARGUMENT''"
definition INSUFFICIENT_FUNDS :: jstring where "INSUFFICIENT_FUNDS = js ''INSUFFICIENT_FUNDS''"
definition OUT_OF_GAS :: jstring where "OUT_OF_GAS = js ''OUT_OF_GAS''"
definition INVALID_SEQUENCE :: jstring where "INVALID_SEQUENCE = js ''INVALID_SEQUENCE''"
definition UNAUTHORIZED :: jstring where "UNAUTHORIZED = js ''UNAUTHORIZED''"
definition NODE_UNAVAILABLE :: jstring where "NODE_UNAVAILABLE = js ''NODE_UNAVAILABLE''"
definition TX_REJECTED :: jstring where "TX_REJECTED = js ''TX_REJECTED''"

lemmas semantic_code_defs = INVALID_ARGUMENT_def INSUFFICIENT_FUNDS_def OUT_OF_GAS_def
  INVALID_SEQUENCE_def UNAUTHORIZED_def NODE_UNAVAILABLE_def TX_REJECTED_def

definition WALLET_SEMANTIC_ERROR_CODES :: "jstring list" where
  "WALLET_SEMANTIC_ERROR_CODES = [INVALID_ARGUMENT, INSUFFICIENT_FUNDS, OUT_OF_GAS,
     INVALID_SEQUENCE, UNAUTHORIZED, NODE_UNAVAILABLE, TX_REJECTED]"

lemma semantic_codes_distinct: "distinct WALLET_SEMANTIC_ERROR_CODES"
  by (simp add: WALLET_SEMANTIC_ERROR_CODES_def semantic_code_defs)

definition includesOneOf :: "jstring \<Rightarrow> jstring list \<Rightarrow> bool" where
  "includesOneOf v keywords = list_ex (includesStr v) keywords"

definition normalizeMessage :: "jstring option \<Rightarrow> jstring" where
  "normalizeMessage m = toLowerCase (nullish m [])"

text \<open>\<open>text || fallback\<close> on an optional string: the empty string is falsy too.\<close>

fun orText :: "jstring option \<Rightarrow> jstring \<Rightarrow> jstring" where
  "orText None d = d"
| "orText (Some s) d = (if s = [] then d else s)"

text \<open>The keyword lists, in the order in which \<open>errors.ts\<close> writes them.\<close>

definition FUNDS_KEYWORDS :: "jstring list" where
  "FUNDS_KEYWORDS =
     [js ''insufficient funds'', js ''spendable balance'', [19981, 36275],
      [20313, 39069, 19981, 36275]]"

definition GAS_KEYWORDS :: "jstring list" where
  "GAS_KEYWORDS =
     [js ''out of gas'', js ''gas wanted'', js ''gas'' @ [19981, 36275],
      [29123, 26009, 19981, 36275]]"

definition SEQUENCE_KEYWORDS :: "jstring list" where
  "SEQUENCE_KEYWORDS =
     [js ''invalid account sequence'', js ''account sequence mismatch'',
      js ''incorrect account sequence'', js ''nonce'', js ''sequence'']"

definition INVALID_KEYWORDS :: "jstring list" where
  "INVALID_KEYWORDS =
     [js ''invalid'', js ''malformed'', js ''illegal'', [21442, 25968, 38750, 27861],
      js ''invalid argument'', js ''invalid request'']"

definition UNAUTHORIZED_KEYWORDS :: "jstring list" where
  "UNAUTHORIZED_KEYWORDS =
     [js ''unauthorized'', [26435, 38480], [26410, 25480, 26435]]"

definition NODE_KEYWORDS :: "jstring list" where
  "NODE_KEYWORDS =
     [js ''econnrefused'', js ''fetch failed'', js ''network error'',
      js ''deadline exceeded'', js ''timeout'', js ''timed out'', js ''unavailable'',
      js ''connection refused'', js ''socket hang up'', js ''econnreset'']"

definition mapTxError :: "int \<Rightarrow> jstring option \<Rightarrow> SoulonWalletError option" where
  "mapTxError txCode rawLog =
     (let log = normalizeMessage rawLog in
      if txCode = 0 then None
      else if includesOneOf log FUNDS_KEYWORDS then
        Some (wallet_error INSUFFICIENT_FUNDS (orText rawLog (js ''insufficient funds'')))
      else if includesOneOf log GAS_KEYWORDS then
        Some (wallet_error OUT_OF_GAS (orText rawLog (js ''out of gas'')))
      else if includesOneOf log SEQUENCE_KEYWORDS then
        Some (wallet_error INVALID_SEQUENCE (orText rawLog (js ''invalid account sequence'')))
      else if includesOneOf log INVALID_KEYWORDS then
        Some (wallet_error INVALID_ARGUMENT (orText rawLog (js ''invalid request'')))
      else if includesOneOf log UNAUTHORIZED_KEYWORDS then
        Some (wallet_error UNAUTHORIZED (orText rawLog (js ''unauthorized'')))
      else if txCode = 4 then
        Some (wallet_error INSUFFICIENT_FUNDS (orText rawLog (js ''insufficient funds'')))
      else if txCode = 11 then
        Some (wallet_error OUT_OF_GAS (orText rawLog (js ''out of gas'')))
      else if txCode = 32 then
        Some (wallet_error INVALID_SEQUENCE (orText rawLog (js ''invalid account sequence'')))
      else if txCode = 2 \<or> txCode = 3 then
        Some (wallet_error INVALID_ARGUMENT (orText rawLog (js ''invalid request'')))
      else if txCode = 13 then
        Some (wallet_error UNAUTHORIZED (orText rawLog (js ''unauthorized'')))
      else Some (wallet_error TX_REJECTED (orText rawLog (js ''transaction rejected''))))"

fun thrownMessage :: "thrown \<Rightarrow> jstring" where
  "thrownMessage (ThrownWallet e) = message e"
| "thrownMessage (ThrownError m) = m"
| "thrownMessage (ThrownValue v) = v"

definition mapBroadcastError :: "thrown \<Rightarrow> SoulonWalletError" where
  "mapBroadcastError err =
     (case err of ThrownWallet e \<Rightarrow> e
      | _ \<Rightarrow>
        (let msg = thrownMessage err; log = normalizeMessage (Some msg) in
         if includesOneOf log NODE_KEYWORDS then
           wallet_error NODE_UNAVAILABLE (orText (Some msg) (js ''node unavailable''))
         else if includesOneOf log SEQUENCE_KEYWORDS then
           wallet_error INVALID_SEQUENCE (orText (Some msg) (js ''invalid account sequence''))
         else if includesOneOf log GAS_KEYWORDS then
           wallet_error OUT_OF_GAS (orText (Some msg) (js ''out of gas''))
         else if includesOneOf log FUNDS_KEYWORDS then
           wallet_error INSUFFICIENT_FUNDS (orText (Some msg) (js ''insufficient funds''))
         else if includesOneOf log INVALID_KEYWORDS then
           wallet_error INVALID_ARGUMENT (orText (Some msg) (js ''invalid request''))
         else wallet_error TX_REJECTED (orText (Some msg) (js ''transaction rejected''))))"

subsection \<open>Properties\<close>

lemma wallet_error_sel [simp]:
  "code (wallet_error c m) = c" "message (wallet_error c m) = m"
  by (simp_all add: wallet_error_def)

lemma mapTxError_None [simp]: "mapTxError c l = None \<longleftrightarrow> c = 0"
  by (simp add: mapTxError_def Let_def)

lemma gas_keyword_in_funds:
  "includesStr log (js ''gas'' @ [19981, 36275]) \<Longrightarrow> includesOneOf log FUNDS_KEYWORDS"
  "includesStr log [29123, 26009, 19981, 36275] \<Longrightarrow> includesOneOf log FUNDS_KEYWORDS"
  using includesStr_sub[of log "js ''gas'' @ [19981, 36275]" "[19981, 36275]"]
    includesStr_sub[of log "[29123, 26009, 19981, 36275]" "[19981, 36275]"]
  by (simp_all add: includesOneOf_def FUNDS_KEYWORDS_def)

text \<open>
  A log that reports a gas shortage with one of the Chinese gas keywords is classified as
  missing funds by \<open>mapTxError\<close>, whatever the numeric code, although the same text thrown
  as an error is an \<open>OUT_OF_GAS\<close> error for \<open>mapBroadcastError\<close>: the funds keyword is a
  suffix of both gas keywords and is tested first.
\<close>

theorem chinese_gas_shortage_reported_as_funds:
  assumes "c \<noteq> 0"
    and "includesStr (toLowerCase log) (js ''gas'' @ [19981, 36275]) \<or>
         includesStr (toLowerCase log) [29123, 26009, 19981, 36275]"
    and "\<not> includesOneOf (toLowerCase log) (NODE_KEYWORDS @ SEQUENCE_KEYWORDS)"
  shows "map_option code (mapTxError c (Some log)) = Some INSUFFICIENT_FUNDS \<and>
    code (mapBroadcastError (ThrownError log)) = OUT_OF_GAS"
proof -
  have "includesOneOf (toLowerCase log) FUNDS_KEYWORDS" "includesOneOf (toLowerCase log) GAS_KEYWORDS"
    using assms(2) gas_keyword_in_funds by (auto simp: includesOneOf_def GAS_KEYWORDS_def)
  with assms show ?thesis
    by (simp add: mapTxError_def mapBroadcastError_def normalizeMessage_def includesOneOf_def Let_def)
qed

theorem chinese_gas_shortage_witness:
  "map_option code (mapTxError 11 (Some (js ''Gas'' @ [19981, 36275]))) = Some INSUFFICIENT_FUNDS \<and>
    code (mapBroadcastError (ThrownError (js ''Gas'' @ [19981, 36275]))) = OUT_OF_GAS"
  by (rule chinese_gas_shortage_reported_as_funds)
     (simp_all add: lowerUnit_def includesOneOf_def NODE_KEYWORDS_def SEQUENCE_KEYWORDS_def)

end
