(* ===== verification/RetryLoop.thy ===== *)
theory RetryLoop
  imports Prelude
begin

text \<open>
  The contract of a bounded loop of attempts. The SDK's broadcast loop, the web client's
  request loop and the export loop all have this shape: a body that either finishes with a
  result or asks for another round, at most up to a limit, and that performs exactly one
  external call per round. The lemmas of the locale are proved once; each component
  interprets the locale on its own loop.
\<close>

datatype 'x round = Finish 'x | Again

locale bounded_rounds =
  fixes body :: "int \<Rightarrow> 's \<Rightarrow> 'x round \<times> 's"
    and run :: "int \<Rightarrow> 's \<Rightarrow> 'x \<times> 's"
    and limit :: int
    and calls :: "'s \<Rightarrow> nat"
  assumes run_unfold: "k \<le> limit \<Longrightarrow>
      run k s = (case body k s of (Finish x, s') \<Rightarrow> (x, s') | (Again, s') \<Rightarrow> run (k + 1) s')"
    and again_below: "body k s = (Again, s') \<Longrightarrow> k < limit"
    and one_call: "calls (snd (body k s)) = Suc (calls s)"
begin

lemma again_calls: "body k s = (Again, s') \<Longrightarrow> calls s' = Suc (calls s)"
  using one_call[of k s] by simp

lemma finish_calls: "body k s = (Finish x, s') \<Longrightarrow> calls s' = Suc (calls s)"
  using one_call[of k s] by simp

lemma run_finish: "k \<le> limit \<Longrightarrow> body k s = (Finish x, s') \<Longrightarrow> run k s = (x, s')"
  by (simp add: run_unfold)

lemma run_again: "body k s = (Again, s') \<Longrightarrow> run k s = run (k + 1) s'"
  using again_below[of k s s'] by (simp add: run_unfold)

text \<open>Every run ends in a round that finishes, reached by rounds that asked for more.\<close>

lemma run_ends_in_finish:
  assumes "k \<le> limit"
  shows "\<exists>n t x s'. run k s = (x, s') \<and> body (k + int n) t = (Finish x, s') \<and>
    k + int n \<le> limit \<and> calls t = calls s + n"
  using assms
proof (induction "nat (limit - k)" arbitrary: k s rule: less_induct)
  case less
  obtain r s1 where b: "body k s = (r, s1)" by (cases "body k s")
  show ?case
  proof (cases r)
    case (Finish x)
    with b less.prems have "run k s = (x, s1)" by (simp add: run_finish)
    with b Finish less.prems show ?thesis by (intro exI[of _ "0::nat"] exI[of _ s]) simp
  next
    case Again
    with b have lt: "k < limit" by (auto dest: again_below)
    then have "nat (limit - (k + 1)) < nat (limit - k)" by simp
    from less.hyps[OF this, of s1] lt obtain n t x s' where
      n: "run (k + 1) s1 = (x, s')" "body (k + 1 + int n) t = (Finish x, s')"
        "k + 1 + int n \<le> limit" "calls t = calls s1 + n" by auto
    moreover have "run k s = run (k + 1) s1" using b Again by (simp add: run_again)
    moreover have "calls s1 = Suc (calls s)" using b Again by (simp add: again_calls)
    moreover have "k + int (Suc n) = k + 1 + int n" by simp
    ultimately show ?thesis by (intro exI[of _ "Suc n"] exI[of _ t]) (auto simp: algebra_simps)
  qed
qed

lemma run_calls:
  assumes "k \<le> limit"
  shows "calls s < calls (snd (run k s)) \<and> calls (snd (run k s)) \<le> calls s + nat (limit - k + 1)"
proof -
  obtain n t x s' where n: "run k s = (x, s')" "body (k + int n) t = (Finish x, s')"
    "k + int n \<le> limit" "calls t = calls s + n"
    using run_ends_in_finish[OF assms, of s] by blast
  then have "calls s' = Suc (calls s + n)" by (simp add: finish_calls)
  with n show ?thesis by simp
qed

text \<open>Induction over a run: what every round keeps holds at the end.\<close>

lemma run_invariant:
  assumes start: "k \<le> limit" "P k s"
    and again: "\<And>k s s'. P k s \<Longrightarrow> body k s = (Again, s') \<Longrightarrow> P (k + 1) s'"
    and finish: "\<And>k s x s'. P k s \<Longrightarrow> k \<le> limit \<Longrightarrow> body k s = (Finish x, s') \<Longrightarrow> Q x s'"
  shows "Q (fst (run k s)) (snd (run k s))"
  using start
proof (induction "nat (limit - k)" arbitrary: k s rule: less_induct)
  case less
  obtain r s1 where b: "body k s = (r, s1)" by (cases "body k s")
  show ?case
  proof (cases r)
    case (Finish x)
    with b less.prems finish show ?thesis by (simp add: run_finish)
  next
    case Again
    with b have lt: "k < limit" by (auto dest: again_below)
    then have "nat (limit - (k + 1)) < nat (limit - k)" by simp
    moreover have "P (k + 1) s1" using b Again less.prems again by simp
    ultimately have "Q (fst (run (k + 1) s1)) (snd (run (k + 1) s1))" using less.hyps lt by simp
    with b Again show ?thesis by (simp add: run_again)
  qed
qed

end

end
