(* ===== verification/Broadcast.thy ===== *)
theory Broadcast
  imports WalletErrors RetryLoop
begin

text \<open>
  \<open>soulon-wallet/src/core/broadcast.ts\<close>: \<open>broadcastWithRetry\<close>. The operation to execute is
  a parameter that runs on an arbitrary chain state \<open>'w\<close> and either throws or returns a
  response. The loop state keeps the last error, the chain state and a trace of what the
  loop did (one entry per execution, one per sleep), so that the number of broadcasts and
  the delays between them are part of the model.
\<close>

record DeliverTxResponse =
  txCode :: int
  transactionHash :: jstring
  rawLog :: "jstring option"

record BroadcastRetryOptions =
  maxAttempts :: "int option"
  baseDelayMs :: "int option"
  retriableCodes :: "int list option"
  retriableErrorCodes :: "jstring list option"

definition no_retry_options :: BroadcastRetryOptions where
  "no_retry_options = \<lparr>maxAttempts = None, baseDelayMs = None, retriableCodes = None,
     retriableErrorCodes = None\<rparr>"

definition defaultRetriableCodes :: "int list" where
  "defaultRetriableCodes = [11, 32]"

definition defaultRetriableErrorCodes :: "jstring list" where
  "defaultRetriableErrorCodes = [NODE_UNAVAILABLE, INVALID_SEQUENCE]"

datatype broadcast_event = Executed | Slept int

record 'w broadcast_state =
  lastError :: "SoulonWalletError option"
  chain :: 'w
  trace :: "broadcast_event list"

text \<open>What a broadcast throws: \<open>Some e\<close> is a wallet error, \<open>None\<close> would be \<open>throw null\<close>.\<close>

type_synonym broadcast_result = "(SoulonWalletError option, DeliverTxResponse) result"
type_synonym 'w execution = "'w \<Rightarrow> (thrown, DeliverTxResponse) result \<times> 'w"

definition executions :: "'w broadcast_state \<Rightarrow> nat" where
  "executions s = length (filter (\<lambda>e. e = Executed) (trace s))"

definition sleeps :: "broadcast_event list \<Rightarrow> int list" where
  "sleeps t = concat (map (\<lambda>e. case e of Executed \<Rightarrow> [] | Slept ms \<Rightarrow> [ms]) t)"

text \<open>
  One pass through the body of the \<open>for\<close> loop. \<open>Finish\<close> is a \<open>return\<close> or a \<open>throw\<close>,
  \<open>Again\<close> the next iteration.
\<close>

definition broadcast_round ::
  "'w execution \<Rightarrow> BroadcastRetryOptions \<Rightarrow> int \<Rightarrow> 'w broadcast_state
     \<Rightarrow> broadcast_result round \<times> 'w broadcast_state" where
  "broadcast_round execute opts attempt s =
     (let limit = nullish (maxAttempts opts) 3;
          base = nullish (baseDelayMs opts) 1200;
          codes = nullish (retriableCodes opts) defaultRetriableCodes;
          errorCodes = nullish (retriableErrorCodes opts) defaultRetriableErrorCodes;
          (outcome, w) = execute (chain s);
          s1 = s\<lparr>chain := w, trace := trace s @ [Executed]\<rparr>
      in case outcome of
           Inl error \<Rightarrow>
             (let mapped = mapBroadcastError error;
                  s2 = s1\<lparr>lastError := Some mapped\<rparr>;
                  shouldRetry = (code mapped \<in> set errorCodes \<and> attempt < limit)
              in if \<not> shouldRetry then (Finish (Inl (Some mapped)), s2)
                 else (Again, s2\<lparr>trace := trace s2 @ [Slept (base * attempt)]\<rparr>))
         | Inr result \<Rightarrow>
             (if txCode result = 0 then (Finish (Inr result), s1)
              else
                (let mapped = mapTxError (txCode result) (rawLog result);
                     s2 = s1\<lparr>lastError := mapped\<rparr>;
                     shouldRetry = (txCode result \<in> set codes \<and> attempt < limit)
                 in if \<not> shouldRetry then (Finish (Inl mapped), s2)
                    else (Again, s2\<lparr>trace := trace s2 @ [Slept (base * attempt)]\<rparr>))))"

function broadcast_loop ::
  "'w execution \<Rightarrow> BroadcastRetryOptions \<Rightarrow> int \<Rightarrow> 'w broadcast_state
     \<Rightarrow> broadcast_result \<times> 'w broadcast_state" where
  "broadcast_loop execute opts attempt s =
     (if attempt \<le> nullish (maxAttempts opts) 3 then
        (case broadcast_round execute opts attempt s of
           (Finish x, s') \<Rightarrow> (x, s')
         | (Again, s') \<Rightarrow> broadcast_loop execute opts (attempt + 1) s')
      else
        (case lastError s of
           Some e \<Rightarrow> (Inl (Some e), s)
         | None \<Rightarrow> (Inl (Some (wallet_error TX_REJECTED (js ''transaction rejected''))), s)))"
  by pat_completeness auto
termination
  by (relation "measure (\<lambda>(execute, opts, attempt, s). nat (nullish (maxAttempts opts) 3 + 1 - attempt))")
     auto

declare broadcast_loop.simps [simp del]

definition broadcast_start :: "'w \<Rightarrow> 'w broadcast_state" where
  "broadcast_start w = \<lparr>lastError = None, chain = w, trace = []\<rparr>"

definition broadcastWithRetry ::
  "'w execution \<Rightarrow> BroadcastRetryOptions \<Rightarrow> 'w \<Rightarrow> broadcast_result \<times> 'w broadcast_state" where
  "broadcastWithRetry execute opts w = broadcast_loop execute opts 1 (broadcast_start w)"

subsection \<open>The loop as bounded rounds\<close>

interpretation bc: bounded_rounds "broadcast_round execute opts" "broadcast_loop execute opts"
  "nullish (maxAttempts opts) 3" executions
  for execute :: "'w execution" and opts
proof (unfold_locales, goal_cases)
  case (1 k s)
  then show ?case by (simp add: broadcast_loop.simps[of execute opts k s])
next
  case (2 k s s')
  then show ?case by (auto simp: broadcast_round_def Let_def split: prod.splits sum.splits if_splits)
next
  case (3 k s)
  then show ?case
    by (simp add: broadcast_round_def executions_def Let_def split: prod.splits sum.splits)
qed

text \<open>What a finished round returns.\<close>

lemma broadcast_round_Finish:
  assumes "broadcast_round execute opts k s = (Finish x, s')"
  shows "(\<exists>r w. execute (chain s) = (Inr r, w) \<and> txCode r = 0 \<and> x = Inr r) \<or>
         (\<exists>r w. execute (chain s) = (Inr r, w) \<and> txCode r \<noteq> 0 \<and>
            x = Inl (mapTxError (txCode r) (rawLog r))) \<or>
         (\<exists>t w. execute (chain s) = (Inl t, w) \<and> x = Inl (Some (mapBroadcastError t)))"
  using assms by (auto simp: broadcast_round_def Let_def split: prod.splits sum.splits if_splits)

lemma broadcast_round_Again:
  assumes "broadcast_round execute opts k s = (Again, s')"
  shows "k < nullish (maxAttempts opts) 3 \<and>
    trace s' = trace s @ [Executed, Slept (nullish (baseDelayMs opts) 1200 * k)]"
  using assms by (auto simp: broadcast_round_def Let_def split: prod.splits sum.splits if_splits)

lemma broadcast_round_Finish_trace:
  "broadcast_round execute opts k s = (Finish x, s') \<Longrightarrow> trace s' = trace s @ [Executed]"
  by (auto simp: broadcast_round_def Let_def split: prod.splits sum.splits if_splits)

text \<open>No attempt is left: only possible when fewer than one attempt was allowed.\<close>

lemma broadcast_loop_none_left:
  "\<not> k \<le> nullish (maxAttempts opts) 3 \<Longrightarrow> lastError s = None \<Longrightarrow>
     broadcast_loop execute opts k s = (Inl (Some (wallet_error TX_REJECTED (js ''transaction rejected''))), s)"
  by (simp add: broadcast_loop.simps[of execute opts k s])

text \<open>The delays of a run that starts at attempt \<open>k\<close> and executes \<open>n + 1\<close> times.\<close>

definition delay_schedule :: "int \<Rightarrow> nat \<Rightarrow> int list" where
  "delay_schedule base n = map (\<lambda>i. base * int (Suc i)) [0..<n]"

lemma delay_schedule_Suc: "delay_schedule base (Suc n) = delay_schedule base n @ [base * int (Suc n)]"
  by (simp add: delay_schedule_def)

lemma sleeps_append [simp]: "sleeps (t @ u) = sleeps t @ sleeps u"
  by (simp add: sleeps_def)

lemma sleeps_simps [simp]:
  "sleeps [] = []" "sleeps (Executed # t) = sleeps t" "sleeps (Slept ms # t) = ms # sleeps t"
  by (simp_all add: sleeps_def)

definition on_schedule :: "BroadcastRetryOptions \<Rightarrow> int \<Rightarrow> 'w broadcast_state \<Rightarrow> bool" where
  "on_schedule opts k s \<longleftrightarrow> 1 \<le> k \<and> executions s = nat (k - 1) \<and>
     sleeps (trace s) = delay_schedule (nullish (baseDelayMs opts) 1200) (nat (k - 1))"

lemma on_schedule_Again:
  assumes "on_schedule opts k s" "broadcast_round execute opts k s = (Again, s')"
  shows "on_schedule opts (k + 1) s'"
proof -
  from assms(1) obtain n where k: "k = int (Suc n)" "executions s = n"
    by (metis on_schedule_def add.commute int_nat_eq int_Suc diff_add_cancel diff_ge_0_iff_ge)
  have t: "trace s' = trace s @ [Executed, Slept (nullish (baseDelayMs opts) 1200 * k)]"
    using broadcast_round_Again[OF assms(2)] by simp
  show ?thesis
    using assms(1) k nat_int_add[of 1 n]
    by (simp add: on_schedule_def t executions_def delay_schedule_Suc)
qed

subsection \<open>Specification by the sequence of outcomes\<close>

text \<open>
  The abstract view of a run: \<open>outcome_at execute w n\<close> is what the \<open>n\<close>-th execution
  returns, \<open>retriable\<close> says whether the options ask for another attempt after it, and
  \<open>settle\<close> is what the caller gets when the loop stops there.
\<close>

fun chain_after :: "'w execution \<Rightarrow> 'w \<Rightarrow> nat \<Rightarrow> 'w" where
  "chain_after execute w 0 = w"
| "chain_after execute w (Suc n) = snd (execute (chain_after execute w n))"

definition outcome_at :: "'w execution \<Rightarrow> 'w \<Rightarrow> nat \<Rightarrow> (thrown, DeliverTxResponse) result" where
  "outcome_at execute w n = fst (execute (chain_after execute w n))"

definition retriable :: "BroadcastRetryOptions \<Rightarrow> (thrown, DeliverTxResponse) result \<Rightarrow> bool" where
  "retriable opts out =
     (case out of
        Inl t \<Rightarrow> code (mapBroadcastError t) \<in> set (nullish (retriableErrorCodes opts) defaultRetriableErrorCodes)
      | Inr r \<Rightarrow> txCode r \<noteq> 0 \<and> txCode r \<in> set (nullish (retriableCodes opts) defaultRetriableCodes))"

definition settle :: "(thrown, DeliverTxResponse) result \<Rightarrow> broadcast_result" where
  "settle out =
     (case out of
        Inl t \<Rightarrow> Inl (Some (mapBroadcastError t))
      | Inr r \<Rightarrow> if txCode r = 0 then Inr r else Inl (mapTxError (txCode r) (rawLog r)))"

lemma settle_not_null: "settle out \<noteq> Inl None"
  by (cases out) (simp_all add: settle_def)

lemma settle_Inr: "settle out = Inr r \<longleftrightarrow> out = Inr r \<and> txCode r = 0"
  by (auto simp: settle_def split: sum.splits if_splits)

lemma broadcast_round_spec:
  "broadcast_round execute opts k s =
     (let out = fst (execute (chain s)); w = snd (execute (chain s)); s1 = snd (broadcast_round execute opts k s)
      in (if retriable opts out \<and> k < nullish (maxAttempts opts) 3 then Again else Finish (settle out), s1))"
  "chain (snd (broadcast_round execute opts k s)) = snd (execute (chain s))"
  by (auto simp: broadcast_round_def retriable_def settle_def Let_def
      split: prod.splits sum.splits)

text \<open>State of the loop before attempt \<open>k\<close>: all earlier outcomes were retriable.\<close>

definition loop_at :: "'w execution \<Rightarrow> BroadcastRetryOptions \<Rightarrow> 'w \<Rightarrow> int \<Rightarrow> 'w broadcast_state \<Rightarrow> bool" where
  "loop_at execute opts w k s \<longleftrightarrow> on_schedule opts k s \<and> chain s = chain_after execute w (nat (k - 1)) \<and>
     (\<forall>j < nat (k - 1). retriable opts (outcome_at execute w j))"

lemma loop_at_Again:
  assumes "loop_at execute opts w k s" "broadcast_round execute opts k s = (Again, s')"
  shows "loop_at execute opts w (k + 1) s'"
proof -
  have k: "1 \<le> k" using assms(1) by (simp add: loop_at_def on_schedule_def)
  then have n: "nat k = Suc (nat (k - 1))" by simp
  have "retriable opts (fst (execute (chain s)))" "chain s' = snd (execute (chain s))"
    using broadcast_round_spec[of execute opts k s] assms(2) by (auto simp: Let_def split: if_splits)
  with assms(1) n show ?thesis
    using on_schedule_Again[OF _ assms(2)] by (auto simp: loop_at_def outcome_at_def less_Suc_eq)
qed

definition broadcast_settled ::
  "'w execution \<Rightarrow> BroadcastRetryOptions \<Rightarrow> 'w \<Rightarrow> broadcast_result \<Rightarrow> 'w broadcast_state \<Rightarrow> bool" where
  "broadcast_settled execute opts w x s \<longleftrightarrow>
     (\<exists>n. int n < nullish (maxAttempts opts) 3 \<and>
        (\<forall>j<n. retriable opts (outcome_at execute w j)) \<and>
        (int (Suc n) = nullish (maxAttempts opts) 3 \<or> \<not> retriable opts (outcome_at execute w n)) \<and>
        x = settle (outcome_at execute w n) \<and> executions s = Suc n \<and>
        sleeps (trace s) = delay_schedule (nullish (baseDelayMs opts) 1200) n \<and>
        chain s = chain_after execute w (Suc n))"

lemma loop_at_Finish:
  assumes "loop_at execute opts w k s" "k \<le> nullish (maxAttempts opts) 3"
    and "broadcast_round execute opts k s = (Finish x, s')"
  shows "broadcast_settled execute opts w x s'"
proof -
  let ?n = "nat (k - 1)"
  have k: "1 \<le> k" using assms(1) by (simp add: loop_at_def on_schedule_def)
  have out: "x = settle (fst (execute (chain s)))" "chain s' = snd (execute (chain s))"
    "\<not> (retriable opts (fst (execute (chain s))) \<and> k < nullish (maxAttempts opts) 3)"
    using broadcast_round_spec[of execute opts k s] assms(3) by (auto simp: Let_def split: if_splits)
  have tr: "trace s' = trace s @ [Executed]" by (rule broadcast_round_Finish_trace[OF assms(3)])
  show ?thesis
    unfolding broadcast_settled_def
    using assms(1,2) k out tr
    by (intro exI[of _ ?n]) (auto simp: loop_at_def on_schedule_def outcome_at_def executions_def)
qed

lemma loop_at_start: "loop_at execute opts w 1 (broadcast_start w)"
  by (simp add: loop_at_def on_schedule_def broadcast_start_def executions_def delay_schedule_def)

lemma broadcastWithRetry_settles:
  assumes "1 \<le> nullish (maxAttempts opts) 3"
  shows "broadcast_settled execute opts w (fst (broadcastWithRetry execute opts w))
    (snd (broadcastWithRetry execute opts w))"
  unfolding broadcastWithRetry_def
proof (rule bc.run_invariant[where P = "loop_at execute opts w", OF assms loop_at_start])
  show "loop_at execute opts w (k + 1) s'"
    if "loop_at execute opts w k s" "broadcast_round execute opts k s = (Again, s')" for k s s'
    using that by (rule loop_at_Again)
  show "broadcast_settled execute opts w x s'"
    if "loop_at execute opts w k s" "k \<le> nullish (maxAttempts opts) 3"
      "broadcast_round execute opts k s = (Finish x, s')" for k s x s'
    using that by (rule loop_at_Finish)
qed

subsection \<open>Properties\<close>

text \<open>
  C2: with at least one attempt allowed, \<open>broadcastWithRetry\<close> refines the sequence of outcomes:
  it stops at the first outcome that is not retriable, or at the last attempt, returns or
  throws what that outcome stands for, has executed exactly that many times, and has slept
  \<open>baseDelayMs * 1, baseDelayMs * 2, ...\<close> between the executions.
\<close>

theorem broadcastWithRetry_refines_outcomes:
  assumes "1 \<le> nullish (maxAttempts opts) 3"
  shows "\<exists>n. int n < nullish (maxAttempts opts) 3 \<and>
     (\<forall>j<n. retriable opts (outcome_at execute w j)) \<and>
     (int (Suc n) = nullish (maxAttempts opts) 3 \<or> \<not> retriable opts (outcome_at execute w n)) \<and>
     fst (broadcastWithRetry execute opts w) = settle (outcome_at execute w n) \<and>
     executions (snd (broadcastWithRetry execute opts w)) = Suc n \<and>
     sleeps (trace (snd (broadcastWithRetry execute opts w)))
       = delay_schedule (nullish (baseDelayMs opts) 1200) n \<and>
     chain (snd (broadcastWithRetry execute opts w)) = chain_after execute w (Suc n)"
  using broadcastWithRetry_settles[OF assms] unfolding broadcast_settled_def .

definition demo_tx :: DeliverTxResponse where
  "demo_tx = \<lparr>txCode = 0, transactionHash = js ''AB'', rawLog = None\<rparr>"

definition demo_execute :: "nat execution" where
  "demo_execute n = (if n = 0 then Inl (ThrownError (js ''fetch failed'')) else Inr demo_tx, Suc n)"

lemma demo_outcomes:
  "outcome_at demo_execute 0 0 = Inl (ThrownError (js ''fetch failed''))"
  "outcome_at demo_execute 0 (Suc 0) = Inr demo_tx"
  "retriable no_retry_options (Inl (ThrownError (js ''fetch failed'')))"
  by (simp_all add: outcome_at_def demo_execute_def retriable_def mapBroadcastError_def
      includesOneOf_def NODE_KEYWORDS_def normalizeMessage_def lowerUnit_def no_retry_options_def
      defaultRetriableErrorCodes_def)

theorem broadcastWithRetry_refines_outcomes_witness:
  "\<exists>n. int n < 3 \<and> (\<forall>j<n. retriable no_retry_options (outcome_at demo_execute 0 j)) \<and>
     fst (broadcastWithRetry demo_execute no_retry_options 0) = settle (outcome_at demo_execute 0 n) \<and>
     executions (snd (broadcastWithRetry demo_execute no_retry_options 0)) = Suc n"
proof -
  have "1 \<le> nullish (maxAttempts no_retry_options) 3" by (simp add: no_retry_options_def)
  from broadcastWithRetry_refines_outcomes[OF this, of demo_execute 0] show ?thesis
    by (auto simp: no_retry_options_def)
qed

text \<open>
  A broadcast never throws null, and it returns a response only when the response's code
  is 0, for every operation and all options.
\<close>

theorem broadcastWithRetry_result_ok:
  "case fst (broadcastWithRetry execute opts w) of Inl e \<Rightarrow> e \<noteq> None | Inr r \<Rightarrow> txCode r = 0"
proof (cases "1 \<le> nullish (maxAttempts opts) 3")
  case True
  then obtain n where "fst (broadcastWithRetry execute opts w) = settle (outcome_at execute w n)"
    using broadcastWithRetry_settles[of opts execute w] unfolding broadcast_settled_def by blast
  then show ?thesis
    using settle_not_null[of "outcome_at execute w n"]
    by (cases "settle (outcome_at execute w n)") (auto simp: settle_Inr)
next
  case False
  then show ?thesis
    by (simp add: broadcastWithRetry_def broadcast_loop_none_left broadcast_start_def)
qed

text \<open>
  With no attempt allowed, nothing is executed, nothing is awaited, and the generic
  \<open>TX_REJECTED\<close> error is thrown.
\<close>

theorem broadcastWithRetry_no_attempt:
  assumes "nullish (maxAttempts opts) 3 < 1"
  shows "broadcastWithRetry execute opts w =
    (Inl (Some (wallet_error TX_REJECTED (js ''transaction rejected''))), broadcast_start w)"
  using assms by (simp add: broadcastWithRetry_def broadcast_loop_none_left broadcast_start_def)

theorem broadcastWithRetry_no_attempt_witness:
  "broadcastWithRetry demo_execute (no_retry_options\<lparr>maxAttempts := Some 0\<rparr>) 0 =
    (Inl (Some (wallet_error TX_REJECTED (js ''transaction rejected''))), broadcast_start 0)"
  by (rule broadcastWithRetry_no_attempt) simp

end
