(* ===== verification/Nonce.thy ===== *)
theory Nonce
  imports WalletErrors
begin

text \<open>
  \<open>soulon-wallet/src/core/nonce.ts\<close>: the nonce manager. Its state is the closure variable
  \<open>nextNonce\<close>. Two models: \<open>nonce_sync\<close>, \<open>nonce_reserve\<close> and \<open>nonce_reset\<close> run an
  operation to its end (a caller that awaits each call), and \<open>nonce_step\<close> interleaves the
  asynchronous pieces of overlapping calls at their await points, which is what the event
  loop may do. What \<open>client.getSequence\<close> answers is a parameter of the sequential model and
  part of the action in the interleaved one.
\<close>

subsection \<open>Calls one after the other\<close>

type_synonym nonce_state = "int option"

definition createNonceManager :: nonce_state where
  "createNonceManager = None"

definition nonce_sync :: "(thrown, int) result \<Rightarrow> nonce_state \<Rightarrow> (thrown, int) result \<times> nonce_state" where
  "nonce_sync getSequence s =
     (case getSequence of Inl e \<Rightarrow> (Inl e, s) | Inr sequence \<Rightarrow> (Inr sequence, Some sequence))"

definition nonce_reserve :: "(thrown, int) result \<Rightarrow> nonce_state \<Rightarrow> (thrown, int) result \<times> nonce_state" where
  "nonce_reserve getSequence s =
     (let (r, s1) = (if s = None then nonce_sync getSequence s else (Inr 0, s))
      in case r of
           Inl e \<Rightarrow> (Inl e, s1)
         | Inr _ \<Rightarrow> (let reserved = nullish s1 0 in (Inr reserved, Some (reserved + 1))))"

definition nonce_reset :: "nonce_state \<Rightarrow> nonce_state" where
  "nonce_reset s = None"

text \<open>A series of awaited reservations, each with the answer the chain would give it.\<close>

fun nonce_reserve_all ::
  "(thrown, int) result list \<Rightarrow> nonce_state \<Rightarrow> (thrown, int) result list \<times> nonce_state" where
  "nonce_reserve_all [] s = ([], s)"
| "nonce_reserve_all (c # cs) s =
     (let (n, s1) = nonce_reserve c s; (ns, s2) = nonce_reserve_all cs s1 in (n # ns, s2))"

lemma nonce_reserve_Some [simp]: "nonce_reserve c (Some n) = (Inr n, Some (n + 1))"
  by (simp add: nonce_reserve_def)

lemma nonce_reserve_None [simp]: "nonce_reserve (Inr c) None = (Inr c, Some (c + 1))"
  by (simp add: nonce_reserve_def nonce_sync_def)

lemma nonce_reserve_fail [simp]: "nonce_reserve (Inl e) None = (Inl e, None)"
  by (simp add: nonce_reserve_def nonce_sync_def)

lemma consecutive_Cons:
  "map (\<lambda>i. Inr (n + int i) :: (thrown, int) result) [0..<Suc m] =
     Inr n # map (\<lambda>i. Inr (n + 1 + int i)) [0..<m]"
  by (rule nth_equalityI) (auto simp: nth_Cons' simp del: upt_Suc)

lemma nonce_reserve_all_from:
  "nonce_reserve_all cs (Some n) =
     (map (\<lambda>i. Inr (n + int i)) [0..<length cs], Some (n + int (length cs)))"
proof (induction cs arbitrary: n)
  case (Cons c cs)
  then show ?case by (simp add: Let_def consecutive_Cons del: upt_Suc)
qed simp

subsection \<open>Overlapping calls\<close>

text \<open>
  A call of \<open>reserve\<close> that finds no nonce runs the asynchronous \<open>sync\<close>. Its pieces between
  await points are: the request of the sequence (\<open>Waiting\<close>), the continuation of \<open>sync\<close>
  that stores the answer (\<open>Stored\<close>), and the continuation of \<open>reserve\<close> that hands out a
  nonce (\<open>Done\<close>). A call that finds a nonce hands it out at once. A failing request
  rejects the call (\<open>Failed\<close>). Calls are numbered; every action names its call.
\<close>

datatype call_pc = Waiting | Stored | SyncWaiting | SyncDone | Failed | Done int

record manager =
  nextNonce :: "int option"
  calls :: "nat \<Rightarrow> call_pc option"

datatype nonce_action = ReserveCall nat | SequenceAnswer nat int | SequenceError nat
  | ReserveResume nat | SyncCall nat | ResetCall

definition nonce_init :: manager where
  "nonce_init = \<lparr>nextNonce = None, calls = (\<lambda>_. None)\<rparr>"

inductive nonce_step :: "manager \<Rightarrow> nonce_action \<Rightarrow> manager \<Rightarrow> bool" where
  reserve_now: "calls m i = None \<Longrightarrow> nextNonce m = Some n \<Longrightarrow>
     nonce_step m (ReserveCall i) (m\<lparr>nextNonce := Some (n + 1), calls := (calls m)(i \<mapsto> Done n)\<rparr>)"
| reserve_wait: "calls m i = None \<Longrightarrow> nextNonce m = None \<Longrightarrow>
     nonce_step m (ReserveCall i) (m\<lparr>calls := (calls m)(i \<mapsto> Waiting)\<rparr>)"
| reserve_answer: "calls m i = Some Waiting \<Longrightarrow>
     nonce_step m (SequenceAnswer i q) (m\<lparr>nextNonce := Some q, calls := (calls m)(i \<mapsto> Stored)\<rparr>)"
| reserve_resume: "calls m i = Some Stored \<Longrightarrow> n = nullish (nextNonce m) 0 \<Longrightarrow>
     nonce_step m (ReserveResume i) (m\<lparr>nextNonce := Some (n + 1), calls := (calls m)(i \<mapsto> Done n)\<rparr>)"
| sync_call: "calls m i = None \<Longrightarrow>
     nonce_step m (SyncCall i) (m\<lparr>calls := (calls m)(i \<mapsto> SyncWaiting)\<rparr>)"
| sync_answer: "calls m i = Some SyncWaiting \<Longrightarrow>
     nonce_step m (SequenceAnswer i q) (m\<lparr>nextNonce := Some q, calls := (calls m)(i \<mapsto> SyncDone)\<rparr>)"
| answer_error: "calls m i = Some Waiting \<or> calls m i = Some SyncWaiting \<Longrightarrow>
     nonce_step m (SequenceError i) (m\<lparr>calls := (calls m)(i \<mapsto> Failed)\<rparr>)"
| reset: "nonce_step m ResetCall (m\<lparr>nextNonce := None\<rparr>)"

inductive_cases nonce_step_cases: "nonce_step m a m'"
inductive_simps nonce_step_ReserveCall: "nonce_step m (ReserveCall i) m'"
inductive_simps nonce_step_SequenceAnswer: "nonce_step m (SequenceAnswer i q) m'"
inductive_simps nonce_step_ReserveResume: "nonce_step m (ReserveResume i) m'"
inductive_simps nonce_step_ResetCall: "nonce_step m ResetCall m'"

lemmas nonce_step_simps = nonce_step_ReserveCall nonce_step_SequenceAnswer
  nonce_step_ReserveResume nonce_step_ResetCall

inductive nonce_run :: "manager \<Rightarrow> nonce_action list \<Rightarrow> manager \<Rightarrow> bool" where
  run_Nil: "nonce_run m [] m"
| run_Cons: "nonce_step m a m1 \<Longrightarrow> nonce_run m1 as m2 \<Longrightarrow> nonce_run m (a # as) m2"

inductive_simps nonce_run_Nil [simp]: "nonce_run m [] m'"
inductive_simps nonce_run_Cons: "nonce_run m (a # as) m'"

text \<open>
  An orderly run: whenever the chain answers, the sequence it reports is above every nonce
  handed out so far, and the manager is not reset between an answer and the resumption of
  the reservation that waited for it.
\<close>

definition orderly :: "manager \<Rightarrow> nonce_action \<Rightarrow> bool" where
  "orderly m a \<longleftrightarrow>
     (case a of
        SequenceAnswer i q \<Rightarrow> \<forall>j k. calls m j = Some (Done k) \<longrightarrow> k < q
      | ResetCall \<Rightarrow> \<forall>i. calls m i \<noteq> Some Stored
      | _ \<Rightarrow> True)"

inductive orderly_run :: "manager \<Rightarrow> nonce_action list \<Rightarrow> manager \<Rightarrow> bool" where
  orderly_Nil: "orderly_run m [] m"
| orderly_Cons: "orderly m a \<Longrightarrow> nonce_step m a m1 \<Longrightarrow> orderly_run m1 as m2 \<Longrightarrow> orderly_run m (a # as) m2"

inductive_simps orderly_run_Nil [simp]: "orderly_run m [] m'"
inductive_simps orderly_run_Cons: "orderly_run m (a # as) m'"

definition nonces_ok :: "manager \<Rightarrow> bool" where
  "nonces_ok m \<longleftrightarrow>
     (\<forall>n i k. nextNonce m = Some n \<longrightarrow> calls m i = Some (Done k) \<longrightarrow> k < n) \<and>
     (\<forall>i. calls m i = Some Stored \<longrightarrow> nextNonce m \<noteq> None) \<and>
     (\<forall>i j k. calls m i = Some (Done k) \<longrightarrow> calls m j = Some (Done k) \<longrightarrow> i = j)"

lemma nonces_ok_step:
  assumes "nonce_step m a m'" "orderly m a" "nonces_ok m"
  shows "nonces_ok m'"
  using assms
proof (induction rule: nonce_step.induct)
  case (reserve_now m i n)
  then show ?case by (fastforce simp: nonces_ok_def)
next
  case (reserve_resume m i n)
  then obtain q where q: "nextNonce m = Some q" by (auto simp: nonces_ok_def)
  with reserve_resume show ?case by (fastforce simp: nonces_ok_def)
qed (auto simp: nonces_ok_def orderly_def)

lemma nonces_ok_run: "orderly_run m as m' \<Longrightarrow> nonces_ok m \<Longrightarrow> nonces_ok m'"
  by (induction rule: orderly_run.induct) (auto intro: nonces_ok_step)

lemma nonces_ok_init: "nonces_ok nonce_init"
  by (simp add: nonces_ok_def nonce_init_def)

subsection \<open>Properties\<close>

text \<open>
  A caller that awaits every call gets consecutive nonces: after the first answer \<open>q\<close> of
  the chain, \<open>k\<close> further reservations return \<open>q, q + 1, ..., q + k\<close> whatever the chain
  would answer later, and the next nonce is \<open>q + k + 1\<close>.
\<close>

theorem nonce_reserve_all_consecutive:
  "nonce_reserve_all (Inr q # cs) createNonceManager =
     (map (\<lambda>i. Inr (q + int i)) [0..<Suc (length cs)], Some (q + 1 + int (length cs)))"
  by (simp add: createNonceManager_def Let_def nonce_reserve_all_from consecutive_Cons del: upt_Suc)

text \<open>
  C25: from the creation of the manager on, calls of \<open>reserve\<close>, \<open>sync\<close> and \<open>reset\<close> that
  overlap in any way never hand out a nonce twice, and the stored nonce stays above all
  those handed out, provided that whenever the chain answers it reports a sequence above
  every nonce handed out before, and that no reset comes between an answer and the
  resumption of the reservation that waited for it. The two findings below show that
  neither condition can be dropped.
\<close>

theorem orderly_reservations_distinct:
  assumes "orderly_run nonce_init as m" "calls m i = Some (Done k)"
  shows "(\<forall>j. calls m j = Some (Done k) \<longleftrightarrow> j = i) \<and> (\<forall>n. nextNonce m = Some n \<longrightarrow> k < n)"
  using nonces_ok_run[OF assms(1) nonces_ok_init] assms(2) unfolding nonces_ok_def by metis

lemma overlapping_calls_run:
  "\<exists>m. orderly_run nonce_init
         [ReserveCall 0, ReserveCall 1, SequenceAnswer 0 7, SequenceAnswer 1 7, ReserveResume 1, ReserveResume 0] m \<and>
       calls m 0 = Some (Done 8) \<and> calls m 1 = Some (Done 7) \<and> nextNonce m = Some 9"
  by (auto simp: orderly_run_Cons nonce_step_simps nonce_init_def orderly_def)

theorem orderly_reservations_distinct_witness:
  "\<exists>m::manager. calls m 0 = Some (Done 8) \<and> (\<forall>j. calls m j = Some (Done 7) \<longleftrightarrow> j = 1) \<and> nextNonce m = Some 9"
proof -
  obtain m where m: "calls m 0 = Some (Done 8)" "calls m 1 = Some (Done 7)" "nextNonce m = Some 9"
    and run: "orderly_run nonce_init
         [ReserveCall 0, ReserveCall 1, SequenceAnswer 0 7, SequenceAnswer 1 7, ReserveResume 1, ReserveResume 0] m"
    using overlapping_calls_run by auto
  from m(1,3) orderly_reservations_distinct[OF run m(2)] show ?thesis by (intro exI[of _ m]) simp
qed

text \<open>
  Two overlapping reservations on a fresh manager can both receive the same nonce: the
  second answer of the chain overwrites the nonce that the first call has advanced.
\<close>

theorem overlapping_reservations_duplicate:
  "\<exists>m. nonce_run nonce_init
        [ReserveCall 0, ReserveCall 1, SequenceAnswer 0 q, ReserveResume 0,
         SequenceAnswer 1 q, ReserveResume 1] m \<and>
      calls m 0 = Some (Done q) \<and> calls m 1 = Some (Done q)"
  by (auto simp: nonce_run_Cons nonce_step_simps nonce_init_def)

text \<open>
  A reset between the answer of the chain and the resumption of the waiting reservation
  makes it hand out nonce 0, whatever sequence the chain reported.
\<close>

theorem reset_during_reservation_yields_zero:
  "\<exists>m. nonce_run nonce_init [ReserveCall 0, SequenceAnswer 0 q, ResetCall, ReserveResume 0] m \<and>
      calls m 0 = Some (Done 0) \<and> nextNonce m = Some 1"
  by (auto simp: nonce_run_Cons nonce_step_simps nonce_init_def)

end
