(* ===== verification/TxPoll.thy ===== *)
theory TxPoll
  imports WalletErrors
begin

text \<open>
  \<open>soulon-wallet/src/core/tx.ts\<close>: \<open>waitForTx\<close> polls the chain until the transaction is found
  or the deadline has passed. The host the code runs on has a clock in milliseconds
  (\<open>Date.now()\<close>), timers that fire late by an arbitrary amount, and an arbitrary chain
  state. The loop has no bound of its own: it is a partial function, \<open>None\<close> meaning that it
  never returns, and its termination is a theorem.
\<close>

record 'c host =
  clock :: int
  lag :: "int \<Rightarrow> nat"
  chainState :: 'c

text \<open>\<open>await new Promise((resolve) => setTimeout(resolve, ms))\<close>\<close>

definition sleep :: "int \<Rightarrow> 'c host \<Rightarrow> 'c host" where
  "sleep ms h = h\<lparr>clock := clock h + max 0 ms + int (lag h (clock h))\<rparr>"

datatype TxPollStatus = Pending | Confirmed | Timeout

record TxPollResult =
  pollHash :: jstring
  pollStatus :: TxPollStatus
  pollHeight :: "int option"

record WaitForTxInput =
  waitHash :: jstring
  timeoutMs :: "int option"
  pollIntervalMs :: "int option"

text \<open>\<open>client.getTx\<close>: it throws, finds nothing, or finds the transaction at a height.\<close>

type_synonym 'c getTx = "jstring \<Rightarrow> 'c host \<Rightarrow> (thrown, int option) result \<times> 'c host"

partial_function (option) wait_loop ::
  "'c getTx \<Rightarrow> jstring \<Rightarrow> int \<Rightarrow> int \<Rightarrow> int \<Rightarrow> 'c host
     \<Rightarrow> ((thrown, TxPollResult) result \<times> 'c host) option" where
  "wait_loop getTx hash started timeout poll h =
     (if clock h - started < timeout then
        (case getTx hash h of (outcome, h1) \<Rightarrow>
           (case outcome of
              Inl e \<Rightarrow> Some (Inl e, h1)
            | Inr tx \<Rightarrow>
                (case tx of
                   Some height \<Rightarrow>
                     Some (Inr \<lparr>pollHash = hash, pollStatus = Confirmed, pollHeight = Some height\<rparr>, h1)
                 | None \<Rightarrow> wait_loop getTx hash started timeout poll (sleep poll h1))))
      else Some (Inr \<lparr>pollHash = hash, pollStatus = Timeout, pollHeight = None\<rparr>, h))"

definition waitForTx ::
  "'c getTx \<Rightarrow> WaitForTxInput \<Rightarrow> 'c host \<Rightarrow> ((thrown, TxPollResult) result \<times> 'c host) option" where
  "waitForTx getTx input h =
     (let timeout = nullish (timeoutMs input) 60000;
          poll = nullish (pollIntervalMs input) 2000;
          started = clock h
      in wait_loop getTx (waitHash input) started timeout poll h)"

text \<open>What the code relies on: a query does not move the clock backwards.\<close>

definition clock_monotone :: "'c getTx \<Rightarrow> bool" where
  "clock_monotone getTx \<longleftrightarrow> (\<forall>hash h. clock h \<le> clock (snd (getTx hash h)))"

lemma sleep_advances: "clock h + ms \<le> clock (sleep ms h)"
  by (simp add: sleep_def)

lemma wait_loop_timeout:
  "timeout \<le> clock h - started \<Longrightarrow> wait_loop getTx hash started timeout poll h =
     Some (Inr \<lparr>pollHash = hash, pollStatus = Timeout, pollHeight = None\<rparr>, h)"
  by (simp add: wait_loop.simps)

lemma wait_loop_returns:
  assumes "clock_monotone getTx" "0 < poll"
  shows "\<exists>r. wait_loop getTx hash started timeout poll h = Some r"
proof (induction "nat (started + timeout - clock h)" arbitrary: h rule: less_induct)
  case less
  show ?case
  proof (cases "clock h - started < timeout")
    case True
    obtain out h1 where g: "getTx hash h = (out, h1)" by (cases "getTx hash h")
    have "clock h \<le> clock h1" using assms(1) g by (metis clock_monotone_def snd_conv)
    with sleep_advances[of h1 poll] assms(2) True
    have "nat (started + timeout - clock (sleep poll h1)) < nat (started + timeout - clock h)" by simp
    from less.hyps[OF this] g True show ?thesis
      by (auto simp: wait_loop.simps[of getTx hash started timeout poll h] split: sum.splits option.splits)
  next
    case False
    then show ?thesis by (simp add: wait_loop_timeout)
  qed
qed

text \<open>What a returned result means, with the host state it was obtained in.\<close>

definition poll_sound ::
  "'c getTx \<Rightarrow> jstring \<Rightarrow> int \<Rightarrow> (thrown, TxPollResult) result \<Rightarrow> 'c host \<Rightarrow> bool" where
  "poll_sound getTx hash deadline r h' =
     (case r of
        Inl e \<Rightarrow> \<exists>h. clock h < deadline \<and> getTx hash h = (Inl e, h')
      | Inr p \<Rightarrow> pollHash p = hash \<and>
          (case pollHeight p of
             Some height \<Rightarrow> pollStatus p = Confirmed \<and>
               (\<exists>h. clock h < deadline \<and> getTx hash h = (Inr (Some height), h'))
           | None \<Rightarrow> pollStatus p = Timeout \<and> deadline \<le> clock h'))"

lemma wait_loop_sound:
  assumes "wait_loop getTx hash started timeout poll h = Some (r, h')"
  shows "poll_sound getTx hash (started + timeout) r h'"
proof -
  have "\<forall>r h'. res = (r, h') \<longrightarrow> poll_sound getTx hash (started + timeout) r h'"
    if "wait_loop getTx hash started timeout poll h = Some res" for res
  proof (rule wait_loop.raw_induct[where
        P = "\<lambda>g ha st ti po h res. \<forall>r h'. res = (r, h') \<longrightarrow> poll_sound g ha (st + ti) r h'", OF _ that])
    fix f :: "'a getTx \<Rightarrow> jstring \<Rightarrow> int \<Rightarrow> int \<Rightarrow> int \<Rightarrow> 'a host
        \<Rightarrow> ((thrown, TxPollResult) result \<times> 'a host) option"
      and g :: "'a getTx" and ha st ti po h res
    assume IH: "\<And>g ha st ti po h res. f g ha st ti po h = Some res \<Longrightarrow>
        \<forall>r h'. res = (r, h') \<longrightarrow> poll_sound g ha (st + ti) r h'"
      and eq: "(if clock h - st < ti then
        (case g ha h of (outcome, h1) \<Rightarrow>
           (case outcome of
              Inl e \<Rightarrow> Some (Inl e, h1)
            | Inr tx \<Rightarrow>
                (case tx of
                   Some height \<Rightarrow>
                     Some (Inr \<lparr>pollHash = ha, pollStatus = Confirmed, pollHeight = Some height\<rparr>, h1)
                 | None \<Rightarrow> f g ha st ti po (sleep po h1))))
      else Some (Inr \<lparr>pollHash = ha, pollStatus = Timeout, pollHeight = None\<rparr>, h)) = Some res"
    obtain out h1 where g: "g ha h = (out, h1)" by (cases "g ha h")
    consider "f g ha st ti po (sleep po h1) = Some res" | "clock h - st < ti" "out \<noteq> Inr None"
      | "\<not> clock h - st < ti"
      using eq g by (cases "out = Inr None") (auto split: if_splits)
    then show "\<forall>r h'. res = (r, h') \<longrightarrow> poll_sound g ha (st + ti) r h'"
    proof cases
      case 1
      then show ?thesis by (rule IH)
    next
      case 2
      with eq g show ?thesis
        by (auto simp: poll_sound_def split: sum.splits option.splits intro!: exI[of _ h])
    next
      case 3
      with eq show ?thesis by (auto simp: poll_sound_def)
    qed
  qed
  with assms show ?thesis by blast
qed

subsection \<open>Properties\<close>

text \<open>
  C23: \<open>waitForTx\<close> always returns when the poll interval is positive and queries do not move
  the clock back, whatever the chain answers and however late timers fire.
\<close>

theorem waitForTx_returns:
  assumes "clock_monotone getTx" "0 < nullish (pollIntervalMs input) 2000"
  shows "\<exists>r h'. waitForTx getTx input h = Some (r, h')"
  using wait_loop_returns[OF assms] by (simp add: waitForTx_def Let_def)

definition demo_getTx :: "nat getTx" where
  "demo_getTx hash h = (Inr (if chainState h = 0 then Some 42 else None),
     h\<lparr>clock := clock h + 5, chainState := chainState h - 1\<rparr>)"

definition demo_wait :: WaitForTxInput where
  "demo_wait = \<lparr>waitHash = js ''AB'', timeoutMs = None, pollIntervalMs = None\<rparr>"

lemma demo_getTx_monotone: "clock_monotone demo_getTx"
  by (simp add: clock_monotone_def demo_getTx_def)

theorem waitForTx_returns_witness:
  "\<exists>r h'. waitForTx demo_getTx demo_wait \<lparr>clock = 0, lag = (\<lambda>_. 3), chainState = 2\<rparr> = Some (r, h')"
  by (rule waitForTx_returns[OF demo_getTx_monotone]) (simp add: demo_wait_def)

text \<open>
  C24: what \<open>waitForTx\<close> returns is true: \<open>confirmed\<close> carries the height of a successful query
  that was started before the deadline, \<open>timeout\<close> is returned only once the deadline has
  passed, \<open>pending\<close> never, and an exception is one that a query threw.
\<close>

theorem waitForTx_result_sound:
  assumes "waitForTx getTx input h = Some (r, h')"
  shows "poll_sound getTx (waitHash input) (clock h + nullish (timeoutMs input) 60000) r h'"
  using assms unfolding waitForTx_def Let_def by (rule wait_loop_sound)

lemma demo_wait_result:
  "waitForTx demo_getTx demo_wait \<lparr>clock = 0, lag = (\<lambda>_. 0), chainState = 1\<rparr> =
     Some (Inr \<lparr>pollHash = js ''AB'', pollStatus = Confirmed, pollHeight = Some 42\<rparr>,
       \<lparr>clock = 2010, lag = (\<lambda>_. 0), chainState = 0\<rparr>)"
  by (simp add: waitForTx_def demo_wait_def demo_getTx_def sleep_def wait_loop.simps)

theorem waitForTx_result_sound_witness:
  "poll_sound demo_getTx (js ''AB'') 60000
     (Inr \<lparr>pollHash = js ''AB'', pollStatus = Confirmed, pollHeight = Some 42\<rparr>)
     \<lparr>clock = 2010, lag = (\<lambda>_. 0), chainState = 0\<rparr>"
  using waitForTx_result_sound[OF demo_wait_result] by (simp add: demo_wait_def)

end
