(* ===== verification/JsRegex.thy ===== *)
theory JsRegex
  imports JsString
begin

text \<open>
  The regular expressions of the source, all of the form \<open>/^...$/\<close> (no flags) tested
  against a whole string. An expression is a value of \<open>rx\<close>; a character class is a list of
  inclusive ranges, as it is written between brackets. \<open>rx_test\<close> is an executable matcher
  by derivatives, and \<open>rx_test_iff\<close> says that it decides the language of the expression.
  The last section covers the patterns the source builds at run time from an escaped
  literal (\<open>escapeForRegex\<close>).
\<close>

type_synonym char_class = "(jchar \<times> jchar) list"

definition in_class :: "char_class \<Rightarrow> jchar \<Rightarrow> bool" where
  "in_class cl c = list_ex (\<lambda>(lo, hi). lo \<le> c \<and> c \<le> hi) cl"

lemma in_class_single [simp]: "in_class [(c, c)] x \<longleftrightarrow> x = c"
  by (auto simp: in_class_def)

datatype rx = Never | Epsilon | Class char_class | Alt rx rx | Cat rx rx | Star rx

subsection \<open>Languages\<close>

inductive_set star_lang :: "jstring set \<Rightarrow> jstring set" for A where
  star_Nil: "[] \<in> star_lang A"
| star_app: "u \<in> A \<Longrightarrow> v \<in> star_lang A \<Longrightarrow> u @ v \<in> star_lang A"

fun rx_lang :: "rx \<Rightarrow> jstring set" where
  "rx_lang Never = {}"
| "rx_lang Epsilon = {[]}"
| "rx_lang (Class cl) = {[c] |c. in_class cl c}"
| "rx_lang (Alt r s) = rx_lang r \<union> rx_lang s"
| "rx_lang (Cat r s) = {u @ v |u v. u \<in> rx_lang r \<and> v \<in> rx_lang s}"
| "rx_lang (Star r) = star_lang (rx_lang r)"

subsection \<open>The matcher\<close>

fun nullable :: "rx \<Rightarrow> bool" where
  "nullable Never = False"
| "nullable Epsilon = True"
| "nullable (Class cl) = False"
| "nullable (Alt r s) = (nullable r \<or> nullable s)"
| "nullable (Cat r s) = (nullable r \<and> nullable s)"
| "nullable (Star r) = True"

fun deriv :: "jchar \<Rightarrow> rx \<Rightarrow> rx" where
  "deriv c Never = Never"
| "deriv c Epsilon = Never"
| "deriv c (Class cl) = (if in_class cl c then Epsilon else Never)"
| "deriv c (Alt r s) = Alt (deriv c r) (deriv c s)"
| "deriv c (Cat r s) =
     (if nullable r then Alt (Cat (deriv c r) s) (deriv c s) else Cat (deriv c r) s)"
| "deriv c (Star r) = Cat (deriv c r) (Star r)"

fun rx_test :: "rx \<Rightarrow> jstring \<Rightarrow> bool" where
  "rx_test r [] = nullable r"
| "rx_test r (c # s) = rx_test (deriv c r) s"

lemma nullable_iff: "nullable r \<longleftrightarrow> [] \<in> rx_lang r"
  by (induction r) (auto intro: star_lang.intros)

lemma star_lang_Cons:
  "c # w \<in> star_lang A \<longleftrightarrow> (\<exists>u v. w = u @ v \<and> c # u \<in> A \<and> v \<in> star_lang A)"
proof
  show "\<exists>u v. w = u @ v \<and> c # u \<in> A \<and> v \<in> star_lang A" if "c # w \<in> star_lang A"
    using that
  proof (induction "c # w" arbitrary: w rule: star_lang.induct)
    case (star_app u v)
    then show ?case by (cases u) auto
  qed
next
  show "c # w \<in> star_lang A" if "\<exists>u v. w = u @ v \<and> c # u \<in> A \<and> v \<in> star_lang A"
    using that star_lang.star_app[of "c # _" A] by fastforce
qed

lemma deriv_iff: "w \<in> rx_lang (deriv c r) \<longleftrightarrow> c # w \<in> rx_lang r"
proof (induction r arbitrary: w)
  case (Cat r s)
  have "c # w \<in> rx_lang (Cat r s) \<longleftrightarrow>
    (\<exists>u v. w = u @ v \<and> c # u \<in> rx_lang r \<and> v \<in> rx_lang s) \<or> (nullable r \<and> c # w \<in> rx_lang s)"
    by (auto simp: nullable_iff Cons_eq_append_conv)
  then show ?case using Cat by auto
next
  case (Star r)
  then show ?case by (auto simp: star_lang_Cons)
qed auto

theorem rx_test_iff: "rx_test r s \<longleftrightarrow> s \<in> rx_lang r"
  by (induction s arbitrary: r) (auto simp: nullable_iff deriv_iff)

declare rx_test.simps [simp del]

subsection \<open>Derived forms\<close>

definition chr :: "jchar \<Rightarrow> rx" where
  "chr c = Class [(c, c)]"

fun lit :: "jstring \<Rightarrow> rx" where
  "lit [] = Epsilon"
| "lit (c # s) = Cat (chr c) (lit s)"

definition opt :: "rx \<Rightarrow> rx" where
  "opt r = Alt Epsilon r"

fun repN :: "nat \<Rightarrow> rx \<Rightarrow> rx" where
  "repN 0 r = Epsilon"
| "repN (Suc n) r = Cat r (repN n r)"

fun repUpTo :: "nat \<Rightarrow> rx \<Rightarrow> rx" where
  "repUpTo 0 r = Epsilon"
| "repUpTo (Suc n) r = opt (Cat r (repUpTo n r))"

text \<open>\<open>r+\<close>, \<open>r{n,}\<close> and \<open>r{m,n}\<close>.\<close>

definition repPlus :: "rx \<Rightarrow> rx" where
  "repPlus r = Cat r (Star r)"

definition repAtLeast :: "nat \<Rightarrow> rx \<Rightarrow> rx" where
  "repAtLeast n r = Cat (repN n r) (Star r)"

definition repBetween :: "nat \<Rightarrow> nat \<Rightarrow> rx \<Rightarrow> rx" where
  "repBetween m n r = Cat (repN m r) (repUpTo (n - m) r)"

lemma cat_class_lang:
  "w \<in> rx_lang (Cat (Class cl) r) \<longleftrightarrow> (\<exists>c v. w = c # v \<and> in_class cl c \<and> v \<in> rx_lang r)"
proof
  assume "\<exists>c v. w = c # v \<and> in_class cl c \<and> v \<in> rx_lang r"
  then obtain c v where w: "w = [c] @ v" and c: "[c] \<in> rx_lang (Class cl)" and v: "v \<in> rx_lang r"
    by auto
  from c v show "w \<in> rx_lang (Cat (Class cl) r)" unfolding w rx_lang.simps(5) by blast
qed auto

lemma lit_lang [simp]: "rx_lang (lit s) = {s}"
proof (induction s)
  case (Cons c s)
  have "w \<in> rx_lang (lit (c # s)) \<longleftrightarrow> w = c # s" for w
    unfolding lit.simps chr_def cat_class_lang Cons.IH in_class_def by auto
  then show ?case by blast
qed simp

lemma star_class_lang [simp]:
  "w \<in> star_lang {[c] |c. P c} \<longleftrightarrow> (\<forall>c\<in>set w. P c)"
proof (induction w)
  case Nil
  show ?case by (simp add: star_lang.star_Nil)
next
  case (Cons c w)
  then show ?case by (auto simp: star_lang_Cons)
qed

lemma repN_class_lang:
  "w \<in> rx_lang (repN n (Class cl)) \<longleftrightarrow> length w = n \<and> (\<forall>c\<in>set w. in_class cl c)"
proof (induction n arbitrary: w)
  case (Suc n)
  have "w \<in> rx_lang (repN (Suc n) (Class cl)) \<longleftrightarrow>
    (\<exists>c v. w = c # v \<and> in_class cl c \<and> v \<in> rx_lang (repN n (Class cl)))"
    by (simp only: repN.simps cat_class_lang)
  then show ?case using Suc by (cases w) auto
qed auto

lemma repUpTo_class_lang:
  "w \<in> rx_lang (repUpTo n (Class cl)) \<longleftrightarrow> length w \<le> n \<and> (\<forall>c\<in>set w. in_class cl c)"
proof (induction n arbitrary: w)
  case (Suc n)
  have "w \<in> rx_lang (repUpTo (Suc n) (Class cl)) \<longleftrightarrow>
    w = [] \<or> (\<exists>c v. w = c # v \<and> in_class cl c \<and> v \<in> rx_lang (repUpTo n (Class cl)))"
    using cat_class_lang[of w cl "repUpTo n (Class cl)"] by (simp add: opt_def del: rx_lang.simps(5))
  then show ?case using Suc by (cases w) auto
qed auto

lemma repPlus_class_lang:
  "w \<in> rx_lang (repPlus (Class cl)) \<longleftrightarrow> w \<noteq> [] \<and> (\<forall>c\<in>set w. in_class cl c)"
  by (cases w) (auto simp: repPlus_def cat_class_lang simp del: rx_lang.simps(5))

lemma ex_append_lengths:
  "(\<exists>u v. w = u @ v \<and> length u = n \<and> (\<forall>c\<in>set u. P c) \<and> (\<forall>c\<in>set v. P c))
     \<longleftrightarrow> n \<le> length w \<and> (\<forall>c\<in>set w. P c)"
proof
  assume "n \<le> length w \<and> (\<forall>c\<in>set w. P c)"
  then have "w = take n w @ drop n w \<and> length (take n w) = n \<and>
    (\<forall>c\<in>set (take n w). P c) \<and> (\<forall>c\<in>set (drop n w). P c)"
    by (auto dest: in_set_takeD in_set_dropD)
  then show "\<exists>u v. w = u @ v \<and> length u = n \<and> (\<forall>c\<in>set u. P c) \<and> (\<forall>c\<in>set v. P c)" by blast
qed auto

lemma repAtLeast_class_lang:
  "w \<in> rx_lang (repAtLeast n (Class cl)) \<longleftrightarrow> n \<le> length w \<and> (\<forall>c\<in>set w. in_class cl c)"
proof -
  have "w \<in> rx_lang (repAtLeast n (Class cl)) \<longleftrightarrow>
    (\<exists>u v. w = u @ v \<and> length u = n \<and> (\<forall>c\<in>set u. in_class cl c) \<and> (\<forall>c\<in>set v. in_class cl c))"
    by (auto simp: repAtLeast_def repN_class_lang)
  then show ?thesis by (simp only: ex_append_lengths)
qed

lemma repBetween_class_lang:
  assumes "m \<le> n"
  shows "w \<in> rx_lang (repBetween m n (Class cl)) \<longleftrightarrow>
    m \<le> length w \<and> length w \<le> n \<and> (\<forall>c\<in>set w. in_class cl c)"
proof -
  have "w \<in> rx_lang (repBetween m n (Class cl)) \<longleftrightarrow> length w \<le> n \<and>
    (\<exists>u v. w = u @ v \<and> length u = m \<and> (\<forall>c\<in>set u. in_class cl c) \<and> (\<forall>c\<in>set v. in_class cl c))"
    (is "_ \<longleftrightarrow> _ \<and> ?ex")
  proof
    assume "length w \<le> n \<and> ?ex"
    then obtain u v where uv: "w = u @ v" "length u = m" "length v \<le> n - m"
      "\<forall>c\<in>set u. in_class cl c" "\<forall>c\<in>set v. in_class cl c" by auto
    then have "u \<in> rx_lang (repN m (Class cl))" "v \<in> rx_lang (repUpTo (n - m) (Class cl))"
      by (simp_all add: repN_class_lang repUpTo_class_lang)
    with uv(1) show "w \<in> rx_lang (repBetween m n (Class cl))"
      unfolding repBetween_def rx_lang.simps(5) by blast
  qed (use assms in \<open>auto simp: repBetween_def repN_class_lang repUpTo_class_lang\<close>)
  then show ?thesis by (auto simp only: ex_append_lengths)
qed

lemma cat_lit_lang: "w \<in> rx_lang (Cat (lit p) r) \<longleftrightarrow> (\<exists>v. w = p @ v \<and> v \<in> rx_lang r)"
  by auto

lemmas rx_class_langs =
  repN_class_lang repUpTo_class_lang repPlus_class_lang repAtLeast_class_lang repBetween_class_lang

subsection \<open>Patterns built from an escaped literal\<close>

text \<open>
  \<open>value.replace(/[.*+?^${}()|[\\]\\\\]/g, "\\\\$&")\<close> puts a backslash before every
  metacharacter. \<open>pattern_literal\<close> is how the regular expression engine reads such a
  text: a backslash followed by a metacharacter is that character, and an unescaped
  metacharacter is not literal text (\<open>None\<close>).
\<close>

definition isMeta :: "jchar \<Rightarrow> bool" where
  "isMeta c \<longleftrightarrow> c \<in> set (js ''.*+?^${}()|[]'') \<or> c = 92"

definition escapeForRegex :: "jstring \<Rightarrow> jstring" where
  "escapeForRegex s = concat (map (\<lambda>c. if isMeta c then [92, c] else [c]) s)"

fun pattern_literal :: "jstring \<Rightarrow> jstring option" where
  "pattern_literal [] = Some []"
| "pattern_literal [c] = (if isMeta c then None else Some [c])"
| "pattern_literal (c # d # s) =
     (if c = 92 then (if isMeta d then map_option ((#) d) (pattern_literal s) else None)
      else if isMeta c then None
      else map_option ((#) c) (pattern_literal (d # s)))"

text \<open>
  The expression of \<open>new RegExp(`^${text}...$`)\<close>: the literal the engine reads from
  \<open>text\<close> followed by \<open>r\<close>. A text that is not a literal is none of the source's cases.
\<close>

definition rx_of_pattern :: "jstring \<Rightarrow> rx \<Rightarrow> rx" where
  "rx_of_pattern text r = (case pattern_literal text of None \<Rightarrow> Never | Some p \<Rightarrow> Cat (lit p) r)"

lemma pattern_literal_plain:
  "\<not> isMeta c \<Longrightarrow> pattern_literal (c # s) = map_option ((#) c) (pattern_literal s)"
  by (cases s) (auto simp: isMeta_def)

lemma pattern_literal_escape [simp]: "pattern_literal (escapeForRegex s) = Some s"
  by (induction s) (auto simp: escapeForRegex_def pattern_literal_plain isMeta_def)

lemma rx_of_escaped: "rx_of_pattern (escapeForRegex s) r = Cat (lit s) r"
  by (simp add: rx_of_pattern_def)

end
