(* ===== verification/JsNumber.thy ===== *)
theory JsNumber
  imports Complex_Main JsString
begin

text \<open>
  JavaScript numbers where the source lets non-integers through. A number is not-a-number,
  an infinity or a rational (every finite double is one; negative zero is not
  distinguished from zero, which none of the modelled code observes).
\<close>

datatype jsnum = NaN | PosInf | NegInf | Fin rat

fun isInteger :: "jsnum \<Rightarrow> bool" where
  "isInteger (Fin q) = (snd (quotient_of q) = 1)"
| "isInteger x = False"

fun isFinite :: "jsnum \<Rightarrow> bool" where
  "isFinite (Fin q) = True"
| "isFinite x = False"

text \<open>\<open>x < y\<close>: comparisons with not-a-number are false.\<close>

fun num_less :: "jsnum \<Rightarrow> jsnum \<Rightarrow> bool" where
  "num_less NaN y = False"
| "num_less x NaN = False"
| "num_less NegInf y = (y \<noteq> NegInf)"
| "num_less x PosInf = (x \<noteq> PosInf)"
| "num_less (Fin p) (Fin q) = (p < q)"
| "num_less x y = False"

definition num :: "int \<Rightarrow> jsnum" where
  "num i = Fin (of_int i)"

lemma quotient_of_int_iff: "snd (quotient_of q) = 1 \<longleftrightarrow> q \<in> \<int>"
proof
  assume "snd (quotient_of q) = 1"
  then have "q = of_int (fst (quotient_of q))" using quotient_of_div[of q] by (cases "quotient_of q") simp
  then show "q \<in> \<int>" by (metis Ints_of_int)
next
  assume "q \<in> \<int>"
  then obtain z where "q = of_int z" by (rule Ints_cases)
  then show "snd (quotient_of q) = 1" by simp
qed

text \<open>A non-negative integer value, as the index checks of the source accept it.\<close>

definition is_index :: "jsnum \<Rightarrow> bool" where
  "is_index x \<longleftrightarrow> isInteger x \<and> \<not> num_less x (Fin 0)"

definition index_value :: "jsnum \<Rightarrow> nat" where
  "index_value x = (case x of Fin q \<Rightarrow> nat \<lfloor>q\<rfloor> | _ \<Rightarrow> 0)"

lemma is_index_iff: "is_index x \<longleftrightarrow> (\<exists>n. x = num (int n))"
proof (cases x)
  case (Fin q)
  then have "is_index x \<longleftrightarrow> q \<in> \<int> \<and> 0 \<le> q" by (auto simp: is_index_def quotient_of_int_iff)
  also have "\<dots> \<longleftrightarrow> (\<exists>n. q = of_int (int n))"
    by (metis Ints_cases Ints_of_int of_int_0_le_iff of_nat_0_le_iff zero_le_imp_eq_int)
  finally show ?thesis using Fin by (simp add: num_def)
qed (auto simp: is_index_def num_def)

lemma index_value_num [simp]: "index_value (num (int n)) = n"
  by (simp add: index_value_def num_def)

lemma num_inject [simp]: "num i = num j \<longleftrightarrow> i = j"
  by (simp add: num_def)

text \<open>
  \<open>String(n)\<close> of a non-negative integer: the decimal digits below \<open>10 ^ 21\<close>, and the
  language's exponent notation (a parameter) from there on.
\<close>

definition indexString :: "(nat \<Rightarrow> jstring) \<Rightarrow> jsnum \<Rightarrow> jstring" where
  "indexString exponential x =
     (let n = index_value x in if n < 10 ^ 21 then natString n else exponential n)"

subsection \<open>Decimal literals\<close>

text \<open>
  The exact value of an unsigned decimal literal \<open>ddd\<close> or \<open>ddd.ddd\<close>. \<open>Number(text)\<close>
  rounds it to the nearest double; the result is zero exactly when the value is at most
  half of the smallest positive double, that is \<open>2 powr -1075\<close> (ties go to even).
\<close>

definition decimalValue :: "jstring \<Rightarrow> rat" where
  "decimalValue s =
     (case indexOf s 46 of
        None \<Rightarrow> of_nat (digitsValue s)
      | Some i \<Rightarrow> of_nat (digitsValue (take i s @ drop (Suc i) s)) / 10 ^ length (drop (Suc i) s))"

definition decimalNumberLeZero :: "jstring \<Rightarrow> bool" where
  "decimalNumberLeZero s \<longleftrightarrow> decimalValue s \<le> 1 / 2 ^ 1075"

end
