(* ===== verification/WalletAccount.thy ===== *)
theory WalletAccount
  imports JsRegex JsNumber WalletErrors
begin

text \<open>
  \<open>soulon-wallet/src/core/wallet.ts\<close> and \<open>identity.ts\<close>: validation of mnemonics, prefixes
  and derivation indexes, the derivation path, the address check, and the creation of
  signers. The CosmJS functions the code calls (\<open>DirectSecp256k1HdWallet.fromMnemonic\<close>,
  \<open>DirectSecp256k1HdWallet.generate\<close>, \<open>stringToPath\<close>, \<open>signer.getAccounts\<close>) are parameters.
\<close>

subsection \<open>Errors\<close>

definition INVALID_MNEMONIC :: jstring where "INVALID_MNEMONIC = js ''INVALID_MNEMONIC''"
definition INVALID_PREFIX :: jstring where "INVALID_PREFIX = js ''INVALID_PREFIX''"
definition INVALID_COIN_TYPE :: jstring where "INVALID_COIN_TYPE = js ''INVALID_COIN_TYPE''"
definition INVALID_ACCOUNT_INDEX :: jstring where "INVALID_ACCOUNT_INDEX = js ''INVALID_ACCOUNT_INDEX''"
definition INVALID_CHANGE_INDEX :: jstring where "INVALID_CHANGE_INDEX = js ''INVALID_CHANGE_INDEX''"
definition INVALID_ADDRESS_INDEX :: jstring where "INVALID_ADDRESS_INDEX = js ''INVALID_ADDRESS_INDEX''"
definition INVALID_ADDRESS :: jstring where "INVALID_ADDRESS = js ''INVALID_ADDRESS''"
definition ACCOUNT_NOT_FOUND :: jstring where "ACCOUNT_NOT_FOUND = js ''ACCOUNT_NOT_FOUND''"

lemmas account_code_defs = INVALID_MNEMONIC_def INVALID_PREFIX_def INVALID_COIN_TYPE_def
  INVALID_ACCOUNT_INDEX_def INVALID_CHANGE_INDEX_def INVALID_ADDRESS_INDEX_def
  INVALID_ADDRESS_def ACCOUNT_NOT_FOUND_def

subsection \<open>Validation\<close>

definition normalizeNonEmpty :: "jstring \<Rightarrow> jstring \<Rightarrow> jstring \<Rightarrow> (thrown, jstring) result" where
  "normalizeNonEmpty v c m =
     (let normalized = trim v in if normalized = [] then throwWallet c m else Inr normalized)"

definition BIP39_WORD_COUNTS :: "nat set" where
  "BIP39_WORD_COUNTS = {12, 24}"

definition validateMnemonic :: "jstring \<Rightarrow> (thrown, jstring) result" where
  "validateMnemonic mnemonic =
     ebind (normalizeNonEmpty mnemonic INVALID_MNEMONIC (js ''Mnemonic is required''))
       (\<lambda>normalizedMnemonic. let words = splitWhite normalizedMnemonic in
          if length words \<notin> BIP39_WORD_COUNTS
          then throwWallet INVALID_MNEMONIC (js ''Mnemonic must contain 12 or 24 words'')
          else Inr (join [32] words))"

text \<open>\<open>/^[a-z][a-z0-9]{1,31}$/\<close>\<close>

definition PREFIX_REGEX :: rx where
  "PREFIX_REGEX = Cat (Class [(97, 122)]) (repBetween 1 31 (Class [(97, 122), (48, 57)]))"

definition validatePrefix :: "jstring \<Rightarrow> (thrown, jstring) result" where
  "validatePrefix p =
     ebind (normalizeNonEmpty p INVALID_PREFIX (js ''Address prefix is required''))
       (\<lambda>normalizedPrefix.
          if \<not> rx_test PREFIX_REGEX normalizedPrefix
          then throwWallet INVALID_PREFIX (js ''Address prefix format is invalid'')
          else Inr normalizedPrefix)"

definition validatePathIndex :: "jsnum option \<Rightarrow> jstring \<Rightarrow> jstring \<Rightarrow> (thrown, jsnum) result" where
  "validatePathIndex v c label =
     (let normalized = nullish v (num 0) in
      if \<not> isInteger normalized \<or> num_less normalized (num 0)
      then throwWallet c (label @ js '' must be a non-negative integer'')
      else Inr normalized)"

definition validateCoinType :: "jsnum \<Rightarrow> (thrown, jsnum) result" where
  "validateCoinType coinType =
     (if \<not> isInteger coinType \<or> num_less coinType (num 0)
      then throwWallet INVALID_COIN_TYPE (js ''Coin type must be a non-negative integer'')
      else Inr coinType)"

record DerivationPathConfig =
  coinType :: jsnum
  account :: "jsnum option"
  change :: "jsnum option"
  addressIndex :: "jsnum option"

text \<open>\<open>m/44'/c'/a'/h/i\<close>; 39 is the apostrophe, 47 the slash.\<close>

definition hdPathText :: "(nat \<Rightarrow> jstring) \<Rightarrow> jsnum \<Rightarrow> jsnum \<Rightarrow> jsnum \<Rightarrow> jsnum \<Rightarrow> jstring" where
  "hdPathText exponential c a h i =
     js ''m/44'' @ [39, 47] @ indexString exponential c @ [39, 47] @ indexString exponential a
       @ [39, 47] @ indexString exponential h @ [47] @ indexString exponential i"

definition deriveHdPath :: "(nat \<Rightarrow> jstring) \<Rightarrow> DerivationPathConfig \<Rightarrow> (thrown, jstring) result" where
  "deriveHdPath exponential input =
     ebind (validateCoinType (coinType input)) (\<lambda>c.
     ebind (validatePathIndex (account input) INVALID_ACCOUNT_INDEX (js ''Account index'')) (\<lambda>a.
     ebind (validatePathIndex (change input) INVALID_CHANGE_INDEX (js ''Change index'')) (\<lambda>h.
     ebind (validatePathIndex (addressIndex input) INVALID_ADDRESS_INDEX (js ''Address index'')) (\<lambda>i.
       Inr (hdPathText exponential c a h i)))))"

text \<open>The data part of an address, \<open>[02-9ac-hj-np-z]\<close>.\<close>

definition BECH32_CLASS :: char_class where
  "BECH32_CLASS = [(48, 48), (50, 57), (97, 97), (99, 104), (106, 110), (112, 122)]"

definition isAddressForPrefix :: "jstring \<Rightarrow> jstring \<Rightarrow> (thrown, bool) result" where
  "isAddressForPrefix address p =
     ebind (validatePrefix p) (\<lambda>normalizedPrefix.
       let normalizedAddress = trim address in
       if normalizedAddress = [] then Inr False
       else
         (let addressPattern = rx_of_pattern (escapeForRegex normalizedPrefix)
                (Cat (chr 49) (repAtLeast 6 (Class BECH32_CLASS)))
          in Inr (rx_test addressPattern normalizedAddress)))"

subsection \<open>Signers\<close>

record CreateWalletInput =
  mnemonic :: jstring
  walletPrefix :: jstring
  bip39Passphrase :: "jstring option"

record CreateWalletWithPathInput = CreateWalletInput +
  path :: DerivationPathConfig

text \<open>\<open>fromMnemonic mnemonic prefix hdPaths bip39Password\<close>; \<open>hdPaths = None\<close> when not given.\<close>

type_synonym ('path, 'signer) fromMnemonic =
  "jstring \<Rightarrow> jstring \<Rightarrow> 'path list option \<Rightarrow> jstring option \<Rightarrow> (thrown, 'signer) result"

definition createWalletFromMnemonic ::
  "('path, 'signer) fromMnemonic \<Rightarrow> CreateWalletInput \<Rightarrow> (thrown, 'signer) result" where
  "createWalletFromMnemonic fromMnemonic input =
     ebind (validateMnemonic (mnemonic input)) (\<lambda>words.
     ebind (validatePrefix (walletPrefix input)) (\<lambda>p.
       fromMnemonic words p None (bip39Passphrase input)))"

definition createWalletFromMnemonicWithPath ::
  "(nat \<Rightarrow> jstring) \<Rightarrow> (jstring \<Rightarrow> (thrown, 'path) result) \<Rightarrow> ('path, 'signer) fromMnemonic
     \<Rightarrow> CreateWalletWithPathInput \<Rightarrow> (thrown, 'signer) result" where
  "createWalletFromMnemonicWithPath exponential stringToPath fromMnemonic input =
     ebind (validateMnemonic (mnemonic input)) (\<lambda>words.
     ebind (validatePrefix (walletPrefix input)) (\<lambda>p.
     ebind (ebind (deriveHdPath exponential (path input)) stringToPath) (\<lambda>hdPath.
       fromMnemonic words p (Some [hdPath]) (bip39Passphrase input))))"

text \<open>\<open>generate 24 { prefix }\<close> yields a signer and its mnemonic.\<close>

definition createRandomWallet ::
  "(nat \<Rightarrow> jstring \<Rightarrow> (thrown, jstring \<times> 'signer) result) \<Rightarrow> jstring \<Rightarrow> (thrown, jstring \<times> 'signer) result" where
  "createRandomWallet generate p = ebind (validatePrefix p) (\<lambda>normalizedPrefix. generate 24 normalizedPrefix)"

definition getFirstAccountAddress ::
  "('signer \<Rightarrow> (thrown, jstring list) result) \<Rightarrow> 'signer \<Rightarrow> jstring option \<Rightarrow> (thrown, jstring) result" where
  "getFirstAccountAddress getAccounts signer p =
     ebind (getAccounts signer) (\<lambda>accounts.
       case accounts of
         [] \<Rightarrow> throwWallet ACCOUNT_NOT_FOUND (js ''No account available from signer'')
       | a # _ \<Rightarrow>
           if a = [] then throwWallet ACCOUNT_NOT_FOUND (js ''No account available from signer'')
           else (case p of
               None \<Rightarrow> Inr a
             | Some q \<Rightarrow> ebind (isAddressForPrefix a q) (\<lambda>ok.
                 if \<not> ok then throwWallet INVALID_ADDRESS (js ''Derived address does not match expected prefix'')
                 else Inr a)))"

definition deriveAddressFromMnemonic ::
  "(nat \<Rightarrow> jstring) \<Rightarrow> (jstring \<Rightarrow> (thrown, 'path) result) \<Rightarrow> ('path, 'signer) fromMnemonic
     \<Rightarrow> ('signer \<Rightarrow> (thrown, jstring list) result) \<Rightarrow> CreateWalletWithPathInput \<Rightarrow> (thrown, jstring) result" where
  "deriveAddressFromMnemonic exponential stringToPath fromMnemonic getAccounts input =
     ebind (createWalletFromMnemonicWithPath exponential stringToPath fromMnemonic input) (\<lambda>signer.
       getFirstAccountAddress getAccounts signer (Some (walletPrefix input)))"

text \<open>\<open>identity.ts\<close>: the identity manager, whose input leaves the whole path optional.\<close>

record SignerInput =
  sMnemonic :: jstring
  sPrefix :: jstring
  sPassphrase :: "jstring option"
  sCoinType :: "jsnum option"
  sAccount :: "jsnum option"
  sChange :: "jsnum option"
  sAddressIndex :: "jsnum option"

definition createSignerFromMnemonic ::
  "(nat \<Rightarrow> jstring) \<Rightarrow> (jstring \<Rightarrow> (thrown, 'path) result) \<Rightarrow> ('path, 'signer) fromMnemonic
     \<Rightarrow> SignerInput \<Rightarrow> (thrown, 'signer) result" where
  "createSignerFromMnemonic exponential stringToPath fromMnemonic input =
     (let hasPathIndexes = (sAccount input \<noteq> None \<or> sChange input \<noteq> None \<or> sAddressIndex input \<noteq> None) in
      case sCoinType input of
        None \<Rightarrow>
          if hasPathIndexes
          then throwWallet INVALID_COIN_TYPE (js ''coinType is required when account/change/addressIndex is provided'')
          else createWalletFromMnemonic fromMnemonic
                 \<lparr>mnemonic = sMnemonic input, walletPrefix = sPrefix input, bip39Passphrase = sPassphrase input\<rparr>
      | Some c \<Rightarrow>
          createWalletFromMnemonicWithPath exponential stringToPath fromMnemonic
            \<lparr>mnemonic = sMnemonic input, walletPrefix = sPrefix input, bip39Passphrase = sPassphrase input,
             path = \<lparr>coinType = c, account = sAccount input, change = sChange input,
                     addressIndex = sAddressIndex input\<rparr>\<rparr>)"

definition createRandomSigner ::
  "(nat \<Rightarrow> jstring \<Rightarrow> (thrown, jstring \<times> 'signer) result) \<Rightarrow> jstring \<Rightarrow> (thrown, jstring \<times> 'signer) result" where
  "createRandomSigner generate p = createRandomWallet generate p"

definition signSecp256k1 :: "jstring \<Rightarrow> jstring \<Rightarrow> (thrown, jstring) result" where
  "signSecp256k1 msg keyAlias = Inl (ThrownError (js ''Platform secp256k1 signer is not implemented''))"

definition signEd25519 :: "jstring \<Rightarrow> jstring \<Rightarrow> (thrown, jstring) result" where
  "signEd25519 msg keyAlias = Inl (ThrownError (js ''Platform ed25519 signer is not implemented''))"

subsection \<open>Facts about the validators\<close>

lemma normalizeNonEmpty_Inr [result_simps]:
  "normalizeNonEmpty v c m = Inr x \<longleftrightarrow> x = trim v \<and> x \<noteq> []"
  by (auto simp: normalizeNonEmpty_def Let_def)

lemma PREFIX_REGEX_iff:
  "rx_test PREFIX_REGEX s \<longleftrightarrow>
     2 \<le> length s \<and> length s \<le> 32 \<and> in_class [(97, 122)] (hd s) \<and>
     (\<forall>c\<in>set (tl s). in_class [(97, 122), (48, 57)] c)"
proof -
  have "s \<in> rx_lang PREFIX_REGEX \<longleftrightarrow> (\<exists>c v. s = c # v \<and> in_class [(97, 122)] c \<and>
      1 \<le> length v \<and> length v \<le> 31 \<and> (\<forall>x\<in>set v. in_class [(97, 122), (48, 57)] x))"
    unfolding PREFIX_REGEX_def cat_class_lang by (simp add: repBetween_class_lang)
  then show ?thesis unfolding rx_test_iff by (cases s) (auto simp: Suc_le_eq)
qed

lemma validatePrefix_Inr [result_simps]:
  "validatePrefix p = Inr x \<longleftrightarrow> x = trim p \<and> rx_test PREFIX_REGEX x"
  by (auto simp: validatePrefix_def PREFIX_REGEX_iff result_simps)

lemma validateMnemonic_Inr [result_simps]:
  "validateMnemonic m = Inr r \<longleftrightarrow> trim m \<noteq> [] \<and> length (splitWhite (trim m)) \<in> BIP39_WORD_COUNTS \<and>
     r = join [32] (splitWhite (trim m))"
  by (auto simp: validateMnemonic_def Let_def result_simps)

lemma mnemonic_words:
  assumes "trim m \<noteq> []"
  shows "\<forall>w\<in>set (splitWhite (trim m)). w \<noteq> [] \<and> (\<forall>c\<in>set w. \<not> isWhite c)"
  using assms splitWhite_words[OF trim_trimmed] splitWhite_no_white by blast

text \<open>An address of a prefix, written out: prefix, the digit one, at least six data characters.\<close>

definition address_of_prefix :: "jstring \<Rightarrow> jstring \<Rightarrow> bool" where
  "address_of_prefix p a \<longleftrightarrow> (\<exists>d. a = p @ 49 # d \<and> 6 \<le> length d \<and> (\<forall>c\<in>set d. in_class BECH32_CLASS c))"

lemma address_pattern_iff:
  "rx_test (rx_of_pattern (escapeForRegex p) (Cat (chr 49) (repAtLeast 6 (Class BECH32_CLASS)))) a
     \<longleftrightarrow> address_of_prefix p a"
proof -
  have "x \<in> rx_lang (Cat (chr 49) (repAtLeast 6 (Class BECH32_CLASS))) \<longleftrightarrow>
      (\<exists>d. x = 49 # d \<and> 6 \<le> length d \<and> (\<forall>c\<in>set d. in_class BECH32_CLASS c))" for x
    unfolding chr_def cat_class_lang by (simp add: repAtLeast_class_lang)
  then show ?thesis
    unfolding rx_test_iff rx_of_escaped cat_lit_lang address_of_prefix_def by blast
qed

lemma isAddressForPrefix_Inr [result_simps]:
  "isAddressForPrefix a p = Inr b \<longleftrightarrow>
     rx_test PREFIX_REGEX (trim p) \<and> b = address_of_prefix (trim p) (trim a)"
  unfolding isAddressForPrefix_def Let_def address_pattern_iff
  by (auto simp: result_simps) (auto simp: address_of_prefix_def)

lemma one_not_data [simp]: "\<not> in_class BECH32_CLASS 49"
  by (simp add: in_class_def BECH32_CLASS_def)

lemma last_one_unique:
  assumes "p @ c # d = q @ c # e" "c \<notin> set d" "c \<notin> set e"
  shows "p = q \<and> d = e"
proof -
  have "takeWhile (\<lambda>x. x \<noteq> c) (rev (p @ c # d)) = rev d"
    "takeWhile (\<lambda>x. x \<noteq> c) (rev (q @ c # e)) = rev e"
    using assms(2,3) takeWhile_append_stop[of "rev d" "\<lambda>x. x \<noteq> c" c "rev p"]
      takeWhile_append_stop[of "rev e" "\<lambda>x. x \<noteq> c" c "rev q"] by (simp_all, metis+)
  then have "rev d = rev e" using assms(1) by metis
  with assms(1) show ?thesis by simp
qed

lemma address_of_prefix_unique:
  assumes "address_of_prefix p a" "address_of_prefix q a"
  shows "p = q"
proof -
  obtain d e where "a = p @ 49 # d" "a = q @ 49 # e" "\<forall>c\<in>set d. in_class BECH32_CLASS c"
    "\<forall>c\<in>set e. in_class BECH32_CLASS c" using assms unfolding address_of_prefix_def by blast
  moreover from this have "49 \<notin> set d" "49 \<notin> set e" using one_not_data by blast+
  ultimately show ?thesis using last_one_unique[of p 49 d q e] by auto
qed

lemma digits_prefix_unique:
  assumes "natString m @ c # x = natString n @ d # y" "\<not> isDigit c" "\<not> isDigit d"
  shows "m = n \<and> c # x = d # y"
proof -
  have "takeWhile isDigit (natString k @ e # z) = natString k" if "\<not> isDigit e" for k e z
    using that natString_digits by (simp add: takeWhile_append_stop)
  with assms have "natString m = natString n" by metis
  with assms(1) show ?thesis by simp
qed

lemma digits_unique_apostrophe:
  "natString m @ 39 # x = natString n @ 39 # y \<longleftrightarrow> m = n \<and> x = y"
  using digits_prefix_unique[of m 39 x n 39 y] by (auto simp: isDigit_def)

lemma digits_unique_slash:
  "natString m @ 47 # x = natString n @ 47 # y \<longleftrightarrow> m = n \<and> x = y"
  using digits_prefix_unique[of m 47 x n 47 y] by (auto simp: isDigit_def)

lemma index_check_iff: "\<not> isInteger x \<or> num_less x (num 0) \<longleftrightarrow> \<not> is_index x"
  by (simp add: is_index_def num_def)

text \<open>The four indexes of a path, the missing ones being zero.\<close>

definition path_indexes :: "DerivationPathConfig \<Rightarrow> jsnum list" where
  "path_indexes i = [coinType i, nullish (account i) (num 0), nullish (change i) (num 0),
     nullish (addressIndex i) (num 0)]"

lemma deriveHdPath_Inr [result_simps]:
  "deriveHdPath ex input = Inr t \<longleftrightarrow> list_all is_index (path_indexes input) \<and>
     t = hdPathText ex (coinType input) (nullish (account input) (num 0))
           (nullish (change input) (num 0)) (nullish (addressIndex input) (num 0))"
  unfolding deriveHdPath_def validateCoinType_def validatePathIndex_def Let_def index_check_iff
    path_indexes_def
  by (auto simp: result_simps)

lemma indexString_small:
  "is_index x \<Longrightarrow> index_value x < 10 ^ 21 \<Longrightarrow> indexString ex x = natString (index_value x)"
  by (simp add: indexString_def)

lemma is_index_inject: "is_index x \<Longrightarrow> is_index y \<Longrightarrow> index_value x = index_value y \<Longrightarrow> x = y"
  unfolding is_index_iff by (elim exE, hypsubst) simp

lemma getFirstAccountAddress_prefix:
  assumes "getFirstAccountAddress getAccounts signer (Some p) = Inr a"
  shows "isAddressForPrefix a p = Inr True \<and> a \<noteq> []"
proof -
  obtain xs where xs: "getAccounts signer = Inr xs"
    using assms unfolding getFirstAccountAddress_def ebind_eq_Inr by blast
  then obtain b rest where b: "xs = b # rest" "b \<noteq> []"
    using assms by (cases xs) (auto simp: getFirstAccountAddress_def split: if_splits simp del: js_Cons)
  from assms xs b obtain ok where "isAddressForPrefix b p = Inr ok" "ok \<and> b = a"
    by (cases "isAddressForPrefix b p")
       (auto simp: getFirstAccountAddress_def split: if_splits simp del: js_Cons)
  with b show ?thesis by auto
qed

subsection \<open>Properties\<close>

text \<open>
  An accepted mnemonic is in normal form: 12 or 24 words separated by single spaces, the
  words of the input in their order, and validating it again returns it unchanged.
\<close>

theorem validateMnemonic_normal_form:
  assumes "validateMnemonic m = Inr r"
  shows "length (splitWhite r) \<in> {12, 24} \<and> splitWhite r = splitWhite (trim m) \<and>
    r = join [32] (splitWhite r) \<and> validateMnemonic r = Inr r"
proof -
  let ?ws = "splitWhite (trim m)"
  from assms have m: "trim m \<noteq> []" "length ?ws \<in> BIP39_WORD_COUNTS" "r = join [32] ?ws"
    by (auto simp: result_simps)
  have "splitWhite r = ?ws" unfolding m(3) by (rule splitWhite_join[OF _ mnemonic_words[OF m(1)]]) simp
  moreover have "trim r = r" "r \<noteq> []"
    using trimmed_join_words[OF _ mnemonic_words[OF m(1)]] by (auto simp: m(3) trim_id)
  ultimately show ?thesis using m by (auto simp: result_simps BIP39_WORD_COUNTS_def)
qed

definition demo_mnemonic :: jstring where
  "demo_mnemonic = js '' a  b c d e f g h i j k l ''"

lemma demo_mnemonic_words:
  "splitWhite (trim demo_mnemonic) =
     [js ''a'', js ''b'', js ''c'', js ''d'', js ''e'', js ''f'', js ''g'', js ''h'', js ''i'', js ''j'',
      js ''k'', js ''l'']" "trim demo_mnemonic \<noteq> []"
  by (simp_all add: demo_mnemonic_def trim_def trimStart_def trimEnd_def isWhite_def splitWhite.simps)

theorem validateMnemonic_normal_form_witness:
  "length (splitWhite (js ''a b c d e f g h i j k l'')) \<in> {12, 24} \<and>
     validateMnemonic (js ''a b c d e f g h i j k l'') = Inr (js ''a b c d e f g h i j k l'')"
proof -
  have "validateMnemonic demo_mnemonic = Inr (js ''a b c d e f g h i j k l'')"
    by (simp add: validateMnemonic_Inr demo_mnemonic_words BIP39_WORD_COUNTS_def)
  from validateMnemonic_normal_form[OF this] show ?thesis by blast
qed

text \<open>
  The same check written without expressions: a prefix is a lower-case letter followed by
  one to thirty-one lower-case letters or digits; an address of it is the prefix, the digit
  one and at least six characters of the bech32 alphabet.
\<close>

definition lower_or_digit :: "jchar \<Rightarrow> bool" where
  "lower_or_digit c \<longleftrightarrow> 97 \<le> c \<and> c \<le> 122 \<or> 48 \<le> c \<and> c \<le> 57"

definition plain_prefix :: "jstring \<Rightarrow> bool" where
  "plain_prefix p \<longleftrightarrow>
     2 \<le> length p \<and> length p \<le> 32 \<and> 97 \<le> hd p \<and> hd p \<le> 122 \<and> list_all lower_or_digit p"

definition bech32_alphabet :: jstring where
  "bech32_alphabet = js ''qpzry9x8gf2tvdw0s3jn54khce6mua7l''"

definition plain_address :: "jstring \<Rightarrow> jstring \<Rightarrow> bool" where
  "plain_address p a \<longleftrightarrow>
     length p + 7 \<le> length a \<and> take (length p) a = p \<and> a ! length p = 49 \<and>
     (\<forall>c\<in>set (drop (Suc (length p)) a). c \<in> set bech32_alphabet)"

lemma plain_prefix_iff: "rx_test PREFIX_REGEX p \<longleftrightarrow> plain_prefix p"
  by (cases p) (auto simp: PREFIX_REGEX_iff plain_prefix_def lower_or_digit_def in_class_def list_all_iff)

lemma bech32_alphabet_iff: "in_class BECH32_CLASS c \<longleftrightarrow> c \<in> set bech32_alphabet"
proof (cases "48 \<le> c \<and> c < 123")
  case True
  then have "c \<in> set [48..<123]" unfolding set_upt by simp
  moreover have "\<forall>c\<in>set [48..<123]. in_class BECH32_CLASS c \<longleftrightarrow> c \<in> set bech32_alphabet"
    by (simp add: upt_rec in_class_def BECH32_CLASS_def bech32_alphabet_def)
  ultimately show ?thesis by (rule bspec[rotated])
next
  case False
  then have "\<not> in_class BECH32_CLASS c" by (auto simp: in_class_def BECH32_CLASS_def)
  moreover have "\<forall>x\<in>set bech32_alphabet. 48 \<le> x \<and> x < 123" by (simp add: bech32_alphabet_def)
  then have "c \<notin> set bech32_alphabet" using False by blast
  ultimately show ?thesis by simp
qed

lemma plain_address_iff: "address_of_prefix p a \<longleftrightarrow> plain_address p a"
proof
  assume "plain_address p a"
  then have "a = p @ 49 # drop (Suc (length p)) a"
    by (metis (no_types, lifting) Cons_nth_drop_Suc add_leD1 append_take_drop_id less_add_same_cancel1
        order_less_le_trans plain_address_def zero_less_numeral)
  with \<open>plain_address p a\<close> show "address_of_prefix p a"
    unfolding address_of_prefix_def plain_address_def bech32_alphabet_iff
    by (intro exI[of _ "drop (Suc (length p)) a"]) auto
qed (auto simp: address_of_prefix_def plain_address_def bech32_alphabet_iff)

text \<open>
  C28: the address check agrees with its reading: for a prefix that is, trimmed, a
  lower-case letter and one to thirty-one lower-case letters or digits, the answer is
  whether the trimmed address is the trimmed prefix, the digit one and at least six
  characters of the bech32 alphabet; a blank prefix throws \<open>INVALID_PREFIX\<close> as required,
  and any other prefix throws \<open>INVALID_PREFIX\<close> for its format. The escaping of the prefix
  in the pattern never changes its meaning.
\<close>

theorem isAddressForPrefix_spec:
  "isAddressForPrefix a p =
     (if plain_prefix (trim p) then Inr (plain_address (trim p) (trim a))
      else throwWallet (js ''INVALID_PREFIX'')
        (if trim p = [] then js ''Address prefix is required'' else js ''Address prefix format is invalid''))"
proof (cases "plain_prefix (trim p)")
  case True
  then have "isAddressForPrefix a p = Inr (plain_address (trim p) (trim a))"
    by (simp add: isAddressForPrefix_Inr plain_prefix_iff plain_address_iff)
  with True show ?thesis by simp
next
  case False
  then have "validatePrefix p = throwWallet INVALID_PREFIX
        (if trim p = [] then js ''Address prefix is required'' else js ''Address prefix format is invalid'')"
    by (simp add: validatePrefix_def normalizeNonEmpty_def Let_def plain_prefix_iff throwWallet_def)
  with False show ?thesis by (simp add: isAddressForPrefix_def INVALID_PREFIX_def throwWallet_def)
qed

text \<open>
  An address belongs to at most one prefix: two accepted checks of the same address were
  made with the same prefix, up to surrounding white space.
\<close>

theorem isAddressForPrefix_unique:
  assumes "isAddressForPrefix a p = Inr True" "isAddressForPrefix a q = Inr True"
  shows "trim p = trim q"
  using assms address_of_prefix_unique by (auto simp: isAddressForPrefix_Inr)

lemma demo_address:
  "isAddressForPrefix (js ''soulon1qqqqqq'') (js ''soulon'') = Inr True"
  "isAddressForPrefix (js ''soulon1qqqqqq'') (js '' soulon '') = Inr True"
proof -
  have "address_of_prefix (js ''soulon'') (js ''soulon1qqqqqq'')"
    unfolding address_of_prefix_def
    by (rule exI[of _ "js ''qqqqqq''"]) (simp add: in_class_def BECH32_CLASS_def)
  moreover have "trim (js '' soulon '') = js ''soulon''" "trim (js ''soulon'') = js ''soulon''"
    "trim (js ''soulon1qqqqqq'') = js ''soulon1qqqqqq''"
    by (simp_all add: trim_def trimStart_def trimEnd_def isWhite_def)
  moreover have "rx_test PREFIX_REGEX (js ''soulon'')"
    by (simp add: PREFIX_REGEX_iff in_class_def)
  ultimately show "isAddressForPrefix (js ''soulon1qqqqqq'') (js ''soulon'') = Inr True"
    "isAddressForPrefix (js ''soulon1qqqqqq'') (js '' soulon '') = Inr True"
    by (simp_all only: isAddressForPrefix_Inr simp_thms)
qed

theorem isAddressForPrefix_unique_witness: "trim (js ''soulon'') = trim (js '' soulon '')"
  by (rule isAddressForPrefix_unique[OF demo_address])

text \<open>
  C26: different accounts never share a derivation path: two inputs with the same path have
  the same coin type, account, change and address index (missing indexes being zero), as
  long as the indexes print in decimal notation.
\<close>

theorem deriveHdPath_injective:
  assumes "deriveHdPath ex i = Inr t" "deriveHdPath ex j = Inr t"
    and "list_all (\<lambda>x. index_value x < 10 ^ 21) (path_indexes i @ path_indexes j)"
  shows "path_indexes i = path_indexes j"
proof -
  have "map index_value (path_indexes i) = map index_value (path_indexes j)"
    using assms by (auto simp: deriveHdPath_Inr hdPathText_def path_indexes_def indexString_small
        digits_unique_apostrophe digits_unique_slash)
  with assms(1,2) show ?thesis
    by (auto simp: deriveHdPath_Inr path_indexes_def intro: is_index_inject)
qed

definition demo_path :: DerivationPathConfig where
  "demo_path = \<lparr>coinType = num 118, account = None, change = None, addressIndex = Some (num 7)\<rparr>"

lemma demo_path_text:
  "deriveHdPath ex demo_path = Inr (js ''m/44'' @ [39, 47] @ js ''118'' @ [39, 47] @ js ''0'' @ [39, 47] @ js ''0/7'')"
proof -
  have n: "index_value (num 118) = 118" "index_value (num 7) = 7" "index_value (num 0) = 0"
    using index_value_num[of 118] index_value_num[of 7] index_value_num[of 0] by simp_all
  have "is_index (num 118)" "is_index (num 7)" "is_index (num 0)"
    unfolding is_index_iff by (metis of_nat_numeral of_nat_0)+
  then show ?thesis
    by (simp add: deriveHdPath_Inr demo_path_def path_indexes_def hdPathText_def indexString_def n natString.simps)
qed

theorem deriveHdPath_injective_witness:
  "path_indexes demo_path = path_indexes (demo_path\<lparr>account := Some (num 0)\<rparr>)"
proof -
  have same: "deriveHdPath natString (demo_path\<lparr>account := Some (num 0)\<rparr>) = deriveHdPath natString demo_path"
    by (simp add: deriveHdPath_def demo_path_def validatePathIndex_def)
  have "list_all (\<lambda>x. index_value x < 10 ^ 21)
      (path_indexes demo_path @ path_indexes (demo_path\<lparr>account := Some (num 0)\<rparr>))"
    using index_value_num[of 118] index_value_num[of 7] index_value_num[of 0]
    by (simp add: demo_path_def path_indexes_def)
  then show ?thesis
    by (rule deriveHdPath_injective[OF demo_path_text trans[OF same demo_path_text]])
qed

text \<open>
  Whatever the signing library returns, an address handed out by
  \<open>deriveAddressFromMnemonic\<close> passes the address check for the prefix that was asked for.
\<close>

theorem deriveAddress_matches_prefix:
  assumes "deriveAddressFromMnemonic ex stringToPath fromMnemonic getAccounts input = Inr a"
  shows "isAddressForPrefix a (walletPrefix input) = Inr True \<and> a \<noteq> []"
proof -
  obtain signer where "getFirstAccountAddress getAccounts signer (Some (walletPrefix input)) = Inr a"
    using assms unfolding deriveAddressFromMnemonic_def ebind_eq_Inr by blast
  then show ?thesis by (rule getFirstAccountAddress_prefix)
qed

definition demo_input :: CreateWalletWithPathInput where
  "demo_input = \<lparr>mnemonic = demo_mnemonic, walletPrefix = js ''soulon'', bip39Passphrase = None,
     path = demo_path\<rparr>"

theorem deriveAddress_matches_prefix_witness:
  "isAddressForPrefix (js ''soulon1qqqqqq'') (walletPrefix demo_input) = Inr True \<and> js ''soulon1qqqqqq'' \<noteq> []"
proof -
  have "validatePrefix (js ''soulon'') = Inr (js ''soulon'')"
    by (simp add: validatePrefix_Inr PREFIX_REGEX_iff in_class_def trim_def trimStart_def trimEnd_def isWhite_def)
  then have "deriveAddressFromMnemonic natString Inr (\<lambda>m p h b. Inr [p @ js ''1qqqqqq'']) Inr demo_input =
      Inr (js ''soulon1qqqqqq'')"
    by (simp add: deriveAddressFromMnemonic_def createWalletFromMnemonicWithPath_def demo_input_def
        getFirstAccountAddress_def demo_path_text validateMnemonic_def normalizeNonEmpty_def
        demo_mnemonic_words BIP39_WORD_COUNTS_def demo_address[simplified])
  then show ?thesis by (rule deriveAddress_matches_prefix)
qed

text \<open>
  The identity manager never ignores a path index: with an account, change or address
  index but no coin type it throws \<open>INVALID_COIN_TYPE\<close> and calls no library function;
  with no index at all it derives the library's default path.
\<close>

theorem createSignerFromMnemonic_without_coinType:
  assumes "sCoinType input = None"
  shows "createSignerFromMnemonic ex stringToPath fromMnemonic input =
    (if sAccount input = None \<and> sChange input = None \<and> sAddressIndex input = None
     then createWalletFromMnemonic fromMnemonic
       \<lparr>mnemonic = sMnemonic input, walletPrefix = sPrefix input, bip39Passphrase = sPassphrase input\<rparr>
     else throwWallet INVALID_COIN_TYPE
       (js ''coinType is required when account/change/addressIndex is provided''))"
  using assms by (auto simp: createSignerFromMnemonic_def Let_def)

theorem createSignerFromMnemonic_without_coinType_witness:
  "createSignerFromMnemonic natString Inr (\<lambda>m p h b. Inr h)
     \<lparr>sMnemonic = demo_mnemonic, sPrefix = js ''soulon'', sPassphrase = None, sCoinType = None,
      sAccount = None, sChange = Some (num 1), sAddressIndex = None\<rparr> =
   throwWallet INVALID_COIN_TYPE (js ''coinType is required when account/change/addressIndex is provided'')"
  by (subst createSignerFromMnemonic_without_coinType) simp_all

end
