(* ===== verification/UrlEncoding.thy ===== *)
theory UrlEncoding
  imports JsString
begin

text \<open>
  The parts of the URL standard that the source uses through \<open>URLSearchParams\<close> and
  \<open>encodeURIComponent\<close>: UTF-16 to code points, UTF-8 in both directions (the decoder with
  its replacement characters), percent encoding, and the form encoding of a list of
  parameters. The main fact is the round trip of a parameter value.
\<close>

subsection \<open>UTF-16\<close>

definition isHighSurrogate :: "jchar \<Rightarrow> bool" where
  "isHighSurrogate c \<longleftrightarrow> 55296 \<le> c \<and> c \<le> 56319"

definition isLowSurrogate :: "jchar \<Rightarrow> bool" where
  "isLowSurrogate c \<longleftrightarrow> 56320 \<le> c \<and> c \<le> 57343"

lemmas surrogate_defs = isHighSurrogate_def isLowSurrogate_def

text \<open>Conversion to scalar values; a lone surrogate becomes U+FFFD.\<close>

fun codePoints :: "jstring \<Rightarrow> nat list" where
  "codePoints [] = []"
| "codePoints [c] = [if isHighSurrogate c \<or> isLowSurrogate c then 65533 else c]"
| "codePoints (c # d # s) =
     (if isHighSurrogate c \<and> isLowSurrogate d
      then (65536 + (c - 55296) * 1024 + (d - 56320)) # codePoints s
      else (if isHighSurrogate c \<or> isLowSurrogate c then 65533 else c) # codePoints (d # s))"

fun isWellFormed :: "jstring \<Rightarrow> bool" where
  "isWellFormed [] = True"
| "isWellFormed [c] = (c < 65536 \<and> \<not> isHighSurrogate c \<and> \<not> isLowSurrogate c)"
| "isWellFormed (c # d # s) =
     (if isHighSurrogate c \<and> isLowSurrogate d then isWellFormed s
      else c < 65536 \<and> \<not> isHighSurrogate c \<and> \<not> isLowSurrogate c \<and> isWellFormed (d # s))"

definition utf16Units :: "nat \<Rightarrow> jstring" where
  "utf16Units p =
     (if p < 65536 then [p] else [55296 + (p - 65536) div 1024, 56320 + (p - 65536) mod 1024])"

definition fromCodePoints :: "nat list \<Rightarrow> jstring" where
  "fromCodePoints ps = concat (map utf16Units ps)"

definition isScalar :: "nat \<Rightarrow> bool" where
  "isScalar p \<longleftrightarrow> p < 1114112 \<and> \<not> (55296 \<le> p \<and> p \<le> 57343)"

lemma fromCodePoints_simps [simp]:
  "fromCodePoints [] = []" "fromCodePoints (p # ps) = utf16Units p @ fromCodePoints ps"
  by (simp_all add: fromCodePoints_def)

lemma utf16Units_pair:
  assumes "isHighSurrogate c" "isLowSurrogate d"
  shows "utf16Units (65536 + (c - 55296) * 1024 + (d - 56320)) = [c, d]"
proof -
  obtain x y where "c = 55296 + x" "d = 56320 + y" "y < 1024"
    using assms by (auto simp: surrogate_defs le_iff_add)
  then show ?thesis by (simp add: utf16Units_def)
qed

lemma fromCodePoints_codePoints: "isWellFormed s \<Longrightarrow> fromCodePoints (codePoints s) = s"
proof (induction s rule: codePoints.induct)
  case (3 c d s)
  show ?case
  proof (cases "isHighSurrogate c \<and> isLowSurrogate d")
    case True
    with 3 show ?thesis by (simp add: utf16Units_pair)
  next
    case False
    with 3 show ?thesis by (auto simp: utf16Units_def)
  qed
qed (auto simp: utf16Units_def)

lemma codePoints_scalar: "is_code_units s \<Longrightarrow> p \<in> set (codePoints s) \<Longrightarrow> isScalar p"
proof (induction s rule: codePoints.induct)
  case (2 c)
  then show ?case by (auto simp: isScalar_def surrogate_defs is_code_units_def split: if_splits)
next
  case (3 c d s)
  have s: "is_code_units s" "is_code_units (d # s)" "c < 65536" using "3.prems"(1) by (auto simp: is_code_units_def)
  show ?case
  proof (cases "isHighSurrogate c \<and> isLowSurrogate d")
    case True
    then have "isScalar (65536 + (c - 55296) * 1024 + (d - 56320))"
      unfolding isScalar_def surrogate_defs by linarith
    with 3 s True show ?thesis by auto
  next
    case False
    then have "isScalar (if isHighSurrogate c \<or> isLowSurrogate c then 65533 else c)"
      using s(3) by (auto simp: isScalar_def surrogate_defs)
    with 3 s False show ?thesis by (auto split: if_splits)
  qed
qed simp

lemma isWellFormed_units: "isWellFormed s \<Longrightarrow> is_code_units s"
proof (induction s rule: isWellFormed.induct)
  case (3 c d s)
  then show ?case by (auto simp: is_code_units_def surrogate_defs split: if_splits)
qed (auto simp: is_code_units_def)

lemma codePoints_ascii: "\<forall>c\<in>set s. c < 128 \<Longrightarrow> codePoints s = s"
  by (induction s rule: codePoints.induct) (auto simp: surrogate_defs)

subsection \<open>UTF-8\<close>

definition utf8Bytes :: "nat \<Rightarrow> nat list" where
  "utf8Bytes p =
     (if p < 128 then [p]
      else if p < 2048 then [192 + p div 64, 128 + p mod 64]
      else if p < 65536 then [224 + p div 4096, 128 + p div 64 mod 64, 128 + p mod 64]
      else [240 + p div 262144, 128 + p div 4096 mod 64, 128 + p div 64 mod 64, 128 + p mod 64])"

definition utf8Encode :: "nat list \<Rightarrow> nat list" where
  "utf8Encode ps = concat (map utf8Bytes ps)"

text \<open>
  The decoder of the encoding standard: \<open>needed\<close> continuation bytes are missing for the
  code point \<open>cp\<close>, the next one must lie between \<open>lo\<close> and \<open>hi\<close>. A byte out of this range
  ends the sequence with U+FFFD and is read again.
\<close>

function utf8Decode :: "nat \<Rightarrow> nat \<Rightarrow> nat \<Rightarrow> nat \<Rightarrow> nat list \<Rightarrow> nat list" where
  "utf8Decode needed lo hi cp [] = (if needed = 0 then [] else [65533])"
| "utf8Decode needed lo hi cp (b # bs) =
     (if needed = 0 then
        (if b < 128 then b # utf8Decode 0 128 191 0 bs
         else if 194 \<le> b \<and> b \<le> 223 then utf8Decode 1 128 191 (b - 192) bs
         else if 224 \<le> b \<and> b \<le> 239 then
           utf8Decode 2 (if b = 224 then 160 else 128) (if b = 237 then 159 else 191) (b - 224) bs
         else if 240 \<le> b \<and> b \<le> 244 then
           utf8Decode 3 (if b = 240 then 144 else 128) (if b = 244 then 143 else 191) (b - 240) bs
         else 65533 # utf8Decode 0 128 191 0 bs)
      else if \<not> (lo \<le> b \<and> b \<le> hi) then 65533 # utf8Decode 0 128 191 0 (b # bs)
      else if needed = 1 then (cp * 64 + (b - 128)) # utf8Decode 0 128 191 0 bs
      else utf8Decode (needed - 1) 128 191 (cp * 64 + (b - 128)) bs)"
  by pat_completeness auto
termination
  by (relation "measures [\<lambda>(needed, lo, hi, cp, bs). length bs, \<lambda>(needed, lo, hi, cp, bs). needed]") auto

definition decodeUtf8 :: "nat list \<Rightarrow> nat list" where
  "decodeUtf8 bs = utf8Decode 0 128 191 0 bs"

lemma ex_base64: "\<exists>q r. (n::nat) = q * 64 + r \<and> r < 64"
  by (metis div_mult_mod_eq mod_less_divisor zero_less_numeral)

lemma split_base64:
  "\<exists>a b c d. (p::nat) = ((a * 64 + b) * 64 + c) * 64 + d \<and> b < 64 \<and> c < 64 \<and> d < 64"
  by (metis ex_base64)

lemma base64_div_mod:
  fixes q r :: nat
  assumes "r < 64"
  shows "(q * 64 + r) div 64 = q" "(q * 64 + r) mod 64 = r"
  using assms by auto

lemma utf8_four_parts:
  fixes a b c d :: nat
  assumes "b < 64" "c < 64" "d < 64"
  shows "(((a * 64 + b) * 64 + c) * 64 + d) div 262144 = a"
    "(((a * 64 + b) * 64 + c) * 64 + d) div 4096 = a * 64 + b"
    "(((a * 64 + b) * 64 + c) * 64 + d) div 64 = (a * 64 + b) * 64 + c"
    "(((a * 64 + b) * 64 + c) * 64 + d) mod 64 = d"
    "((a * 64 + b) * 64 + c) mod 64 = c" "(a * 64 + b) mod 64 = b"
proof -
  let ?p = "((a * 64 + b) * 64 + c) * 64 + d"
  show d64: "?p div 64 = (a * 64 + b) * 64 + c" by (rule base64_div_mod(1)[OF assms(3)])
  have "?p div 4096 = ?p div 64 div 64" by (simp only: div_mult2_eq[symmetric]) simp
  then show d4096: "?p div 4096 = a * 64 + b" by (simp only: d64 base64_div_mod(1)[OF assms(2)])
  have "?p div 262144 = ?p div 4096 div 64" by (simp only: div_mult2_eq[symmetric]) simp
  then show "?p div 262144 = a" by (simp only: d4096 base64_div_mod(1)[OF assms(1)])
qed (rule base64_div_mod(2)[OF assms(3)] base64_div_mod(2)[OF assms(2)] base64_div_mod(2)[OF assms(1)])+

lemma utf8Decode_bytes:
  assumes "isScalar p"
  shows "utf8Decode 0 128 191 0 (utf8Bytes p @ bs) = p # utf8Decode 0 128 191 0 bs"
proof -
  obtain a b c d where p: "p = ((a * 64 + b) * 64 + c) * 64 + d" and l: "b < 64" "c < 64" "d < 64"
    using split_base64 by blast
  note parts = utf8_four_parts[OF l, of a, folded p]
  have q: "p = 262144 * a + 4096 * b + 64 * c + d" using p by (simp add: algebra_simps)
  consider "p < 128" | "128 \<le> p" "p < 2048" | "2048 \<le> p" "p < 65536" | "65536 \<le> p" by linarith
  then show ?thesis
  proof cases
    case 1
    then show ?thesis by (simp add: utf8Bytes_def)
  next
    case 2
    have "a < 1" using 2 q by linarith
    then have a: "a = 0" by simp
    have "b < 1" using 2 q by linarith
    then have b: "b = 0" by simp
    have "2 \<le> c" using 2 q l a b by linarith
    moreover have "c < 32" using 2 q a b by linarith
    ultimately
    show ?thesis using 2 q l a b by (simp add: utf8Bytes_def parts)
  next
    case 3
    have "a < 1" using 3 q by linarith
    then have a: "a = 0" by simp
    have b: "b < 16" using 3 q by linarith
    have lo: "b = 0 \<Longrightarrow> 32 \<le> c" using 3 q l a by linarith
    have hi: "b = 13 \<Longrightarrow> c < 32" using 3 q l a assms unfolding isScalar_def by linarith
    have bs: "utf8Bytes p = [224 + b, 128 + c, 128 + d]" using 3 a l by (simp add: utf8Bytes_def parts)
    show ?thesis unfolding bs using l b lo hi p a by (cases "b = 0"; cases "b = 13") auto
  next
    case 4
    have a: "a \<le> 4" using q l assms unfolding isScalar_def by linarith
    have lo: "a = 0 \<Longrightarrow> 16 \<le> b" using 4 q l by linarith
    have hi: "a = 4 \<Longrightarrow> b < 16" using q l assms unfolding isScalar_def by linarith
    have "\<not> p < 128" "\<not> p < 2048" "\<not> p < 65536" using 4 by auto
    then have bs: "utf8Bytes p = [240 + a, 128 + b, 128 + c, 128 + d]"
      by (simp only: utf8Bytes_def parts if_False)
    show ?thesis unfolding bs using l a lo hi p by (cases "a = 0"; cases "a = 4") auto
  qed
qed

lemma decodeUtf8_encode: "\<forall>p\<in>set ps. isScalar p \<Longrightarrow> decodeUtf8 (utf8Encode ps) = ps"
  unfolding decodeUtf8_def utf8Encode_def by (induction ps) (auto simp: utf8Decode_bytes)

lemma utf8Bytes_byte: "isScalar p \<Longrightarrow> b \<in> set (utf8Bytes p) \<Longrightarrow> b < 256"
  by (auto simp: utf8Bytes_def isScalar_def split: if_splits)

lemma utf8Encode_ascii: "\<forall>p\<in>set ps. p < 128 \<Longrightarrow> utf8Encode ps = ps"
  unfolding utf8Encode_def by (induction ps) (auto simp: utf8Bytes_def)

subsection \<open>Percent encoding\<close>

definition hexDigit :: "nat \<Rightarrow> jchar" where
  "hexDigit n = (if n < 10 then 48 + n else 55 + n)"

definition hexValue :: "jchar \<Rightarrow> nat option" where
  "hexValue c =
     (if 48 \<le> c \<and> c \<le> 57 then Some (c - 48)
      else if 65 \<le> c \<and> c \<le> 70 then Some (c - 55)
      else if 97 \<le> c \<and> c \<le> 102 then Some (c - 87)
      else None)"

definition percentByte :: "nat \<Rightarrow> jstring" where
  "percentByte b = [37, hexDigit (b div 16), hexDigit (b mod 16)]"

fun percentDecode :: "nat list \<Rightarrow> nat list" where
  "percentDecode (b # h # l # bs) =
     (if b = 37 then
        (case (hexValue h, hexValue l) of
           (Some x, Some y) \<Rightarrow> (16 * x + y) # percentDecode bs
         | _ \<Rightarrow> b # percentDecode (h # l # bs))
      else b # percentDecode (h # l # bs))"
| "percentDecode [b, h] = [b, h]"
| "percentDecode [b] = [b]"
| "percentDecode [] = []"

definition isAlnum :: "jchar \<Rightarrow> bool" where
  "isAlnum c \<longleftrightarrow> (48 \<le> c \<and> c \<le> 57) \<or> (65 \<le> c \<and> c \<le> 90) \<or> (97 \<le> c \<and> c \<le> 122)"

text \<open>The serializer of the form encoding: a space is a plus sign.\<close>

definition formByte :: "nat \<Rightarrow> jstring" where
  "formByte b =
     (if b = 32 then [43]
      else if isAlnum b \<or> b = 42 \<or> b = 45 \<or> b = 46 \<or> b = 95 then [b]
      else percentByte b)"

definition formEncode :: "jstring \<Rightarrow> jstring" where
  "formEncode s = concat (map formByte (utf8Encode (codePoints s)))"

definition plusToSpace :: "nat list \<Rightarrow> nat list" where
  "plusToSpace bs = map (\<lambda>b. if b = 43 then 32 else b) bs"

definition formDecode :: "nat list \<Rightarrow> jstring" where
  "formDecode bs = fromCodePoints (decodeUtf8 (percentDecode (plusToSpace bs)))"

text \<open>\<open>encodeURIComponent\<close> throws on a lone surrogate.\<close>

definition isUnreserved :: "jchar \<Rightarrow> bool" where
  "isUnreserved c \<longleftrightarrow> isAlnum c \<or> c \<in> set (js ''-_.!~*()'') \<or> c = 39"

definition encodeURIComponent :: "jstring \<Rightarrow> jstring option" where
  "encodeURIComponent s =
     (if isWellFormed s
      then Some (concat (map (\<lambda>b. if isUnreserved b then [b] else percentByte b) (utf8Encode (codePoints s))))
      else None)"

lemma hexValue_hexDigit [simp]: "n < 16 \<Longrightarrow> hexValue (hexDigit n) = Some n"
  by (auto simp: hexValue_def hexDigit_def)

lemma percentDecode_percentByte:
  assumes "b < 256"
  shows "percentDecode (percentByte b @ bs) = b # percentDecode bs"
proof -
  have "b div 16 < 16" using assms by simp
  then show ?thesis by (simp add: percentByte_def)
qed

lemma percentDecode_plain: "b \<noteq> 37 \<Longrightarrow> percentDecode (b # bs) = b # percentDecode bs"
proof (cases bs)
  case (Cons h t)
  then show "b \<noteq> 37 \<Longrightarrow> ?thesis" by (cases t) auto
qed simp

lemma formByte_not_special:
  assumes "c \<in> set (formByte b)" "b < 256"
  shows "c < 128 \<and> c \<noteq> 38 \<and> c \<noteq> 61 \<and> c \<noteq> 63 \<and> \<not> isWhite c"
proof -
  have "hexDigit n \<in> {48..57} \<union> {65..70}" if "n < 16" for n using that by (auto simp: hexDigit_def)
  moreover have "b div 16 < 16" "b mod 16 < 16" using assms(2) by auto
  ultimately have "hexDigit (b div 16) \<in> {48..57} \<union> {65..70}" "hexDigit (b mod 16) \<in> {48..57} \<union> {65..70}"
    by blast+
  moreover have "c = 37 \<or> c = hexDigit (b div 16) \<or> c = hexDigit (b mod 16) \<or> c = 43 \<or>
      isAlnum c \<or> c = 42 \<or> c = 45 \<or> c = 46 \<or> c = 95"
    using assms(1) unfolding formByte_def percentByte_def by (simp split: if_splits) blast+
  ultimately have "c = 37 \<or> c \<in> {48..57} \<union> {65..90} \<union> {97..122} \<or> c = 43 \<or> c = 42 \<or> c = 45 \<or> c = 46 \<or> c = 95"
    by (auto simp: isAlnum_def)
  then show ?thesis by (auto simp: isWhite_def)
qed

lemma plusToSpace_percentByte [simp]: "b < 256 \<Longrightarrow> plusToSpace (percentByte b) = percentByte b"
  by (auto simp: plusToSpace_def percentByte_def hexDigit_def)

lemma plusToSpace_append [simp]: "plusToSpace (x @ y) = plusToSpace x @ plusToSpace y"
  by (simp add: plusToSpace_def)

lemma formByte_decode:
  assumes "b < 256"
  shows "percentDecode (plusToSpace (formByte b) @ bs) = b # percentDecode bs"
proof -
  consider "formByte b = percentByte b" | "b = 32" "formByte b = [43]" | "b \<noteq> 43" "b \<noteq> 37" "formByte b = [b]"
    by (cases "b = 32"; cases "isAlnum b \<or> b = 42 \<or> b = 45 \<or> b = 46 \<or> b = 95")
      (auto simp: formByte_def isAlnum_def)
  then show ?thesis
  proof cases
    case 1
    then show ?thesis using assms by (simp add: percentDecode_percentByte)
  qed (simp_all add: plusToSpace_def percentDecode_plain)
qed

lemma formBytes_decode:
  "\<forall>b\<in>set bs. b < 256 \<Longrightarrow> percentDecode (plusToSpace (concat (map formByte bs))) = bs"
  by (induction bs) (auto simp: formByte_decode plusToSpace_def[of "[]"])

lemma utf8Encode_bytes: "is_code_units s \<Longrightarrow> b \<in> set (utf8Encode (codePoints s)) \<Longrightarrow> b < 256"
  using codePoints_scalar utf8Bytes_byte by (fastforce simp: utf8Encode_def)

lemma formDecode_formEncode:
  assumes "isWellFormed s"
  shows "formDecode (formEncode s) = s"
proof -
  have u: "is_code_units s" using assms by (rule isWellFormed_units)
  then have "\<forall>b\<in>set (utf8Encode (codePoints s)). b < 256" using utf8Encode_bytes by blast
  moreover have "\<forall>p\<in>set (codePoints s). isScalar p" using u codePoints_scalar by blast
  ultimately show ?thesis
    using assms by (simp add: formDecode_def formEncode_def formBytes_decode decodeUtf8_encode
        fromCodePoints_codePoints)
qed

lemma formEncode_chars:
  assumes "is_code_units s" "c \<in> set (formEncode s)"
  shows "c < 128 \<and> c \<noteq> 38 \<and> c \<noteq> 61 \<and> c \<noteq> 63 \<and> \<not> isWhite c"
  using assms formByte_not_special utf8Encode_bytes by (fastforce simp: formEncode_def)

subsection \<open>\<open>URLSearchParams\<close>\<close>

type_synonym search_params = "(jstring \<times> jstring) list"

text \<open>\<open>set\<close> replaces the first value of the key and drops the others, or appends.\<close>

fun params_set :: "jstring \<Rightarrow> jstring \<Rightarrow> search_params \<Rightarrow> search_params" where
  "params_set k v [] = [(k, v)]"
| "params_set k v ((k', v') # ps) =
     (if k' = k then (k, v) # filter (\<lambda>(x, _). x \<noteq> k) ps else (k', v') # params_set k v ps)"

definition params_get :: "jstring \<Rightarrow> search_params \<Rightarrow> jstring option" where
  "params_get k ps = map_of ps k"

definition params_toString :: "search_params \<Rightarrow> jstring" where
  "params_toString ps = join [38] (map (\<lambda>(k, v). formEncode k @ 61 # formEncode v) ps)"

fun splitOn :: "nat \<Rightarrow> nat list \<Rightarrow> nat list list" where
  "splitOn sep [] = [[]]"
| "splitOn sep (x # xs) =
     (if x = sep then [] # splitOn sep xs
      else (case splitOn sep xs of [] \<Rightarrow> [[x]] | p # ps \<Rightarrow> (x # p) # ps))"

definition parsePair :: "nat list \<Rightarrow> jstring \<times> jstring" where
  "parsePair bs =
     (case indexOf bs 61 of
        None \<Rightarrow> (formDecode bs, formDecode [])
      | Some i \<Rightarrow> (formDecode (take i bs), formDecode (drop (Suc i) bs)))"

definition params_parse :: "jstring \<Rightarrow> search_params" where
  "params_parse s =
     (let t = (case s of [] \<Rightarrow> [] | c # r \<Rightarrow> if c = 63 then r else s) in
      map parsePair (filter (\<lambda>p. p \<noteq> []) (splitOn 38 (utf8Encode (codePoints t)))))"

lemma splitOn_nonempty [simp]: "splitOn sep xs \<noteq> []"
  by (induction xs) (auto split: list.splits)

lemma splitOn_single: "sep \<notin> set xs \<Longrightarrow> splitOn sep xs = [xs]"
  by (induction xs) auto

lemma splitOn_append: "sep \<notin> set xs \<Longrightarrow> splitOn sep (xs @ sep # ys) = xs # splitOn sep ys"
  by (induction xs) auto

lemma splitOn_join:
  "ps \<noteq> [] \<Longrightarrow> \<forall>p\<in>set ps. sep \<notin> set p \<Longrightarrow> splitOn sep (join [sep] ps) = ps"
  by (induction ps rule: induct_list012) (auto simp: splitOn_single splitOn_append)

lemma set_join: "set (join sep ps) \<subseteq> set sep \<union> (\<Union>p\<in>set ps. set p)"
  by (induction ps rule: induct_list012) auto

lemma parsePair_encoded:
  assumes "isWellFormed k" "isWellFormed v"
  shows "parsePair (formEncode k @ 61 # formEncode v) = (k, v)"
proof -
  have "61 \<notin> set (formEncode k)" using formEncode_chars[OF isWellFormed_units[OF assms(1)]] by blast
  then have "indexOf (formEncode k @ 61 # formEncode v) 61 = Some (length (formEncode k))"
    by (rule indexOf_append_stop)
  then show ?thesis using assms by (simp add: parsePair_def formDecode_formEncode)
qed

definition wf_params :: "search_params \<Rightarrow> bool" where
  "wf_params ps \<longleftrightarrow> (\<forall>(k, v)\<in>set ps. isWellFormed k \<and> isWellFormed v)"

lemma params_toString_chars:
  assumes "wf_params ps" "c \<in> set (params_toString ps)"
  shows "c < 128 \<and> c \<noteq> 63 \<and> \<not> isWhite c"
proof -
  have c38: "\<not> isWhite 38" and c61: "\<not> isWhite 61" by (simp_all add: isWhite_def)
  from assms(2) consider "c = 38" | k v where "(k, v) \<in> set ps" "c \<in> set (formEncode k @ 61 # formEncode v)"
    using set_join[of "[38]" "map (\<lambda>(k, v). formEncode k @ 61 # formEncode v) ps"]
    by (auto simp: params_toString_def)
  then show ?thesis
  proof cases
    case 1
    then show ?thesis using c38 by simp
  next
    case 2
    then have "is_code_units k" "is_code_units v" using assms(1) isWellFormed_units by (auto simp: wf_params_def)
    with 2 c61 show ?thesis using formEncode_chars by auto
  qed
qed

lemma params_roundtrip:
  assumes "wf_params ps"
  shows "params_parse (params_toString ps) = ps"
proof (cases "ps = []")
  case True
  then show ?thesis by (simp add: params_parse_def params_toString_def utf8Encode_def)
next
  case False
  let ?enc = "\<lambda>(k, v). formEncode k @ 61 # formEncode v"
  let ?t = "params_toString ps"
  have ascii: "\<forall>c\<in>set ?t. c < 128" and no63: "63 \<notin> set ?t"
    using params_toString_chars[OF assms] by blast+
  have strip: "(case ?t of [] \<Rightarrow> [] | c # r \<Rightarrow> if c = 63 then r else ?t) = ?t"
    using no63 by (cases ?t) auto
  have "38 \<notin> set (?enc kv)" if "kv \<in> set ps" for kv
    using that assms formEncode_chars isWellFormed_units by (fastforce simp: wf_params_def)
  then have "splitOn 38 ?t = map ?enc ps"
    unfolding params_toString_def using False by (intro splitOn_join) auto
  then have "params_parse ?t = map parsePair (filter (\<lambda>p. p \<noteq> []) (map ?enc ps))"
    by (simp add: params_parse_def strip codePoints_ascii[OF ascii] utf8Encode_ascii[OF ascii])
  also have "filter (\<lambda>p. p \<noteq> []) (map ?enc ps) = map ?enc ps" by (auto intro!: filter_True)
  also have "map parsePair (map ?enc ps) = ps"
    using assms by (auto simp: wf_params_def parsePair_encoded intro!: map_idI)
  finally show ?thesis .
qed

lemma join_eq_Nil: "join sep ps = [] \<Longrightarrow> \<forall>p\<in>set ps. p \<noteq> [] \<Longrightarrow> ps = []"
  by (induction ps rule: induct_list012) auto

lemma params_toString_eq_Nil [simp]: "params_toString ps = [] \<longleftrightarrow> ps = []"
proof
  assume "params_toString ps = []"
  then have "map (\<lambda>(k, v). formEncode k @ 61 # formEncode v) ps = []"
    unfolding params_toString_def by (rule join_eq_Nil) auto
  then show "ps = []" by simp
qed (simp add: params_toString_def)

lemma isWellFormed_ascii: "\<forall>c\<in>set s. c < 128 \<Longrightarrow> isWellFormed s"
  by (induction s rule: isWellFormed.induct) (auto simp: surrogate_defs)

end
