(* ===== verification/Bip21.thy ===== *)
theory Bip21
  imports JsRegex JsNumber UrlEncoding WalletErrors
begin

text \<open>
  Payment URIs: \<open>soulon-wallet/src/core/bip21.ts\<close> and the form layer of the web
  application on top of it, \<open>wallet-app/src/lib/bip21.ts\<close>. The main facts are the two
  round trips between \<open>generateBip21Uri\<close> and \<open>parseBip21Uri\<close>.
\<close>

definition BIP21_INVALID_URI :: jstring where "BIP21_INVALID_URI = js ''BIP21_INVALID_URI''"
definition BIP21_INVALID_SCHEME :: jstring where "BIP21_INVALID_SCHEME = js ''BIP21_INVALID_SCHEME''"
definition BIP21_INVALID_ADDRESS :: jstring where "BIP21_INVALID_ADDRESS = js ''BIP21_INVALID_ADDRESS''"
definition BIP21_INVALID_AMOUNT :: jstring where "BIP21_INVALID_AMOUNT = js ''BIP21_INVALID_AMOUNT''"

lemmas bip21_code_defs = BIP21_INVALID_URI_def BIP21_INVALID_SCHEME_def BIP21_INVALID_ADDRESS_def
  BIP21_INVALID_AMOUNT_def

record GenerateBip21UriInput =
  gen_address :: jstring
  gen_amount :: "jstring option"
  gen_memo :: "jstring option"
  gen_scheme :: "jstring option"

record ParsedBip21Uri =
  uri_scheme :: jstring
  uri_address :: jstring
  uri_amount :: "jstring option"
  uri_memo :: "jstring option"

text \<open>\<open>/^(?:0|[1-9]\\d*)(?:\\.\\d+)?$/\<close>\<close>

definition DECIMAL_AMOUNT_REGEX :: rx where
  "DECIMAL_AMOUNT_REGEX =
     Cat (Alt (chr 48) (Cat (Class [(49, 57)]) (Star (Class [(48, 57)]))))
       (opt (Cat (chr 46) (repPlus (Class [(48, 57)]))))"

text \<open>\<open>/^[a-z][a-z0-9+.-]*$/\<close>\<close>

definition SCHEME_REGEX :: rx where
  "SCHEME_REGEX =
     Cat (Class [(97, 122)]) (Star (Class [(97, 122), (48, 57), (43, 43), (46, 46), (45, 45)]))"

text \<open>\<open>/[\\s?#]/\<close>, an expression without anchors that matches one character of the text.\<close>

definition ADDRESS_INVALID_CHAR :: "jchar \<Rightarrow> bool" where
  "ADDRESS_INVALID_CHAR c \<longleftrightarrow> isWhite c \<or> c = 63 \<or> c = 35"

definition normalizeNonEmptyBip21 :: "jstring \<Rightarrow> jstring \<Rightarrow> jstring \<Rightarrow> (thrown, jstring) result" where
  "normalizeNonEmptyBip21 v c m =
     (let normalized = trim v in if normalized = [] then throwWallet c m else Inr normalized)"

definition validateScheme :: "jstring \<Rightarrow> (thrown, jstring) result" where
  "validateScheme scheme =
     ebind (normalizeNonEmptyBip21 scheme BIP21_INVALID_SCHEME (js ''BIP-21 scheme is required''))
       (\<lambda>normalized. let normalizedScheme = toLowerCase normalized in
          if \<not> rx_test SCHEME_REGEX normalizedScheme
          then throwWallet BIP21_INVALID_SCHEME (js ''BIP-21 scheme is invalid'')
          else Inr normalizedScheme)"

definition validateAddress :: "jstring \<Rightarrow> (thrown, jstring) result" where
  "validateAddress address =
     ebind (normalizeNonEmptyBip21 address BIP21_INVALID_ADDRESS (js ''BIP-21 address is required''))
       (\<lambda>normalizedAddress.
          if list_ex ADDRESS_INVALID_CHAR normalizedAddress
          then throwWallet BIP21_INVALID_ADDRESS (js ''BIP-21 address is invalid'')
          else Inr normalizedAddress)"

definition validateAmountBip21 :: "jstring \<Rightarrow> (thrown, jstring) result" where
  "validateAmountBip21 amount =
     ebind (normalizeNonEmptyBip21 amount BIP21_INVALID_AMOUNT (js ''BIP-21 amount is required''))
       (\<lambda>normalizedAmount.
          if \<not> rx_test DECIMAL_AMOUNT_REGEX normalizedAmount \<or> decimalNumberLeZero normalizedAmount
          then throwWallet BIP21_INVALID_AMOUNT (js ''BIP-21 amount is invalid'')
          else Inr normalizedAmount)"

definition setAmount :: "jstring option \<Rightarrow> search_params \<Rightarrow> (thrown, search_params) result" where
  "setAmount amount ps =
     (case amount of
        None \<Rightarrow> Inr ps
      | Some a \<Rightarrow> ebind (validateAmountBip21 a) (\<lambda>v. Inr (params_set (js ''amount'') v ps)))"

definition setMemo :: "jstring option \<Rightarrow> search_params \<Rightarrow> search_params" where
  "setMemo memo ps =
     (case memo of
        None \<Rightarrow> ps
      | Some m \<Rightarrow> let normalizedMemo = trim m in
          if normalizedMemo \<noteq> [] then params_set (js ''memo'') normalizedMemo ps else ps)"

definition generateBip21Uri :: "GenerateBip21UriInput \<Rightarrow> (thrown, jstring) result" where
  "generateBip21Uri input =
     ebind (validateScheme (nullish (gen_scheme input) (js ''bitcoin''))) (\<lambda>scheme.
     ebind (validateAddress (gen_address input)) (\<lambda>address.
     ebind (setAmount (gen_amount input) []) (\<lambda>withAmount.
       let searchParams = setMemo (gen_memo input) withAmount;
           query = params_toString searchParams
       in if query = [] then Inr (scheme @ js '':'' @ address)
          else Inr (scheme @ js '':'' @ address @ js ''?'' @ query))))"

definition parseQuery :: "ParsedBip21Uri \<Rightarrow> jstring \<Rightarrow> (thrown, ParsedBip21Uri) result" where
  "parseQuery parsed query =
     (let searchParams = params_parse query in
      ebind (case params_get (js ''amount'') searchParams of
               None \<Rightarrow> Inr parsed
             | Some amount \<Rightarrow>
                 ebind (validateAmountBip21 amount) (\<lambda>v. Inr (parsed\<lparr>uri_amount := Some v\<rparr>)))
        (\<lambda>parsed.
          let memo = (case params_get (js ''memo'') searchParams of
                        None \<Rightarrow> params_get (js ''message'') searchParams
                      | Some m \<Rightarrow> Some m)
          in case memo of
               None \<Rightarrow> Inr parsed
             | Some m \<Rightarrow> let normalizedMemo = trim m in
                 if normalizedMemo \<noteq> [] then Inr (parsed\<lparr>uri_memo := Some normalizedMemo\<rparr>)
                 else Inr parsed))"

definition parsePayload :: "jstring \<Rightarrow> jstring \<Rightarrow> (thrown, ParsedBip21Uri) result" where
  "parsePayload scheme payload =
     (let queryIndex = indexOf payload 63;
          addressSegment = (case queryIndex of Some i \<Rightarrow> take i payload | None \<Rightarrow> payload)
      in ebind (validateAddress addressSegment) (\<lambda>address.
           let parsed = \<lparr>uri_scheme = scheme, uri_address = address, uri_amount = None, uri_memo = None\<rparr>
           in case queryIndex of
                None \<Rightarrow> Inr parsed
              | Some i \<Rightarrow> parseQuery parsed (drop (Suc i) payload)))"

definition parseBip21Uri :: "jstring \<Rightarrow> (thrown, ParsedBip21Uri) result" where
  "parseBip21Uri uri =
     ebind (normalizeNonEmptyBip21 uri BIP21_INVALID_URI (js ''BIP-21 URI is required''))
       (\<lambda>normalizedUri.
          case indexOf normalizedUri 58 of
            None \<Rightarrow> throwWallet BIP21_INVALID_URI (js ''BIP-21 URI is invalid'')
          | Some i \<Rightarrow>
              if i = 0 then throwWallet BIP21_INVALID_URI (js ''BIP-21 URI is invalid'')
              else ebind (validateScheme (take i normalizedUri)) (\<lambda>scheme.
                let payload = drop (Suc i) normalizedUri in
                if payload = [] then throwWallet BIP21_INVALID_URI (js ''BIP-21 URI is invalid'')
                else parsePayload scheme payload))"

subsection \<open>The form layer of the web application\<close>

record Bip21FormInput =
  form_address :: jstring
  form_amount :: jstring
  form_memo :: jstring

definition BIP21_ERROR_LABELS :: "(jstring \<times> jstring) list" where
  "BIP21_ERROR_LABELS =
     [(BIP21_INVALID_URI, js ''URI '' @ [26684, 24335, 26080, 25928]),
      (BIP21_INVALID_SCHEME, [21327, 35758, 22836, 26080, 25928]),
      (BIP21_INVALID_ADDRESS, [22320, 22336, 26080, 25928]),
      (BIP21_INVALID_AMOUNT, [37329, 39069, 26080, 25928])]"

definition BIP21_UI_PREFIX :: jstring where
  "BIP21_UI_PREFIX = js ''BIP-21 '' @ [36755, 20837, 26377, 35823, 65306]"

text \<open>
  \<open>code in LABELS\<close> also finds the names every object inherits (\<open>toString\<close> and the like);
  \<open>inherited\<close> gives the string form of the inherited value under a name, if there is one.
\<close>

definition buildUiErrorMessage :: "(jstring \<rightharpoonup> jstring) \<Rightarrow> jstring \<Rightarrow> jstring \<Rightarrow> jstring" where
  "buildUiErrorMessage inherited c fallback =
     (case map_of BIP21_ERROR_LABELS c of
        Some label \<Rightarrow> BIP21_UI_PREFIX @ label
      | None \<Rightarrow> (case inherited c of
                   Some v \<Rightarrow> BIP21_UI_PREFIX @ v
                 | None \<Rightarrow> BIP21_UI_PREFIX @ fallback))"

definition toUnifiedBip21Error :: "(jstring \<rightharpoonup> jstring) \<Rightarrow> thrown \<Rightarrow> jstring" where
  "toUnifiedBip21Error inherited err =
     (case err of
        ThrownWallet e \<Rightarrow> buildUiErrorMessage inherited (code e) (message e)
      | ThrownError m \<Rightarrow> buildUiErrorMessage inherited (js ''UNKNOWN'') m
      | ThrownValue v \<Rightarrow> buildUiErrorMessage inherited (js ''UNKNOWN'') ([26410, 30693, 38169, 35823]))"

definition createBip21PaymentUri :: "Bip21FormInput \<Rightarrow> (thrown, jstring) result" where
  "createBip21PaymentUri input =
     generateBip21Uri
       \<lparr>gen_address = form_address input,
        gen_amount = (if trim (form_amount input) \<noteq> [] then Some (form_amount input) else None),
        gen_memo = (if trim (form_memo input) \<noteq> [] then Some (form_memo input) else None),
        gen_scheme = None\<rparr>"

definition parseBip21Input :: "jstring \<Rightarrow> (thrown, Bip21FormInput) result" where
  "parseBip21Input uri =
     ebind (parseBip21Uri uri) (\<lambda>parsed. Inr
       \<lparr>form_address = uri_address parsed,
        form_amount = nullish (uri_amount parsed) [],
        form_memo = nullish (uri_memo parsed) []\<rparr>)"

subsection \<open>The validators\<close>

lemma in_scheme_class:
  "in_class [(97, 122), (48, 57), (43, 43), (46, 46), (45, 45)] c \<longleftrightarrow>
     (97 \<le> c \<and> c \<le> 122) \<or> (48 \<le> c \<and> c \<le> 57) \<or> c = 43 \<or> c = 46 \<or> c = 45"
  by (auto simp: in_class_def)

lemma in_class_letter: "in_class [(97, 122)] c \<longleftrightarrow> 97 \<le> c \<and> c \<le> 122"
  by (simp add: in_class_def)

lemma scheme_regex_chars:
  assumes "rx_test SCHEME_REGEX s"
  shows "s \<noteq> []" "c \<in> set s \<Longrightarrow> \<not> isWhite c \<and> c \<noteq> 58 \<and> lowerUnit c = [c]"
proof -
  obtain a w where s: "s = a # w" "97 \<le> a" "a \<le> 122"
    "\<forall>c\<in>set w. (97 \<le> c \<and> c \<le> 122) \<or> (48 \<le> c \<and> c \<le> 57) \<or> c = 43 \<or> c = 46 \<or> c = 45"
    using assms by (auto simp: rx_test_iff SCHEME_REGEX_def cat_class_lang in_scheme_class in_class_letter)
  then show "s \<noteq> []" by simp
  show "\<not> isWhite c \<and> c \<noteq> 58 \<and> lowerUnit c = [c]" if "c \<in> set s"
  proof -
    have "(97 \<le> c \<and> c \<le> 122) \<or> (48 \<le> c \<and> c \<le> 57) \<or> c = 43 \<or> c = 46 \<or> c = 45" using s that by auto
    then have range: "33 \<le> c" "c \<le> 122" "c \<noteq> 58" "\<not> (65 \<le> c \<and> c \<le> 90)" by linarith+
    then have "\<not> isWhite c" unfolding isWhite_def by linarith
    moreover have "lowerUnit c = [c]" using range by (simp add: lowerUnit_def)
    ultimately show ?thesis using range by simp
  qed
qed

lemma validateScheme_Inr:
  "validateScheme s = Inr t \<longleftrightarrow> trim s \<noteq> [] \<and> t = toLowerCase (trim s) \<and> rx_test SCHEME_REGEX t"
  by (cases "trim s = []") (auto simp: validateScheme_def normalizeNonEmptyBip21_def Let_def)

lemma validateScheme_fixed:
  assumes "validateScheme s = Inr t"
  shows "validateScheme t = Inr t"
proof -
  have r: "rx_test SCHEME_REGEX t" using assms by (auto simp: validateScheme_Inr)
  have "trim t = t" using scheme_regex_chars(2)[OF r] by (intro trim_id trimmed_no_white) blast
  moreover have "toLowerCase t = t" using scheme_regex_chars(2)[OF r] by (intro toLowerCase_fixed) blast
  ultimately show ?thesis using r scheme_regex_chars(1)[OF r] by (simp add: validateScheme_Inr)
qed

lemma validateAddress_Inr:
  "validateAddress s = Inr t \<longleftrightarrow> t = trim s \<and> t \<noteq> [] \<and> (\<forall>c\<in>set t. \<not> ADDRESS_INVALID_CHAR c)"
  by (cases "trim s = []") (auto simp: validateAddress_def normalizeNonEmptyBip21_def Let_def list_ex_iff)

lemma validateAmountBip21_Inr:
  "validateAmountBip21 s = Inr t \<longleftrightarrow>
     t = trim s \<and> t \<noteq> [] \<and> rx_test DECIMAL_AMOUNT_REGEX t \<and> \<not> decimalNumberLeZero t"
  by (cases "trim s = []") (auto simp: validateAmountBip21_def normalizeNonEmptyBip21_def Let_def)

lemma validateAddress_fixed: "validateAddress s = Inr t \<Longrightarrow> validateAddress t = Inr t"
  by (auto simp: validateAddress_Inr)

lemma validateAmount_fixed: "validateAmountBip21 s = Inr t \<Longrightarrow> validateAmountBip21 t = Inr t"
  by (auto simp: validateAmountBip21_Inr)

lemma amount_regex_chars:
  assumes "rx_test DECIMAL_AMOUNT_REGEX t" "c \<in> set t"
  shows "isDigit c \<or> c = 46"
  using assms
  by (auto simp: rx_test_iff DECIMAL_AMOUNT_REGEX_def opt_def chr_def cat_class_lang repPlus_class_lang
      in_class_def isDigit_def)

lemma amount_wellformed: "rx_test DECIMAL_AMOUNT_REGEX t \<Longrightarrow> isWellFormed t"
  by (rule isWellFormed_ascii) (auto dest: amount_regex_chars simp: isDigit_def)

subsection \<open>Reading a composed URI\<close>

definition bip21_text :: "jstring \<Rightarrow> jstring \<Rightarrow> search_params \<Rightarrow> jstring" where
  "bip21_text scheme address ps =
     scheme @ 58 # address @ (if ps = [] then [] else 63 # params_toString ps)"

lemma trim_bip21_text:
  assumes "rx_test SCHEME_REGEX scheme" "\<forall>c\<in>set address. \<not> ADDRESS_INVALID_CHAR c" "wf_params ps"
  shows "trim (bip21_text scheme address ps) = bip21_text scheme address ps"
proof (intro trim_id trimmed_no_white ballI)
  fix c
  assume "c \<in> set (bip21_text scheme address ps)"
  then consider "c \<in> set scheme" | "c = 58" | "c \<in> set address" | "c = 63" | "c \<in> set (params_toString ps)"
    by (auto simp: bip21_text_def split: if_splits)
  then show "\<not> isWhite c"
    using scheme_regex_chars(2)[OF assms(1)] assms(2) params_toString_chars[OF assms(3)]
    by cases (auto simp: ADDRESS_INVALID_CHAR_def isWhite_def)
qed

lemma parse_composed:
  assumes s: "validateScheme s0 = Inr scheme" and a: "validateAddress a0 = Inr address"
    and ps: "wf_params ps"
  shows "parseBip21Uri (bip21_text scheme address ps) =
    (let parsed = \<lparr>uri_scheme = scheme, uri_address = address, uri_amount = None, uri_memo = None\<rparr>
     in if ps = [] then Inr parsed else parseQuery parsed (params_toString ps))"
proof -
  have r: "rx_test SCHEME_REGEX scheme" using s by (auto simp: validateScheme_Inr)
  have ac: "address \<noteq> []" "\<forall>c\<in>set address. \<not> ADDRESS_INVALID_CHAR c"
    using a by (auto simp: validateAddress_Inr)
  have "58 \<notin> set scheme" using scheme_regex_chars(2)[OF r] by blast
  then have i: "indexOf (bip21_text scheme address ps) 58 = Some (length scheme)"
    unfolding bip21_text_def by (rule indexOf_append_stop)
  have "63 \<notin> set address" using ac(2) by (auto simp: ADDRESS_INVALID_CHAR_def)
  then have q: "indexOf (address @ (if ps = [] then [] else 63 # params_toString ps)) 63 =
      (if ps = [] then None else Some (length address))"
    by (auto simp: indexOf_append_stop indexOf_None)
  have "bip21_text scheme address ps \<noteq> []" by (simp add: bip21_text_def)
  then have "parseBip21Uri (bip21_text scheme address ps) =
      ebind (validateScheme (take (length scheme) (bip21_text scheme address ps))) (\<lambda>scheme'.
        let payload = drop (Suc (length scheme)) (bip21_text scheme address ps) in
        if payload = [] then throwWallet BIP21_INVALID_URI (js ''BIP-21 URI is invalid'')
        else parsePayload scheme' payload)"
    using scheme_regex_chars(1)[OF r]
    by (simp add: parseBip21Uri_def normalizeNonEmptyBip21_def trim_bip21_text[OF r ac(2) ps] i)
  also have "\<dots> = parsePayload scheme (address @ (if ps = [] then [] else 63 # params_toString ps))"
    using ac(1) validateScheme_fixed[OF s] by (simp add: bip21_text_def)
  finally show ?thesis
    using validateAddress_fixed[OF a] q by (simp add: parsePayload_def)
qed

definition bip21_params :: "jstring option \<Rightarrow> jstring option \<Rightarrow> search_params" where
  "bip21_params amount memo =
     (case amount of None \<Rightarrow> [] | Some a \<Rightarrow> [(js ''amount'', a)])
       @ (case memo of None \<Rightarrow> [] | Some m \<Rightarrow> [(js ''memo'', m)])"

definition trimmedMemo :: "jstring option \<Rightarrow> jstring option" where
  "trimmedMemo memo = (case memo of None \<Rightarrow> None | Some m \<Rightarrow> if trim m = [] then None else Some (trim m))"

lemma setMemo_params: "setMemo memo (bip21_params amount None) = bip21_params amount (trimmedMemo memo)"
  by (auto simp: setMemo_def bip21_params_def trimmedMemo_def Let_def split: option.splits)

lemma setAmount_params:
  "setAmount amount [] = Inr ps \<longleftrightarrow>
     ps = bip21_params (map_option trim amount) None \<and> (\<forall>a. amount = Some a \<longrightarrow> validateAmountBip21 a = Inr (trim a))"
  by (auto simp: setAmount_def bip21_params_def ebind_eq_Inr validateAmountBip21_Inr split: option.splits)

lemma generate_Inr:
  "generateBip21Uri input = Inr uri \<longleftrightarrow>
     (\<exists>scheme address. validateScheme (nullish (gen_scheme input) (js ''bitcoin'')) = Inr scheme \<and>
        validateAddress (gen_address input) = Inr address \<and>
        (\<forall>a. gen_amount input = Some a \<longrightarrow> validateAmountBip21 a = Inr (trim a)) \<and>
        uri = bip21_text scheme address
          (bip21_params (map_option trim (gen_amount input)) (trimmedMemo (gen_memo input))))"
  unfolding generateBip21Uri_def ebind_eq_Inr setAmount_params
  by (auto simp: Let_def setMemo_params bip21_text_def)

lemma wf_keys: "isWellFormed (js ''amount'')" "isWellFormed (js ''memo'')"
  by (simp_all add: surrogate_defs)

lemma parseQuery_params:
  assumes "\<And>a. amount = Some a \<Longrightarrow> validateAmountBip21 a = Inr a \<and> isWellFormed a"
    and "\<And>m. memo = Some m \<Longrightarrow> trim m = m \<and> m \<noteq> [] \<and> isWellFormed m"
  shows "wf_params (bip21_params amount memo)"
    "uri_amount parsed = None \<Longrightarrow> uri_memo parsed = None \<Longrightarrow>
     parseQuery parsed (params_toString (bip21_params amount memo)) =
       Inr (parsed\<lparr>uri_amount := amount, uri_memo := memo\<rparr>)"
proof -
  show wf: "wf_params (bip21_params amount memo)"
    using assms wf_keys by (cases amount; cases memo) (simp_all add: wf_params_def bip21_params_def del: js_Cons)
  show "parseQuery parsed (params_toString (bip21_params amount memo)) =
       Inr (parsed\<lparr>uri_amount := amount, uri_memo := memo\<rparr>)"
    if "uri_amount parsed = None" "uri_memo parsed = None"
    unfolding parseQuery_def params_roundtrip[OF wf]
    using assms that
    by (cases amount; cases memo) (simp_all add: bip21_params_def params_get_def)
qed

lemma trimmedMemo_Some: "trimmedMemo memo = Some m \<Longrightarrow> trim m = m \<and> m \<noteq> []"
  by (auto simp: trimmedMemo_def split: option.splits if_splits)

lemma parse_bip21_params:
  assumes "validateScheme s0 = Inr scheme" "validateAddress a0 = Inr address"
    and "\<And>a. amount = Some a \<Longrightarrow> validateAmountBip21 a = Inr a"
    and "\<And>m. memo = Some m \<Longrightarrow> trim m = m \<and> m \<noteq> [] \<and> isWellFormed m"
  shows "parseBip21Uri (bip21_text scheme address (bip21_params amount memo)) =
    Inr \<lparr>uri_scheme = scheme, uri_address = address, uri_amount = amount, uri_memo = memo\<rparr>"
proof -
  have am: "validateAmountBip21 a = Inr a \<and> isWellFormed a" if "amount = Some a" for a
    using assms(3)[OF that] amount_wellformed by (auto simp: validateAmountBip21_Inr)
  have wf: "wf_params (bip21_params amount memo)" by (rule parseQuery_params(1)[OF am assms(4)])
  note composed = parse_composed[OF assms(1,2) wf]
  show ?thesis
  proof (cases "bip21_params amount memo = []")
    case True
    then have "amount = None" "memo = None" by (auto simp: bip21_params_def split: option.splits)
    with True composed show ?thesis by simp
  next
    case False
    with composed show ?thesis by (simp add: parseQuery_params(2)[OF am assms(4)])
  qed
qed

lemma validateAmount_trim: "validateAmountBip21 a = Inr t \<Longrightarrow> validateAmountBip21 (trim a) = Inr (trim a)"
  by (auto simp: validateAmountBip21_Inr)

text \<open>
  What the form encoding keeps of a text: surrogate pairs stay, a surrogate without its
  partner becomes the replacement character U+FFFD.
\<close>

fun toWellFormed :: "jstring \<Rightarrow> jstring" where
  "toWellFormed [] = []"
| "toWellFormed [c] = [if isHighSurrogate c \<or> isLowSurrogate c then 65533 else c]"
| "toWellFormed (c # d # s) =
     (if isHighSurrogate c \<and> isLowSurrogate d then c # d # toWellFormed s
      else (if isHighSurrogate c \<or> isLowSurrogate c then 65533 else c) # toWellFormed (d # s))"

lemma plain_unit:
  assumes "\<not> isHighSurrogate c" "\<not> isLowSurrogate c"
  shows "codePoints (c # t) = c # codePoints t" "isWellFormed (c # t) \<longleftrightarrow> c < 65536 \<and> isWellFormed t"
  using assms by (cases t; simp)+

lemma replacement_plain [simp]: "\<not> isHighSurrogate 65533" "\<not> isLowSurrogate 65533" "\<not> isWhite 65533"
  by (simp_all add: surrogate_defs isWhite_def)

lemma codePoints_toWellFormed: "codePoints (toWellFormed s) = codePoints s"
  by (induction s rule: toWellFormed.induct) (auto simp: plain_unit(1))

lemma isWellFormed_toWellFormed: "is_code_units s \<Longrightarrow> isWellFormed (toWellFormed s)"
  by (induction s rule: toWellFormed.induct) (auto simp: plain_unit(2) is_code_units_def)

lemma toWellFormed_id: "isWellFormed s \<Longrightarrow> toWellFormed s = s"
  by (induction s rule: toWellFormed.induct) (auto split: if_splits)

lemma toWellFormed_eq_Nil [simp]: "toWellFormed s = [] \<longleftrightarrow> s = []"
  by (cases s rule: toWellFormed.cases) auto

lemma surrogate_not_white: "isHighSurrogate c \<Longrightarrow> \<not> isWhite c" "isLowSurrogate c \<Longrightarrow> \<not> isWhite c"
  by (auto simp: surrogate_defs isWhite_def)

lemma trim_toWellFormed:
  assumes "trim m = m"
  shows "trim (toWellFormed m) = toWellFormed m"
proof -
  have hd: "\<not> isWhite (hd s) \<Longrightarrow> s \<noteq> [] \<Longrightarrow> \<not> isWhite (hd (toWellFormed s))" for s
    by (cases s rule: toWellFormed.cases) auto
  have last: "\<not> isWhite (last s) \<Longrightarrow> s \<noteq> [] \<Longrightarrow> \<not> isWhite (last (toWellFormed s))" for s
    by (induction s rule: toWellFormed.induct) (auto simp: surrogate_not_white)
  show ?thesis using assms hd last unfolding trim_iff[symmetric] by (auto simp: trimmed_def)
qed

lemma bip21_text_wellformed_memo:
  "bip21_text scheme address (bip21_params amount (map_option toWellFormed memo)) =
     bip21_text scheme address (bip21_params amount memo)"
proof -
  have "formEncode (toWellFormed m) = formEncode m" for m
    by (simp add: formEncode_def codePoints_toWellFormed)
  then show ?thesis
    by (cases amount; cases memo) (simp_all add: bip21_text_def bip21_params_def params_toString_def)
qed

lemma generated_uri_reads:
  assumes "generateBip21Uri input = Inr uri"
    and "\<And>m. gen_memo input = Some m \<Longrightarrow> is_code_units (trim m)"
  shows "parseBip21Uri uri = Inr
    \<lparr>uri_scheme = toLowerCase (trim (nullish (gen_scheme input) (js ''bitcoin''))),
     uri_address = trim (gen_address input),
     uri_amount = map_option trim (gen_amount input),
     uri_memo = map_option toWellFormed (trimmedMemo (gen_memo input))\<rparr>"
proof -
  let ?memo = "map_option toWellFormed (trimmedMemo (gen_memo input))"
  obtain scheme address where g:
    "validateScheme (nullish (gen_scheme input) (js ''bitcoin'')) = Inr scheme"
    "validateAddress (gen_address input) = Inr address"
    "\<And>a. gen_amount input = Some a \<Longrightarrow> validateAmountBip21 a = Inr (trim a)"
    "uri = bip21_text scheme address
        (bip21_params (map_option trim (gen_amount input)) (trimmedMemo (gen_memo input)))"
    using assms(1) unfolding generate_Inr by blast
  have memo: "trim m = m \<and> m \<noteq> [] \<and> isWellFormed m" if m: "?memo = Some m" for m
  proof -
    obtain t where t: "trimmedMemo (gen_memo input) = Some t" "m = toWellFormed t" using m by auto
    then have "is_code_units t" using assms(2) by (auto simp: trimmedMemo_def split: option.splits if_splits)
    with t trimmedMemo_Some[OF t(1)] show ?thesis
      by (simp add: trim_toWellFormed isWellFormed_toWellFormed)
  qed
  have amount: "validateAmountBip21 a = Inr a" if "map_option trim (gen_amount input) = Some a" for a
    using that g(3) validateAmount_trim by auto
  have "scheme = toLowerCase (trim (nullish (gen_scheme input) (js ''bitcoin'')))"
    "address = trim (gen_address input)"
    using g(1,2) unfolding validateScheme_Inr validateAddress_Inr by blast+
  moreover have "parseBip21Uri (bip21_text scheme address (bip21_params (map_option trim (gen_amount input)) ?memo)) =
      Inr \<lparr>uri_scheme = scheme, uri_address = address, uri_amount = map_option trim (gen_amount input), uri_memo = ?memo\<rparr>"
    by (rule parse_bip21_params[OF g(1,2)]) (fact amount memo)+
  ultimately show ?thesis unfolding bip21_text_wellformed_memo g(4) by (simp del: js_Cons)
qed

lemma generated_uri_parses:
  assumes "generateBip21Uri input = Inr uri"
    and "\<forall>m. gen_memo input = Some m \<longrightarrow> isWellFormed (trim m)"
  shows "parseBip21Uri uri = Inr
    \<lparr>uri_scheme = toLowerCase (trim (nullish (gen_scheme input) (js ''bitcoin''))),
     uri_address = trim (gen_address input),
     uri_amount = map_option trim (gen_amount input),
     uri_memo = trimmedMemo (gen_memo input)\<rparr>"
proof -
  have "map_option toWellFormed (trimmedMemo (gen_memo input)) = trimmedMemo (gen_memo input)"
    using assms(2) by (auto simp: trimmedMemo_def toWellFormed_id split: option.splits)
  then show ?thesis using generated_uri_reads[OF assms(1)] assms(2) isWellFormed_units by simp
qed

text \<open>
  C1: Round trip: a URI that \<open>generateBip21Uri\<close> returns is read back by \<open>parseBip21Uri\<close>
  as the normalised input: the scheme in lower case (\<open>bitcoin\<close> when none was given), the
  trimmed address and amount, and the trimmed memo unless it is blank, in which a surrogate
  without its partner has become U+FFFD and every other character is kept. The memo is any
  sequence of 16-bit code units, as every string of the language is.
\<close>

theorem bip21_generate_parse:
  assumes "generateBip21Uri input = Inr uri"
    and "\<forall>m. gen_memo input = Some m \<longrightarrow> is_code_units m"
  shows "parseBip21Uri uri = Inr
    \<lparr>uri_scheme = toLowerCase (trim (nullish (gen_scheme input) (js ''bitcoin''))),
     uri_address = trim (gen_address input),
     uri_amount = map_option trim (gen_amount input),
     uri_memo = map_option toWellFormed (trimmedMemo (gen_memo input))\<rparr>"
proof (rule generated_uri_reads[OF assms(1)])
  fix m
  assume "gen_memo input = Some m"
  then show "is_code_units (trim m)" using assms(2) set_trim[of m] by (auto simp: is_code_units_def)
qed

lemmas text_eval = trim_def trimStart_def trimEnd_def isWhite_def lowerUnit_def trimmedMemo_def
lemmas form_eval = params_toString_def formEncode_def utf8Encode_def utf8Bytes_def formByte_def
  percentByte_def isAlnum_def hexDigit_def surrogate_defs

lemma soul_scheme: "rx_test SCHEME_REGEX (js ''soul'')" by code_simp
lemma amount_1_5: "rx_test DECIMAL_AMOUNT_REGEX (js ''1.5'')" by code_simp

lemma validate_soul:
  "validateScheme (js ''SOUL'') = Inr (js ''soul'')" "validateAddress (js '' ab'') = Inr (js ''ab'')"
  "validateAmountBip21 (js ''1.5'') = Inr (js ''1.5'')"
proof -
  have t: "trim (js ''1.5'') = js ''1.5''" by (simp add: text_eval)
  show "validateScheme (js ''SOUL'') = Inr (js ''soul'')"
    using soul_scheme by (simp add: validateScheme_Inr text_eval)
  show "validateAddress (js '' ab'') = Inr (js ''ab'')"
    by (simp add: validateAddress_Inr text_eval ADDRESS_INVALID_CHAR_def)
  show "validateAmountBip21 (js ''1.5'') = Inr (js ''1.5'')"
    unfolding validateAmountBip21_Inr t using amount_1_5
    by (simp add: decimalNumberLeZero_def decimalValue_def digitsValue_def)
qed

lemma soul_text:
  "bip21_text (js ''soul'') (js ''ab'') (bip21_params (Some (js ''1.5'')) (Some (js ''a '' @ [233, 38]))) =
     js ''soul:ab?amount=1.5&memo=a+%C3%A9%26''"
  by (simp add: bip21_text_def bip21_params_def form_eval)

lemma soul_text_lone:
  "bip21_text (js ''soul'') (js ''ab'')
       (bip21_params (Some (js ''1.5'')) (Some (js ''a '' @ [233, 38, 55357]))) =
     js ''soul:ab?amount=1.5&memo=a+%C3%A9%26%EF%BF%BD''"
  by (simp add: bip21_text_def bip21_params_def form_eval)

lemma generate_soul:
  "generateBip21Uri \<lparr>gen_address = js '' ab'', gen_amount = Some (js ''1.5''),
      gen_memo = Some (js ''a '' @ [233, 38, 55357, 32]), gen_scheme = Some (js ''SOUL'')\<rparr> =
    Inr (js ''soul:ab?amount=1.5&memo=a+%C3%A9%26%EF%BF%BD'')"
proof -
  have "trim (js ''1.5'') = js ''1.5''" by (simp add: text_eval)
  moreover have "trimmedMemo (Some (js ''a '' @ [233, 38, 55357, 32])) = Some (js ''a '' @ [233, 38, 55357])"
    by (simp add: text_eval)
  ultimately show ?thesis using validate_soul soul_text_lone unfolding generate_Inr by (simp del: js_Cons)
qed

theorem bip21_generate_parse_witness:
  "parseBip21Uri (js ''soul:ab?amount=1.5&memo=a+%C3%A9%26%EF%BF%BD'') = Inr
    \<lparr>uri_scheme = js ''soul'', uri_address = js ''ab'', uri_amount = Some (js ''1.5''),
     uri_memo = Some (js ''a '' @ [233, 38, 65533])\<rparr>"
  using bip21_generate_parse[OF generate_soul] by (simp add: text_eval surrogate_defs is_code_units_def)

subsection \<open>What a parsed URI satisfies\<close>

lemma parseQuery_Inr:
  assumes "parseQuery parsed query = Inr p" "uri_amount parsed = None" "uri_memo parsed = None"
  shows "uri_scheme p = uri_scheme parsed" "uri_address p = uri_address parsed"
    "uri_amount p = Some a \<Longrightarrow> validateAmountBip21 a = Inr a"
    "uri_memo p = Some m \<Longrightarrow> trim m = m \<and> m \<noteq> []"
proof -
  obtain v where v: "(v = None \<and> params_get (js ''amount'') (params_parse query) = None) \<or>
      (\<exists>x y. params_get (js ''amount'') (params_parse query) = Some x \<and> validateAmountBip21 x = Inr y \<and> v = Some y)"
    and p: "p = parsed\<lparr>uri_amount := v\<rparr> \<or> (\<exists>m. trim m \<noteq> [] \<and> p = parsed\<lparr>uri_amount := v, uri_memo := Some (trim m)\<rparr>)"
  proof (cases "params_get (js ''amount'') (params_parse query)")
    case None
    then show ?thesis using assms that[of None]
      by (cases parsed) (auto simp: parseQuery_def Let_def simp del: js_Cons split: option.splits if_splits)
  next
    case (Some x)
    then obtain y where "validateAmountBip21 x = Inr y"
      using assms(1) by (auto simp: parseQuery_def Let_def ebind_eq_Inr simp del: js_Cons)
    then show ?thesis using assms that[of "Some y"] Some
      by (auto simp: parseQuery_def Let_def simp del: js_Cons split: option.splits if_splits)
  qed
  show "uri_scheme p = uri_scheme parsed" "uri_address p = uri_address parsed" using p by auto
  show "validateAmountBip21 a = Inr a" if "uri_amount p = Some a"
  proof -
    have "v = Some a" using p that by auto
    then show ?thesis using v validateAmount_fixed by auto
  qed
  show "trim m = m \<and> m \<noteq> []" if "uri_memo p = Some m" using p that assms(3) by auto
qed

lemma parse_Inr_valid:
  assumes "parseBip21Uri uri = Inr p"
  shows "\<exists>s a. validateScheme s = Inr (uri_scheme p) \<and> validateAddress a = Inr (uri_address p)"
    "uri_amount p = Some a \<Longrightarrow> validateAmountBip21 a = Inr a"
    "uri_memo p = Some m \<Longrightarrow> trim m = m \<and> m \<noteq> []"
proof -
  obtain i scheme payload where "validateScheme (take i (trim uri)) = Inr scheme"
    and pl: "parsePayload scheme payload = Inr p"
    using assms by (auto simp: parseBip21Uri_def normalizeNonEmptyBip21_def Let_def ebind_eq_Inr
        split: if_splits option.splits)
  moreover obtain seg address where "validateAddress seg = Inr address"
    and cont: "case indexOf payload 63 of
        None \<Rightarrow> Inr \<lparr>uri_scheme = scheme, uri_address = address, uri_amount = None, uri_memo = None\<rparr> = (Inr p :: (thrown, _) result)
      | Some i \<Rightarrow> parseQuery \<lparr>uri_scheme = scheme, uri_address = address, uri_amount = None, uri_memo = None\<rparr>
          (drop (Suc i) payload) = Inr p"
    using pl by (auto simp: parsePayload_def Let_def ebind_eq_Inr split: option.splits)
  moreover have "uri_scheme p = scheme \<and> uri_address p = address \<and>
      (\<forall>a. uri_amount p = Some a \<longrightarrow> validateAmountBip21 a = Inr a) \<and>
      (\<forall>m. uri_memo p = Some m \<longrightarrow> trim m = m \<and> m \<noteq> [])"
    using cont parseQuery_Inr by (cases "indexOf payload 63") fastforce+
  ultimately show "\<exists>s a. validateScheme s = Inr (uri_scheme p) \<and> validateAddress a = Inr (uri_address p)"
    "uri_amount p = Some a \<Longrightarrow> validateAmountBip21 a = Inr a"
    "uri_memo p = Some m \<Longrightarrow> trim m = m \<and> m \<noteq> []"
    by blast+
qed

definition regenerate :: "ParsedBip21Uri \<Rightarrow> GenerateBip21UriInput" where
  "regenerate p = \<lparr>gen_address = uri_address p, gen_amount = uri_amount p, gen_memo = uri_memo p,
     gen_scheme = Some (uri_scheme p)\<rparr>"

text \<open>
  Canonical form: every accepted URI is equivalent to one that \<open>generateBip21Uri\<close>
  produces. Generating from the parsed fields succeeds and parsing the new URI gives the
  same fields, so a second pass changes nothing. The read memo must be well-formed UTF-16.
\<close>

theorem bip21_parse_generate:
  assumes "parseBip21Uri uri = Inr p" and "\<forall>m. uri_memo p = Some m \<longrightarrow> isWellFormed m"
  shows "\<exists>canonical. generateBip21Uri (regenerate p) = Inr canonical \<and> parseBip21Uri canonical = Inr p"
proof -
  obtain s a where sa: "validateScheme s = Inr (uri_scheme p)" "validateAddress a = Inr (uri_address p)"
    using parse_Inr_valid(1)[OF assms(1)] by blast
  note valid = parse_Inr_valid(2,3)[OF assms(1)]
  let ?uri = "bip21_text (uri_scheme p) (uri_address p) (bip21_params (uri_amount p) (uri_memo p))"
  have "map_option trim (uri_amount p) = uri_amount p"
    using valid(1) by (cases "uri_amount p") (auto simp: validateAmountBip21_Inr)
  moreover have "trimmedMemo (uri_memo p) = uri_memo p"
    using valid(2) by (cases "uri_memo p") (auto simp: trimmedMemo_def)
  moreover have "trim a' = a'" if "uri_amount p = Some a'" for a'
    using valid(1)[OF that] by (auto simp: validateAmountBip21_Inr)
  ultimately have "generateBip21Uri (regenerate p) = Inr ?uri"
    unfolding generate_Inr regenerate_def
    using valid(1) validateScheme_fixed[OF sa(1)] validateAddress_fixed[OF sa(2)] by auto
  moreover have "parseBip21Uri ?uri = Inr p"
    using parse_bip21_params[OF sa valid(1)] valid(2) assms(2) by (cases p) auto
  ultimately show ?thesis by blast
qed

theorem bip21_parse_generate_witness:
  "\<exists>p canonical. parseBip21Uri (js ''soul:ab?amount=1.5&memo=a+%C3%A9%26'') = Inr p \<and>
     generateBip21Uri (regenerate p) = Inr canonical \<and> parseBip21Uri canonical = Inr p"
proof -
  let ?p = "\<lparr>uri_scheme = js ''soul'', uri_address = js ''ab'', uri_amount = Some (js ''1.5''),
     uri_memo = Some (js ''a '' @ [233, 38])\<rparr>"
  have p: "parseBip21Uri (js ''soul:ab?amount=1.5&memo=a+%C3%A9%26'') = Inr ?p"
    using parse_bip21_params[OF validate_soul(1,2), of "Some (js ''1.5'')" "Some (js ''a '' @ [233, 38])"]
    by (simp add: validate_soul[simplified] soul_text[simplified] text_eval surrogate_defs)
  have "\<forall>m. uri_memo ?p = Some m \<longrightarrow> isWellFormed m" by (simp add: surrogate_defs)
  from bip21_parse_generate[OF p this] p show ?thesis by blast
qed

subsection \<open>Errors\<close>

definition bip21_failure :: "thrown \<Rightarrow> bool" where
  "bip21_failure e \<longleftrightarrow>
     (\<exists>c m. e = ThrownWallet (wallet_error c m) \<and> c \<in> fst ` set BIP21_ERROR_LABELS)"

lemma bip21_failure_throw:
  "throwWallet c m = Inl e \<Longrightarrow> c \<in> fst ` set BIP21_ERROR_LABELS \<Longrightarrow> bip21_failure e"
  by (auto simp: bip21_failure_def throwWallet_def)

lemma bip21_codes [simp]:
  "BIP21_INVALID_URI \<in> fst ` set BIP21_ERROR_LABELS" "BIP21_INVALID_SCHEME \<in> fst ` set BIP21_ERROR_LABELS"
  "BIP21_INVALID_ADDRESS \<in> fst ` set BIP21_ERROR_LABELS" "BIP21_INVALID_AMOUNT \<in> fst ` set BIP21_ERROR_LABELS"
  by (simp_all add: BIP21_ERROR_LABELS_def)

lemma normalize_failure:
  "normalizeNonEmptyBip21 v c m = Inl e \<Longrightarrow> c \<in> fst ` set BIP21_ERROR_LABELS \<Longrightarrow> bip21_failure e"
  by (auto simp: normalizeNonEmptyBip21_def Let_def dest: bip21_failure_throw split: if_splits)

lemma validate_failure:
  "validateScheme s = Inl e \<Longrightarrow> bip21_failure e" "validateAddress s = Inl e \<Longrightarrow> bip21_failure e"
  "validateAmountBip21 s = Inl e \<Longrightarrow> bip21_failure e"
  by (auto simp: validateScheme_def validateAddress_def validateAmountBip21_def Let_def ebind_eq_Inl
      dest: bip21_failure_throw normalize_failure split: if_splits)

lemma parse_failure:
  assumes "parseBip21Uri uri = Inl e"
  shows "bip21_failure e"
proof -
  have q: "bip21_failure e" if "parseQuery p q = Inl e" for p q
    using that by (auto simp: parseQuery_def Let_def ebind_eq_Inl dest: validate_failure split: option.splits if_splits)
  have "bip21_failure e" if "parsePayload s p = Inl e" for s p
    using that by (auto simp: parsePayload_def Let_def ebind_eq_Inl dest: validate_failure q split: option.splits)
  note failures = this validate_failure normalize_failure[OF _ bip21_codes(1)]
    bip21_failure_throw[OF _ bip21_codes(1)]
  show ?thesis
  proof (cases "normalizeNonEmptyBip21 uri BIP21_INVALID_URI (js ''BIP-21 URI is required'')")
    case (Inr u)
    then show ?thesis
      using assms unfolding parseBip21Uri_def
      by (cases "indexOf u 58") (auto simp: Let_def ebind_eq_Inl dest: failures simp del: js_Cons split: if_splits)
  qed (use assms in \<open>auto simp: parseBip21Uri_def dest: failures simp del: js_Cons\<close>)
qed

lemma generate_failure: "generateBip21Uri input = Inl e \<Longrightarrow> bip21_failure e"
  by (auto simp: generateBip21Uri_def setAmount_def Let_def ebind_eq_Inl dest: validate_failure
      split: option.splits if_splits)

text \<open>
  Errors: whenever the form layer fails to build or to read a URI, the thrown value
  is a wallet error with one of the four codes of the module, and the message shown is the
  Chinese label of that code behind the common prefix; the internal English text and
  inherited object members never reach the user.
\<close>

theorem bip21_failures_are_labelled:
  assumes "createBip21PaymentUri form = Inl e \<or> parseBip21Input uri = Inl e"
  shows "\<exists>c label m. e = ThrownWallet (wallet_error c m) \<and> (c, label) \<in> set BIP21_ERROR_LABELS \<and>
    toUnifiedBip21Error inherited e = BIP21_UI_PREFIX @ label"
proof -
  have "bip21_failure e"
    using assms generate_failure parse_failure
    by (auto simp: createBip21PaymentUri_def parseBip21Input_def ebind_eq_Inl)
  then obtain c m where e: "e = ThrownWallet (wallet_error c m)" and c: "c \<in> fst ` set BIP21_ERROR_LABELS"
    unfolding bip21_failure_def by blast
  from c obtain label where "map_of BIP21_ERROR_LABELS c = Some label"
    by (metis domIff dom_map_of_conv_image_fst option.exhaust_sel)
  moreover from this have "(c, label) \<in> set BIP21_ERROR_LABELS" by (rule map_of_SomeD)
  ultimately show ?thesis
    using e by (auto simp: toUnifiedBip21Error_def buildUiErrorMessage_def wallet_error_def)
qed

theorem bip21_failures_are_labelled_witness:
  "parseBip21Input (js ''abc'') = throwWallet BIP21_INVALID_URI (js ''BIP-21 URI is invalid'') \<and>
   (\<exists>label. toUnifiedBip21Error (\<lambda>_. None) (ThrownWallet (wallet_error BIP21_INVALID_URI (js ''BIP-21 URI is invalid'')))
     = BIP21_UI_PREFIX @ label)"
proof -
  have p: "parseBip21Input (js ''abc'') = throwWallet BIP21_INVALID_URI (js ''BIP-21 URI is invalid'')"
    by (simp add: parseBip21Input_def parseBip21Uri_def normalizeNonEmptyBip21_def text_eval)
  then have "parseBip21Input (js ''abc'') = Inl (ThrownWallet (wallet_error BIP21_INVALID_URI (js ''BIP-21 URI is invalid'')))"
    by (simp only: throwWallet_def)
  from bip21_failures_are_labelled[OF disjI2[OF this], of "\<lambda>_. None"] p show ?thesis by blast
qed

end
