(* ===== verification/Network.thy ===== *)
theory Network
  imports JsNumber WalletErrors
begin

text \<open>
  \<open>soulon-wallet/src/config/network.ts\<close>, \<open>core/client.ts\<close> and \<open>core/gas.ts\<close>: the network
  table, the two client constructors and the fee estimate. The CosmJS functions
  (\<open>connect\<close>, \<open>connectWithSigner\<close>, \<open>GasPrice.fromString\<close>, \<open>calculateFee\<close>, \<open>simulate\<close>) are
  parameters; \<open>rnd\<close> is the rounding of the exact product of two doubles.
\<close>

datatype ChainEnvironment = Dev | Testnet | Mainnet

record NetworkConfig =
  chainId :: jstring
  bech32Prefix :: jstring
  rpcEndpoint :: jstring
  restEndpoint :: jstring
  grpcEndpoint :: jstring
  denom :: jstring
  gasPrice :: jstring

fun NETWORKS :: "ChainEnvironment \<Rightarrow> NetworkConfig" where
  "NETWORKS Dev =
     \<lparr>chainId = js ''soulon-dev-1'', bech32Prefix = js ''soulon'',
      rpcEndpoint = js ''http://127.0.0.1:26657'', restEndpoint = js ''http://127.0.0.1:1317'',
      grpcEndpoint = js ''http://127.0.0.1:9090'', denom = js ''usoul'', gasPrice = js ''0.025usoul''\<rparr>"
| "NETWORKS Testnet =
     \<lparr>chainId = js ''soulon-testnet-1'', bech32Prefix = js ''soulon'',
      rpcEndpoint = js ''https://rpc-testnet.soulon.io'', restEndpoint = js ''https://api-testnet.soulon.io'',
      grpcEndpoint = js ''https://grpc-testnet.soulon.io'', denom = js ''usoul'', gasPrice = js ''0.025usoul''\<rparr>"
| "NETWORKS Mainnet =
     \<lparr>chainId = js ''soulon-mainnet-1'', bech32Prefix = js ''soulon'',
      rpcEndpoint = js ''https://rpc.soulon.io'', restEndpoint = js ''https://api.soulon.io'',
      grpcEndpoint = js ''https://grpc.soulon.io'', denom = js ''usoul'', gasPrice = js ''0.025usoul''\<rparr>"

definition getNetworkConfig :: "ChainEnvironment \<Rightarrow> NetworkConfig" where
  "getNetworkConfig env = NETWORKS env"

definition createQueryClient :: "(jstring \<Rightarrow> (thrown, 'client) result) \<Rightarrow> NetworkConfig \<Rightarrow> (thrown, 'client) result" where
  "createQueryClient connect network = connect (rpcEndpoint network)"

definition createSigningClient ::
  "(jstring \<Rightarrow> (thrown, 'price) result) \<Rightarrow> (jstring \<Rightarrow> 'signer \<Rightarrow> 'price \<Rightarrow> (thrown, 'client) result)
     \<Rightarrow> NetworkConfig \<Rightarrow> 'signer \<Rightarrow> (thrown, 'client) result" where
  "createSigningClient priceFromString connectWithSigner network signer =
     ebind (priceFromString (gasPrice network)) (\<lambda>price. connectWithSigner (rpcEndpoint network) signer price)"

subsection \<open>The fee estimate\<close>

definition num_sign :: "jsnum \<Rightarrow> rat" where
  "num_sign x = (case x of NaN \<Rightarrow> 0 | PosInf \<Rightarrow> 1 | NegInf \<Rightarrow> -1 | Fin q \<Rightarrow> sgn q)"

definition num_mul :: "(rat \<Rightarrow> jsnum) \<Rightarrow> jsnum \<Rightarrow> jsnum \<Rightarrow> jsnum" where
  "num_mul rnd x y =
     (case (x, y) of
        (Fin p, Fin q) \<Rightarrow> rnd (p * q)
      | _ \<Rightarrow> if num_sign x * num_sign y = 0 then NaN
             else if num_sign x * num_sign y > 0 then PosInf else NegInf)"

fun math_ceil :: "jsnum \<Rightarrow> jsnum" where
  "math_ceil (Fin q) = Fin (of_int \<lceil>q\<rceil>)"
| "math_ceil x = x"

text \<open>The literal \<open>1.2\<close>: the double nearest to it.\<close>

definition DEFAULT_MULTIPLIER :: jsnum where
  "DEFAULT_MULTIPLIER = Fin (5404319552844595 / 4503599627370496)"

record ('msg, 'w) GasEstimateInput =
  simulate :: "jstring \<Rightarrow> 'msg list \<Rightarrow> jstring \<Rightarrow> 'w \<Rightarrow> (thrown, jsnum) result \<times> 'w"
  senderAddress :: jstring
  gasMessages :: "'msg list"
  gasMemo :: "jstring option"
  gasPriceText :: jstring
  multiplier :: "jsnum option"

definition estimateFee ::
  "(rat \<Rightarrow> jsnum) \<Rightarrow> (jstring \<Rightarrow> (thrown, 'price) result) \<Rightarrow> (jsnum \<Rightarrow> 'price \<Rightarrow> (thrown, 'fee) result)
     \<Rightarrow> ('msg, 'w) GasEstimateInput \<Rightarrow> 'w \<Rightarrow> (thrown, 'fee) result \<times> 'w" where
  "estimateFee rnd priceFromString calculateFee input w =
     (case simulate input (senderAddress input) (gasMessages input) (nullish (gasMemo input) []) w of
        (Inl e, w') \<Rightarrow> (Inl e, w')
      | (Inr estimatedGas, w') \<Rightarrow>
          (let gasLimit = math_ceil (num_mul rnd estimatedGas (nullish (multiplier input) DEFAULT_MULTIPLIER))
           in (ebind (priceFromString (gasPriceText input)) (\<lambda>price. calculateFee gasLimit price), w')))"

text \<open>
  Rounding to doubles, as far as the estimate needs it: it is monotone and exact on the
  integers up to \<open>2 ^ 53\<close>.
\<close>

definition rounds_to_double :: "(rat \<Rightarrow> jsnum) \<Rightarrow> bool" where
  "rounds_to_double rnd \<longleftrightarrow>
     (\<forall>p q r s. p \<le> q \<and> rnd p = Fin r \<and> rnd q = Fin s \<longrightarrow> r \<le> s) \<and>
     (\<forall>n::nat. n \<le> 2 ^ 53 \<longrightarrow> rnd (of_nat n) = Fin (of_nat n))"

text \<open>
  C30: with the default multiplier the gas limit handed to \<open>calculateFee\<close> is an integer that is
  at least the simulated gas (up to \<open>2 ^ 53\<close>), whatever the rounding of the product does,
  as long as the product does not overflow.
\<close>

theorem estimateFee_covers_simulation:
  assumes "rounds_to_double rnd" and "n \<le> 2 ^ 53"
    and "simulate input (senderAddress input) (gasMessages input) (nullish (gasMemo input) []) w
      = (Inr (num (int n)), w')"
    and "multiplier input = None" and "priceFromString (gasPriceText input) = Inr price"
    and "isFinite (num_mul rnd (num (int n)) DEFAULT_MULTIPLIER)"
  shows "\<exists>limit. int n \<le> limit \<and>
    estimateFee rnd priceFromString calculateFee input w = (calculateFee (num limit) price, w')"
proof -
  let ?m = "5404319552844595 / 4503599627370496 :: rat"
  obtain q where q: "rnd (of_nat n * ?m) = Fin q"
    using assms(6) by (cases "rnd (of_nat n * ?m)") (auto simp: num_mul_def num_def DEFAULT_MULTIPLIER_def)
  have "of_nat n \<le> of_nat n * ?m" by (simp add: field_simps)
  moreover have "rnd (of_nat n) = Fin (of_nat n)" using assms(1,2) by (auto simp: rounds_to_double_def)
  ultimately have "of_nat n \<le> q" using assms(1) q unfolding rounds_to_double_def by blast
  then have "int n \<le> \<lceil>q\<rceil>" by linarith
  moreover have "estimateFee rnd priceFromString calculateFee input w = (calculateFee (num \<lceil>q\<rceil>) price, w')"
    using assms(3-5) q by (simp add: estimateFee_def num_mul_def num_def DEFAULT_MULTIPLIER_def)
  ultimately show ?thesis by blast
qed

definition demo_gas :: "(nat, nat) GasEstimateInput" where
  "demo_gas = \<lparr>simulate = (\<lambda>sender messages memo w. (Inr (num 100), Suc w)), senderAddress = js ''a'',
     gasMessages = [], gasMemo = None, gasPriceText = js ''0.025usoul'', multiplier = None\<rparr>"

theorem estimateFee_covers_simulation_witness:
  "\<exists>limit \<ge> 100. estimateFee Fin Inr (\<lambda>g p. Inr (g, p)) demo_gas 0 = (Inr (num limit, js ''0.025usoul''), 1)"
proof -
  have "\<exists>limit. int 100 \<le> limit \<and>
    estimateFee Fin Inr (\<lambda>g p. Inr (g, p)) demo_gas 0 = ((\<lambda>g p. Inr (g, p)) (num limit) (js ''0.025usoul''), 1)"
    by (rule estimateFee_covers_simulation)
       (auto simp: demo_gas_def rounds_to_double_def num_mul_def num_def DEFAULT_MULTIPLIER_def)
  then show ?thesis by auto
qed

end
