(* ===== verification/TxService.thy ===== *)
theory TxService
  imports Broadcast Network TxPoll
begin

text \<open>
  What the services of the SDK share: messages, the call of \<open>client.signAndBroadcast\<close>, and
  the pattern \<open>validate; return broadcastWithRetry(async () => client.signAndBroadcast(...))\<close>.
  The node behind the client is a parameter on an arbitrary state; the client state keeps
  the list of calls that were signed and sent, so that "nothing is broadcast" is a
  statement of the model. The pattern is the contract of the locale \<open>tx_service\<close>, which each
  service interprets. \<open>services/transfer.ts\<close> follows.
\<close>

record Coin =
  coinDenom :: jstring
  coinAmount :: jstring

text \<open>\<open>coin(amount, denom)\<close> of CosmJS; it may throw.\<close>

type_synonym coin_fn = "jstring \<Rightarrow> jstring \<Rightarrow> (thrown, Coin) result"

definition coin_accepts_digits :: "coin_fn \<Rightarrow> bool" where
  "coin_accepts_digits coin \<longleftrightarrow> (\<forall>a d. a \<noteq> [] \<and> list_all isDigit a \<longrightarrow>
     (\<exists>x. coin a d = Inr \<lparr>coinDenom = d, coinAmount = x\<rparr> \<and> digitsValue x = digitsValue a))"

record Timestamp =
  tsSeconds :: int
  tsNanos :: int

record AuthzExecMessage =
  execTypeUrl :: jstring
  execValue :: "nat list"

datatype VoteOption = VOTE_OPTION_YES | VOTE_OPTION_ABSTAIN | VOTE_OPTION_NO | VOTE_OPTION_NO_WITH_VETO

text \<open>The object handed to \<open>fromPartial\<close> of each message type.\<close>

datatype msg_body =
    MsgSend jstring jstring "Coin list"
  | MsgDelegate jstring jstring Coin
  | MsgUndelegate jstring jstring Coin
  | MsgWithdrawDelegatorReward jstring jstring
  | MsgBeginRedelegate jstring jstring jstring Coin
  | MsgVote int jstring VoteOption
  | MsgTransfer jstring jstring Coin jstring jstring int
  | MsgGrant jstring jstring jstring "nat list" Timestamp
  | MsgExec jstring "AuthzExecMessage list"
  | MsgRevoke jstring jstring jstring

record EncodeObject =
  typeUrl :: jstring
  msgValue :: msg_body

record SignCall =
  signer :: jstring
  messages :: "EncodeObject list"
  fee :: jstring
  callMemo :: jstring

record 'w client =
  remote :: 'w
  sent :: "SignCall list"

type_synonym 'w node = "SignCall \<Rightarrow> 'w execution"

definition signAndBroadcast :: "'w node \<Rightarrow> SignCall \<Rightarrow> 'w client execution" where
  "signAndBroadcast node call c =
     (case node call (remote c) of (out, w) \<Rightarrow> (out, c\<lparr>remote := w, sent := sent c @ [call]\<rparr>))"

text \<open>
  The callback given to \<open>broadcastWithRetry\<close>: it builds the arguments (which may throw) and
  calls the client. \<open>broadcastTx\<close> awaits the loop with the default options.
\<close>

definition broadcastCall :: "'w node \<Rightarrow> (thrown, SignCall) result \<Rightarrow> 'w client execution" where
  "broadcastCall node built c =
     (case built of Inl e \<Rightarrow> (Inl e, c) | Inr call \<Rightarrow> signAndBroadcast node call c)"

fun awaitBroadcast :: "broadcast_result \<Rightarrow> (thrown, DeliverTxResponse) result" where
  "awaitBroadcast (Inr r) = Inr r"
| "awaitBroadcast (Inl (Some e)) = Inl (ThrownWallet e)"
| "awaitBroadcast (Inl None) = Inl (ThrownValue (js ''null''))"

type_synonym 'w service_result = "(thrown, DeliverTxResponse) result \<times> 'w client"

definition broadcastTx :: "'w node \<Rightarrow> (thrown, SignCall) result \<Rightarrow> 'w client \<Rightarrow> 'w service_result" where
  "broadcastTx node built c =
     (case broadcastWithRetry (broadcastCall node built) no_retry_options c of
        (r, s) \<Rightarrow> (awaitBroadcast r, chain s))"

text \<open>A throwing computation in front of a stateful continuation.\<close>

definition wtry :: "('e, 'a) result \<Rightarrow> ('a \<Rightarrow> 'w \<Rightarrow> ('e, 'b) result \<times> 'w) \<Rightarrow> 'w \<Rightarrow> ('e, 'b) result \<times> 'w" where
  "wtry r f w = (case r of Inl e \<Rightarrow> (Inl e, w) | Inr a \<Rightarrow> f a w)"

lemma wtry_simps [simp]: "wtry (Inl e) f w = (Inl e, w)" "wtry (Inr a) f w = f a w"
  by (simp_all add: wtry_def)

lemma wtry_Inr [simp]: "wtry (Inr a) f = f a"
  by (simp add: fun_eq_iff)

lemma wtry_throw [simp]: "wtry (throwWallet x m) f w = (throwWallet x m, w)"
  by (simp add: throwWallet_def)

lemma wtry_ebind: "wtry (ebind r f) g = wtry r (\<lambda>a. wtry (f a) g)"
  by (cases r) (auto simp: fun_eq_iff)

subsection \<open>The broadcasting pattern\<close>

lemma chain_after_sent:
  "sent (chain_after (broadcastCall node (Inr call)) c n) = sent c @ replicate n call"
  by (induction n)
     (simp_all add: broadcastCall_def signAndBroadcast_def replicate_append_same split: prod.splits)

lemma chain_after_unbuilt: "chain_after (broadcastCall node (Inl e)) c n = c"
  by (induction n) (simp_all add: broadcastCall_def)

lemma broadcastTx_settled:
  obtains n where "n < 3" "fst (broadcastTx node built c) = awaitBroadcast (settle (outcome_at (broadcastCall node built) c n))"
    "snd (broadcastTx node built c) = chain_after (broadcastCall node built) c (Suc n)"
proof -
  have "1 \<le> nullish (maxAttempts no_retry_options) (3::int)" by (simp add: no_retry_options_def)
  from broadcastWithRetry_settles[OF this, of "broadcastCall node built" c]
  obtain n where "int n < 3"
    "fst (broadcastWithRetry (broadcastCall node built) no_retry_options c)
       = settle (outcome_at (broadcastCall node built) c n)"
    "chain (snd (broadcastWithRetry (broadcastCall node built) no_retry_options c))
       = chain_after (broadcastCall node built) c (Suc n)"
    unfolding broadcast_settled_def by (auto simp: no_retry_options_def)
  then show thesis by (intro that[of n]) (simp_all add: broadcastTx_def case_prod_beta)
qed

lemma broadcastTx_sent:
  "\<exists>n\<in>{1..3}. sent (snd (broadcastTx node (Inr call) c)) = sent c @ replicate n call"
proof -
  obtain n where "n < 3" "snd (broadcastTx node (Inr call) c) = chain_after (broadcastCall node (Inr call)) c (Suc n)"
    by (rule broadcastTx_settled)
  then show ?thesis by (intro bexI[of _ "Suc n"]) (simp_all add: chain_after_sent del: chain_after.simps)
qed

lemma broadcastTx_unbuilt:
  "broadcastTx node (Inl e) c = (Inl (ThrownWallet (mapBroadcastError e)), c)"
proof -
  obtain n where "fst (broadcastTx node (Inl e) c) =
      awaitBroadcast (settle (outcome_at (broadcastCall node (Inl e)) c n))"
    "snd (broadcastTx node (Inl e) c) = chain_after (broadcastCall node (Inl e)) c (Suc n)"
    by (rule broadcastTx_settled)
  then show ?thesis
    unfolding outcome_at_def chain_after_unbuilt
    by (intro prod_eqI) (simp_all add: broadcastCall_def settle_def)
qed

text \<open>What comes back from a broadcast: an accepted response of the node, or a wallet error.\<close>

lemma broadcastTx_result:
  assumes "fst (broadcastTx node (Inr call) c) = r"
  shows "(\<exists>x w w'. r = Inr x \<and> txCode x = 0 \<and> node call w = (Inr x, w')) \<or> (\<exists>e. r = Inl (ThrownWallet e))"
proof -
  obtain n where n: "r = awaitBroadcast (settle (outcome_at (broadcastCall node (Inr call)) c n))"
    using assms by (metis broadcastTx_settled)
  let ?out = "outcome_at (broadcastCall node (Inr call)) c n"
  show ?thesis
  proof (cases "settle ?out")
    case (Inr x)
    then have "?out = Inr x" "txCode x = 0" by (simp_all add: settle_Inr)
    moreover from this obtain w w' where "node call w = (Inr x, w')"
      by (auto simp: outcome_at_def broadcastCall_def signAndBroadcast_def split: prod.splits)
    ultimately show ?thesis using n Inr by auto
  next
    case (Inl e)
    then show ?thesis using n settle_not_null[of ?out] by (cases e) auto
  qed
qed

text \<open>
  The contract of a service: the input is prepared, which may throw, and only then the call
  built from it is broadcast.
\<close>

locale tx_service =
  fixes service :: "'in \<Rightarrow> 'w client \<Rightarrow> 'w service_result"
    and prepare :: "'in \<Rightarrow> (thrown, 'v) result"
    and build :: "'v \<Rightarrow> (thrown, SignCall) result"
    and node :: "'w node"
  assumes service_unfold: "service i c = wtry (prepare i) (\<lambda>v. broadcastTx node (build v)) c"
begin

lemma rejected: "prepare i = Inl e \<Longrightarrow> service i c = (Inl e, c)"
  by (simp add: service_unfold)

lemma accepted:
  assumes "prepare i = Inr v" "build v = Inr call"
  shows "\<exists>n\<in>{1..3}. sent (snd (service i c)) = sent c @ replicate n call"
  unfolding service_unfold assms wtry_simps by (rule broadcastTx_sent)

lemma sends_only_prepared:
  assumes "sent (snd (service i c)) \<noteq> sent c"
  shows "\<exists>v call. prepare i = Inr v \<and> build v = Inr call \<and>
    (\<exists>n\<in>{1..3}. sent (snd (service i c)) = sent c @ replicate n call)"
proof (cases "prepare i")
  case (Inr v)
  then show ?thesis
    using assms accepted[of i v]
    by (cases "build v") (auto simp: service_unfold broadcastTx_unbuilt)
qed (use assms in \<open>simp add: service_unfold\<close>)

lemma returned:
  assumes "fst (service i c) = Inr x"
  shows "\<exists>v call w w'. prepare i = Inr v \<and> build v = Inr call \<and> txCode x = 0 \<and> node call w = (Inr x, w')"
proof (cases "prepare i")
  case (Inr v)
  then show ?thesis
    using assms broadcastTx_result[of node _ c "Inr x"]
    by (cases "build v") (auto simp: service_unfold broadcastTx_unbuilt)
qed (use assms in \<open>simp add: service_unfold\<close>)

end

section \<open>Transfers\<close>

record TransferInput =
  fromAddress :: jstring
  toAddress :: jstring
  transferAmount :: jstring
  transferMemo :: "jstring option"

record TransferConfirmInput = TransferInput +
  confirmTimeoutMs :: "int option"
  confirmPollIntervalMs :: "int option"

definition buildNativeTransferMessage ::
  "coin_fn \<Rightarrow> NetworkConfig \<Rightarrow> 'z TransferInput_scheme \<Rightarrow> (thrown, EncodeObject) result" where
  "buildNativeTransferMessage coin network input =
     ebind (coin (transferAmount input) (denom network)) (\<lambda>amount. Inr
       \<lparr>typeUrl = js ''/cosmos.bank.v1beta1.MsgSend'',
        msgValue = MsgSend (fromAddress input) (toAddress input) [amount]\<rparr>)"

definition sendNativeToken ::
  "coin_fn \<Rightarrow> 'w node \<Rightarrow> NetworkConfig \<Rightarrow> 'z TransferInput_scheme \<Rightarrow> 'w client \<Rightarrow> 'w service_result" where
  "sendNativeToken coin node network input =
     wtry (buildNativeTransferMessage coin network input) (\<lambda>msg.
       broadcastTx node (Inr
         \<lparr>signer = fromAddress input, messages = [msg], fee = js ''auto'',
          callMemo = nullish (transferMemo input) []\<rparr>))"

text \<open>
  The confirmation polls a query client on the host. The host's chain state is the client
  state; the pauses between broadcast attempts are not added to the clock, of which
  \<open>waitForTx\<close> only reads differences after the broadcast.
\<close>

definition sendNativeTokenAndConfirm ::
  "coin_fn \<Rightarrow> 'w node \<Rightarrow> 'w client getTx \<Rightarrow> NetworkConfig \<Rightarrow> TransferConfirmInput \<Rightarrow> 'w client host
     \<Rightarrow> ((thrown, DeliverTxResponse \<times> TxPollResult) result \<times> 'w client host) option" where
  "sendNativeTokenAndConfirm coin node getTx network input h =
     (case sendNativeToken coin node network input (chainState h) of
        (Inl e, c) \<Rightarrow> Some (Inl e, h\<lparr>chainState := c\<rparr>)
      | (Inr txResult, c) \<Rightarrow>
          (case waitForTx getTx
             \<lparr>waitHash = transactionHash txResult, timeoutMs = confirmTimeoutMs input,
              pollIntervalMs = confirmPollIntervalMs input\<rparr> (h\<lparr>chainState := c\<rparr>) of
             None \<Rightarrow> None
           | Some (Inl e, h') \<Rightarrow> Some (Inl e, h')
           | Some (Inr receipt, h') \<Rightarrow> Some (Inr (txResult, receipt), h')))"

interpretation transfer: tx_service "sendNativeToken coin node network"
  "\<lambda>input :: 'z TransferInput_scheme.
     ebind (buildNativeTransferMessage coin network input) (\<lambda>msg. Inr (input, msg))"
  "\<lambda>(input, msg). Inr \<lparr>signer = fromAddress input, messages = [msg], fee = js ''auto'',
     callMemo = nullish (transferMemo input) []\<rparr>" node
  for coin network node
  by unfold_locales (simp add: sendNativeToken_def wtry_ebind)

lemma sendNativeTokenAndConfirm_Inr:
  assumes "sendNativeTokenAndConfirm coin node getTx network input h = Some (Inr (tx, receipt), h')"
  shows "\<exists>c. sendNativeToken coin node network input (chainState h) = (Inr tx, c) \<and>
    waitForTx getTx \<lparr>waitHash = transactionHash tx, timeoutMs = confirmTimeoutMs input,
      pollIntervalMs = confirmPollIntervalMs input\<rparr> (h\<lparr>chainState := c\<rparr>) = Some (Inr receipt, h')"
  using assms by (auto simp: sendNativeTokenAndConfirm_def split: prod.splits sum.splits option.splits)

lemma waitForTx_receipt:
  assumes "waitForTx getTx input h = Some (Inr receipt, h')"
  shows "pollHash receipt = waitHash input \<and> pollStatus receipt \<noteq> Pending"
proof -
  have "poll_sound getTx (waitHash input) (clock h + nullish (timeoutMs input) 60000) (Inr receipt) h'"
    using assms unfolding waitForTx_def Let_def by (rule wait_loop_sound)
  then show ?thesis by (cases "pollHeight receipt") (auto simp: poll_sound_def)
qed

text \<open>
  C21: a transfer that is reported as sent and confirmed was accepted by the node (result code 0)
  for a call that carries exactly one \<open>MsgSend\<close> with the given addresses and the coin built
  from the given amount in the network's denomination, signed by the sender; the receipt is
  about the hash of that very response and its status is final.
\<close>

theorem transfer_confirmed_is_the_sent_one:
  assumes "sendNativeTokenAndConfirm coin node getTx network input h = Some (Inr (tx, receipt), h')"
  shows "\<exists>amount call w w'. coin (transferAmount input) (denom network) = Inr amount \<and>
    call = \<lparr>signer = fromAddress input,
      messages = [\<lparr>typeUrl = js ''/cosmos.bank.v1beta1.MsgSend'',
        msgValue = MsgSend (fromAddress input) (toAddress input) [amount]\<rparr>],
      fee = js ''auto'', callMemo = nullish (transferMemo input) []\<rparr> \<and>
    node call w = (Inr tx, w') \<and> txCode tx = 0 \<and>
    pollHash receipt = transactionHash tx \<and> pollStatus receipt \<noteq> Pending"
proof -
  obtain c where c: "sendNativeToken coin node network input (chainState h) = (Inr tx, c)"
    "waitForTx getTx \<lparr>waitHash = transactionHash tx, timeoutMs = confirmTimeoutMs input,
      pollIntervalMs = confirmPollIntervalMs input\<rparr> (h\<lparr>chainState := c\<rparr>) = Some (Inr receipt, h')"
    using sendNativeTokenAndConfirm_Inr[OF assms] by blast
  have "fst (sendNativeToken coin node network input (chainState h)) = Inr tx" using c(1) by simp
  from transfer.returned[OF this] waitForTx_receipt[OF c(2)] show ?thesis
    by (auto simp: buildNativeTransferMessage_def ebind_eq_Inr simp del: js_Cons)
qed

definition demo_coin :: coin_fn where
  "demo_coin a d = (if a \<noteq> [] \<and> list_all isDigit a then Inr \<lparr>coinDenom = d, coinAmount = a\<rparr>
     else Inl (ThrownError (js ''Invalid unsigned integer string format'')))"

lemma demo_coin_accepts_digits: "coin_accepts_digits demo_coin"
  by (auto simp: coin_accepts_digits_def demo_coin_def)

definition demo_node :: "nat node" where
  "demo_node call w = (Inr \<lparr>txCode = 0, transactionHash = js ''AB'', rawLog = None\<rparr>, Suc w)"

definition demo_found :: "nat client getTx" where
  "demo_found hash h = (Inr (Some 7), h\<lparr>clock := clock h + 1\<rparr>)"

definition demo_transfer :: TransferConfirmInput where
  "demo_transfer = \<lparr>fromAddress = js ''a'', toAddress = js ''b'', transferAmount = js ''5'',
     transferMemo = None, confirmTimeoutMs = None, confirmPollIntervalMs = None\<rparr>"

lemma broadcastTx_accepted:
  assumes "node call (remote c) = (Inr r, w)" "txCode r = 0"
  shows "broadcastTx node (Inr call) c = (Inr r, c\<lparr>remote := w, sent := sent c @ [call]\<rparr>)"
  using assms by (simp add: broadcastTx_def broadcastWithRetry_def broadcast_loop.simps broadcast_round_def
      broadcastCall_def signAndBroadcast_def broadcast_start_def no_retry_options_def Let_def)

theorem transfer_confirmed_witness:
  "\<exists>amount call w w'. demo_coin (js ''5'') (js ''usoul'') = Inr amount \<and>
    call = \<lparr>signer = js ''a'', messages = [\<lparr>typeUrl = js ''/cosmos.bank.v1beta1.MsgSend'',
        msgValue = MsgSend (js ''a'') (js ''b'') [amount]\<rparr>], fee = js ''auto'', callMemo = []\<rparr> \<and>
    demo_node call w = (Inr \<lparr>txCode = 0, transactionHash = js ''AB'', rawLog = None\<rparr>, w')"
proof -
  let ?h = "\<lparr>clock = 0, lag = (\<lambda>_. 0), chainState = \<lparr>remote = 0, sent = []\<rparr>\<rparr> :: nat client host"
  have five: "demo_coin (js ''5'') d = Inr \<lparr>coinDenom = d, coinAmount = js ''5''\<rparr>" for d
    by (simp add: demo_coin_def isDigit_def)
  have "\<exists>h'. sendNativeTokenAndConfirm demo_coin demo_node demo_found (getNetworkConfig Dev) demo_transfer ?h
    = Some (Inr (\<lparr>txCode = 0, transactionHash = js ''AB'', rawLog = None\<rparr>,
        \<lparr>pollHash = js ''AB'', pollStatus = Confirmed, pollHeight = Some 7\<rparr>), h')"
    by (simp add: sendNativeTokenAndConfirm_def sendNativeToken_def buildNativeTransferMessage_def
        demo_transfer_def five broadcastTx_accepted demo_node_def waitForTx_def
        wait_loop.simps demo_found_def getNetworkConfig_def del: js_Cons)
  then show ?thesis
    using transfer_confirmed_is_the_sent_one
    by (fastforce simp: demo_transfer_def getNetworkConfig_def simp del: js_Cons)
qed

end
