(* ===== verification/Staking.thy ===== *)
theory Staking
  imports TxService WalletAccount
begin

text \<open>
  \<open>soulon-wallet/src/services/staking.ts\<close>: delegation, undelegation, redelegation, reward
  withdrawal and the staking queries. Every transaction is an instance of the locale
  \<open>tx_service\<close>; the specification \<open>validator_address\<close>, \<open>positive_integer\<close> and
  \<open>address_of_prefix\<close> says which inputs reach the network.
\<close>

definition INVALID_DELEGATOR_ADDRESS :: jstring where
  "INVALID_DELEGATOR_ADDRESS = js ''INVALID_DELEGATOR_ADDRESS''"
definition INVALID_VALIDATOR_ADDRESS :: jstring where
  "INVALID_VALIDATOR_ADDRESS = js ''INVALID_VALIDATOR_ADDRESS''"
definition INVALID_SOURCE_VALIDATOR_ADDRESS :: jstring where
  "INVALID_SOURCE_VALIDATOR_ADDRESS = js ''INVALID_SOURCE_VALIDATOR_ADDRESS''"
definition INVALID_DESTINATION_VALIDATOR_ADDRESS :: jstring where
  "INVALID_DESTINATION_VALIDATOR_ADDRESS = js ''INVALID_DESTINATION_VALIDATOR_ADDRESS''"
definition INVALID_AMOUNT :: jstring where
  "INVALID_AMOUNT = js ''INVALID_AMOUNT''"

definition normalizeRequired :: "jstring \<Rightarrow> jstring \<Rightarrow> jstring \<Rightarrow> (thrown, jstring) result" where
  "normalizeRequired v c fieldLabel =
     (let normalized = trim v in
      if normalized = [] then throwWallet c (fieldLabel @ js '' is required'') else Inr normalized)"

text \<open>\<open>^prefix valoper1 [02-9ac-hj-np-z]{10,}$\<close>\<close>

definition buildValidatorAddressPattern :: "jstring \<Rightarrow> rx" where
  "buildValidatorAddressPattern p =
     rx_of_pattern (escapeForRegex p) (Cat (lit (js ''valoper1'')) (repAtLeast 10 (Class BECH32_CLASS)))"

definition validateDelegatorAddress :: "NetworkConfig \<Rightarrow> jstring \<Rightarrow> (thrown, jstring) result" where
  "validateDelegatorAddress network address =
     ebind (normalizeRequired address INVALID_DELEGATOR_ADDRESS (js ''Delegator address'')) (\<lambda>normalized.
     ebind (isAddressForPrefix normalized (bech32Prefix network)) (\<lambda>ok.
       if \<not> ok then throwWallet INVALID_DELEGATOR_ADDRESS (js ''Delegator address format is invalid'')
       else Inr normalized))"

definition validateValidatorAddress :: "NetworkConfig \<Rightarrow> jstring \<Rightarrow> jstring \<Rightarrow> (thrown, jstring) result" where
  "validateValidatorAddress network address c =
     ebind (normalizeRequired address c (js ''Validator address'')) (\<lambda>normalized.
       if \<not> rx_test (buildValidatorAddressPattern (bech32Prefix network)) normalized
       then throwWallet c (js ''Validator address format is invalid'')
       else Inr normalized)"

text \<open>\<open>/^[0-9]+$/\<close>; \<open>BigInt\<close> of such a text is its decimal value.\<close>

definition validateAmount :: "jstring \<Rightarrow> (thrown, jstring) result" where
  "validateAmount amount =
     ebind (normalizeRequired amount INVALID_AMOUNT (js ''Amount'')) (\<lambda>normalized.
       if \<not> rx_test (repPlus (Class [(48, 57)])) normalized \<or> digitsValue normalized \<le> 0
       then throwWallet INVALID_AMOUNT (js ''Amount must be a positive integer string'')
       else Inr normalized)"

subsection \<open>Transactions\<close>

record DelegateInput =
  dg_delegator :: jstring
  dg_validator :: jstring
  dg_amount :: jstring
  dg_memo :: "jstring option"

record UndelegateInput =
  ud_delegator :: jstring
  ud_validator :: jstring
  ud_amount :: jstring
  ud_memo :: "jstring option"

record RedelegateInput =
  rd_delegator :: jstring
  rd_source :: jstring
  rd_destination :: jstring
  rd_amount :: jstring
  rd_memo :: "jstring option"

record WithdrawRewardsInput =
  wd_delegator :: jstring
  wd_validator :: jstring
  wd_memo :: "jstring option"

definition autoCall :: "jstring \<Rightarrow> jstring \<Rightarrow> msg_body \<Rightarrow> jstring option \<Rightarrow> SignCall" where
  "autoCall sender url body memo =
     \<lparr>signer = sender, messages = [\<lparr>typeUrl = url, msgValue = body\<rparr>], fee = js ''auto'',
      callMemo = nullish memo []\<rparr>"

definition delegateToValidator ::
  "coin_fn \<Rightarrow> 'w node \<Rightarrow> NetworkConfig \<Rightarrow> DelegateInput \<Rightarrow> 'w client \<Rightarrow> 'w service_result" where
  "delegateToValidator coin node network input =
     wtry (validateDelegatorAddress network (dg_delegator input)) (\<lambda>delegatorAddress.
     wtry (validateValidatorAddress network (dg_validator input) INVALID_VALIDATOR_ADDRESS) (\<lambda>validatorAddress.
     wtry (validateAmount (dg_amount input)) (\<lambda>amount.
       broadcastTx node
         (ebind (coin amount (denom network)) (\<lambda>cn. Inr
           (autoCall delegatorAddress (js ''/cosmos.staking.v1beta1.MsgDelegate'')
             (MsgDelegate delegatorAddress validatorAddress cn) (dg_memo input)))))))"

definition undelegateFromValidator ::
  "coin_fn \<Rightarrow> 'w node \<Rightarrow> NetworkConfig \<Rightarrow> UndelegateInput \<Rightarrow> 'w client \<Rightarrow> 'w service_result" where
  "undelegateFromValidator coin node network input =
     wtry (validateDelegatorAddress network (ud_delegator input)) (\<lambda>delegatorAddress.
     wtry (validateValidatorAddress network (ud_validator input) INVALID_VALIDATOR_ADDRESS) (\<lambda>validatorAddress.
     wtry (validateAmount (ud_amount input)) (\<lambda>amount.
       broadcastTx node
         (ebind (coin amount (denom network)) (\<lambda>cn. Inr
           (autoCall delegatorAddress (js ''/cosmos.staking.v1beta1.MsgUndelegate'')
             (MsgUndelegate delegatorAddress validatorAddress cn) (ud_memo input)))))))"

definition withdrawValidatorRewards ::
  "'w node \<Rightarrow> NetworkConfig \<Rightarrow> WithdrawRewardsInput \<Rightarrow> 'w client \<Rightarrow> 'w service_result" where
  "withdrawValidatorRewards node network input =
     wtry (validateDelegatorAddress network (wd_delegator input)) (\<lambda>delegatorAddress.
     wtry (validateValidatorAddress network (wd_validator input) INVALID_VALIDATOR_ADDRESS) (\<lambda>validatorAddress.
       broadcastTx node (Inr
         (autoCall delegatorAddress (js ''/cosmos.distribution.v1beta1.MsgWithdrawDelegatorReward'')
           (MsgWithdrawDelegatorReward delegatorAddress validatorAddress) (wd_memo input)))))"

definition redelegateToValidator ::
  "coin_fn \<Rightarrow> 'w node \<Rightarrow> NetworkConfig \<Rightarrow> RedelegateInput \<Rightarrow> 'w client \<Rightarrow> 'w service_result" where
  "redelegateToValidator coin node network input =
     wtry (validateDelegatorAddress network (rd_delegator input)) (\<lambda>delegatorAddress.
     wtry (validateValidatorAddress network (rd_source input) INVALID_SOURCE_VALIDATOR_ADDRESS) (\<lambda>src.
     wtry (validateValidatorAddress network (rd_destination input) INVALID_DESTINATION_VALIDATOR_ADDRESS) (\<lambda>dst.
     wtry (validateAmount (rd_amount input)) (\<lambda>amount.
       broadcastTx node
         (ebind (coin amount (denom network)) (\<lambda>cn. Inr
           (autoCall delegatorAddress (js ''/cosmos.staking.v1beta1.MsgBeginRedelegate'')
             (MsgBeginRedelegate delegatorAddress src dst cn) (rd_memo input))))))))"

subsection \<open>Queries\<close>

text \<open>\<open>await fetch(url)\<close> followed by \<open>response.json()\<close>, both on the state of the host.\<close>

record ('r, 'j, 'w) fetch_api =
  fetch :: "jstring \<Rightarrow> 'w \<Rightarrow> (thrown, 'r) result \<times> 'w"
  json :: "'r \<Rightarrow> 'w \<Rightarrow> (thrown, 'j) result \<times> 'w"

definition fetchJson :: "('r, 'j, 'w) fetch_api \<Rightarrow> jstring \<Rightarrow> 'w \<Rightarrow> (thrown, 'j) result \<times> 'w" where
  "fetchJson api url w = (case fetch api url w of (r, w') \<Rightarrow> wtry r (json api) w')"

definition queryValidators :: "('r, 'j, 'w) fetch_api \<Rightarrow> NetworkConfig \<Rightarrow> 'w \<Rightarrow> (thrown, 'j) result \<times> 'w" where
  "queryValidators api network =
     fetchJson api (restEndpoint network @ js ''/cosmos/staking/v1beta1/validators?status=BOND_STATUS_BONDED'')"

definition queryDelegations ::
  "('r, 'j, 'w) fetch_api \<Rightarrow> NetworkConfig \<Rightarrow> jstring \<Rightarrow> 'w \<Rightarrow> (thrown, 'j) result \<times> 'w" where
  "queryDelegations api network delegatorAddress =
     wtry (validateDelegatorAddress network delegatorAddress) (\<lambda>normalized.
       fetchJson api (restEndpoint network @ js ''/cosmos/staking/v1beta1/delegations/'' @ normalized))"

definition queryRewards ::
  "('r, 'j, 'w) fetch_api \<Rightarrow> NetworkConfig \<Rightarrow> jstring \<Rightarrow> 'w \<Rightarrow> (thrown, 'j) result \<times> 'w" where
  "queryRewards api network delegatorAddress =
     wtry (validateDelegatorAddress network delegatorAddress) (\<lambda>normalized.
       fetchJson api (restEndpoint network @ js ''/cosmos/distribution/v1beta1/delegators/'' @ normalized
         @ js ''/rewards''))"

subsection \<open>What the validators accept\<close>

definition validator_address :: "jstring \<Rightarrow> jstring \<Rightarrow> bool" where
  "validator_address p a \<longleftrightarrow>
     (\<exists>d. a = p @ js ''valoper1'' @ d \<and> 10 \<le> length d \<and> (\<forall>c\<in>set d. in_class BECH32_CLASS c))"

definition positive_integer :: "jstring \<Rightarrow> bool" where
  "positive_integer a \<longleftrightarrow> a \<noteq> [] \<and> list_all isDigit a \<and> 0 < digitsValue a"

lemma normalizeRequired_Inr [result_simps]: "normalizeRequired v c l = Inr x \<longleftrightarrow> x = trim v \<and> x \<noteq> []"
  by (auto simp: normalizeRequired_def Let_def)

lemma validator_pattern_iff:
  "rx_test (buildValidatorAddressPattern p) a \<longleftrightarrow> validator_address p a"
  unfolding buildValidatorAddressPattern_def rx_test_iff rx_of_escaped cat_lit_lang validator_address_def
    repAtLeast_class_lang
  by blast

lemma digits_class: "in_class [(48, 57)] c \<longleftrightarrow> isDigit c"
  by (simp add: in_class_def isDigit_def)

lemma validateDelegatorAddress_Inr [result_simps]:
  "validateDelegatorAddress network a = Inr x \<longleftrightarrow> x = trim a \<and>
     rx_test PREFIX_REGEX (trim (bech32Prefix network)) \<and> address_of_prefix (trim (bech32Prefix network)) x"
  by (auto simp: validateDelegatorAddress_def result_simps) (auto simp: address_of_prefix_def)

lemma validateValidatorAddress_Inr [result_simps]:
  "validateValidatorAddress network a c = Inr x \<longleftrightarrow> x = trim a \<and> validator_address (bech32Prefix network) x"
  by (auto simp: validateValidatorAddress_def result_simps validator_pattern_iff)
     (auto simp: validator_address_def)

lemma validateAmount_Inr [result_simps]:
  "validateAmount a = Inr x \<longleftrightarrow> x = trim a \<and> positive_integer x"
  by (auto simp: validateAmount_def result_simps rx_test_iff repPlus_class_lang digits_class
      positive_integer_def list_all_iff)

subsection \<open>The transactions as services\<close>

interpretation dg: tx_service "delegateToValidator coin node network"
  "\<lambda>input. ebind (validateDelegatorAddress network (dg_delegator input)) (\<lambda>d.
     ebind (validateValidatorAddress network (dg_validator input) INVALID_VALIDATOR_ADDRESS) (\<lambda>v.
     ebind (validateAmount (dg_amount input)) (\<lambda>a. Inr (d, v, a, dg_memo input))))"
  "\<lambda>(d, v, a, memo). ebind (coin a (denom network)) (\<lambda>cn. Inr
     (autoCall d (js ''/cosmos.staking.v1beta1.MsgDelegate'') (MsgDelegate d v cn) memo))" node
  for coin network node
  by unfold_locales (simp add: delegateToValidator_def wtry_ebind del: js_Cons)

interpretation ud: tx_service "undelegateFromValidator coin node network"
  "\<lambda>input. ebind (validateDelegatorAddress network (ud_delegator input)) (\<lambda>d.
     ebind (validateValidatorAddress network (ud_validator input) INVALID_VALIDATOR_ADDRESS) (\<lambda>v.
     ebind (validateAmount (ud_amount input)) (\<lambda>a. Inr (d, v, a, ud_memo input))))"
  "\<lambda>(d, v, a, memo). ebind (coin a (denom network)) (\<lambda>cn. Inr
     (autoCall d (js ''/cosmos.staking.v1beta1.MsgUndelegate'') (MsgUndelegate d v cn) memo))" node
  for coin network node
  by unfold_locales (simp add: undelegateFromValidator_def wtry_ebind del: js_Cons)

interpretation wd: tx_service "withdrawValidatorRewards node network"
  "\<lambda>input. ebind (validateDelegatorAddress network (wd_delegator input)) (\<lambda>d.
     ebind (validateValidatorAddress network (wd_validator input) INVALID_VALIDATOR_ADDRESS) (\<lambda>v.
       Inr (d, v, wd_memo input)))"
  "\<lambda>(d, v, memo). Inr (autoCall d (js ''/cosmos.distribution.v1beta1.MsgWithdrawDelegatorReward'')
     (MsgWithdrawDelegatorReward d v) memo)" node
  for network node
  by unfold_locales (simp add: withdrawValidatorRewards_def wtry_ebind del: js_Cons)

interpretation rd: tx_service "redelegateToValidator coin node network"
  "\<lambda>input. ebind (validateDelegatorAddress network (rd_delegator input)) (\<lambda>d.
     ebind (validateValidatorAddress network (rd_source input) INVALID_SOURCE_VALIDATOR_ADDRESS) (\<lambda>src.
     ebind (validateValidatorAddress network (rd_destination input) INVALID_DESTINATION_VALIDATOR_ADDRESS) (\<lambda>dst.
     ebind (validateAmount (rd_amount input)) (\<lambda>a. Inr (d, src, dst, a, rd_memo input)))))"
  "\<lambda>(d, src, dst, a, memo). ebind (coin a (denom network)) (\<lambda>cn. Inr
     (autoCall d (js ''/cosmos.staking.v1beta1.MsgBeginRedelegate'') (MsgBeginRedelegate d src dst cn) memo))" node
  for coin network node
  by unfold_locales (simp add: redelegateToValidator_def wtry_ebind del: js_Cons)

subsection \<open>Rejections\<close>

definition prefix_ok :: "NetworkConfig \<Rightarrow> bool" where
  "prefix_ok network \<longleftrightarrow> rx_test PREFIX_REGEX (bech32Prefix network)"

lemma in_prefix_class: "in_class [(97, 122)] c \<or> in_class [(97, 122), (48, 57)] c \<Longrightarrow> \<not> isWhite c"
  unfolding in_class_def isWhite_def by simp linarith

lemma prefix_ok_trim:
  assumes "prefix_ok network"
  shows "trim (bech32Prefix network) = bech32Prefix network"
proof (intro trim_id trimmed_no_white ballI)
  fix c
  assume "c \<in> set (bech32Prefix network)"
  moreover have "bech32Prefix network \<noteq> []" using assms by (auto simp: prefix_ok_def PREFIX_REGEX_iff)
  ultimately have "c = hd (bech32Prefix network) \<or> c \<in> set (tl (bech32Prefix network))"
    by (cases "bech32Prefix network") auto
  then show "\<not> isWhite c"
    using assms in_prefix_class unfolding prefix_ok_def PREFIX_REGEX_iff by blast
qed

lemma networks_prefix_ok: "prefix_ok (getNetworkConfig env)"
  by (cases env) (simp_all add: prefix_ok_def getNetworkConfig_def PREFIX_REGEX_iff in_class_def)

lemma validateDelegatorAddress_cases:
  assumes "prefix_ok network"
  shows "if address_of_prefix (bech32Prefix network) (trim a)
    then validateDelegatorAddress network a = Inr (trim a)
    else \<exists>m. validateDelegatorAddress network a = throwWallet INVALID_DELEGATOR_ADDRESS m"
proof -
  have "isAddressForPrefix (trim a) (bech32Prefix network) = Inr (address_of_prefix (bech32Prefix network) (trim a))"
    using assms prefix_ok_trim[OF assms] by (simp add: isAddressForPrefix_Inr prefix_ok_def)
  moreover have "address_of_prefix (bech32Prefix network) (trim a) \<Longrightarrow> trim a \<noteq> []"
    by (auto simp: address_of_prefix_def)
  ultimately show ?thesis
    by (auto simp: validateDelegatorAddress_def normalizeRequired_def Let_def)
qed

lemma validateValidatorAddress_cases:
  "if validator_address (bech32Prefix network) (trim a)
   then validateValidatorAddress network a x = Inr (trim a)
   else \<exists>m. validateValidatorAddress network a x = throwWallet x m"
  by (auto simp: validateValidatorAddress_def normalizeRequired_def Let_def validator_pattern_iff)
     (auto simp: validator_address_def)

lemma validateAmount_cases:
  "if positive_integer (trim a) then validateAmount a = Inr (trim a)
   else \<exists>m. validateAmount a = throwWallet INVALID_AMOUNT m"
  by (auto simp: validateAmount_def normalizeRequired_def Let_def rx_test_iff repPlus_class_lang digits_class
      positive_integer_def list_all_iff)

lemma coin_of_amount:
  assumes "coin_accepts_digits coin" "positive_integer a"
  shows "\<exists>x. coin a d = Inr \<lparr>coinDenom = d, coinAmount = x\<rparr> \<and> digitsValue x = digitsValue a"
  using assms by (auto simp: coin_accepts_digits_def positive_integer_def)

subsection \<open>Properties\<close>

text \<open>
  C31: \<open>redelegateToValidator\<close> rejects the first invalid field in the order delegator, source
  validator, destination validator, amount, with the error code of that field and without
  any broadcast; a valid input is broadcast one to three times, every time the same call,
  signed by the trimmed delegator address and carrying the validated addresses and a coin
  of the same value in the network's denomination. (The coin constructor of CosmJS accepts
  strings of digits and keeps their value.)
\<close>

theorem redelegate_validates_in_order:
  assumes "coin_accepts_digits coin" "prefix_ok network"
  shows "let p = bech32Prefix network; d = trim (rd_delegator input); src = trim (rd_source input);
      dst = trim (rd_destination input); a = trim (rd_amount input);
      out = redelegateToValidator coin node network input c
    in if \<not> address_of_prefix p d then \<exists>m. out = (throwWallet INVALID_DELEGATOR_ADDRESS m, c)
    else if \<not> validator_address p src then \<exists>m. out = (throwWallet INVALID_SOURCE_VALIDATOR_ADDRESS m, c)
    else if \<not> validator_address p dst then \<exists>m. out = (throwWallet INVALID_DESTINATION_VALIDATOR_ADDRESS m, c)
    else if \<not> positive_integer a then \<exists>m. out = (throwWallet INVALID_AMOUNT m, c)
    else \<exists>n\<in>{1..3}. \<exists>x. digitsValue x = digitsValue a \<and> sent (snd out) = sent c @ replicate n
      (autoCall d (js ''/cosmos.staking.v1beta1.MsgBeginRedelegate'')
        (MsgBeginRedelegate d src dst \<lparr>coinDenom = denom network, coinAmount = x\<rparr>) (rd_memo input))"
proof -
  define p d src dst a where defs: "p = bech32Prefix network" "d = trim (rd_delegator input)"
    "src = trim (rd_source input)" "dst = trim (rd_destination input)" "a = trim (rd_amount input)"
  define out where out: "out = redelegateToValidator coin node network input c"
  note steps = validateDelegatorAddress_cases[OF assms(2), of "rd_delegator input"]
    validateValidatorAddress_cases[of network "rd_source input" INVALID_SOURCE_VALIDATOR_ADDRESS]
    validateValidatorAddress_cases[of network "rd_destination input" INVALID_DESTINATION_VALIDATOR_ADDRESS]
    validateAmount_cases[of "rd_amount input"]
  note steps = steps[folded defs]
  have "\<exists>n\<in>{1..3}. \<exists>x. digitsValue x = digitsValue a \<and> sent (snd out) = sent c @ replicate n
      (autoCall d (js ''/cosmos.staking.v1beta1.MsgBeginRedelegate'')
        (MsgBeginRedelegate d src dst \<lparr>coinDenom = denom network, coinAmount = x\<rparr>) (rd_memo input))"
    if ok: "address_of_prefix p d" "validator_address p src" "validator_address p dst" "positive_integer a"
  proof -
    obtain x where x: "coin a (denom network) = Inr \<lparr>coinDenom = denom network, coinAmount = x\<rparr>"
      "digitsValue x = digitsValue a" using coin_of_amount[OF assms(1) ok(4)] by blast
    have "\<exists>n\<in>{1..3}. sent (snd out) = sent c @ replicate n
      (autoCall d (js ''/cosmos.staking.v1beta1.MsgBeginRedelegate'')
        (MsgBeginRedelegate d src dst \<lparr>coinDenom = denom network, coinAmount = x\<rparr>) (rd_memo input))"
      unfolding out using steps ok x
      by (intro rd.accepted[where v = "(d, src, dst, a, rd_memo input)"]) (simp_all del: js_Cons)
    with x show ?thesis by blast
  qed
  then show ?thesis
    using steps unfolding Let_def defs[symmetric] out[symmetric]
    by (cases "address_of_prefix p d"; cases "validator_address p src"; cases "validator_address p dst";
        cases "positive_integer a") (auto simp: out redelegateToValidator_def simp del: js_Cons)
qed

definition demo_redelegate :: RedelegateInput where
  "demo_redelegate = \<lparr>rd_delegator = js '' soulon1qqqqqq'', rd_source = js ''soulonvaloper1qqqqqqqqqq'',
     rd_destination = js ''soulonvaloper1pppppppppp'', rd_amount = js ''25'', rd_memo = None\<rparr>"

lemma demo_trims:
  "trim (js '' soulon1qqqqqq'') = js ''soulon1qqqqqq''" "trim (js ''soulon1qqqqqq'') = js ''soulon1qqqqqq''"
  "trim (js ''soulonvaloper1qqqqqqqqqq'') = js ''soulonvaloper1qqqqqqqqqq''"
  "trim (js ''soulonvaloper1pppppppppp'') = js ''soulonvaloper1pppppppppp''" "trim (js ''25'') = js ''25''"
  by (simp_all add: trim_def trimStart_def trimEnd_def isWhite_def)

lemma demo_addresses:
  "address_of_prefix (js ''soulon'') (js ''soulon1qqqqqq'')"
  "validator_address (js ''soulon'') (js ''soulonvaloper1qqqqqqqqqq'')"
  "validator_address (js ''soulon'') (js ''soulonvaloper1pppppppppp'')"
  by (simp_all add: address_of_prefix_def validator_address_def in_class_def BECH32_CLASS_def)

lemma demo_amount: "positive_integer (js ''25'')"
  by (simp add: positive_integer_def isDigit_def digitsValue_def)

theorem redelegate_validates_in_order_witness:
  "\<exists>n\<in>{1..3}. \<exists>x. digitsValue x = 25 \<and>
     sent (snd (redelegateToValidator demo_coin demo_node (getNetworkConfig Dev) demo_redelegate
       \<lparr>remote = 0, sent = []\<rparr>)) = replicate n
      (autoCall (js ''soulon1qqqqqq'') (js ''/cosmos.staking.v1beta1.MsgBeginRedelegate'')
        (MsgBeginRedelegate (js ''soulon1qqqqqq'') (js ''soulonvaloper1qqqqqqqqqq'')
          (js ''soulonvaloper1pppppppppp'') \<lparr>coinDenom = js ''usoul'', coinAmount = x\<rparr>) None)"
proof -
  have v: "digitsValue (js ''25'') = 25" by (simp add: digitsValue_def)
  have p: "bech32Prefix (getNetworkConfig Dev) = js ''soulon''" "denom (getNetworkConfig Dev) = js ''usoul''"
    by (simp_all add: getNetworkConfig_def del: js_Cons)
  show ?thesis
    using redelegate_validates_in_order[OF demo_coin_accepts_digits networks_prefix_ok[of Dev],
        of demo_redelegate demo_node "\<lparr>remote = 0, sent = []\<rparr>"] demo_addresses demo_amount
    unfolding Let_def p demo_redelegate_def RedelegateInput.select_convs demo_trims v
    by (simp del: js_Cons)
qed

definition staking_inputs_ok :: "NetworkConfig \<Rightarrow> jstring \<Rightarrow> jstring \<Rightarrow> bool" where
  "staking_inputs_ok network d v \<longleftrightarrow>
     address_of_prefix (trim (bech32Prefix network)) d \<and> validator_address (bech32Prefix network) v"

text \<open>
  C11: safety of the other staking transactions. Whenever \<open>delegateToValidator\<close>,
  \<open>undelegateFromValidator\<close> or \<open>withdrawValidatorRewards\<close> adds anything to the calls signed
  by the client, it is between one and three copies of one call, signed by the trimmed
  delegator address, whose message names exactly the validated addresses of the network and,
  where there is an amount, a positive integer one in the network's denomination.
\<close>

theorem staking_sends_only_validated:
  "(sent (snd (delegateToValidator coin node network dg_in c)) \<noteq> sent c \<longrightarrow>
     staking_inputs_ok network (trim (dg_delegator dg_in)) (trim (dg_validator dg_in)) \<and>
     positive_integer (trim (dg_amount dg_in)) \<and>
     (\<exists>n\<in>{1..3}. \<exists>cn. coin (trim (dg_amount dg_in)) (denom network) = Inr cn \<and>
        sent (snd (delegateToValidator coin node network dg_in c)) = sent c @ replicate n
          (autoCall (trim (dg_delegator dg_in)) (js ''/cosmos.staking.v1beta1.MsgDelegate'')
            (MsgDelegate (trim (dg_delegator dg_in)) (trim (dg_validator dg_in)) cn) (dg_memo dg_in)))) \<and>
   (sent (snd (undelegateFromValidator coin node network ud_in c)) \<noteq> sent c \<longrightarrow>
     staking_inputs_ok network (trim (ud_delegator ud_in)) (trim (ud_validator ud_in)) \<and>
     positive_integer (trim (ud_amount ud_in)) \<and>
     (\<exists>n\<in>{1..3}. \<exists>cn. coin (trim (ud_amount ud_in)) (denom network) = Inr cn \<and>
        sent (snd (undelegateFromValidator coin node network ud_in c)) = sent c @ replicate n
          (autoCall (trim (ud_delegator ud_in)) (js ''/cosmos.staking.v1beta1.MsgUndelegate'')
            (MsgUndelegate (trim (ud_delegator ud_in)) (trim (ud_validator ud_in)) cn) (ud_memo ud_in)))) \<and>
   (sent (snd (withdrawValidatorRewards node network wd_in c)) \<noteq> sent c \<longrightarrow>
     staking_inputs_ok network (trim (wd_delegator wd_in)) (trim (wd_validator wd_in)) \<and>
     (\<exists>n\<in>{1..3}. sent (snd (withdrawValidatorRewards node network wd_in c)) = sent c @ replicate n
          (autoCall (trim (wd_delegator wd_in)) (js ''/cosmos.distribution.v1beta1.MsgWithdrawDelegatorReward'')
            (MsgWithdrawDelegatorReward (trim (wd_delegator wd_in)) (trim (wd_validator wd_in))) (wd_memo wd_in))))"
  (is "?dg \<and> ?ud \<and> ?wd")
proof (intro conjI)
  show ?dg
    by (rule impI, drule dg.sends_only_prepared) (auto simp: result_simps staking_inputs_ok_def ebind_eq_Inr simp del: js_Cons)
  show ?ud
    by (rule impI, drule ud.sends_only_prepared) (auto simp: result_simps staking_inputs_ok_def ebind_eq_Inr simp del: js_Cons)
  show ?wd
    by (rule impI, drule wd.sends_only_prepared) (auto simp: result_simps staking_inputs_ok_def ebind_eq_Inr simp del: js_Cons)
qed

definition demo_delegate :: DelegateInput where
  "demo_delegate = \<lparr>dg_delegator = js '' soulon1qqqqqq'', dg_validator = js ''soulonvaloper1qqqqqqqqqq'',
     dg_amount = js ''25'', dg_memo = None\<rparr>"

lemma demo_delegate_runs:
  "sent (snd (delegateToValidator demo_coin demo_node (getNetworkConfig Dev) demo_delegate
     \<lparr>remote = 0, sent = []\<rparr>)) \<noteq> []"
proof -
  have p: "bech32Prefix (getNetworkConfig Dev) = js ''soulon''"
    by (simp add: getNetworkConfig_def del: js_Cons)
  have "validateDelegatorAddress (getNetworkConfig Dev) (js '' soulon1qqqqqq'') = Inr (js ''soulon1qqqqqq'')"
    using validateDelegatorAddress_cases[OF networks_prefix_ok[of Dev], of "js '' soulon1qqqqqq''"]
    unfolding p demo_trims using demo_addresses by (simp del: js_Cons)
  moreover have "validateValidatorAddress (getNetworkConfig Dev) (js ''soulonvaloper1qqqqqqqqqq'') x
      = Inr (js ''soulonvaloper1qqqqqqqqqq'')" for x
    using demo_addresses unfolding validateValidatorAddress_Inr p demo_trims by simp
  moreover have "validateAmount (js ''25'') = Inr (js ''25'')"
    using demo_amount unfolding validateAmount_Inr demo_trims by simp
  moreover have "demo_coin (js ''25'') d = Inr \<lparr>coinDenom = d, coinAmount = js ''25''\<rparr>" for d
    by (simp add: demo_coin_def isDigit_def)
  ultimately show ?thesis
    by (simp add: delegateToValidator_def demo_delegate_def broadcastTx_accepted demo_node_def del: js_Cons)
qed

theorem staking_sends_only_validated_witness:
  "staking_inputs_ok (getNetworkConfig Dev) (js ''soulon1qqqqqq'') (js ''soulonvaloper1qqqqqqqqqq'')"
  using staking_sends_only_validated[of demo_coin demo_node "getNetworkConfig Dev" demo_delegate "\<lparr>remote = 0, sent = []\<rparr>",
      THEN conjunct1] demo_delegate_runs
  by (simp add: demo_delegate_def demo_trims del: js_Cons)

end
