(* ===== verification/ChainServices.thy ===== *)
theory ChainServices
  imports Staking UrlEncoding
begin

text \<open>
  \<open>soulon-wallet/src/services/governance.ts\<close>, \<open>ibc.ts\<close> and \<open>authz.ts\<close>: votes and proposal
  queries, token transfers between chains, and authorizations. \<open>Date.now()\<close> is the argument
  \<open>now\<close> in milliseconds; a date is its time value, \<open>None\<close> being the invalid date.
\<close>

section \<open>Governance\<close>

datatype VoteOptionType = VoteYes | VoteNo | VoteAbstain | VoteNoWithVeto

fun voteOptionMap :: "VoteOptionType \<Rightarrow> VoteOption" where
  "voteOptionMap VoteYes = VOTE_OPTION_YES"
| "voteOptionMap VoteNo = VOTE_OPTION_NO"
| "voteOptionMap VoteAbstain = VOTE_OPTION_ABSTAIN"
| "voteOptionMap VoteNoWithVeto = VOTE_OPTION_NO_WITH_VETO"

definition INVALID_VOTER_ADDRESS :: jstring where "INVALID_VOTER_ADDRESS = js ''INVALID_VOTER_ADDRESS''"
definition INVALID_PROPOSAL_ID :: jstring where "INVALID_PROPOSAL_ID = js ''INVALID_PROPOSAL_ID''"
definition INVALID_PROPOSAL_STATUS :: jstring where "INVALID_PROPOSAL_STATUS = js ''INVALID_PROPOSAL_STATUS''"

definition normalizeRequiredGov :: "jstring \<Rightarrow> jstring \<Rightarrow> jstring \<Rightarrow> (thrown, jstring) result" where
  "normalizeRequiredGov v c fieldLabel =
     (let normalized = trim v in
      if normalized = [] then throwWallet c (fieldLabel @ js '' is required'') else Inr normalized)"

definition validateVoterAddress :: "NetworkConfig \<Rightarrow> jstring \<Rightarrow> (thrown, jstring) result" where
  "validateVoterAddress network voterAddress =
     ebind (normalizeRequiredGov voterAddress INVALID_VOTER_ADDRESS (js ''Voter address'')) (\<lambda>normalized.
     ebind (isAddressForPrefix normalized (bech32Prefix network)) (\<lambda>ok.
       if \<not> ok then throwWallet INVALID_VOTER_ADDRESS (js ''Voter address format is invalid'')
       else Inr normalized))"

definition validateProposalId :: "int \<Rightarrow> (thrown, int) result" where
  "validateProposalId proposalId =
     (if proposalId \<le> 0 then throwWallet INVALID_PROPOSAL_ID (js ''Proposal id must be greater than 0'')
      else Inr proposalId)"

record VoteInput =
  voterAddress :: jstring
  voteProposalId :: int
  voteOption :: VoteOptionType
  voteMemo :: "jstring option"

definition voteProposal :: "'w node \<Rightarrow> NetworkConfig \<Rightarrow> VoteInput \<Rightarrow> 'w client \<Rightarrow> 'w service_result" where
  "voteProposal node network input =
     wtry (validateVoterAddress network (voterAddress input)) (\<lambda>voter.
     wtry (validateProposalId (voteProposalId input)) (\<lambda>proposalId.
       broadcastTx node (Inr
         (autoCall voter (js ''/cosmos.gov.v1beta1.MsgVote'')
           (MsgVote proposalId voter (voteOptionMap (voteOption input))) (voteMemo input)))))"

definition proposalsUrl :: "NetworkConfig \<Rightarrow> jstring \<Rightarrow> jstring" where
  "proposalsUrl network rest = restEndpoint network @ js ''/cosmos/gov/v1beta1/proposals'' @ rest"

definition queryProposals ::
  "('r, 'j, 'w) fetch_api \<Rightarrow> NetworkConfig \<Rightarrow> jstring option \<Rightarrow> 'w \<Rightarrow> (thrown, 'j) result \<times> 'w" where
  "queryProposals api network proposalStatus =
     (let normalizedStatus = map_option trim proposalStatus in
      if proposalStatus \<noteq> None \<and> normalizedStatus = Some []
      then (\<lambda>w. (throwWallet INVALID_PROPOSAL_STATUS (js ''Proposal status must be a non-empty string''), w))
      else
        wtry (case normalizedStatus of
                None \<Rightarrow> Inr []
              | Some status \<Rightarrow>
                  (case encodeURIComponent status of
                     None \<Rightarrow> Inl (ThrownError (js ''URI malformed''))
                   | Some t \<Rightarrow> Inr (js ''?proposal_status='' @ t)))
          (\<lambda>statusQuery. fetchJson api (proposalsUrl network statusQuery)))"

definition queryProposalDetail ::
  "('r, 'j, 'w) fetch_api \<Rightarrow> NetworkConfig \<Rightarrow> int \<Rightarrow> 'w \<Rightarrow> (thrown, 'j) result \<times> 'w" where
  "queryProposalDetail api network proposalId =
     wtry (validateProposalId proposalId) (\<lambda>normalizedProposalId.
       fetchJson api (proposalsUrl network (js ''/'' @ intString normalizedProposalId)))"

definition queryProposalVotes ::
  "('r, 'j, 'w) fetch_api \<Rightarrow> NetworkConfig \<Rightarrow> int \<Rightarrow> 'w \<Rightarrow> (thrown, 'j) result \<times> 'w" where
  "queryProposalVotes api network proposalId =
     wtry (validateProposalId proposalId) (\<lambda>normalizedProposalId.
       fetchJson api (proposalsUrl network (js ''/'' @ intString normalizedProposalId @ js ''/votes'')))"

section \<open>Transfers between chains\<close>

record IBCTransferInput =
  ibcSender :: jstring
  ibcReceiver :: jstring
  sourcePort :: jstring
  sourceChannel :: jstring
  ibcAmount :: jstring
  timeoutSeconds :: "jsnum option"
  ibcMemo :: "jstring option"

text \<open>\<open>BigInt(number)\<close> throws a \<open>RangeError\<close> unless the number is an integer.\<close>

definition bigInt :: "jsnum \<Rightarrow> (thrown, int) result" where
  "bigInt x =
     (case x of
        Fin q \<Rightarrow> if isInteger x then Inr \<lfloor>q\<rfloor> else Inl (ThrownError (js ''RangeError''))
      | _ \<Rightarrow> Inl (ThrownError (js ''RangeError'')))"

definition transferIBC ::
  "(rat \<Rightarrow> jsnum) \<Rightarrow> coin_fn \<Rightarrow> 'w node \<Rightarrow> NetworkConfig \<Rightarrow> int \<Rightarrow> IBCTransferInput
     \<Rightarrow> 'w client \<Rightarrow> 'w service_result" where
  "transferIBC rnd coin node network now input =
     (let seconds = nullish (timeoutSeconds input) (num 300) in
      wtry (bigInt (num_mul rnd seconds (num 1000))) (\<lambda>timeoutMillis.
        let timeoutTimestampNs = (now + timeoutMillis) * 1000000 in
        broadcastTx node
          (ebind (coin (ibcAmount input) (denom network)) (\<lambda>token. Inr
            (autoCall (ibcSender input) (js ''/ibc.applications.transfer.v1.MsgTransfer'')
              (MsgTransfer (sourcePort input) (sourceChannel input) token (ibcSender input)
                (ibcReceiver input) timeoutTimestampNs) (ibcMemo input))))))"

definition queryIBCChannels :: "('r, 'j, 'w) fetch_api \<Rightarrow> NetworkConfig \<Rightarrow> 'w \<Rightarrow> (thrown, 'j) result \<times> 'w" where
  "queryIBCChannels api network = fetchJson api (restEndpoint network @ js ''/ibc/core/channel/v1/channels'')"

section \<open>Authorizations\<close>

text \<open>The remainder \<open>%\<close> of the language has the sign of the dividend.\<close>

definition jsRem :: "int \<Rightarrow> int \<Rightarrow> int" where
  "jsRem m k = (if m < 0 then - ((- m) mod k) else m mod k)"

text \<open>
  \<open>Math.floor(millis / 1000)\<close> is exact on the range of dates: the quotient is below
  \<open>2 ^ 43\<close>, where doubles are less than a thousandth apart.
\<close>

definition toTimestamp :: "int option \<Rightarrow> (thrown, Timestamp) result" where
  "toTimestamp date =
     (case date of
        None \<Rightarrow> Inl (ThrownError (js ''RangeError''))
      | Some millis \<Rightarrow> Inr \<lparr>tsSeconds = millis div 1000, tsNanos = jsRem millis 1000 * 1000000\<rparr>)"

record AuthzGrantInput =
  grantGranter :: jstring
  grantGrantee :: jstring
  grantMsgTypeUrl :: jstring
  expiration :: "int option option"
  grantMemo :: "jstring option"

record AuthzExecInput =
  execGrantee :: jstring
  execMessages :: "AuthzExecMessage list"
  execMemo :: "jstring option"

record AuthzRevokeInput =
  revokeGranter :: jstring
  revokeGrantee :: jstring
  revokeMsgTypeUrl :: jstring
  revokeMemo :: "jstring option"

text \<open>\<open>encodeGeneric\<close> is the protobuf encoding of a \<open>GenericAuthorization\<close>.\<close>

definition grantGenericAuthorization ::
  "(jstring \<Rightarrow> nat list) \<Rightarrow> 'w node \<Rightarrow> int \<Rightarrow> AuthzGrantInput \<Rightarrow> 'w client \<Rightarrow> 'w service_result" where
  "grantGenericAuthorization encodeGeneric node now input =
     (let expires = nullish (expiration input) (Some (now + 7 * 24 * 60 * 60 * 1000)) in
      broadcastTx node
        (ebind (toTimestamp expires) (\<lambda>ts. Inr
          (autoCall (grantGranter input) (js ''/cosmos.authz.v1beta1.MsgGrant'')
            (MsgGrant (grantGranter input) (grantGrantee input)
              (js ''/cosmos.authz.v1beta1.GenericAuthorization'') (encodeGeneric (grantMsgTypeUrl input)) ts)
            (grantMemo input)))))"

definition executeAuthorizedMessages :: "'w node \<Rightarrow> AuthzExecInput \<Rightarrow> 'w client \<Rightarrow> 'w service_result" where
  "executeAuthorizedMessages node input =
     broadcastTx node (Inr
       (autoCall (execGrantee input) (js ''/cosmos.authz.v1beta1.MsgExec'')
         (MsgExec (execGrantee input)
           (map (\<lambda>m. \<lparr>execTypeUrl = execTypeUrl m, execValue = execValue m\<rparr>) (execMessages input)))
         (execMemo input)))"

definition revokeAuthorization :: "'w node \<Rightarrow> AuthzRevokeInput \<Rightarrow> 'w client \<Rightarrow> 'w service_result" where
  "revokeAuthorization node input =
     broadcastTx node (Inr
       (autoCall (revokeGranter input) (js ''/cosmos.authz.v1beta1.MsgRevoke'')
         (MsgRevoke (revokeGranter input) (revokeGrantee input) (revokeMsgTypeUrl input))
         (revokeMemo input)))"

section \<open>The transactions as services\<close>

interpretation vote: tx_service "voteProposal node network"
  "\<lambda>input. ebind (validateVoterAddress network (voterAddress input)) (\<lambda>v.
     ebind (validateProposalId (voteProposalId input)) (\<lambda>i. Inr (v, i, input)))"
  "\<lambda>(v, i, input). Inr (autoCall v (js ''/cosmos.gov.v1beta1.MsgVote'')
     (MsgVote i v (voteOptionMap (voteOption input))) (voteMemo input))" node
  for network node
  by unfold_locales (simp add: voteProposal_def wtry_ebind del: js_Cons)

interpretation ibc: tx_service "transferIBC rnd coin node network now"
  "\<lambda>input. ebind (bigInt (num_mul rnd (nullish (timeoutSeconds input) (num 300)) (num 1000)))
     (\<lambda>ms. Inr ((now + ms) * 1000000, input))"
  "\<lambda>(ns, input). ebind (coin (ibcAmount input) (denom network)) (\<lambda>token. Inr
     (autoCall (ibcSender input) (js ''/ibc.applications.transfer.v1.MsgTransfer'')
       (MsgTransfer (sourcePort input) (sourceChannel input) token (ibcSender input) (ibcReceiver input) ns)
       (ibcMemo input)))" node
  for rnd coin network now node
  by unfold_locales (simp add: transferIBC_def wtry_ebind Let_def del: js_Cons)

interpretation grant: tx_service "grantGenericAuthorization encodeGeneric node now" Inr
  "\<lambda>input. ebind (toTimestamp (nullish (expiration input) (Some (now + 7 * 24 * 60 * 60 * 1000)))) (\<lambda>ts. Inr
     (autoCall (grantGranter input) (js ''/cosmos.authz.v1beta1.MsgGrant'')
       (MsgGrant (grantGranter input) (grantGrantee input) (js ''/cosmos.authz.v1beta1.GenericAuthorization'')
         (encodeGeneric (grantMsgTypeUrl input)) ts) (grantMemo input)))" node
  for encodeGeneric now node
  by unfold_locales (simp add: grantGenericAuthorization_def Let_def del: js_Cons)

interpretation exec: tx_service "executeAuthorizedMessages node" Inr
  "\<lambda>input. Inr (autoCall (execGrantee input) (js ''/cosmos.authz.v1beta1.MsgExec'')
     (MsgExec (execGrantee input) (execMessages input)) (execMemo input))" node
  for node
  by unfold_locales (simp add: executeAuthorizedMessages_def map_idI del: js_Cons)

interpretation revoke: tx_service "revokeAuthorization node" Inr
  "\<lambda>input. Inr (autoCall (revokeGranter input) (js ''/cosmos.authz.v1beta1.MsgRevoke'')
     (MsgRevoke (revokeGranter input) (revokeGrantee input) (revokeMsgTypeUrl input)) (revokeMemo input))" node
  for node
  by unfold_locales (simp add: revokeAuthorization_def del: js_Cons)

section \<open>Properties\<close>

lemma validateVoterAddress_cases:
  assumes "prefix_ok network"
  shows "if address_of_prefix (bech32Prefix network) (trim a)
    then validateVoterAddress network a = Inr (trim a)
    else \<exists>m. validateVoterAddress network a = throwWallet INVALID_VOTER_ADDRESS m"
proof -
  have "isAddressForPrefix (trim a) (bech32Prefix network) = Inr (address_of_prefix (bech32Prefix network) (trim a))"
    using assms prefix_ok_trim[OF assms] by (simp add: isAddressForPrefix_Inr prefix_ok_def)
  moreover have "address_of_prefix (bech32Prefix network) (trim a) \<Longrightarrow> trim a \<noteq> []"
    by (auto simp: address_of_prefix_def)
  ultimately show ?thesis
    by (auto simp: validateVoterAddress_def normalizeRequiredGov_def Let_def)
qed

text \<open>
  \<open>voteProposal\<close> sends nothing when the voter address is not one of the network (checked
  first) or the proposal id is not positive, and throws the code of that field; otherwise
  it sends one to three copies of the vote with the trimmed address, the id and the option.
\<close>

theorem vote_validates_in_order:
  assumes "prefix_ok network"
  shows "let v = trim (voterAddress input); out = voteProposal node network input c
    in if \<not> address_of_prefix (bech32Prefix network) v then \<exists>m. out = (throwWallet INVALID_VOTER_ADDRESS m, c)
    else if voteProposalId input \<le> 0 then \<exists>m. out = (throwWallet INVALID_PROPOSAL_ID m, c)
    else \<exists>n\<in>{1..3}. sent (snd out) = sent c @ replicate n
      (autoCall v (js ''/cosmos.gov.v1beta1.MsgVote'')
        (MsgVote (voteProposalId input) v (voteOptionMap (voteOption input))) (voteMemo input))"
proof (cases "address_of_prefix (bech32Prefix network) (trim (voterAddress input)) \<and> 0 < voteProposalId input")
  case True
  let ?v = "trim (voterAddress input)"
  have "\<exists>n\<in>{1..3}. sent (snd (voteProposal node network input c)) = sent c @ replicate n
      (autoCall ?v (js ''/cosmos.gov.v1beta1.MsgVote'')
        (MsgVote (voteProposalId input) ?v (voteOptionMap (voteOption input))) (voteMemo input))"
    using validateVoterAddress_cases[OF assms, of "voterAddress input"] True
    by (intro vote.accepted[where v = "(?v, voteProposalId input, input)"])
       (simp_all add: validateProposalId_def del: js_Cons)
  with True show ?thesis by (simp add: Let_def del: js_Cons)
next
  case False
  then show ?thesis
    using validateVoterAddress_cases[OF assms, of "voterAddress input"]
    by (auto simp: Let_def voteProposal_def validateProposalId_def simp del: js_Cons split: if_splits)
qed

definition demo_vote :: VoteInput where
  "demo_vote = \<lparr>voterAddress = js '' soulon1qqqqqq'', voteProposalId = 7, voteOption = VoteNoWithVeto,
     voteMemo = Some (js ''m'')\<rparr>"

theorem vote_validates_in_order_witness:
  "\<exists>n\<in>{1..3}. sent (snd (voteProposal demo_node (getNetworkConfig Dev) demo_vote \<lparr>remote = 0, sent = []\<rparr>)) =
     replicate n (autoCall (js ''soulon1qqqqqq'') (js ''/cosmos.gov.v1beta1.MsgVote'')
        (MsgVote 7 (js ''soulon1qqqqqq'') VOTE_OPTION_NO_WITH_VETO) (Some (js ''m'')))"
proof -
  have p: "bech32Prefix (getNetworkConfig Dev) = js ''soulon''"
    by (simp add: getNetworkConfig_def del: js_Cons)
  show ?thesis
    using vote_validates_in_order[OF networks_prefix_ok[of Dev], of demo_vote demo_node "\<lparr>remote = 0, sent = []\<rparr>"]
      demo_addresses(1)
    unfolding Let_def p demo_vote_def VoteInput.select_convs demo_trims
    by (simp del: js_Cons)
qed

subsection \<open>The status query\<close>

definition componentByte :: "nat \<Rightarrow> jstring" where
  "componentByte b = (if isUnreserved b then [b] else percentByte b)"

lemma encodeURIComponent_bytes:
  "encodeURIComponent s =
     (if isWellFormed s then Some (concat (map componentByte (utf8Encode (codePoints s)))) else None)"
  by (simp add: encodeURIComponent_def componentByte_def[abs_def])

lemma unreserved_not_percent: "isUnreserved b \<Longrightarrow> b \<noteq> 37"
  by (auto simp: isUnreserved_def isAlnum_def)

lemma componentBytes_decode:
  "\<forall>b\<in>set bs. b < 256 \<Longrightarrow> percentDecode (concat (map componentByte bs)) = bs"
  by (induction bs)
     (auto simp: componentByte_def percentDecode_percentByte percentDecode_plain unreserved_not_percent)

lemma percentByte_chars:
  assumes "c \<in> set (percentByte b)" "b < 256"
  shows "c = 37 \<or> isAlnum c"
proof -
  have "isAlnum (hexDigit n)" if "n < 16" for n using that by (auto simp: hexDigit_def isAlnum_def)
  moreover have "b div 16 < 16" "b mod 16 < 16" using assms(2) by auto
  ultimately show ?thesis using assms(1) by (auto simp: percentByte_def)
qed

lemma componentByte_chars: "c \<in> set (componentByte b) \<Longrightarrow> b < 256 \<Longrightarrow> c = 37 \<or> isUnreserved c"
  using percentByte_chars by (auto simp: componentByte_def isUnreserved_def split: if_splits)

text \<open>
  a non-blank status can not escape from its query parameter: \<open>queryProposals\<close> requests
  one URL whose parameter value consists of unreserved characters and percent signs only
  (so no \<open>&\<close>, \<open>=\<close>, \<open>?\<close> or \<open>#\<close>) and decodes to the trimmed status.
\<close>

theorem queryProposals_encodes_status:
  assumes "trim status \<noteq> []" "isWellFormed (trim status)"
  shows "\<exists>t. queryProposals api network (Some status) w =
      fetchJson api (proposalsUrl network (js ''?proposal_status='' @ t)) w \<and>
    (\<forall>c\<in>set t. c = 37 \<or> isUnreserved c) \<and>
    fromCodePoints (decodeUtf8 (percentDecode t)) = trim status"
proof -
  let ?bs = "utf8Encode (codePoints (trim status))"
  have units: "is_code_units (trim status)" by (rule isWellFormed_units[OF assms(2)])
  have bytes: "\<forall>b\<in>set ?bs. b < 256" using utf8Encode_bytes[OF units] by blast
  have "queryProposals api network (Some status) w =
      fetchJson api (proposalsUrl network (js ''?proposal_status='' @ concat (map componentByte ?bs))) w"
    using assms by (simp add: queryProposals_def encodeURIComponent_bytes del: js_Cons)
  moreover have "\<forall>c\<in>set (concat (map componentByte ?bs)). c = 37 \<or> isUnreserved c"
    using bytes componentByte_chars by auto
  moreover have "fromCodePoints (decodeUtf8 (percentDecode (concat (map componentByte ?bs)))) = trim status"
    using bytes codePoints_scalar[OF units] assms(2)
    by (simp add: componentBytes_decode decodeUtf8_encode fromCodePoints_codePoints)
  ultimately show ?thesis by blast
qed

theorem queryProposals_encodes_status_witness:
  "\<exists>t. fromCodePoints (decodeUtf8 (percentDecode t)) = js ''a&b'' \<and> (\<forall>c\<in>set t. c = 37 \<or> isUnreserved c)"
proof -
  have "trim (js '' a&b'') = js ''a&b''" by (simp add: trim_def trimStart_def trimEnd_def isWhite_def)
  moreover from this have "trim (js '' a&b'') \<noteq> []" "isWellFormed (trim (js '' a&b''))"
    by (simp_all add: surrogate_defs)
  ultimately show ?thesis
    using queryProposals_encodes_status[of "js '' a&b''" "\<lparr>fetch = (\<lambda>u w. (Inr u, w)), json = (\<lambda>r w. (Inr r, w))\<rparr>"
        "getNetworkConfig Dev" "0::nat"] by metis
qed

subsection \<open>Time stamps and deadlines\<close>

definition timestamp_ns :: "Timestamp \<Rightarrow> int" where
  "timestamp_ns t = tsSeconds t * 1000000000 + tsNanos t"

text \<open>
  The expiration written into a grant, in nanoseconds. It is exact for every date from the
  epoch on and for whole seconds before it. For a date before the epoch with a fraction of
  a second it is one second early (the remainder of the language is negative there while
  the seconds are rounded down).
\<close>

theorem toTimestamp_value:
  "\<exists>t. toTimestamp (Some millis) = Inr t \<and>
     timestamp_ns t = millis * 1000000 - (if millis < 0 \<and> \<not> 1000 dvd millis then 1000000000 else 0) \<and>
     (0 \<le> tsNanos t \<longleftrightarrow> 0 \<le> millis \<or> 1000 dvd millis)"
proof -
  have m: "millis = 1000 * (millis div 1000) + millis mod 1000" by simp
  have neg: "(- millis) mod 1000 = (if millis mod 1000 = 0 then 0 else 1000 - millis mod 1000)"
    by (rule zmod_zminus1_eq_if)
  have ns: "millis div 1000 * 1000000000 + millis mod 1000 * 1000000 = millis * 1000000" using m by linarith
  show ?thesis
  proof (cases "0 \<le> millis \<or> 1000 dvd millis")
    case True
    then have "jsRem millis 1000 = millis mod 1000" using neg by (auto simp: jsRem_def dvd_eq_mod_eq_0)
    moreover have "0 \<le> millis mod 1000" by simp
    ultimately show ?thesis using True ns by (auto simp: toTimestamp_def timestamp_ns_def)
  next
    case False
    then have r: "millis mod 1000 \<noteq> 0" "millis < 0" by (auto simp: dvd_eq_mod_eq_0)
    then have "jsRem millis 1000 = millis mod 1000 - 1000" using neg by (simp add: jsRem_def)
    moreover have "millis mod 1000 < 1000" by simp
    ultimately show ?thesis using False r ns by (auto simp: toTimestamp_def timestamp_ns_def)
  qed
qed

lemma bigInt_num [simp]: "bigInt (num i) = Inr i"
  by (simp add: bigInt_def num_def)

text \<open>
  With a whole number of seconds as the timeout (300 when none is given), every call that
  \<open>transferIBC\<close> signs carries the same deadline, exactly the timeout after \<open>now\<close>, in
  nanoseconds; a retry does not move it.
\<close>

theorem transferIBC_deadline:
  assumes "rounds_to_double rnd" "nullish (timeoutSeconds input) (num 300) = num (int n)" "n * 1000 \<le> 2 ^ 53"
    and "coin (ibcAmount input) (denom network) = Inr token"
  shows "\<exists>k\<in>{1..3}. sent (snd (transferIBC rnd coin node network now input c)) = sent c @ replicate k
    (autoCall (ibcSender input) (js ''/ibc.applications.transfer.v1.MsgTransfer'')
      (MsgTransfer (sourcePort input) (sourceChannel input) token (ibcSender input) (ibcReceiver input)
        (now * 1000000 + int n * 1000000000)) (ibcMemo input))"
proof -
  have "rnd (of_nat (n * 1000)) = num (int (n * 1000))"
    using assms(1,3) unfolding rounds_to_double_def num_def by (metis of_int_of_nat_eq)
  then have "num_mul rnd (num (int n)) (num 1000) = num (int (n * 1000))"
    by (simp add: num_mul_def num_def)
  moreover have "(now + int (n * 1000)) * 1000000 = now * 1000000 + int n * 1000000000" by simp
  ultimately show ?thesis
    using assms(2,4)
    by (intro ibc.accepted[where v = "(now * 1000000 + int n * 1000000000, input)"]) (simp_all del: js_Cons)
qed

definition demo_ibc :: IBCTransferInput where
  "demo_ibc = \<lparr>ibcSender = js ''a'', ibcReceiver = js ''b'', sourcePort = js ''transfer'',
     sourceChannel = js ''channel-0'', ibcAmount = js ''5'', timeoutSeconds = None, ibcMemo = None\<rparr>"

theorem transferIBC_deadline_witness:
  "\<exists>k\<in>{1..3}. sent (snd (transferIBC Fin demo_coin demo_node (getNetworkConfig Dev) 1000 demo_ibc
      \<lparr>remote = 0, sent = []\<rparr>)) = replicate k
    (autoCall (js ''a'') (js ''/ibc.applications.transfer.v1.MsgTransfer'')
      (MsgTransfer (js ''transfer'') (js ''channel-0'') \<lparr>coinDenom = js ''usoul'', coinAmount = js ''5''\<rparr>
        (js ''a'') (js ''b'') 301000000000) None)"
proof -
  have "rounds_to_double Fin" by (auto simp: rounds_to_double_def)
  moreover have "nullish (timeoutSeconds demo_ibc) (num 300) = num (int 300)" "300 * 1000 \<le> (2::nat) ^ 53"
    by (simp_all add: demo_ibc_def)
  moreover have "demo_coin (ibcAmount demo_ibc) (denom (getNetworkConfig Dev)) =
      Inr \<lparr>coinDenom = js ''usoul'', coinAmount = js ''5''\<rparr>"
    by (simp add: demo_coin_def demo_ibc_def isDigit_def getNetworkConfig_def)
  ultimately have "\<exists>k\<in>{1..3}. sent (snd (transferIBC Fin demo_coin demo_node (getNetworkConfig Dev) 1000 demo_ibc
      \<lparr>remote = 0, sent = []\<rparr>)) = [] @ replicate k
    (autoCall (ibcSender demo_ibc) (js ''/ibc.applications.transfer.v1.MsgTransfer'')
      (MsgTransfer (sourcePort demo_ibc) (sourceChannel demo_ibc) \<lparr>coinDenom = js ''usoul'', coinAmount = js ''5''\<rparr>
        (ibcSender demo_ibc) (ibcReceiver demo_ibc) (1000 * 1000000 + int 300 * 1000000000)) (ibcMemo demo_ibc))"
    using transferIBC_deadline[of Fin demo_ibc 300 demo_coin "getNetworkConfig Dev" _ demo_node 1000
        "\<lparr>remote = 0, sent = []\<rparr>"] by (simp del: js_Cons)
  then show ?thesis by (simp add: demo_ibc_def del: js_Cons)
qed

end
