(* ===== verification/MessageTypes.thy ===== *)
theory MessageTypes
  imports ChainServices
begin

text \<open>
  All transactions of the SDK together. A message is an untyped pair of a type URL and a value that
  the codec of that URL encodes, and a chain accepts it only from the account that the value
  speaks for. \<open>sound_call\<close> says that the URL belongs to the value, that the signer is that account and
  that one message travels with an automatic fee; \<open>sdk_step\<close> is any call of a service by a program that uses
  the SDK, and its runs only ever sign sound calls.
\<close>

section \<open>Well-typed messages\<close>

fun msgUrl :: "msg_body \<Rightarrow> jstring" where
  "msgUrl (MsgSend _ _ _) = js ''/cosmos.bank.v1beta1.MsgSend''"
| "msgUrl (MsgDelegate _ _ _) = js ''/cosmos.staking.v1beta1.MsgDelegate''"
| "msgUrl (MsgUndelegate _ _ _) = js ''/cosmos.staking.v1beta1.MsgUndelegate''"
| "msgUrl (MsgWithdrawDelegatorReward _ _) = js ''/cosmos.distribution.v1beta1.MsgWithdrawDelegatorReward''"
| "msgUrl (MsgBeginRedelegate _ _ _ _) = js ''/cosmos.staking.v1beta1.MsgBeginRedelegate''"
| "msgUrl (MsgVote _ _ _) = js ''/cosmos.gov.v1beta1.MsgVote''"
| "msgUrl (MsgTransfer _ _ _ _ _ _) = js ''/ibc.applications.transfer.v1.MsgTransfer''"
| "msgUrl (MsgGrant _ _ _ _ _) = js ''/cosmos.authz.v1beta1.MsgGrant''"
| "msgUrl (MsgExec _ _) = js ''/cosmos.authz.v1beta1.MsgExec''"
| "msgUrl (MsgRevoke _ _ _) = js ''/cosmos.authz.v1beta1.MsgRevoke''"

text \<open>The account whose signature the chain asks for.\<close>

fun msgSigner :: "msg_body \<Rightarrow> jstring" where
  "msgSigner (MsgSend source _ _) = source"
| "msgSigner (MsgDelegate delegator _ _) = delegator"
| "msgSigner (MsgUndelegate delegator _ _) = delegator"
| "msgSigner (MsgWithdrawDelegatorReward delegator _) = delegator"
| "msgSigner (MsgBeginRedelegate delegator _ _ _) = delegator"
| "msgSigner (MsgVote _ voter _) = voter"
| "msgSigner (MsgTransfer _ _ _ source _ _) = source"
| "msgSigner (MsgGrant granter _ _ _ _) = granter"
| "msgSigner (MsgExec grantee _) = grantee"
| "msgSigner (MsgRevoke granter _ _) = granter"

definition sound_call :: "SignCall \<Rightarrow> bool" where
  "sound_call call \<longleftrightarrow> fee call = js ''auto'' \<and>
     (case messages call of
        [m] \<Rightarrow> typeUrl m = msgUrl (msgValue m) \<and> signer call = msgSigner (msgValue m)
      | _ \<Rightarrow> False)"

lemma sound_autoCall: "sound_call (autoCall s u b memo) \<longleftrightarrow> u = msgUrl b \<and> s = msgSigner b"
  by (simp add: sound_call_def autoCall_def del: js_Cons)

section \<open>Runs of the services\<close>

text \<open>What a service may send is what it builds; so it is enough to look at the built calls.\<close>

context tx_service
begin

lemma keeps_sent:
  assumes "\<And>v call. prepare i = Inr v \<Longrightarrow> build v = Inr call \<Longrightarrow> P call" "list_all P (sent c)"
  shows "list_all P (sent (snd (service i c)))"
proof (cases "sent (snd (service i c)) = sent c")
  case False
  from sends_only_prepared[OF this] assms show ?thesis by (auto simp: list_all_iff)
qed (use assms(2) in simp)

end

inductive sdk_step :: "(rat \<Rightarrow> jsnum) \<Rightarrow> coin_fn \<Rightarrow> (jstring \<Rightarrow> nat list) \<Rightarrow> 'w node
    \<Rightarrow> 'w client \<Rightarrow> 'w client \<Rightarrow> bool"
  for rnd coin encodeGeneric node c where
  sdk_transfer: "sdk_step rnd coin encodeGeneric node c (snd (sendNativeToken coin node network (i :: TransferInput) c))"
| sdk_delegate: "sdk_step rnd coin encodeGeneric node c (snd (delegateToValidator coin node network i c))"
| sdk_undelegate: "sdk_step rnd coin encodeGeneric node c (snd (undelegateFromValidator coin node network i c))"
| sdk_withdraw: "sdk_step rnd coin encodeGeneric node c (snd (withdrawValidatorRewards node network i c))"
| sdk_redelegate: "sdk_step rnd coin encodeGeneric node c (snd (redelegateToValidator coin node network i c))"
| sdk_vote: "sdk_step rnd coin encodeGeneric node c (snd (voteProposal node network i c))"
| sdk_ibc: "sdk_step rnd coin encodeGeneric node c (snd (transferIBC rnd coin node network now i c))"
| sdk_grant: "sdk_step rnd coin encodeGeneric node c (snd (grantGenericAuthorization encodeGeneric node now i c))"
| sdk_exec: "sdk_step rnd coin encodeGeneric node c (snd (executeAuthorizedMessages node i c))"
| sdk_revoke: "sdk_step rnd coin encodeGeneric node c (snd (revokeAuthorization node i c))"

lemma sdk_step_sound:
  assumes "sdk_step rnd coin encodeGeneric node c c'" "list_all sound_call (sent c)"
  shows "list_all sound_call (sent c')"
  using assms(1)
proof cases
  case (sdk_transfer network i)
  show ?thesis unfolding sdk_transfer
    by (rule transfer.keeps_sent[OF _ assms(2)])
      (auto simp: ebind_eq_Inr buildNativeTransferMessage_def sound_call_def simp del: js_Cons)
next
  case (sdk_delegate network i)
  show ?thesis unfolding sdk_delegate
    by (rule dg.keeps_sent[OF _ assms(2)]) (auto simp: ebind_eq_Inr sound_autoCall simp del: js_Cons)
next
  case (sdk_undelegate network i)
  show ?thesis unfolding sdk_undelegate
    by (rule ud.keeps_sent[OF _ assms(2)]) (auto simp: ebind_eq_Inr sound_autoCall simp del: js_Cons)
next
  case (sdk_withdraw network i)
  show ?thesis unfolding sdk_withdraw
    by (rule wd.keeps_sent[OF _ assms(2)]) (auto simp: ebind_eq_Inr sound_autoCall simp del: js_Cons)
next
  case (sdk_redelegate network i)
  show ?thesis unfolding sdk_redelegate
    by (rule rd.keeps_sent[OF _ assms(2)]) (auto simp: ebind_eq_Inr sound_autoCall simp del: js_Cons)
next
  case (sdk_vote network i)
  show ?thesis unfolding sdk_vote
    by (rule vote.keeps_sent[OF _ assms(2)]) (auto simp: ebind_eq_Inr sound_autoCall simp del: js_Cons)
next
  case (sdk_ibc network now i)
  show ?thesis unfolding sdk_ibc
    by (rule ibc.keeps_sent[OF _ assms(2)]) (auto simp: ebind_eq_Inr sound_autoCall simp del: js_Cons)
next
  case (sdk_grant now i)
  show ?thesis unfolding sdk_grant
    by (rule grant.keeps_sent[OF _ assms(2)]) (auto simp: ebind_eq_Inr sound_autoCall simp del: js_Cons)
next
  case (sdk_exec i)
  show ?thesis unfolding sdk_exec
    by (rule exec.keeps_sent[OF _ assms(2)]) (auto simp: sound_autoCall simp del: js_Cons)
next
  case (sdk_revoke i)
  show ?thesis unfolding sdk_revoke
    by (rule revoke.keeps_sent[OF _ assms(2)]) (auto simp: sound_autoCall simp del: js_Cons)
qed

section \<open>Properties\<close>

text \<open>
  C35: every transaction of the SDK is well typed. Whatever a program does with the ten
  transaction functions (transfers, delegations, withdrawals, votes, transfers between chains, authorizations),
  in any order, with any inputs and against any node, each call that it signs carries one message, with an automatic
  fee, whose type URL is the one of its value and whose signer is the account that the message speaks for.
\<close>

theorem sdk_signs_typed_messages:
  assumes "(sdk_step rnd coin encodeGeneric node)\<^sup>*\<^sup>* c c'" "sent c = []" "call \<in> set (sent c')"
  shows "sound_call call"
proof -
  from assms(1) have "list_all sound_call (sent c')"
    by induction (simp_all add: assms(2) sdk_step_sound)
  with assms(3) show ?thesis by (simp add: list_all_iff)
qed

theorem sdk_signs_typed_messages_witness:
  "sound_call (autoCall (js ''g'') (js ''/cosmos.authz.v1beta1.MsgRevoke'') (MsgRevoke (js ''g'') (js ''h'') (js ''/m'')) None)"
proof -
  let ?c = "\<lparr>remote = 0, sent = []\<rparr> :: nat client"
  let ?i = "\<lparr>revokeGranter = js ''g'', revokeGrantee = js ''h'', revokeMsgTypeUrl = js ''/m'', revokeMemo = None\<rparr>"
  have "(sdk_step Fin demo_coin (\<lambda>_. []) demo_node)\<^sup>*\<^sup>* ?c (snd (revokeAuthorization demo_node ?i ?c))"
    by (rule r_into_rtranclp, rule sdk_revoke)
  then show ?thesis
    by (rule sdk_signs_typed_messages)
      (simp_all add: revokeAuthorization_def broadcastTx_accepted demo_node_def del: js_Cons)
qed

end
