(* ===== verification/ApiErrors.thy ===== *)
theory ApiErrors
  imports JsNumber
begin

text \<open>
  \<open>wallet-app/src/api/errors.ts\<close>: the error class of the web client and its classification,
  and the JSON values that responses carry. A thrown value is an \<open>ApiClientError\<close>, the
  \<open>DOMException\<close> named \<open>AbortError\<close>, another \<open>Error\<close> with its message, or any other value.
\<close>

datatype json =
    JNull
  | JBool bool
  | JNum jsnum
  | JStr jstring
  | JArr "json list"
  | JObj "(jstring \<times> json) list"

record ApiClientError =
  apiCode :: jstring
  apiMessage :: jstring
  apiStatus :: "int option"
  apiRetryable :: bool

datatype exn = ExApi ApiClientError | ExAbort | ExError jstring | ExValue jstring

definition walletSemanticErrorCodes :: "jstring list" where
  "walletSemanticErrorCodes =
     [js ''INVALID_ARGUMENT'', js ''INSUFFICIENT_FUNDS'', js ''OUT_OF_GAS'', js ''INVALID_SEQUENCE'', js ''UNAUTHORIZED'', js ''CHAIN_UNAVAILABLE'', js ''NOT_FOUND'', js ''METHOD_NOT_ALLOWED'', js ''TX_REJECTED'', js ''INTERNAL_ERROR'']"

definition walletSemanticErrorMessages :: "(jstring \<times> jstring) list" where
  "walletSemanticErrorMessages =
     [(js ''INVALID_ARGUMENT'', [35831, 27714, 21442, 25968, 19981, 21512, 27861, 65292, 35831, 26816, 26597, 21518, 37325, 35797, 12290]),
      (js ''INSUFFICIENT_FUNDS'', [20313, 39069, 19981, 36275, 65292, 35831, 34917, 20805, 36164, 20135, 21518, 37325, 35797, 12290]),
      (js ''OUT_OF_GAS'', js ''Gas '' @ [19981, 36275, 65292, 35831, 25552, 39640, 25163, 32493, 36153, 21518, 37325, 35797, 12290]),
      (js ''INVALID_SEQUENCE'', [36134, 25143, 24207, 21015, 21495, 19981, 19968, 33268, 65292, 35831, 21047, 26032, 29366, 24577, 21518, 37325, 35797, 12290]),
      (js ''UNAUTHORIZED'', [24403, 21069, 35831, 27714, 26410, 25480, 26435, 65292, 35831, 37325, 26032, 30331, 24405, 12290]),
      (js ''CHAIN_UNAVAILABLE'', [38142, 31471, 26242, 19981, 21487, 29992, 65292, 35831, 31245, 21518, 37325, 35797, 12290]),
      (js ''NOT_FOUND'', [35831, 27714, 36164, 28304, 19981, 23384, 22312, 25110, 24050, 21024, 38500, 12290]),
      (js ''METHOD_NOT_ALLOWED'', [24403, 21069, 25509, 21475, 19981, 25903, 25345, 35813, 35831, 27714, 26041, 27861, 12290]),
      (js ''TX_REJECTED'', [20132, 26131, 34987, 38142, 31471, 25298, 32477, 65292, 35831, 26816, 26597, 20132, 26131, 21442, 25968, 12290]),
      (js ''INTERNAL_ERROR'', [26381, 21153, 20869, 37096, 24322, 24120, 65292, 35831, 31245, 21518, 37325, 35797, 12290])]"

definition isWalletSemanticErrorCode :: "jstring \<Rightarrow> bool" where
  "isWalletSemanticErrorCode c \<longleftrightarrow> c \<in> set walletSemanticErrorCodes"

text \<open>
  The result for a code outside the table would be \<open>undefined\<close>; the type of the parameter
  excludes it, and \<open>semantic_message_exists\<close> shows that the table covers the type.
\<close>

definition resolveWalletSemanticErrorMessage :: "jstring \<Rightarrow> jstring option \<Rightarrow> jstring option" where
  "resolveWalletSemanticErrorMessage c msg =
     (case map_option trim msg of
        Some t \<Rightarrow> if t \<noteq> [] then Some t else map_of walletSemanticErrorMessages c
      | None \<Rightarrow> map_of walletSemanticErrorMessages c)"

definition isSessionInvalidError :: "exn \<Rightarrow> bool" where
  "isSessionInvalidError e =
     (case e of
        ExApi err \<Rightarrow>
          if apiCode err = js ''UNAUTHORIZED'' then True
          else apiCode err = js ''HTTP_ERROR'' \<and> (apiStatus err = Some 401 \<or> apiStatus err = Some 403)
      | _ \<Rightarrow> False)"

lemma semantic_table: "map fst walletSemanticErrorMessages = walletSemanticErrorCodes"
  by (simp add: walletSemanticErrorMessages_def walletSemanticErrorCodes_def)

lemma semantic_texts_nonempty: "(c, t) \<in> set walletSemanticErrorMessages \<Longrightarrow> t \<noteq> []"
  unfolding walletSemanticErrorMessages_def by (simp del: js_Cons) (elim disjE; simp)

lemma semantic_message_exists:
  assumes "isWalletSemanticErrorCode c"
  shows "\<exists>t. resolveWalletSemanticErrorMessage c msg = Some t \<and> t \<noteq> []"
proof -
  have "c \<in> fst ` set walletSemanticErrorMessages"
    using assms semantic_table unfolding isWalletSemanticErrorCode_def by (metis set_map)
  then obtain t where "map_of walletSemanticErrorMessages c = Some t"
    by (metis domIff dom_map_of_conv_image_fst option.exhaust_sel)
  moreover from this have "t \<noteq> []" by (metis map_of_SomeD semantic_texts_nonempty)
  ultimately show ?thesis
    by (cases msg) (auto simp: resolveWalletSemanticErrorMessage_def)
qed

lemma transport_codes_not_semantic:
  "\<not> isWalletSemanticErrorCode (js ''HTTP_ERROR'')" "\<not> isWalletSemanticErrorCode (js ''TIMEOUT'')"
  "\<not> isWalletSemanticErrorCode (js ''NETWORK'')" "\<not> isWalletSemanticErrorCode (js ''PARSE_ERROR'')"
  by (simp_all add: isWalletSemanticErrorCode_def walletSemanticErrorCodes_def del: js_Cons)

end
