(* ===== verification/ApiClient.thy ===== *)
theory ApiClient
  imports ApiErrors UrlEncoding RetryLoop
begin

text \<open>
  \<open>wallet-app/src/config/env.ts\<close> and \<open>wallet-app/src/api/client.ts\<close>: the environment
  parser and the HTTP client with its retry loop. The browser is a parameter: the clock,
  \<open>fetch\<close>, \<open>response.json()\<close>, timers, \<open>new URL\<close> and the random part of a request id, on an
  arbitrary state. The state of a request records how often \<open>fetch\<close> was called, the pauses,
  and the events given to \<open>onLifecycle\<close> (an observer that does not throw).
\<close>

section \<open>Environment\<close>

definition parseNumberEnv :: "(jstring \<Rightarrow> jsnum) \<Rightarrow> jstring option \<Rightarrow> rat \<Rightarrow> rat \<Rightarrow> rat" where
  "parseNumberEnv toNumber v fallback minimum =
     (case v of
        None \<Rightarrow> fallback
      | Some text \<Rightarrow>
          if text = [] then fallback
          else (case toNumber text of
                  Fin parsed \<Rightarrow> if parsed < minimum then minimum else parsed
                | _ \<Rightarrow> fallback))"

record app_env =
  apiBaseUrl :: jstring
  apiTimeoutMs :: rat
  apiRetryCount :: rat
  notificationStreamToken :: jstring

definition orDefault :: "jstring option \<Rightarrow> jstring \<Rightarrow> jstring" where
  "orDefault v d = (case v of None \<Rightarrow> d | Some t \<Rightarrow> if t = [] then d else t)"

definition appEnv :: "(jstring \<Rightarrow> jsnum) \<Rightarrow> (jstring \<rightharpoonup> jstring) \<Rightarrow> app_env" where
  "appEnv toNumber env =
     \<lparr>apiBaseUrl = orDefault (env (js ''VITE_API_BASE_URL'')) (js ''http://127.0.0.1:8082''),
      apiTimeoutMs = parseNumberEnv toNumber (env (js ''VITE_API_TIMEOUT_MS'')) 5000 1000,
      apiRetryCount = parseNumberEnv toNumber (env (js ''VITE_API_RETRY_COUNT'')) 1 0,
      notificationStreamToken = orDefault (env (js ''VITE_NOTIFICATION_STREAM_TOKEN'')) []\<rparr>"

section \<open>Requests\<close>

datatype HttpMethod = GET | POST | PUT | PATCH | DELETE

record RequestTraceContext =
  traceFeature :: jstring
  traceAction :: jstring
  traceRequestId :: "jstring option"

datatype layer = LayerHttp | LayerTransport | LayerParse | LayerUnknown

record RequestErrorAttribution =
  attrLayer :: layer
  attrReason :: jstring
  attrStatus :: "int option"
  attrCode :: "jstring option"
  attrRetryable :: bool

datatype stage = Start | Retry | Success | Failure

record RequestLifecycleEvent =
  evStage :: stage
  evRequestId :: jstring
  evPath :: jstring
  evUrl :: jstring
  evMethod :: HttpMethod
  evFeature :: "jstring option"
  evAction :: "jstring option"
  evAttempt :: int
  evMaxRetries :: rat
  evDurationMs :: int
  evStatus :: "int option"
  evAttribution :: "RequestErrorAttribution option"

datatype query_value = QString jstring | QNumber jsnum | QBool bool

record RequestOptions =
  optMethod :: "HttpMethod option"
  optQuery :: "(jstring \<times> query_value option) list"
  optHeaders :: "(jstring \<times> jstring) list"
  optBody :: "json option"
  optTimeoutMs :: "rat option"
  optRetryCount :: "rat option"
  optRetryBackoffMs :: "rat option"
  optTrace :: "RequestTraceContext option"
  optObserved :: bool

definition noOptions :: RequestOptions where
  "noOptions = \<lparr>optMethod = None, optQuery = [], optHeaders = [], optBody = None, optTimeoutMs = None,
     optRetryCount = None, optRetryBackoffMs = None, optTrace = None, optObserved = False\<rparr>"

record FetchInit =
  initMethod :: HttpMethod
  initHeaders :: "(jstring \<times> jstring) list"
  initBody :: "jstring option"
  initTimeoutMs :: rat

text \<open>
  The platform. \<open>fetchCall url init\<close> runs with a signal that aborts after \<open>initTimeoutMs\<close>;
  \<open>numberText\<close> is \<open>String(number)\<close>, \<open>stringify\<close> is \<open>JSON.stringify\<close>.
\<close>

record ('u, 'r, 'w) web =
  now :: "'w \<Rightarrow> int"
  fetchCall :: "jstring \<Rightarrow> FetchInit \<Rightarrow> 'w \<Rightarrow> (exn, 'r) result \<times> 'w"
  responseStatus :: "'r \<Rightarrow> int"
  readJson :: "'r \<Rightarrow> 'w \<Rightarrow> (exn, json) result \<times> 'w"
  pause :: "rat \<Rightarrow> 'w \<Rightarrow> 'w"
  newUrl :: "jstring \<Rightarrow> (exn, 'u) result"
  setSearchParam :: "jstring \<Rightarrow> jstring \<Rightarrow> 'u \<Rightarrow> 'u"
  urlString :: "'u \<Rightarrow> jstring"
  randomText :: "'w \<Rightarrow> jstring"
  numberText :: "jsnum \<Rightarrow> jstring"
  stringify :: "json \<Rightarrow> jstring"

record 'w req_state =
  world :: 'w
  fetches :: nat
  pauses :: "rat list"
  events :: "RequestLifecycleEvent list"

definition isRetryableStatus :: "int \<Rightarrow> bool" where
  "isRetryableStatus status \<longleftrightarrow> status = 429 \<or> status \<ge> 500"

definition responseOk :: "int \<Rightarrow> bool" where
  "responseOk status \<longleftrightarrow> 200 \<le> status \<and> status \<le> 299"

fun queryText :: "(jsnum \<Rightarrow> jstring) \<Rightarrow> query_value \<Rightarrow> jstring" where
  "queryText nt (QString s) = s"
| "queryText nt (QNumber x) = nt x"
| "queryText nt (QBool b) = (if b then js ''true'' else js ''false'')"

definition joinBasePath :: "jstring \<Rightarrow> jstring \<Rightarrow> jstring" where
  "joinBasePath base p =
     (let normalizedBase = (if endsWith base (js ''/'') then butlast base else base);
          normalizedPath = (if startsWith p (js ''/'') then p else js ''/'' @ p)
      in normalizedBase @ normalizedPath)"

definition buildUrl ::
  "('u, 'r, 'w) web \<Rightarrow> jstring \<Rightarrow> jstring \<Rightarrow> (jstring \<times> query_value option) list \<Rightarrow> (exn, jstring) result" where
  "buildUrl web base p query =
     ebind (newUrl web (joinBasePath base p)) (\<lambda>url. Inr (urlString web
       (fold (\<lambda>(k, v) u. case v of None \<Rightarrow> u | Some x \<Rightarrow> setSearchParam web k (queryText (numberText web) x) u)
         query url)))"

text \<open>The member \<open>k\<close> of a payload that is an object with this member.\<close>

fun member :: "json option \<Rightarrow> jstring \<Rightarrow> json option" where
  "member (Some (JObj ms)) k = map_of ms k"
| "member _ k = None"

definition resolveErrorMessage :: "json option \<Rightarrow> jstring \<Rightarrow> jstring" where
  "resolveErrorMessage payload fallback =
     (case member payload (js ''error'') of
        Some (JStr t) \<Rightarrow> t
      | _ \<Rightarrow> (case member payload (js ''message'') of Some (JStr t) \<Rightarrow> t | _ \<Rightarrow> fallback))"

record StructuredErrorPayload =
  structCode :: "jstring option"
  structMessage :: jstring
  structRetryable :: "bool option"

definition resolveStructuredErrorPayload :: "json option \<Rightarrow> jstring \<Rightarrow> StructuredErrorPayload" where
  "resolveStructuredErrorPayload payload fallback =
     (let msg = resolveErrorMessage payload fallback;
          payloadCode = (case member payload (js ''code'') of Some (JStr t) \<Rightarrow> trim t | _ \<Rightarrow> []);
          payloadRetryable = (case member payload (js ''retryable'') of Some (JBool b) \<Rightarrow> Some b | _ \<Rightarrow> None)
      in if payloadCode \<noteq> [] \<and> isWalletSemanticErrorCode payloadCode
         then \<lparr>structCode = Some payloadCode,
               structMessage = nullish (resolveWalletSemanticErrorMessage payloadCode (Some msg)) [],
               structRetryable = payloadRetryable\<rparr>
         else \<lparr>structCode = None, structMessage = msg, structRetryable = payloadRetryable\<rparr>)"

text \<open>The digits of \<open>toString(36)\<close>.\<close>

fun base36 :: "nat \<Rightarrow> jstring" where
  "base36 n = (let d = n mod 36; c = (if d < 10 then 48 + d else 87 + d)
     in if n < 36 then [c] else base36 (n div 36) @ [c])"

declare base36.simps [simp del]

definition createRequestId :: "('u, 'r, 'w) web \<Rightarrow> RequestTraceContext option \<Rightarrow> 'w \<Rightarrow> jstring" where
  "createRequestId web ctx w =
     (let given = orDefault (case ctx of None \<Rightarrow> None | Some t \<Rightarrow> traceRequestId t) [] in
      if given \<noteq> [] then given
      else js ''req_'' @ base36 (nat (now web w)) @ js ''_'' @ take 6 (drop 2 (randomText web w)))"

section \<open>The retry loop\<close>

text \<open>The constants of one call of \<open>request\<close>.\<close>

record request =
  rqPath :: jstring
  rqUrl :: jstring
  rqMethod :: HttpMethod
  rqInit :: FetchInit
  rqMaxRetries :: rat
  rqBackoff :: rat
  rqStartedAt :: int
  rqId :: jstring
  rqFeature :: "jstring option"
  rqAction :: "jstring option"
  rqObserved :: bool

definition lifecycleEvent ::
  "request \<Rightarrow> stage \<Rightarrow> int \<Rightarrow> int \<Rightarrow> int option \<Rightarrow> RequestErrorAttribution option \<Rightarrow> RequestLifecycleEvent" where
  "lifecycleEvent rq st attempt elapsed status attr =
     \<lparr>evStage = st, evRequestId = rqId rq, evPath = rqPath rq, evUrl = rqUrl rq, evMethod = rqMethod rq,
      evFeature = rqFeature rq, evAction = rqAction rq, evAttempt = attempt, evMaxRetries = rqMaxRetries rq,
      evDurationMs = elapsed, evStatus = status, evAttribution = attr\<rparr>"

definition emit :: "request \<Rightarrow> RequestLifecycleEvent \<Rightarrow> 'w req_state \<Rightarrow> 'w req_state" where
  "emit rq ev s = (if rqObserved rq then s\<lparr>events := events s @ [ev]\<rparr> else s)"

definition attribution :: "layer \<Rightarrow> jstring \<Rightarrow> int option \<Rightarrow> jstring \<Rightarrow> bool \<Rightarrow> RequestErrorAttribution option" where
  "attribution l reason status c retryable =
     Some \<lparr>attrLayer = l, attrReason = reason, attrStatus = status, attrCode = Some c, attrRetryable = retryable\<rparr>"

definition backOff :: "('u, 'r, 'w) web \<Rightarrow> request \<Rightarrow> int \<Rightarrow> 'w req_state \<Rightarrow> 'w req_state" where
  "backOff web rq attempt s =
     (let ms = rqBackoff rq * of_int attempt in s\<lparr>world := pause web ms (world s), pauses := pauses s @ [ms]\<rparr>)"

definition elapsed :: "('u, 'r, 'w) web \<Rightarrow> request \<Rightarrow> 'w req_state \<Rightarrow> int" where
  "elapsed web rq s = now web (world s) - rqStartedAt rq"

type_synonym request_result = "(exn, json) result"

definition httpError :: "json option \<Rightarrow> int \<Rightarrow> ApiClientError" where
  "httpError payload status =
     (let structuredError = resolveStructuredErrorPayload payload (js ''HTTP '' @ intString status)
      in \<lparr>apiCode = nullish (structCode structuredError) (js ''HTTP_ERROR''),
          apiMessage = structMessage structuredError, apiStatus = Some status,
          apiRetryable = nullish (structRetryable structuredError) (isRetryableStatus status)\<rparr>)"

definition handleHttpError ::
  "('u, 'r, 'w) web \<Rightarrow> request \<Rightarrow> int \<Rightarrow> 'r \<Rightarrow> 'w req_state \<Rightarrow> request_result round \<times> 'w req_state" where
  "handleHttpError web rq attempt response s =
     (case readJson web response (world s) of (body, w) \<Rightarrow>
        (let s1 = s\<lparr>world := w\<rparr>;
             payload = (case body of Inl _ \<Rightarrow> None | Inr j \<Rightarrow> Some j);
             status = responseStatus web response;
             error = httpError payload status
         in if apiRetryable error \<and> of_int attempt < rqMaxRetries rq then
              (Again, backOff web rq (attempt + 1)
                (emit rq (lifecycleEvent rq Retry (attempt + 1) (elapsed web rq s1) (Some status)
                  (attribution LayerHttp (js ''retryable_http_status'') (Some status) (apiCode error) True)) s1))
            else
              (Finish (Inl (ExApi error)),
               emit rq (lifecycleEvent rq Failure attempt (elapsed web rq s1) (Some status)
                 (attribution LayerHttp (js ''http_status_not_ok'') (Some status) (apiCode error)
                   (apiRetryable error))) s1)))"

definition PARSE_MESSAGE :: jstring where
  "PARSE_MESSAGE = [21709, 24212, 35299, 26512, 22833, 36133]"
definition NETWORK_MESSAGE :: jstring where
  "NETWORK_MESSAGE = [32593, 32476, 24322, 24120]"
definition UNKNOWN_MESSAGE :: jstring where
  "UNKNOWN_MESSAGE = [35831, 27714, 22833, 36133]"

definition timeoutMessage :: "('u, 'r, 'w) web \<Rightarrow> rat \<Rightarrow> jstring" where
  "timeoutMessage web ms =
     [35831, 27714, 36229, 26102, 65288] @ js ''>'' @ numberText web (Fin ms) @ js ''ms'' @ [65289]"

definition parseError :: ApiClientError where
  "parseError = \<lparr>apiCode = js ''PARSE_ERROR'', apiMessage = PARSE_MESSAGE, apiStatus = None, apiRetryable = False\<rparr>"

definition handleOk ::
  "('u, 'r, 'w) web \<Rightarrow> request \<Rightarrow> int \<Rightarrow> 'r \<Rightarrow> 'w req_state \<Rightarrow> request_result round \<times> 'w req_state" where
  "handleOk web rq attempt response s =
     (case readJson web response (world s) of (body, w) \<Rightarrow>
        (let s1 = s\<lparr>world := w\<rparr>; status = responseStatus web response
         in case body of
              Inr data \<Rightarrow>
                (Finish (Inr data), emit rq (lifecycleEvent rq Success attempt (elapsed web rq s1) (Some status) None) s1)
            | Inl _ \<Rightarrow>
                (Finish (Inl (ExApi parseError)),
                 emit rq (lifecycleEvent rq Failure attempt (elapsed web rq s1) (Some status)
                   (attribution LayerParse (js ''response_json_parse_failed'') None (apiCode parseError) False)) s1)))"

text \<open>The two transport branches of the \<open>catch\<close> differ in the error and the reason only.\<close>

definition handleTransport ::
  "('u, 'r, 'w) web \<Rightarrow> request \<Rightarrow> int \<Rightarrow> ApiClientError \<Rightarrow> jstring \<Rightarrow> 'w req_state
     \<Rightarrow> request_result round \<times> 'w req_state" where
  "handleTransport web rq attempt error reason s =
     (if of_int attempt < rqMaxRetries rq then
        (Again, backOff web rq (attempt + 1)
          (emit rq (lifecycleEvent rq Retry (attempt + 1) (elapsed web rq s) None
            (attribution LayerTransport reason None (apiCode error) True)) s))
      else
        (Finish (Inl (ExApi error)),
         emit rq (lifecycleEvent rq Failure attempt (elapsed web rq s) None
           (attribution LayerTransport reason None (apiCode error) True)) s))"

definition networkError :: "exn \<Rightarrow> ApiClientError" where
  "networkError e =
     \<lparr>apiCode = js ''NETWORK'', apiMessage = (case e of ExError m \<Rightarrow> m | _ \<Rightarrow> NETWORK_MESSAGE),
      apiStatus = None, apiRetryable = True\<rparr>"

definition timeoutError :: "('u, 'r, 'w) web \<Rightarrow> rat \<Rightarrow> ApiClientError" where
  "timeoutError web ms =
     \<lparr>apiCode = js ''TIMEOUT'', apiMessage = timeoutMessage web ms, apiStatus = None, apiRetryable = True\<rparr>"

definition handleException ::
  "('u, 'r, 'w) web \<Rightarrow> request \<Rightarrow> int \<Rightarrow> exn \<Rightarrow> 'w req_state \<Rightarrow> request_result round \<times> 'w req_state" where
  "handleException web rq attempt e s =
     (case e of
        ExAbort \<Rightarrow> handleTransport web rq attempt (timeoutError web (initTimeoutMs (rqInit rq))) (js ''request_timeout'') s
      | ExApi err \<Rightarrow> (Finish (Inl (ExApi err)), s)
      | _ \<Rightarrow> handleTransport web rq attempt (networkError e) (js ''network_exception'') s)"

definition request_round ::
  "('u, 'r, 'w) web \<Rightarrow> request \<Rightarrow> int \<Rightarrow> 'w req_state \<Rightarrow> request_result round \<times> 'w req_state" where
  "request_round web rq attempt s =
     (case fetchCall web (rqUrl rq) (rqInit rq) (world s) of (outcome, w) \<Rightarrow>
        (let s1 = s\<lparr>world := w, fetches := Suc (fetches s)\<rparr>
         in case outcome of
              Inl e \<Rightarrow> handleException web rq attempt e s1
            | Inr response \<Rightarrow>
                if \<not> responseOk (responseStatus web response) then handleHttpError web rq attempt response s1
                else handleOk web rq attempt response s1))"

definition unknownError :: ApiClientError where
  "unknownError = \<lparr>apiCode = js ''UNKNOWN'', apiMessage = UNKNOWN_MESSAGE, apiStatus = None, apiRetryable = False\<rparr>"

function request_loop ::
  "('u, 'r, 'w) web \<Rightarrow> request \<Rightarrow> int \<Rightarrow> 'w req_state \<Rightarrow> request_result \<times> 'w req_state" where
  "request_loop web rq attempt s =
     (if of_int attempt \<le> rqMaxRetries rq then
        (case request_round web rq attempt s of
           (Finish x, s') \<Rightarrow> (x, s')
         | (Again, s') \<Rightarrow> request_loop web rq (attempt + 1) s')
      else (Inl (ExApi unknownError), s))"
  by pat_completeness auto
termination
proof (relation "measure (\<lambda>(web, rq, attempt, s). nat (\<lfloor>rqMaxRetries rq\<rfloor> + 1 - attempt))")
  fix web :: "('u, 'r, 'w) web" and rq attempt and s :: "'w req_state" and p r s'
  assume "of_int attempt \<le> rqMaxRetries rq"
  then have "attempt \<le> \<lfloor>rqMaxRetries rq\<rfloor>" by (simp add: le_floor_iff)
  then show "((web, rq, attempt + 1, s'), web, rq, attempt, s)
      \<in> measure (\<lambda>(web, rq, attempt, s). nat (\<lfloor>rqMaxRetries rq\<rfloor> + 1 - attempt))" by simp
qed simp

declare request_loop.simps [simp del]

record client_config =
  cfgBaseUrl :: jstring
  cfgTimeoutMs :: rat
  cfgRetryCount :: rat

definition objSet :: "jstring \<Rightarrow> 'v \<Rightarrow> (jstring \<times> 'v) list \<Rightarrow> (jstring \<times> 'v) list" where
  "objSet k v ms = (if k \<in> fst ` set ms then map (\<lambda>(x, y). if x = k then (x, v) else (x, y)) ms else ms @ [(k, v)])"

definition requestHeaders :: "(jstring \<times> jstring) list \<Rightarrow> jstring option \<Rightarrow> (jstring \<times> jstring) list" where
  "requestHeaders given body =
     (let headers = fold (\<lambda>(k, v) ms. objSet k v ms) given [(js ''Accept'', js ''application/json'')]
      in if orDefault body [] \<noteq> [] then objSet (js ''Content-Type'') (js ''application/json'') headers else headers)"

definition prepareRequest ::
  "('u, 'r, 'w) web \<Rightarrow> client_config \<Rightarrow> jstring \<Rightarrow> RequestOptions \<Rightarrow> 'w \<Rightarrow> (exn, request) result" where
  "prepareRequest web cfg p opts w =
     (let httpMethod = nullish (optMethod opts) GET;
          timeout = nullish (optTimeoutMs opts) (cfgTimeoutMs cfg);
          defaultRetryCount = (if httpMethod = GET then cfgRetryCount cfg else 0);
          maxRetries = nullish (optRetryCount opts) defaultRetryCount;
          body = map_option (stringify web) (optBody opts)
      in ebind (buildUrl web (cfgBaseUrl cfg) p (optQuery opts)) (\<lambda>url. Inr
           \<lparr>rqPath = p, rqUrl = url, rqMethod = httpMethod,
            rqInit = \<lparr>initMethod = httpMethod, initHeaders = requestHeaders (optHeaders opts) body,
              initBody = body, initTimeoutMs = timeout\<rparr>,
            rqMaxRetries = maxRetries, rqBackoff = nullish (optRetryBackoffMs opts) 200,
            rqStartedAt = now web w, rqId = createRequestId web (optTrace opts) w,
            rqFeature = map_option traceFeature (optTrace opts), rqAction = map_option traceAction (optTrace opts),
            rqObserved = optObserved opts\<rparr>))"

definition request_start :: "request \<Rightarrow> 'w \<Rightarrow> 'w req_state" where
  "request_start rq w = emit rq (lifecycleEvent rq Start 0 0 None None) \<lparr>world = w, fetches = 0, pauses = [], events = []\<rparr>"

definition api_request ::
  "('u, 'r, 'w) web \<Rightarrow> client_config \<Rightarrow> jstring \<Rightarrow> RequestOptions \<Rightarrow> 'w \<Rightarrow> request_result \<times> 'w req_state" where
  "api_request web cfg p opts w =
     (case prepareRequest web cfg p opts w of
        Inl e \<Rightarrow> (Inl e, \<lparr>world = w, fetches = 0, pauses = [], events = []\<rparr>)
      | Inr rq \<Rightarrow> request_loop web rq 0 (request_start rq w))"

definition api_get ::
  "('u, 'r, 'w) web \<Rightarrow> client_config \<Rightarrow> jstring \<Rightarrow> RequestOptions \<Rightarrow> 'w \<Rightarrow> request_result \<times> 'w req_state" where
  "api_get web cfg p opts w = api_request web cfg p (opts\<lparr>optMethod := Some GET\<rparr>) w"

section \<open>One round\<close>

lemma emit_simps [simp]:
  "world (emit rq ev s) = world s" "fetches (emit rq ev s) = fetches s" "pauses (emit rq ev s) = pauses s"
  "events (emit rq ev s) = (if rqObserved rq then events s @ [ev] else events s)"
  by (simp_all add: emit_def)

lemma backOff_simps [simp]:
  "fetches (backOff web rq k s) = fetches s" "events (backOff web rq k s) = events s"
  "pauses (backOff web rq k s) = pauses s @ [rqBackoff rq * of_int k]"
  by (simp_all add: backOff_def Let_def)

lemma lifecycleEvent_simps [simp]:
  "evStage (lifecycleEvent rq st k d x a) = st" "evAttempt (lifecycleEvent rq st k d x a) = k"
  by (simp_all add: lifecycleEvent_def)

lemmas handler_defs = handleHttpError_def handleOk_def handleTransport_def handleException_def

definition steps_of :: "RequestLifecycleEvent list \<Rightarrow> (stage \<times> int) list" where
  "steps_of evs = map (\<lambda>e. (evStage e, evAttempt e)) evs"

lemma steps_of_simps [simp]: "steps_of [] = []" "steps_of (xs @ ys) = steps_of xs @ steps_of ys"
  "steps_of [e] = [(evStage e, evAttempt e)]"
  by (simp_all add: steps_of_def)

text \<open>\<open>fetch\<close> itself never rejects with an error of the client's own class.\<close>

definition fetch_plain :: "('u, 'r, 'w) web \<Rightarrow> bool" where
  "fetch_plain web \<longleftrightarrow> (\<forall>u i w e. fst (fetchCall web u i w) \<noteq> Inl (ExApi e))"

lemma round_fetches: "fetches (snd (request_round web rq k s)) = Suc (fetches s)"
  by (simp add: request_round_def handler_defs Let_def split: prod.splits sum.splits exn.splits)

lemma round_again:
  assumes "request_round web rq k s = (Again, s')"
  shows "of_int k < rqMaxRetries rq" "pauses s' = pauses s @ [rqBackoff rq * of_int (k + 1)]"
    "rqObserved rq \<Longrightarrow> steps_of (events s') = steps_of (events s) @ [(Retry, k + 1)]"
  using assms
  by (auto simp: request_round_def handler_defs Let_def split: prod.splits sum.splits exn.splits if_splits)

lemma round_finish:
  assumes "request_round web rq k s = (Finish x, s')"
  shows "pauses s' = pauses s"
    "rqObserved rq \<Longrightarrow> fetch_plain web \<Longrightarrow>
       steps_of (events s') = steps_of (events s) @ [(case x of Inr _ \<Rightarrow> Success | Inl _ \<Rightarrow> Failure, k)]"
proof -
  show "pauses s' = pauses s"
    using assms
    by (auto simp: request_round_def handler_defs Let_def split: prod.splits sum.splits exn.splits if_splits)
  show "steps_of (events s') = steps_of (events s) @ [(case x of Inr _ \<Rightarrow> Success | Inl _ \<Rightarrow> Failure, k)]"
    if "rqObserved rq" "fetch_plain web"
    using assms that
    by (auto simp: request_round_def handler_defs Let_def fetch_plain_def
        split: prod.splits sum.splits exn.splits if_splits) (metis fst_conv)+
qed

text \<open>
  One attempt by itself, as the client reads it: no answer is a timeout or a network error,
  a status that is not OK is the HTTP error of its body, an OK answer is its body or a parse
  error. \<open>attempted web rq w ws\<close>: the attempts that began in the states \<open>ws\<close>, the first in
  \<open>w\<close>, each further one after a retryable error and a pause of the backoff times the number
  of attempts made.
\<close>

definition oneAttempt :: "('u, 'r, 'w) web \<Rightarrow> request \<Rightarrow> 'w \<Rightarrow> (ApiClientError, json) result \<times> 'w" where
  "oneAttempt web rq w =
     (case fetchCall web (rqUrl rq) (rqInit rq) w of
        (Inl e, w1) \<Rightarrow>
          (Inl (case e of ExAbort \<Rightarrow> timeoutError web (initTimeoutMs (rqInit rq)) | _ \<Rightarrow> networkError e), w1)
      | (Inr response, w1) \<Rightarrow>
          (case readJson web response w1 of (body, w2) \<Rightarrow>
             (if responseOk (responseStatus web response)
              then (case body of Inr data \<Rightarrow> Inr data | Inl _ \<Rightarrow> Inl parseError)
              else Inl (httpError (case body of Inr j \<Rightarrow> Some j | Inl _ \<Rightarrow> None) (responseStatus web response)),
              w2)))"

inductive attempted :: "('u, 'r, 'w) web \<Rightarrow> request \<Rightarrow> 'w \<Rightarrow> 'w list \<Rightarrow> bool" for web rq w where
  first_attempt: "attempted web rq w [w]"
| next_attempt: "attempted web rq w ws \<Longrightarrow> oneAttempt web rq (last ws) = (Inl err, w1) \<Longrightarrow> apiRetryable err \<Longrightarrow>
     attempted web rq w (ws @ [pause web (rqBackoff rq * of_nat (length ws)) w1])"

definition thrownApi :: "(ApiClientError, json) result \<Rightarrow> request_result" where
  "thrownApi r = (case r of Inr data \<Rightarrow> Inr data | Inl err \<Rightarrow> Inl (ExApi err))"

definition tryAgain :: "(ApiClientError, json) result \<Rightarrow> bool" where
  "tryAgain r = (case r of Inr _ \<Rightarrow> False | Inl err \<Rightarrow> apiRetryable err)"

lemma backOff_world [simp]: "world (backOff web rq k s) = pause web (rqBackoff rq * of_int k) (world s)"
  by (simp add: backOff_def Let_def)

lemma transport_retryable [simp]: "apiRetryable (networkError e)" "apiRetryable (timeoutError web ms)"
  "\<not> apiRetryable parseError"
  by (simp_all add: networkError_def timeoutError_def parseError_def)

lemma round_attempt_again:
  assumes "request_round web rq k s = (Again, s')"
  shows "\<exists>err w1. oneAttempt web rq (world s) = (Inl err, w1) \<and> apiRetryable err \<and>
    world s' = pause web (rqBackoff rq * of_int (k + 1)) w1"
  using assms
  by (auto simp: request_round_def handler_defs oneAttempt_def Let_def
      split: prod.splits sum.splits exn.splits if_splits)

lemma round_attempt_finish:
  assumes "request_round web rq k s = (Finish x, s')" "fetch_plain web"
  shows "\<exists>r. oneAttempt web rq (world s) = (r, world s') \<and> x = thrownApi r \<and>
    (tryAgain r \<longrightarrow> rqMaxRetries rq \<le> of_int k)"
proof (cases "fetchCall web (rqUrl rq) (rqInit rq) (world s)")
  case (Pair outcome w)
  have plain: "outcome \<noteq> Inl (ExApi e)" for e
    using assms(2) Pair unfolding fetch_plain_def by (metis fst_conv)
  show ?thesis
  proof (cases outcome)
    case (Inl e)
    then show ?thesis
      using assms(1) Pair plain
      by (cases e) (auto simp: request_round_def handleException_def handleTransport_def oneAttempt_def
          thrownApi_def tryAgain_def Let_def split: if_splits)
  next
    case (Inr response)
    then show ?thesis
      using assms(1) Pair
      by (auto simp: request_round_def handleHttpError_def handleOk_def oneAttempt_def thrownApi_def tryAgain_def
          Let_def split: if_splits prod.splits sum.splits)
  qed
qed

interpretation rq: bounded_rounds "request_round web (rq\<lparr>rqMaxRetries := of_int n\<rparr>)"
  "request_loop web (rq\<lparr>rqMaxRetries := of_int n\<rparr>)" n fetches
  for web :: "('u, 'r, 'w) web" and rq and n
proof (unfold_locales, goal_cases)
  case (1 k s)
  then show ?case by (simp add: request_loop.simps[of web "rq\<lparr>rqMaxRetries := of_int n\<rparr>" k s])
next
  case (2 k s s')
  from round_again(1)[OF this] show ?case by simp
next
  case (3 k s)
  show ?case by (rule round_fetches)
qed

section \<open>Properties\<close>

text \<open>State before attempt \<open>k\<close> and at the end of a request.\<close>

definition before_attempt :: "('u, 'r, 'w) web \<Rightarrow> request \<Rightarrow> 'w \<Rightarrow> int \<Rightarrow> 'w req_state \<Rightarrow> bool" where
  "before_attempt web rq w k s \<longleftrightarrow> 0 \<le> k \<and> fetches s = nat k \<and>
     (\<exists>ws. attempted web rq w ws \<and> length ws = Suc (nat k) \<and> last ws = world s) \<and>
     pauses s = map (\<lambda>i. rqBackoff rq * of_int i) [1..k] \<and>
     (rqObserved rq \<longrightarrow> steps_of (events s) = (Start, 0) # map (Pair Retry) [1..k])"

definition request_ended ::
  "('u, 'r, 'w) web \<Rightarrow> request \<Rightarrow> 'w \<Rightarrow> int \<Rightarrow> request_result \<Rightarrow> 'w req_state \<Rightarrow> bool" where
  "request_ended web rq w n x s \<longleftrightarrow>
     (\<exists>k ws r. 0 \<le> k \<and> k \<le> n \<and> attempted web rq w ws \<and> length ws = Suc (nat k) \<and>
        oneAttempt web rq (last ws) = (r, world s) \<and> x = thrownApi r \<and> (tryAgain r \<longrightarrow> k = n) \<and>
        fetches s = length ws \<and> pauses s = map (\<lambda>i. rqBackoff rq * of_int i) [1..k] \<and>
        (rqObserved rq \<longrightarrow> steps_of (events s) =
           (Start, 0) # map (Pair Retry) [1..k] @ [(case x of Inr _ \<Rightarrow> Success | Inl _ \<Rightarrow> Failure, k)]))"

lemma before_attempt_start: "before_attempt web rq w 0 (request_start rq w)"
  by (auto simp: before_attempt_def request_start_def intro!: exI[of _ "[w]"] first_attempt)

lemma before_attempt_again:
  assumes "before_attempt web rq w k s" "request_round web rq k s = (Again, s')"
  shows "before_attempt web rq w (k + 1) s'"
proof -
  obtain ws where k: "0 \<le> k" and ws: "attempted web rq w ws" "length ws = Suc (nat k)" "last ws = world s"
    using assms(1) by (auto simp: before_attempt_def)
  obtain err w1 where a: "oneAttempt web rq (world s) = (Inl err, w1)" "apiRetryable err"
    "world s' = pause web (rqBackoff rq * of_int (k + 1)) w1"
    using round_attempt_again[OF assms(2)] by blast
  have len: "(of_nat (length ws) :: rat) = of_int (k + 1)" using ws(2) k by simp
  have "attempted web rq w (ws @ [world s'])"
    using next_attempt[OF ws(1), of err w1] ws(3) a by (simp only: len)
  then have "\<exists>ws. attempted web rq w ws \<and> length ws = Suc (nat (k + 1)) \<and> last ws = world s'"
    using ws(2) k by (intro exI[of _ "ws @ [world s']"]) (simp add: nat_add_distrib)
  moreover have "[1..k + 1] = [1..k] @ [k + 1]" using k by (simp add: upto_rec2)
  moreover have "nat (k + 1) = Suc (nat k)" using k by simp
  ultimately show ?thesis
    using assms(1) round_again[OF assms(2)] round_fetches[of web rq k s] assms(2)
    by (simp add: before_attempt_def)
qed

lemma before_attempt_finish:
  assumes "before_attempt web rq w k s" "k \<le> n" "request_round web rq k s = (Finish x, s')"
    and "rqMaxRetries rq = of_int n" "fetch_plain web"
  shows "request_ended web rq w n x s'"
proof -
  obtain ws where k: "0 \<le> k" and ws: "attempted web rq w ws" "length ws = Suc (nat k)" "last ws = world s"
    using assms(1) by (auto simp: before_attempt_def)
  obtain r where "oneAttempt web rq (world s) = (r, world s')" "x = thrownApi r" "tryAgain r \<longrightarrow> rqMaxRetries rq \<le> of_int k"
    using round_attempt_finish[OF assms(3,5)] by blast
  moreover from this(3) have "tryAgain r \<longrightarrow> k = n" using assms(2,4) by simp
  ultimately show ?thesis
    using k ws assms(1,2) round_finish[OF assms(3)] round_fetches[of web rq k s] assms(3,5)
    unfolding request_ended_def before_attempt_def by (intro exI[of _ k] exI[of _ ws] exI[of _ r]) auto
qed

lemma request_loop_ends:
  assumes "rqMaxRetries rq = of_int n" "0 \<le> n" "fetch_plain web"
  shows "request_ended web rq w n (fst (request_loop web rq 0 (request_start rq w)))
    (snd (request_loop web rq 0 (request_start rq w)))"
proof -
  have rq: "rq\<lparr>rqMaxRetries := of_int n\<rparr> = rq" using assms(1) by (cases rq) simp
  show ?thesis
    by (rule rq.run_invariant[where P = "before_attempt web rq w" and rq = rq and n = n, unfolded rq,
          OF assms(2) before_attempt_start])
      (blast intro: before_attempt_again before_attempt_finish assms(1,3))+
qed

text \<open>The last event that an observer saw carries the attribution of the error that is thrown.\<close>

definition attributed :: "request_result \<Rightarrow> 'w req_state \<Rightarrow> bool" where
  "attributed x s \<longleftrightarrow> events s \<noteq> [] \<and>
     (case x of
        Inl e \<Rightarrow> \<exists>err a. e = ExApi err \<and> evAttribution (last (events s)) = Some a \<and> attrCode a = Some (apiCode err)
      | Inr _ \<Rightarrow> evAttribution (last (events s)) = None)"

lemma round_attributed:
  assumes "request_round web rq k s = (Finish x, s')" "rqObserved rq" "fetch_plain web"
  shows "attributed x s'"
proof (cases "fetchCall web (rqUrl rq) (rqInit rq) (world s)")
  case (Pair outcome w)
  have plain: "outcome \<noteq> Inl (ExApi e)" for e
    using assms(3) Pair unfolding fetch_plain_def by (metis fst_conv)
  show ?thesis
    using assms(1,2) Pair plain
    by (cases outcome)
      (auto simp: request_round_def handler_defs attributed_def lifecycleEvent_def attribution_def Let_def
        split: prod.splits sum.splits exn.splits if_splits)
qed

lemma request_loop_attributed:
  assumes "rqMaxRetries rq = of_int n" "0 \<le> n" "fetch_plain web" "rqObserved rq"
  shows "attributed (fst (request_loop web rq 0 s)) (snd (request_loop web rq 0 s))"
proof -
  have rq: "rq\<lparr>rqMaxRetries := of_int n\<rparr> = rq" using assms(1) by (cases rq) simp
  show ?thesis
    by (rule rq.run_invariant[where P = "\<lambda>_ _. True" and rq = rq and n = n, unfolded rq, OF assms(2)])
      (auto intro: round_attributed assms(3,4))
qed

lemma api_request_prepared:
  "prepareRequest web cfg p opts w = Inr rq \<Longrightarrow> api_request web cfg p opts w = request_loop web rq 0 (request_start rq w)"
  by (simp add: api_request_def)

text \<open>
  C12: the course of a request whose number \<open>n\<close> of retries is whole and not negative, on a
  platform whose \<open>fetch\<close> does not itself reject with an error of the client's class. It is a
  sequence of attempts from the state in which it was made, each attempt but the last
  ending in a retryable error that is followed by a pause of the backoff times the number of
  attempts made; no further attempt follows the last because its result is not a retryable
  error, or because all \<open>n\<close> retries are used. The request returns the body, or throws the
  error, of that last attempt. It called \<open>fetch\<close> once per attempt. An observer saw one start
  event, the retry events in order, and one final event, a success event if and only if the
  request returned.
\<close>

theorem request_lifecycle:
  assumes "prepareRequest web cfg p opts w = Inr rq" "rqMaxRetries rq = of_int n" "0 \<le> n" "fetch_plain web"
  shows "let (x, s) = api_request web cfg p opts w in
     \<exists>k ws r. 0 \<le> k \<and> k \<le> n \<and> attempted web rq w ws \<and> length ws = Suc (nat k) \<and>
        oneAttempt web rq (last ws) = (r, world s) \<and> x = thrownApi r \<and> (tryAgain r \<longrightarrow> k = n) \<and>
        fetches s = length ws \<and> pauses s = map (\<lambda>i. rqBackoff rq * of_int i) [1..k] \<and>
        (rqObserved rq \<longrightarrow> steps_of (events s) =
           (Start, 0) # map (Pair Retry) [1..k] @ [(case x of Inr _ \<Rightarrow> Success | Inl _ \<Rightarrow> Failure, k)])"
  using request_loop_ends[OF assms(2-4), of w] api_request_prepared[OF assms(1)]
  by (simp add: request_ended_def case_prod_beta)

text \<open>A small browser: the state counts down the failures; the response is its own status.\<close>

definition demo_web :: "(exn, jstring) result \<Rightarrow> (jstring, int, nat) web" where
  "demo_web url =
     \<lparr>now = (\<lambda>w. 0),
      fetchCall = (\<lambda>u i w. if w = 0 then (Inr 200, 0) else (Inl (ExValue (js ''timeout'')), w - 1)),
      responseStatus = (\<lambda>r. r), readJson = (\<lambda>r w. (Inr (JBool True), w)), pause = (\<lambda>ms w. w),
      newUrl = (\<lambda>t. url), setSearchParam = (\<lambda>k v u. u), urlString = (\<lambda>u. u), randomText = (\<lambda>w. js ''0.abcdefgh''),
      numberText = (\<lambda>x. []), stringify = (\<lambda>j. js ''{}'')\<rparr>"

definition demo_cfg :: client_config where
  "demo_cfg = \<lparr>cfgBaseUrl = js ''http://h'', cfgTimeoutMs = 5000, cfgRetryCount = 1\<rparr>"

definition demo_rq :: request where
  "demo_rq = \<lparr>rqPath = js ''/p'', rqUrl = js ''http://h/p'', rqMethod = GET,
     rqInit = \<lparr>initMethod = GET, initHeaders = [(js ''Accept'', js ''application/json'')], initBody = None,
       initTimeoutMs = 5000\<rparr>,
     rqMaxRetries = 1, rqBackoff = 200, rqStartedAt = 0, rqId = js ''req_0_abcdef'', rqFeature = None,
     rqAction = None, rqObserved = False\<rparr>"

lemma demo_web_plain: "fetch_plain (demo_web url)"
  by (simp add: fetch_plain_def demo_web_def)

lemma demo_prepare: "prepareRequest (demo_web (Inr (js ''http://h/p''))) demo_cfg (js ''/p'') noOptions w = Inr demo_rq"
  by (simp add: prepareRequest_def demo_web_def demo_cfg_def noOptions_def demo_rq_def buildUrl_def
      requestHeaders_def createRequestId_def orDefault_def base36.simps)

theorem request_lifecycle_witness:
  "let (x, s) = api_request (demo_web (Inr (js ''http://h/p''))) demo_cfg (js ''/p'') noOptions 1 in
     \<exists>k ws r. 0 \<le> k \<and> k \<le> 1 \<and> attempted (demo_web (Inr (js ''http://h/p''))) demo_rq 1 ws \<and>
       oneAttempt (demo_web (Inr (js ''http://h/p''))) demo_rq (last ws) = (r, world s) \<and> x = thrownApi r \<and>
       (tryAgain r \<longrightarrow> k = 1) \<and> fetches s = Suc (nat k)"
proof -
  have n: "rqMaxRetries demo_rq = of_int 1" by (simp add: demo_rq_def)
  show ?thesis
    using request_lifecycle[OF demo_prepare[of 1] n _ demo_web_plain] by (fastforce simp del: js_Cons split: prod.splits)
qed

text \<open>
  C27: A request other than \<open>GET\<close> for which the caller asks for no retries calls \<open>fetch\<close> at most
  once, whatever the server or the network does, so a signature confirmation is never
  submitted twice by the client.
\<close>

theorem post_sent_at_most_once:
  assumes "nullish (optMethod opts) GET \<noteq> GET" "optRetryCount opts = None"
  shows "fetches (snd (api_request web cfg p opts w)) \<le> 1 \<and> pauses (snd (api_request web cfg p opts w)) = []"
proof (cases "prepareRequest web cfg p opts w")
  case (Inr rq)
  then have m: "rqMaxRetries rq = 0"
    using assms by (auto simp: prepareRequest_def Let_def ebind_eq_Inr)
  obtain x s' where r: "request_round web rq 0 (request_start rq w) = (x, s')" by fastforce
  have "x \<noteq> Again" using r round_again(1)[of web rq 0 "request_start rq w" s'] m by auto
  then obtain y where x: "x = Finish y" by (cases x) auto
  then have "request_loop web rq 0 (request_start rq w) = (y, s')"
    using r m by (simp add: request_loop.simps)
  moreover have "fetches s' = 1" using round_fetches[of web rq 0 "request_start rq w"] r
    by (simp add: request_start_def)
  moreover have "pauses s' = []" using round_finish(1) r x by (fastforce simp: request_start_def)
  ultimately show ?thesis using api_request_prepared[OF Inr] by simp
qed (simp add: api_request_def)

theorem post_sent_at_most_once_witness:
  "fetches (snd (api_request (demo_web (Inr (js ''u''))) demo_cfg (js ''/p'')
     (noOptions\<lparr>optMethod := Some POST\<rparr>) 5)) \<le> 1"
  using post_sent_at_most_once[of "noOptions\<lparr>optMethod := Some POST\<rparr>" "demo_web (Inr (js ''u''))" demo_cfg
      "js ''/p''" 5] by (simp add: noOptions_def)

text \<open>
  Timeouts are not reported as timeouts. The timer aborts with the reason \<open>'timeout'\<close>, and an
  aborted \<open>fetch\<close> rejects with that reason, a string. It is no \<open>DOMException\<close>, so at the last
  attempt the client throws a network error with the generic network message instead of the
  timeout error.
\<close>

theorem timeout_reported_as_network_error:
  assumes "prepareRequest web cfg p opts w = Inr rq" "rqMaxRetries rq = 0"
    and "fst (fetchCall web (rqUrl rq) (rqInit rq) w) = Inl (ExValue (js ''timeout''))"
  shows "fst (api_request web cfg p opts w) =
    Inl (ExApi \<lparr>apiCode = js ''NETWORK'', apiMessage = NETWORK_MESSAGE, apiStatus = None, apiRetryable = True\<rparr>)"
proof -
  obtain w1 where "fetchCall web (rqUrl rq) (rqInit rq) (world (request_start rq w)) = (Inl (ExValue (js ''timeout'')), w1)"
    using assms(3) by (simp add: request_start_def prod_eq_iff)
  then have "\<exists>s'. request_round web rq 0 (request_start rq w) =
      (Finish (Inl (ExApi (networkError (ExValue (js ''timeout''))))), s')"
    using assms(2) by (simp add: request_round_def handleException_def handleTransport_def Let_def del: js_Cons)
  then show ?thesis
    using assms(2) api_request_prepared[OF assms(1)]
    by (auto simp: request_loop.simps networkError_def simp del: js_Cons)
qed

theorem timeout_reported_as_network_error_witness:
  "fst (api_request (demo_web (Inr (js ''u''))) demo_cfg (js ''/p'') (noOptions\<lparr>optMethod := Some POST\<rparr>) 1) =
    Inl (ExApi \<lparr>apiCode = js ''NETWORK'', apiMessage = NETWORK_MESSAGE, apiStatus = None, apiRetryable = True\<rparr>)"
proof -
  obtain rq where rq: "prepareRequest (demo_web (Inr (js ''u''))) demo_cfg (js ''/p'') (noOptions\<lparr>optMethod := Some POST\<rparr>) 1 = Inr rq"
    "rqMaxRetries rq = 0"
    by (simp add: prepareRequest_def demo_web_def demo_cfg_def noOptions_def buildUrl_def)
  show ?thesis by (rule timeout_reported_as_network_error[OF rq]) (simp add: demo_web_def)
qed

text \<open>
  A retry count that is not a whole number, which \<open>parseNumberEnv\<close> lets through, hides the
  cause of a failure: if every attempt fails in the network, the loop runs past its guard
  and throws the generic unknown error instead of the network error.
\<close>

theorem fractional_retry_count_hides_error:
  assumes "prepareRequest web cfg p opts w = Inr rq" "0 \<le> rqMaxRetries rq" "rqMaxRetries rq \<notin> \<int>"
    and "\<forall>u i w. \<exists>m. fst (fetchCall web u i w) = Inl (ExError m)"
  shows "fst (api_request web cfg p opts w) = Inl (ExApi unknownError)"
proof -
  have below: "of_int k < rqMaxRetries rq" if "of_int k \<le> rqMaxRetries rq" for k
    using that assms(3) by (metis Ints_of_int order_le_less)
  have again: "\<exists>s'. request_round web rq k s = (Again, s')" if "of_int k \<le> rqMaxRetries rq" for k s
  proof -
    obtain m w1 where "fetchCall web (rqUrl rq) (rqInit rq) (world s) = (Inl (ExError m), w1)"
      using assms(4) by (metis prod.collapse)
    then show ?thesis
      using below[OF that] by (simp add: request_round_def handleException_def handleTransport_def Let_def)
  qed
  have "fst (request_loop web rq k s) = Inl (ExApi unknownError)" for k s
  proof (induction "nat (\<lfloor>rqMaxRetries rq\<rfloor> + 1 - k)" arbitrary: k s rule: less_induct)
    case less
    show ?case
    proof (cases "of_int k \<le> rqMaxRetries rq")
      case True
      then obtain s' where s': "request_round web rq k s = (Again, s')" using again by blast
      from True have "k \<le> \<lfloor>rqMaxRetries rq\<rfloor>" by (simp add: le_floor_iff)
      then have "fst (request_loop web rq (k + 1) s') = Inl (ExApi unknownError)" by (intro less) simp
      with True s' show ?thesis by (simp add: request_loop.simps[of web rq k])
    qed (simp add: request_loop.simps)
  qed
  then show ?thesis using api_request_prepared[OF assms(1)] by simp
qed

definition offline_web :: "(jstring, int, nat) web" where
  "offline_web = (demo_web (Inr (js ''u'')))\<lparr>fetchCall := (\<lambda>u i w. (Inl (ExError (js ''offline'')), Suc w))\<rparr>"

theorem fractional_retry_count_hides_error_witness:
  "fst (api_request offline_web demo_cfg (js ''/p'') (noOptions\<lparr>optRetryCount := Some (1 / 2)\<rparr>) 0)
     = Inl (ExApi unknownError)"
proof -
  obtain rq where rq: "prepareRequest offline_web demo_cfg (js ''/p'') (noOptions\<lparr>optRetryCount := Some (1 / 2)\<rparr>) 0 = Inr rq"
    "rqMaxRetries rq = 1 / 2"
    by (simp add: prepareRequest_def offline_web_def demo_web_def demo_cfg_def noOptions_def buildUrl_def)
  have "(1 / 2 :: rat) \<notin> \<int>" unfolding quotient_of_int_iff[symmetric] by code_simp
  then have "rqMaxRetries rq \<notin> \<int>" unfolding rq(2) .
  with rq show ?thesis
    by (intro fractional_retry_count_hides_error[OF rq(1)]) (simp_all add: offline_web_def)
qed

section \<open>Errors of a response\<close>

text \<open>
  C33: the error of a response that is not OK, for every body. The code of the payload is adopted
  only when it is one of the ten semantic codes (after trimming), the message is never empty
  for such a code, and the session is treated as invalid exactly when the adopted code is
  \<open>UNAUTHORIZED\<close>, or when there is none and the status is 401 or 403.
\<close>

theorem httpError_classification:
  "let err = httpError payload status;
       given = (case member payload (js ''code'') of Some (JStr t) \<Rightarrow> trim t | _ \<Rightarrow> []);
       adopted = isWalletSemanticErrorCode given
   in apiCode err = (if adopted then given else js ''HTTP_ERROR'') \<and> apiStatus err = Some status \<and>
      (\<not> adopted \<or> apiMessage err \<noteq> []) \<and>
      (isSessionInvalidError (ExApi err) \<longleftrightarrow>
         (if adopted then given = js ''UNAUTHORIZED'' else status = 401 \<or> status = 403))"
proof -
  define given where "given = (case member payload (js ''code'') of Some (JStr t) \<Rightarrow> trim t | _ \<Rightarrow> [])"
  define err where "err = httpError payload status"
  note defs = given_def[symmetric] err_def[symmetric]
  have nonempty: "given \<noteq> []" if "isWalletSemanticErrorCode given"
    using that by (auto simp: isWalletSemanticErrorCode_def walletSemanticErrorCodes_def)
  have code: "apiCode err = (if isWalletSemanticErrorCode given then given else js ''HTTP_ERROR'')"
    "apiStatus err = Some status"
    using nonempty by (auto simp: err_def httpError_def resolveStructuredErrorPayload_def defs(1) Let_def simp del: js_Cons)
  have msg: "apiMessage err \<noteq> []" if "isWalletSemanticErrorCode given"
    using that nonempty semantic_message_exists[OF that, of "Some (resolveErrorMessage payload (js ''HTTP '' @ intString status))"]
    by (auto simp: err_def httpError_def resolveStructuredErrorPayload_def defs(1) Let_def simp del: js_Cons)
  have distinct: "js ''HTTP_ERROR'' \<noteq> js ''UNAUTHORIZED''" by simp
  have "isWalletSemanticErrorCode given \<Longrightarrow> given \<noteq> js ''HTTP_ERROR''"
    using transport_codes_not_semantic(1) by metis
  then have "isSessionInvalidError (ExApi err) \<longleftrightarrow>
      (if isWalletSemanticErrorCode given then given = js ''UNAUTHORIZED'' else status = 401 \<or> status = 403)"
    using distinct unfolding isSessionInvalidError_def by (simp add: code del: js_Cons)
  with code msg show ?thesis unfolding Let_def defs by blast
qed

theorem httpError_classification_witness:
  "let err = httpError (Some (JObj [(js ''code'', JStr (js '' UNAUTHORIZED ''))])) 500
   in apiCode err = js ''UNAUTHORIZED'' \<and> apiMessage err \<noteq> [] \<and> isSessionInvalidError (ExApi err)"
proof -
  have t: "trim (js '' UNAUTHORIZED '') = js ''UNAUTHORIZED''" by (simp add: trim_def trimStart_def trimEnd_def isWhite_def)
  have "isWalletSemanticErrorCode (js ''UNAUTHORIZED'')"
    by (simp add: isWalletSemanticErrorCode_def walletSemanticErrorCodes_def del: js_Cons)
  with t show ?thesis
    using httpError_classification[of "Some (JObj [(js ''code'', JStr (js '' UNAUTHORIZED ''))])" 500]
    by (simp add: Let_def del: js_Cons)
qed

end
