(* ===== verification/JsonText.thy ===== *)
theory JsonText
  imports ApiClient
begin

text \<open>
  The text form of JSON values, as \<open>JSON.stringify\<close> writes it (compact or indented) and
  \<open>JSON.parse\<close> reads it, with the round trip. The web application uses both for the stored
  session, for event payloads and for exports. A number is written by its digits when it is
  an integer below \<open>10 ^ 21\<close>; other numbers are written by the parameter \<open>other\<close>, the shortest
  notation of the language. Reading rounds the exact value of the text with the parameter \<open>rnd\<close>.
\<close>

section \<open>Writing\<close>

definition lowHex :: "nat \<Rightarrow> jchar" where
  "lowHex n = (if n < 10 then 48 + n else 87 + n)"

definition uEscape :: "jchar \<Rightarrow> jstring" where
  "uEscape c = [92, 117, lowHex (c div 4096 mod 16), lowHex (c div 256 mod 16), lowHex (c div 16 mod 16), lowHex (c mod 16)]"

definition isSurrogate :: "jchar \<Rightarrow> bool" where
  "isSurrogate c \<longleftrightarrow> isHighSurrogate c \<or> isLowSurrogate c"

definition quoteUnit :: "jchar \<Rightarrow> jstring" where
  "quoteUnit c =
     (if c = 8 then [92, 98] else if c = 9 then [92, 116] else if c = 10 then [92, 110]
      else if c = 12 then [92, 102] else if c = 13 then [92, 114] else if c = 34 then [92, 34]
      else if c = 92 then [92, 92] else if c < 32 \<or> isSurrogate c then uEscape c else [c])"

fun quoteBody :: "jstring \<Rightarrow> jstring" where
  "quoteBody [] = []"
| "quoteBody [c] = quoteUnit c"
| "quoteBody (c # d # s) =
     (if isHighSurrogate c \<and> isLowSurrogate d then c # d # quoteBody s else quoteUnit c @ quoteBody (d # s))"

definition quoteJson :: "jstring \<Rightarrow> jstring" where
  "quoteJson s = [34] @ quoteBody s @ [34]"

definition numberJson :: "(jsnum \<Rightarrow> jstring) \<Rightarrow> jsnum \<Rightarrow> jstring" where
  "numberJson other x =
     (case x of
        Fin q \<Rightarrow> if isInteger x \<and> \<bar>q\<bar> < 10 ^ 21 then intString \<lfloor>q\<rfloor> else other x
      | _ \<Rightarrow> js ''null'')"

text \<open>A gap of no characters is the compact form; otherwise each nesting level adds the gap.\<close>

definition lineBreak :: "jstring \<Rightarrow> nat \<Rightarrow> jstring" where
  "lineBreak gap n = (if gap = [] then [] else 10 # concat (replicate n gap))"

definition keyJson :: "jstring \<Rightarrow> jstring \<Rightarrow> jstring" where
  "keyJson gap k = quoteJson k @ (if gap = [] then [58] else [58, 32])"

definition enclose :: "jchar \<Rightarrow> jchar \<Rightarrow> jstring \<Rightarrow> nat \<Rightarrow> jstring list \<Rightarrow> jstring" where
  "enclose lb rb gap n parts =
     (if parts = [] then [lb, rb]
      else [lb] @ lineBreak gap (Suc n) @ join ([44] @ lineBreak gap (Suc n)) parts @ lineBreak gap n @ [rb])"

lemma json_size_member [termination_simp]: "kv \<in> set ms \<Longrightarrow> size (snd kv) < size (JObj ms)"
  by (induction ms) (auto simp: size_prod_def split: prod.splits)

fun stringifyAt :: "(jsnum \<Rightarrow> jstring) \<Rightarrow> jstring \<Rightarrow> nat \<Rightarrow> json \<Rightarrow> jstring" where
  "stringifyAt other gap n JNull = js ''null''"
| "stringifyAt other gap n (JBool b) = (if b then js ''true'' else js ''false'')"
| "stringifyAt other gap n (JNum x) = numberJson other x"
| "stringifyAt other gap n (JStr s) = quoteJson s"
| "stringifyAt other gap n (JArr xs) = enclose 91 93 gap n (map (stringifyAt other gap (Suc n)) xs)"
| "stringifyAt other gap n (JObj ms) =
     enclose 123 125 gap n (map (\<lambda>kv. keyJson gap (fst kv) @ stringifyAt other gap (Suc n) (snd kv)) ms)"

definition JSON_stringify :: "(jsnum \<Rightarrow> jstring) \<Rightarrow> jstring \<Rightarrow> json \<Rightarrow> jstring" where
  "JSON_stringify other gap j = stringifyAt other gap 0 j"

section \<open>Reading\<close>

definition skipWs :: "jstring \<Rightarrow> jstring" where
  "skipWs s = dropWhile (\<lambda>c. c = 9 \<or> c = 10 \<or> c = 13 \<or> c = 32) s"

fun hex4 :: "jstring \<Rightarrow> (jchar \<times> jstring) option" where
  "hex4 (a # b # c # d # r) =
     (case (hexValue a, hexValue b, hexValue c, hexValue d) of
        (Some w, Some x, Some y, Some z) \<Rightarrow> Some (4096 * w + 256 * x + 16 * y + z, r)
      | _ \<Rightarrow> None)"
| "hex4 _ = None"

definition simpleEscape :: "jchar \<Rightarrow> jchar option" where
  "simpleEscape e =
     map_of [(34, 34), (92, 92), (47, 47), (98, 8), (102, 12), (110, 10), (114, 13), (116, 9)] e"

definition addUnit :: "jchar \<Rightarrow> (jstring \<times> jstring) option \<Rightarrow> (jstring \<times> jstring) option" where
  "addUnit u res = map_option (\<lambda>(t, r). (u # t, r)) res"

lemma hex4_shorter [termination_simp]: "hex4 s = Some (u, r) \<Longrightarrow> length r < length s"
  by (cases s rule: hex4.cases) (auto split: option.splits)

fun readString :: "jstring \<Rightarrow> (jstring \<times> jstring) option" where
  "readString [] = None"
| "readString (c # r) =
     (if c = 34 then Some ([], r)
      else if c = 92 then
        (case r of
           [] \<Rightarrow> None
         | e # r1 \<Rightarrow>
             if e = 117 then (case hex4 r1 of None \<Rightarrow> None | Some (u, r2) \<Rightarrow> addUnit u (readString r2))
             else (case simpleEscape e of None \<Rightarrow> None | Some u \<Rightarrow> addUnit u (readString r1)))
      else if c < 32 then None
      else addUnit c (readString r))"

definition readFraction :: "jstring \<Rightarrow> (jstring \<times> jstring) option" where
  "readFraction r =
     (case r of
        [] \<Rightarrow> Some ([], [])
      | c # r1 \<Rightarrow>
          if c = 46 then (if takeWhile isDigit r1 = [] then None else Some (takeWhile isDigit r1, dropWhile isDigit r1))
          else Some ([], r))"

definition readExponent :: "jstring \<Rightarrow> (int \<times> jstring) option" where
  "readExponent r =
     (case r of
        [] \<Rightarrow> Some (0, [])
      | c # r1 \<Rightarrow>
          if c = 101 \<or> c = 69 then
            (let neg = (r1 \<noteq> [] \<and> hd r1 = 45);
                 r2 = (if r1 \<noteq> [] \<and> (hd r1 = 45 \<or> hd r1 = 43) then tl r1 else r1);
                 ds = takeWhile isDigit r2
             in if ds = [] then None
                else Some (if neg then - int (digitsValue ds) else int (digitsValue ds), dropWhile isDigit r2))
          else Some (0, r))"

definition scaled :: "jstring \<Rightarrow> jstring \<Rightarrow> int \<Rightarrow> rat" where
  "scaled ds fs e =
     (let m = of_nat (digitsValue (ds @ fs)) / 10 ^ length fs
      in if e \<ge> 0 then m * 10 ^ nat e else m / 10 ^ nat (- e))"

definition readNumber :: "(rat \<Rightarrow> jsnum) \<Rightarrow> jstring \<Rightarrow> (json \<times> jstring) option" where
  "readNumber rnd s =
     (let neg = (s \<noteq> [] \<and> hd s = 45); t = (if neg then tl s else s); ds = takeWhile isDigit t in
      if ds = [] \<or> (hd ds = 48 \<and> length ds > 1) then None
      else case readFraction (dropWhile isDigit t) of
        None \<Rightarrow> None
      | Some (fs, r2) \<Rightarrow>
          (case readExponent r2 of
             None \<Rightarrow> None
           | Some (e, r3) \<Rightarrow> Some (JNum (rnd (if neg then - scaled ds fs e else scaled ds fs e)), r3)))"

text \<open>
  The members of an object: a repeated key keeps its place and takes the last value, and array
  indexes come first, in ascending order.
\<close>

definition isIndexKey :: "jstring \<Rightarrow> bool" where
  "isIndexKey k \<longleftrightarrow> k \<noteq> [] \<and> list_all isDigit k \<and> (hd k = 48 \<longrightarrow> length k = 1) \<and> digitsValue k < 4294967295"

definition propOrder :: "(jstring \<times> 'v) list \<Rightarrow> (jstring \<times> 'v) list" where
  "propOrder ms = sort_key (\<lambda>m. digitsValue (fst m)) (filter (\<lambda>m. isIndexKey (fst m)) ms) @
     filter (\<lambda>m. \<not> isIndexKey (fst m)) ms"

definition makeObject :: "(jstring \<times> json) list \<Rightarrow> json" where
  "makeObject ms = JObj (propOrder (fold (\<lambda>(k, v) acc. objSet k v acc) ms []))"

lemma skipWs_length [termination_simp]: "skipWs s = t \<Longrightarrow> length t \<le> length s"
  unfolding skipWs_def using length_dropWhile_le by blast

definition readLiteral :: "jstring \<Rightarrow> (json \<times> jstring) option" where
  "readLiteral s =
     (if take 4 s = js ''null'' then Some (JNull, drop 4 s)
      else if take 4 s = js ''true'' then Some (JBool True, drop 4 s)
      else if take 5 s = js ''false'' then Some (JBool False, drop 5 s) else None)"

text \<open>
  The recursive descent. What is left after a value is shorter than what was there before, so the
  tests of the lengths never fail; they only let the recursion be seen to end.
\<close>

function (sequential) readValue :: "(rat \<Rightarrow> jsnum) \<Rightarrow> jstring \<Rightarrow> (json \<times> jstring) option"
  and readElements :: "(rat \<Rightarrow> jsnum) \<Rightarrow> jstring \<Rightarrow> (json list \<times> jstring) option"
  and readMembers :: "(rat \<Rightarrow> jsnum) \<Rightarrow> jstring \<Rightarrow> ((jstring \<times> json) list \<times> jstring) option" where
  "readValue rnd s =
     (case skipWs s of
        [] \<Rightarrow> None
      | c # r \<Rightarrow>
          if c = 34 then map_option (\<lambda>(t, r1). (JStr t, r1)) (readString r)
          else if c = 91 then
            (if skipWs r \<noteq> [] \<and> hd (skipWs r) = 93 then Some (JArr [], tl (skipWs r))
             else map_option (\<lambda>(xs, r1). (JArr xs, r1)) (readElements rnd r))
          else if c = 123 then
            (if skipWs r \<noteq> [] \<and> hd (skipWs r) = 125 then Some (JObj [], tl (skipWs r))
             else map_option (\<lambda>(ms, r1). (makeObject ms, r1)) (readMembers rnd r))
          else if readLiteral (c # r) \<noteq> None then readLiteral (c # r)
          else readNumber rnd (c # r))"
| "readElements rnd s =
     (case readValue rnd s of
        None \<Rightarrow> None
      | Some (v, r) \<Rightarrow>
          (case skipWs r of
             [] \<Rightarrow> None
           | c # r1 \<Rightarrow>
               if c = 93 then Some ([v], r1)
               else if c = 44 \<and> length r1 < length s then map_option (\<lambda>(vs, r2). (v # vs, r2)) (readElements rnd r1)
               else None))"
| "readMembers rnd s =
     (case skipWs s of
        [] \<Rightarrow> None
      | q # r \<Rightarrow>
          if q \<noteq> 34 then None
          else case readString r of
            None \<Rightarrow> None
          | Some (k, r1) \<Rightarrow>
              (case skipWs r1 of
                 [] \<Rightarrow> None
               | c # r2 \<Rightarrow>
                   if c \<noteq> 58 \<or> \<not> length r2 < length s then None
                   else case readValue rnd r2 of
                     None \<Rightarrow> None
                   | Some (v, r3) \<Rightarrow>
                       (case skipWs r3 of
                          [] \<Rightarrow> None
                        | d # r4 \<Rightarrow>
                            if d = 125 then Some ([(k, v)], r4)
                            else if d = 44 \<and> length r4 < length s
                            then map_option (\<lambda>(ms, r5). ((k, v) # ms, r5)) (readMembers rnd r4)
                            else None)))"
  by pat_completeness auto
termination
proof (relation "measures [\<lambda>x. (case x of Inl (rnd, s) \<Rightarrow> length s | Inr (Inl (rnd, s)) \<Rightarrow> length s | Inr (Inr (rnd, s)) \<Rightarrow> length s),
    \<lambda>x. (case x of Inl _ \<Rightarrow> 0 | Inr _ \<Rightarrow> 1)]", goal_cases)
qed (auto dest: skipWs_length)

declare readValue.simps [simp del] readElements.simps [simp del] readMembers.simps [simp del]

definition JSON_parse :: "(rat \<Rightarrow> jsnum) \<Rightarrow> jstring \<Rightarrow> json option" where
  "JSON_parse rnd s =
     (case readValue rnd s of
        Some (v, r) \<Rightarrow> if skipWs r = [] then Some v else None
      | None \<Rightarrow> None)"

subsection \<open>\<open>Number(text)\<close>\<close>

definition radixValue :: "nat \<Rightarrow> jstring \<Rightarrow> nat option" where
  "radixValue base ds =
     (if ds \<noteq> [] \<and> list_all (\<lambda>c. case hexValue c of Some d \<Rightarrow> d < base | None \<Rightarrow> False) ds
      then Some (foldl (\<lambda>a c. base * a + nullish (hexValue c) 0) 0 ds) else None)"

definition radixPrefix :: "jstring \<Rightarrow> nat option" where
  "radixPrefix t =
     (if take 2 t = js ''0x'' \<or> take 2 t = js ''0X'' then Some 16
      else if take 2 t = js ''0o'' \<or> take 2 t = js ''0O'' then Some 8
      else if take 2 t = js ''0b'' \<or> take 2 t = js ''0B'' then Some 2 else None)"

definition looseFraction :: "jstring \<Rightarrow> jstring \<times> jstring" where
  "looseFraction r =
     (case r of
        [] \<Rightarrow> ([], [])
      | c # r1 \<Rightarrow> if c = 46 then (takeWhile isDigit r1, dropWhile isDigit r1) else ([], r))"

definition unsignedNumber :: "jstring \<Rightarrow> rat option" where
  "unsignedNumber u =
     (let ds = takeWhile isDigit u; (fs, r) = looseFraction (dropWhile isDigit u)
      in if ds @ fs = [] then None
         else case readExponent r of Some (e, []) \<Rightarrow> Some (scaled ds fs e) | _ \<Rightarrow> None)"

definition toNumber :: "(rat \<Rightarrow> jsnum) \<Rightarrow> jstring \<Rightarrow> jsnum" where
  "toNumber rnd s =
     (let t = trim s in
      if t = [] then Fin 0
      else case radixPrefix t of
        Some base \<Rightarrow> (case radixValue base (drop 2 t) of Some n \<Rightarrow> rnd (of_nat n) | None \<Rightarrow> NaN)
      | None \<Rightarrow>
          (let neg = (hd t = 45); u = (if hd t = 45 \<or> hd t = 43 then tl t else t)
           in if u = js ''Infinity'' then (if neg then NegInf else PosInf)
              else case unsignedNumber u of
                Some q \<Rightarrow> rnd (if neg then - q else q)
              | None \<Rightarrow> NaN))"

lemma toNumber_digits:
  assumes "s \<noteq> []" "list_all isDigit s"
  shows "toNumber rnd s = rnd (of_nat (digitsValue s))"
proof -
  have ws: "\<not> isWhite c" if "isDigit c" for c using that unfolding isDigit_def isWhite_def by linarith
  then have t: "trim s = s" using assms(2) by (intro trim_id trimmed_no_white) (auto simp: list_all_iff)
  have d: "isDigit (hd s)" using assms by (auto simp: list_all_iff)
  have "radixPrefix s = None"
    using assms(2) by (cases s; cases "tl s") (auto simp: radixPrefix_def isDigit_def)
  moreover have tw: "takeWhile isDigit s = s" "dropWhile isDigit s = []"
    using assms(2) by (auto simp: list_all_iff)
  have "unsignedNumber s = Some (of_nat (digitsValue s))"
    unfolding unsignedNumber_def tw using assms(1)
    by (simp add: looseFraction_def readExponent_def scaled_def)
  moreover have "s \<noteq> js ''Infinity''" "hd s \<noteq> 45" "hd s \<noteq> 43" using d by (auto simp: isDigit_def)
  ultimately show ?thesis using assms(1) t by (simp add: toNumber_def Let_def del: js_Cons)
qed

section \<open>Strings and numbers are read back\<close>

lemma hexValue_lowHex [simp]: "n < 16 \<Longrightarrow> hexValue (lowHex n) = Some n"
  by (auto simp: hexValue_def lowHex_def)

lemma hex4_digits:
  assumes "(c::nat) < 65536"
  shows "4096 * (c div 4096 mod 16) + 256 * (c div 256 mod 16) + 16 * (c div 16 mod 16) + c mod 16 = c"
proof -
  have d: "c div 256 = c div 16 div 16" "c div 4096 = c div 16 div 16 div 16"
    by (simp_all add: div_mult2_eq[symmetric])
  have "c div 4096 < 16" using assms by (simp add: less_mult_imp_div_less)
  then have "c div 16 div 16 div 16 mod 16 = c div 16 div 16 div 16" by (simp add: d)
  moreover have "16 * (c div 16) + c mod 16 = c" "16 * (c div 16 div 16) + c div 16 mod 16 = c div 16"
    "16 * (c div 16 div 16 div 16) + c div 16 div 16 mod 16 = c div 16 div 16" by (rule mult_div_mod_eq)+
  ultimately show ?thesis unfolding d by linarith
qed

lemma hex4_uEscape:
  "c < 65536 \<Longrightarrow> uEscape c = [92, 117] @ drop 2 (uEscape c) \<and> hex4 (drop 2 (uEscape c) @ t) = Some (c, t)"
  using hex4_digits[of c] by (simp add: uEscape_def)

lemma readString_u:
  assumes "c < 65536"
  shows "readString (uEscape c @ t) = addUnit c (readString t)"
proof -
  obtain h where "uEscape c = [92, 117] @ h" "hex4 (h @ t) = Some (c, t)" using hex4_uEscape[OF assms] by blast
  then show ?thesis by simp
qed

lemma readString_unit: "readString (quoteUnit c @ t) = addUnit c (readString t)"
proof (cases "c < 32 \<or> isSurrogate c \<or> c = 34 \<or> c = 92")
  case True
  then have "c < 65536" by (auto simp: isSurrogate_def surrogate_defs)
  with True show ?thesis using readString_u by (auto simp: quoteUnit_def simpleEscape_def)
qed (auto simp: quoteUnit_def)

lemma readString_plain: "isSurrogate c \<Longrightarrow> readString (c # t) = addUnit c (readString t)"
  by (auto simp: isSurrogate_def surrogate_defs)

lemma readString_quoted: "readString (quoteBody s @ 34 # r) = Some (s, r)"
proof (induction s rule: quoteBody.induct)
  case (3 c d s)
  then show ?case
    by (cases "isHighSurrogate c \<and> isLowSurrogate d")
      (auto simp: readString_unit readString_plain isSurrogate_def addUnit_def simp del: readString.simps(2))
next
  case (2 c)
  have "readString (quoteUnit c @ 34 # r) = addUnit c (readString (34 # r))" by (rule readString_unit)
  then show ?case by (simp add: addUnit_def)
qed simp

definition ends_value :: "jstring \<Rightarrow> bool" where
  "ends_value r \<longleftrightarrow> r = [] \<or> (\<not> isDigit (hd r) \<and> hd r \<noteq> 46 \<and> hd r \<noteq> 101 \<and> hd r \<noteq> 69)"

lemma natString_leading: "hd (natString n) = 48 \<longleftrightarrow> n = 0"
proof (induction n rule: natString.induct)
  case (1 n)
  then show ?case by (cases "n < 10") (simp_all add: natString.simps[of n])
qed

lemma natString_zero: "natString 0 = [48]"
  by (simp add: natString.simps)

lemma takeWhile_digits:
  assumes "ends_value r"
  shows "takeWhile isDigit (natString n @ r) = natString n" "dropWhile isDigit (natString n @ r) = r"
  using assms natString_digits by (cases r; auto simp: ends_value_def takeWhile_append takeWhile_eq_all_conv)+

lemma readRest:
  assumes "ends_value r"
  shows "readFraction r = Some ([], r)" "readExponent r = Some (0, r)"
  using assms by (auto simp: ends_value_def readFraction_def readExponent_def split: list.splits)

lemma readNumber_int:
  assumes "ends_value r"
  shows "readNumber rnd (intString i @ r) = Some (JNum (rnd (of_int i)), r)"
proof -
  have lead: "\<not> (hd (natString n) = 48 \<and> length (natString n) > 1)" for n
    using natString_leading[of n] by (cases "n = 0") (auto simp: natString_zero)
  have "hd (natString n @ r) \<noteq> 45" for n
    using natString_digits[of "hd (natString n)" n] by (auto simp: isDigit_def)
  then show ?thesis
    using lead by (auto simp: readNumber_def intString_def Let_def takeWhile_digits[OF assms] readRest[OF assms] scaled_def)
qed

section \<open>The round trip\<close>

text \<open>
  A value as the language has it: numbers are integers that doubles represent and that are
  written by their digits, the members of objects are in property order.
\<close>

definition wfNumber :: "(rat \<Rightarrow> jsnum) \<Rightarrow> (jsnum \<Rightarrow> jstring) \<Rightarrow> jsnum \<Rightarrow> bool" where
  "wfNumber rnd other x \<longleftrightarrow> (case x of
     Fin q \<Rightarrow> isInteger x \<and> rnd q = x \<and> numberJson other x = intString \<lfloor>q\<rfloor> | _ \<Rightarrow> False)"

fun wfJson :: "(rat \<Rightarrow> jsnum) \<Rightarrow> (jsnum \<Rightarrow> jstring) \<Rightarrow> json \<Rightarrow> bool" where
  "wfJson rnd other (JNum x) = wfNumber rnd other x"
| "wfJson rnd other (JArr xs) = list_all (wfJson rnd other) xs"
| "wfJson rnd other (JObj ms) = (distinct (map fst ms) \<and> propOrder ms = ms \<and>
     list_all (\<lambda>m. wfJson rnd other (snd m)) ms)"
| "wfJson rnd other j = True"

lemma wfNumber_small:
  assumes "\<bar>i\<bar> < 10 ^ 21" "rnd (of_int i) = num i"
  shows "wfNumber rnd other (num i)"
proof -
  have "(of_int \<bar>i\<bar> :: rat) < of_int (10 ^ 21)" using assms(1) by (simp only: of_int_less_iff)
  with assms(2) show ?thesis by (simp add: wfNumber_def num_def numberJson_def)
qed

definition isGap :: "jstring \<Rightarrow> bool" where
  "isGap gap \<longleftrightarrow> list_all (\<lambda>c. c = 9 \<or> c = 10 \<or> c = 13 \<or> c = 32) gap"

lemma skipWs_simps [simp]:
  "skipWs [] = []" "skipWs (10 # s) = skipWs s" "skipWs (32 # s) = skipWs s"
  "c \<noteq> 9 \<Longrightarrow> c \<noteq> 10 \<Longrightarrow> c \<noteq> 13 \<Longrightarrow> c \<noteq> 32 \<Longrightarrow> skipWs (c # s) = c # s"
  by (simp_all add: skipWs_def)

lemma skipWs_gap: "isGap g \<Longrightarrow> skipWs (g @ s) = skipWs s"
  by (induction g) (auto simp: isGap_def skipWs_def)

lemma skipWs_lineBreak [simp]: "isGap gap \<Longrightarrow> skipWs (lineBreak gap n @ s) = skipWs s"
  using skipWs_gap[of "concat (replicate n gap)" s] by (auto simp: lineBreak_def isGap_def list_all_iff)

lemma skipWs_idem [simp]: "skipWs (skipWs s) = skipWs s"
  by (simp add: skipWs_def)

lemma readValue_skip: "skipWs s = skipWs t \<Longrightarrow> readValue rnd s = readValue rnd t"
  by (simp add: readValue.simps[of rnd s] readValue.simps[of rnd t])

lemma fold_objSet_distinct: "distinct (map fst (acc @ ms)) \<Longrightarrow> fold (\<lambda>(k, v) a. objSet k v a) ms acc = acc @ ms"
proof (induction ms arbitrary: acc)
  case (Cons m ms)
  then have "objSet (fst m) (snd m) acc = acc @ [m]" by (auto simp: objSet_def)
  then show ?case using Cons by (simp add: case_prod_beta)
qed simp

lemma makeObject_wf: "wfJson rnd other (JObj ms) \<Longrightarrow> makeObject ms = JObj ms"
  using fold_objSet_distinct[of "[]" ms] by (simp add: makeObject_def)

lemma intString_head: "hd (intString i) = 45 \<or> isDigit (hd (intString i))" "intString i \<noteq> []"
  using natString_digits[of "hd (natString (nat i))" "nat i"] by (auto simp: intString_def)

lemma stringifyAt_head:
  assumes "wfJson rnd other j"
  shows "\<exists>c t. stringifyAt other gap n j = c # t \<and> c \<notin> {9, 10, 13, 32, 93, 125}"
proof (cases j)
  case (JNum x)
  then have "\<exists>i. stringifyAt other gap n j = intString i" using assms by (auto simp: wfNumber_def split: jsnum.splits)
  then obtain i where "stringifyAt other gap n j = intString i" ..
  then show ?thesis using intString_head[of i] by (cases "intString i") (auto simp: isDigit_def)
qed (auto simp: quoteJson_def enclose_def)

lemma skipWs_value:
  assumes "wfJson rnd other j"
  shows "skipWs (stringifyAt other gap n j @ r) = stringifyAt other gap n j @ r"
  using stringifyAt_head[OF assms, of gap n] by auto

lemma readElements_joined:
  assumes "isGap gap" "xs \<noteq> []" "\<And>x r. x \<in> set xs \<Longrightarrow> ends_value r \<Longrightarrow> readValue rnd (f x @ r) = Some (x, r)"
  shows "readElements rnd (lineBreak gap m @ join ([44] @ lineBreak gap m) (map f xs) @ lineBreak gap n @ 93 # r) = Some (xs, r)"
  using assms(2,3)
proof (induction xs)
  case (Cons x xs)
  have end93: "ends_value (lineBreak gap n @ 93 # r)" by (auto simp: ends_value_def lineBreak_def isDigit_def)
  show ?case
  proof (cases xs)
    case Nil
    have "readValue rnd (lineBreak gap m @ f x @ lineBreak gap n @ 93 # r) = Some (x, lineBreak gap n @ 93 # r)"
      using Cons.prems(2)[of x, OF _ end93] readValue_skip[of "lineBreak gap m @ f x @ lineBreak gap n @ 93 # r"
          "f x @ lineBreak gap n @ 93 # r"] assms(1) by simp
    with Nil assms(1) show ?thesis by (simp add: readElements.simps)
  next
    case (Cons y ys)
    define rest where "rest = lineBreak gap m @ join ([44] @ lineBreak gap m) (map f xs) @ lineBreak gap n @ 93 # r"
    have "readElements rnd rest = Some (xs, r)" unfolding rest_def using Cons Cons.IH Cons.prems by simp
    moreover have "readValue rnd (lineBreak gap m @ f x @ 44 # rest) = Some (x, 44 # rest)"
      using Cons.prems(2)[of x "44 # rest"] readValue_skip[of "lineBreak gap m @ f x @ 44 # rest" "f x @ 44 # rest"]
        assms(1) by (simp add: ends_value_def isDigit_def)
    ultimately show ?thesis using Cons by (simp add: readElements.simps[of rnd "lineBreak gap m @ _"] rest_def)
  qed
qed simp

definition memberJson :: "jstring \<Rightarrow> (json \<Rightarrow> jstring) \<Rightarrow> jstring \<times> json \<Rightarrow> jstring" where
  "memberJson gap f kv = keyJson gap (fst kv) @ f (snd kv)"

text \<open>One member: what \<open>readMembers\<close> does after its key and value have been read.\<close>

lemma readMembers_step:
  assumes "isGap g" "isGap gap"
    and "\<And>r. ends_value r \<Longrightarrow> readValue rnd (f (snd kv) @ r) = Some (snd kv, r)" "ends_value r"
  shows "readMembers rnd (g @ memberJson gap f kv @ r) =
    (case skipWs r of
       [] \<Rightarrow> None
     | d # r4 \<Rightarrow> if d = 125 then Some ([kv], r4)
         else if d = 44 \<and> length r4 < length (g @ memberJson gap f kv @ r)
         then map_option (\<lambda>(ms, r5). (kv # ms, r5)) (readMembers rnd r4) else None)"
proof -
  define sp where "sp = (if gap = [] then [] else [32::nat])"
  have m: "memberJson gap f kv @ r = 34 # quoteBody (fst kv) @ 34 # 58 # sp @ f (snd kv) @ r"
    by (simp add: memberJson_def keyJson_def quoteJson_def sp_def)
  have "skipWs (g @ memberJson gap f kv @ r) = 34 # quoteBody (fst kv) @ 34 # 58 # sp @ f (snd kv) @ r"
    using skipWs_gap[OF assms(1), of "memberJson gap f kv @ r"] unfolding m by simp
  moreover have "readString (quoteBody (fst kv) @ 34 # 58 # sp @ f (snd kv) @ r) = Some (fst kv, 58 # sp @ f (snd kv) @ r)"
    by (rule readString_quoted)
  moreover have "readValue rnd (sp @ f (snd kv) @ r) = Some (snd kv, r)"
    using readValue_skip[of "sp @ f (snd kv) @ r" "f (snd kv) @ r"] assms(3)[OF assms(4)] by (simp add: sp_def)
  ultimately show ?thesis
    by (simp add: readMembers.simps[of rnd "g @ _"] m split: list.splits)
qed

lemma ends_value_lineBreak: "c \<in> {44, 93, 125} \<Longrightarrow> ends_value (lineBreak gap n @ c # r)"
  by (auto simp: ends_value_def lineBreak_def isDigit_def)

lemma isGap_lineBreak: "isGap gap \<Longrightarrow> isGap (lineBreak gap n)"
  by (auto simp: isGap_def lineBreak_def list_all_iff)

lemma readMembers_joined:
  assumes "isGap gap" "ms \<noteq> []"
    and "\<And>kv r. kv \<in> set ms \<Longrightarrow> ends_value r \<Longrightarrow> readValue rnd (f (snd kv) @ r) = Some (snd kv, r)"
  shows "readMembers rnd (lineBreak gap m @ join ([44] @ lineBreak gap m) (map (memberJson gap f) ms) @
    lineBreak gap n @ 125 # r) = Some (ms, r)"
  using assms(2,3)
proof (induction ms)
  case (Cons kv ms)
  have step: "ends_value r \<Longrightarrow> readMembers rnd (lineBreak gap m @ memberJson gap f kv @ r) =
    (case skipWs r of
       [] \<Rightarrow> None
     | d # r4 \<Rightarrow> if d = 125 then Some ([kv], r4)
         else if d = 44 \<and> length r4 < length (lineBreak gap m @ memberJson gap f kv @ r)
         then map_option (\<lambda>(ms, r5). (kv # ms, r5)) (readMembers rnd r4) else None)" for r
    using Cons.prems by (intro readMembers_step isGap_lineBreak assms(1)) auto
  show ?case
  proof (cases ms)
    case Nil
    then show ?thesis using step[of "lineBreak gap n @ 125 # r"] assms(1) by (simp add: ends_value_lineBreak)
  next
    case (Cons y ys)
    define rest where "rest = lineBreak gap m @ join ([44] @ lineBreak gap m) (map (memberJson gap f) ms) @ lineBreak gap n @ 125 # r"
    have "readMembers rnd rest = Some (ms, r)" unfolding rest_def using Cons Cons.IH Cons.prems by simp
    then have "readMembers rnd (lineBreak gap m @ memberJson gap f kv @ 44 # rest) = Some (kv # ms, r)"
      using step[of "44 # rest"] ends_value_lineBreak[of 44 "[]" 0 rest] by (simp add: lineBreak_def[of "[]"])
    then show ?thesis using Cons by (simp add: rest_def)
  qed
qed simp

lemma readValue_enclosed:
  assumes "isGap gap" "parts \<noteq> []"
  shows "readElements rnd (lineBreak gap (Suc n) @ join ([44] @ lineBreak gap (Suc n)) parts @ lineBreak gap n @ 93 # r) = Some (xs, r)
      \<Longrightarrow> (\<exists>c t. hd parts = c # t \<and> c \<notin> {9, 10, 13, 32, 93}) \<Longrightarrow>
      readValue rnd (enclose 91 93 gap n parts @ r) = Some (JArr xs, r)"
    and "readMembers rnd (lineBreak gap (Suc n) @ join ([44] @ lineBreak gap (Suc n)) parts @ lineBreak gap n @ 125 # r) = Some (ms, r)
      \<Longrightarrow> (\<exists>t. hd parts = 34 # t) \<Longrightarrow>
      readValue rnd (enclose 123 125 gap n parts @ r) = Some (makeObject ms, r)"
  using assms by (cases parts; cases "tl parts"; auto simp: enclose_def readValue.simps[of rnd "_ # _"])+

lemma readValue_int:
  assumes "ends_value r"
  shows "readValue rnd (intString i @ r) = Some (JNum (rnd (of_int i)), r)"
proof -
  obtain c t where c: "intString i @ r = c # t" "c = 45 \<or> isDigit c"
    using intString_head[of i] by (cases "intString i") auto
  then have "readLiteral (c # t) = None" by (auto simp: readLiteral_def isDigit_def)
  then show ?thesis
    using c readNumber_int[OF assms, of rnd i] by (auto simp: readValue.simps[of rnd "_ # _"] isDigit_def)
qed

lemma readValue_stringifyAt:
  assumes "isGap gap" "wfJson rnd other j" "ends_value r"
  shows "readValue rnd (stringifyAt other gap n j @ r) = Some (j, r)"
  using assms
proof (induction other gap n j arbitrary: r rule: stringifyAt.induct)
  case (3 other gap n x)
  then obtain q where q: "x = Fin q" "isInteger x" "rnd q = x" "numberJson other x = intString \<lfloor>q\<rfloor>"
    by (auto simp: wfNumber_def split: jsnum.splits)
  then have "rnd (of_int \<lfloor>q\<rfloor>) = x" by (auto simp: quotient_of_int_iff elim: Ints_cases)
  with q 3 show ?case by (simp add: readValue_int)
next
  case (5 other gap n xs)
  show ?case
  proof (cases "xs = []")
    case False
    have "readElements rnd (lineBreak gap (Suc n) @ join ([44] @ lineBreak gap (Suc n))
        (map (stringifyAt other gap (Suc n)) xs) @ lineBreak gap n @ 93 # r) = Some (xs, r)"
      using 5 False by (intro readElements_joined) (auto simp: list_all_iff)
    moreover have "\<exists>c t. hd (map (stringifyAt other gap (Suc n)) xs) = c # t \<and> c \<notin> {9, 10, 13, 32, 93}"
      using stringifyAt_head[of rnd other "hd xs" gap "Suc n"] 5 False by (cases xs) auto
    ultimately show ?thesis using 5(2) False by (simp add: readValue_enclosed)
  qed (simp add: enclose_def readValue.simps[of rnd "_ # _"])
next
  case (6 other gap n ms)
  show ?case
  proof (cases "ms = []")
    case False
    let ?f = "stringifyAt other gap (Suc n)"
    have parts: "map (\<lambda>kv. keyJson gap (fst kv) @ ?f (snd kv)) ms = map (memberJson gap ?f) ms"
      by (simp add: memberJson_def)
    have "readMembers rnd (lineBreak gap (Suc n) @ join ([44] @ lineBreak gap (Suc n)) (map (memberJson gap ?f) ms) @
        lineBreak gap n @ 125 # r) = Some (ms, r)"
      using 6 False by (intro readMembers_joined) (auto simp: list_all_iff)
    moreover have "\<exists>t. hd (map (memberJson gap ?f) ms) = 34 # t"
      using False by (cases ms) (auto simp: memberJson_def keyJson_def quoteJson_def)
    ultimately show ?thesis
      using 6(2) False makeObject_wf[OF 6(3)] by (simp add: readValue_enclosed parts del: wfJson.simps)
  qed (simp add: enclose_def readValue.simps[of rnd "_ # _"])
qed (auto simp: readValue.simps[of rnd "_ # _"] readLiteral_def quoteJson_def readString_quoted)

text \<open>
  \<open>JSON.parse\<close> inverts \<open>JSON.stringify\<close>, compact or indented.
\<close>

theorem json_roundtrip:
  assumes "isGap gap" "wfJson rnd other j"
  shows "JSON_parse rnd (JSON_stringify other gap j) = Some j"
  using readValue_stringifyAt[OF assms, of "[]" 0] by (simp add: JSON_parse_def JSON_stringify_def ends_value_def)

section \<open>Objects of a record\<close>

text \<open>The members that are present; \<open>JSON.stringify\<close> leaves out those that are \<open>undefined\<close>.\<close>

definition presentMembers :: "(jstring \<times> json option) list \<Rightarrow> (jstring \<times> json) list" where
  "presentMembers ms = concat (map (\<lambda>(k, v). case v of None \<Rightarrow> [] | Some x \<Rightarrow> [(k, x)]) ms)"

lemma presentMembers_simps [simp]:
  "presentMembers [] = []" "presentMembers ((k, None) # ms) = presentMembers ms"
  "presentMembers ((k, Some x) # ms) = (k, x) # presentMembers ms"
  by (simp_all add: presentMembers_def)

lemma presentMembers_set: "(k, x) \<in> set (presentMembers ms) \<longleftrightarrow> (k, Some x) \<in> set ms"
  by (auto simp: presentMembers_def split: option.splits)

lemma presentMembers_key: "m \<in> set (presentMembers ms) \<Longrightarrow> (fst m, Some (snd m)) \<in> set ms"
  by (cases m) (simp add: presentMembers_set)

lemma presentMembers_keys: "fst ` set (presentMembers ms) \<subseteq> fst ` set ms"
  using presentMembers_key by (metis fst_conv image_eqI image_subsetI)

lemma presentMembers_distinct: "distinct (map fst ms) \<Longrightarrow> distinct (map fst (presentMembers ms))"
proof (induction ms)
  case (Cons m ms)
  then have "fst m \<notin> fst ` set (presentMembers ms)" using presentMembers_keys[of ms] by auto
  with Cons show ?case by (cases m; cases "snd m") auto
qed simp

lemma presentMembers_lookup:
  assumes "distinct (map fst ms)" "(k, v) \<in> set ms"
  shows "map_of (presentMembers ms) k = v"
proof (cases v)
  case None
  have "(k, Some x) \<notin> set ms" for x using assms None by (metis Some_eq_map_of_iff option.distinct(1) option.inject)
  then have "k \<notin> fst ` set (presentMembers ms)" using presentMembers_key by fastforce
  with None show ?thesis by (simp add: map_of_eq_None_iff)
next
  case (Some x)
  then have "(k, x) \<in> set (presentMembers ms)" using assms(2) by (simp add: presentMembers_set)
  with Some show ?thesis using map_of_is_SomeI[OF presentMembers_distinct[OF assms(1)]] by blast
qed

lemma propOrder_no_index: "list_all (\<lambda>m. \<not> isIndexKey (fst m)) ms \<Longrightarrow> propOrder ms = ms"
  by (auto simp: propOrder_def filter_empty_conv list_all_iff filter_id_conv)

lemma not_index_key: "k = [] \<or> \<not> isDigit (hd k) \<Longrightarrow> \<not> isIndexKey k"
  by (cases k) (auto simp: isIndexKey_def)

lemma wf_presentMembers:
  assumes "distinct (map fst ms)" "list_all (\<lambda>m. \<not> isDigit (hd (fst m)) \<and> fst m \<noteq> []) ms"
    and "list_all (\<lambda>m. pred_option (wfJson rnd other) (snd m)) ms"
  shows "wfJson rnd other (JObj (presentMembers ms))"
proof -
  have "propOrder (presentMembers ms) = presentMembers ms"
    using assms(2) by (intro propOrder_no_index) (auto simp: list_all_iff dest!: presentMembers_key intro!: not_index_key)
  moreover have "list_all (\<lambda>m. wfJson rnd other (snd m)) (presentMembers ms)"
    using assms(3) by (auto simp: list_all_iff dest!: presentMembers_key)
  ultimately show ?thesis by (simp add: presentMembers_distinct[OF assms(1)])
qed

end
