(* ===== verification/WebSession.thy ===== *)
theory WebSession
  imports JsonText
begin

text \<open>
  The session of the web application: \<open>wallet-app/src/api/walletApi.ts\<close> and the paths of
  \<open>chainApiContract.ts\<close>, \<open>auth/AuthContext.tsx\<close>, \<open>auth/useAuth.ts\<close>, \<open>auth/RequireAuth.tsx\<close>.
  \<open>sessionStorage\<close> is the text stored under the one key the code uses; \<open>JSON.parse\<close> and
  \<open>JSON.stringify\<close> are parameters, with their round trip on the stored objects as the
  hypothesis \<open>json_codec\<close>; times are milliseconds.
\<close>

section \<open>The API of the wallet\<close>

definition pathHealth :: jstring where "pathHealth = js ''/v1/health''"
definition pathIndexerEvents :: jstring where "pathIndexerEvents = js ''/v1/indexer/events''"
definition pathIndexerState :: jstring where "pathIndexerState = js ''/v1/indexer/state''"
definition pathChallenge :: jstring where "pathChallenge = js ''/v1/auth/signature/challenge''"
definition pathConfirm :: jstring where "pathConfirm = js ''/v1/auth/signature/confirm''"
definition pathNotifications :: jstring where "pathNotifications = js ''/v1/notifications''"
definition pathStream :: jstring where "pathStream = js ''/v1/notifications/stream''"

type_synonym ('u, 'r, 'w) api_call = "('u, 'r, 'w) web \<Rightarrow> client_config \<Rightarrow> 'w \<Rightarrow> request_result \<times> 'w req_state"

definition getHealth :: "('u, 'r, 'w) api_call" where
  "getHealth web cfg w = api_get web cfg pathHealth noOptions w"

definition getIndexerState :: "('u, 'r, 'w) api_call" where
  "getIndexerState web cfg w = api_get web cfg pathIndexerState noOptions w"

record IndexerEventsRequestOptions =
  evRetryCount :: "rat option"
  evRetryBackoffMs :: "rat option"
  evTrace :: "RequestTraceContext option"
  evObserved :: bool

definition eventRequest :: "(jstring \<times> query_value option) list \<Rightarrow> IndexerEventsRequestOptions \<Rightarrow> RequestOptions" where
  "eventRequest query opts = noOptions\<lparr>optQuery := query, optRetryCount := evRetryCount opts,
     optRetryBackoffMs := evRetryBackoffMs opts, optTrace := evTrace opts, optObserved := evObserved opts\<rparr>"

definition getIndexerEvents ::
  "(jstring \<times> query_value option) list \<Rightarrow> IndexerEventsRequestOptions \<Rightarrow> ('u, 'r, 'w) api_call" where
  "getIndexerEvents query opts web cfg w = api_get web cfg pathIndexerEvents (eventRequest query opts) w"

definition getIndexerEventById :: "jstring \<Rightarrow> IndexerEventsRequestOptions \<Rightarrow> ('u, 'r, 'w) api_call" where
  "getIndexerEventById i opts web cfg w =
     (case encodeURIComponent i of
        None \<Rightarrow> (Inl (ExError (js ''URI malformed'')), \<lparr>world = w, fetches = 0, pauses = [], events = []\<rparr>)
      | Some t \<Rightarrow> api_get web cfg (pathIndexerEvents @ js ''/'' @ t) (eventRequest [] opts) w)"

definition getNotifications :: "(jstring \<times> query_value option) list \<Rightarrow> ('u, 'r, 'w) api_call" where
  "getNotifications query web cfg w = api_get web cfg pathNotifications (noOptions\<lparr>optQuery := query\<rparr>) w"

text \<open>\<open>newUrlOn path base\<close> is \<open>new URL(path, base)\<close>.\<close>

definition getNotificationsStreamUrl ::
  "(jstring \<Rightarrow> jstring \<Rightarrow> (exn, 'u) result) \<Rightarrow> ('u, 'r, 'w) web \<Rightarrow> app_env \<Rightarrow> jsnum option \<Rightarrow> (exn, jstring) result" where
  "getNotificationsStreamUrl newUrlOn web env initialLimit =
     ebind (newUrlOn pathStream (apiBaseUrl env)) (\<lambda>url.
       let url1 = (case initialLimit of
                     Some l \<Rightarrow> if isFinite l \<and> num_less (num 0) l
                               then setSearchParam web (js ''initialLimit'') (numberText web l) url else url
                   | None \<Rightarrow> url);
           url2 = (if notificationStreamToken env \<noteq> []
                   then setSearchParam web (js ''token'') (notificationStreamToken env) url1 else url1)
       in Inr (urlString web url2))"

definition createSignatureChallenge :: "jstring \<Rightarrow> ('u, 'r, 'w) api_call" where
  "createSignatureChallenge account web cfg w =
     api_request web cfg pathChallenge
       (noOptions\<lparr>optMethod := Some POST, optBody := Some (JObj [(js ''accountId'', JStr account)])\<rparr>) w"

text \<open>
  The request id is the member of an unchecked response, so it can be any value, and an
  absent one is left out of the body, as \<open>JSON.stringify\<close> does.
\<close>

record confirm_input =
  confirmAccount :: jstring
  confirmRequestId :: "json option"
  confirmSignature :: jstring

definition confirmSignatureAuthorization :: "confirm_input \<Rightarrow> ('u, 'r, 'w) api_call" where
  "confirmSignatureAuthorization i web cfg w =
     api_request web cfg pathConfirm
       (noOptions\<lparr>optMethod := Some POST, optBody := Some (JObj
         ([(js ''accountId'', JStr (confirmAccount i))] @
          (case confirmRequestId i of Some r \<Rightarrow> [(js ''requestId'', r)] | None \<Rightarrow> []) @
          [(js ''signature'', JStr (confirmSignature i))]))\<rparr>) w"

text \<open>What pages use of the language: string conversion and two messages of built-in errors.\<close>

record lang =
  templateText :: "json option \<Rightarrow> jstring"
  nullReadMessage :: jstring
  abortMessage :: jstring

section \<open>The session\<close>

fun truthy :: "json option \<Rightarrow> bool" where
  "truthy None = False"
| "truthy (Some JNull) = False"
| "truthy (Some (JBool b)) = b"
| "truthy (Some (JNum x)) = (x \<noteq> NaN \<and> x \<noteq> Fin 0)"
| "truthy (Some (JStr t)) = (t \<noteq> [])"
| "truthy (Some j) = True"

text \<open>The number a value stands for in a comparison; \<open>coerce\<close> is the conversion of the language.\<close>

fun toNum :: "(json \<Rightarrow> jsnum) \<Rightarrow> json option \<Rightarrow> jsnum" where
  "toNum coerce None = NaN"
| "toNum coerce (Some (JNum x)) = x"
| "toNum coerce (Some j) = coerce j"

definition num_le :: "jsnum \<Rightarrow> jsnum \<Rightarrow> bool" where
  "num_le x y \<longleftrightarrow> x \<noteq> NaN \<and> y \<noteq> NaN \<and> \<not> num_less y x"

record json_host =
  jsonParse :: "jstring \<Rightarrow> (exn, json) result"
  jsonStringify :: "json \<Rightarrow> jstring"
  jsonCoerce :: "json \<Rightarrow> jsnum"

definition DEFAULT_SESSION_TTL_MS :: int where
  "DEFAULT_SESSION_TTL_MS = 30 * 60 * 1000"

record auth =
  storage :: "jstring option"
  session :: "json option"
  invalidReason :: jstring

definition expiresOf :: "json_host \<Rightarrow> json \<Rightarrow> jsnum" where
  "expiresOf h j = toNum (jsonCoerce h) (member (Some j) (js ''expiresAt''))"

definition session_valid :: "json_host \<Rightarrow> int \<Rightarrow> json \<Rightarrow> bool" where
  "session_valid h t j \<longleftrightarrow> truthy (member (Some j) (js ''accountId'')) \<and> truthy (member (Some j) (js ''expiresAt'')) \<and>
     \<not> num_le (expiresOf h j) (num t)"

text \<open>
  \<open>parseStoredSession\<close> at time \<open>t\<close>, with the storage it leaves behind. Reading a member of
  \<open>null\<close> throws, which the \<open>catch\<close> treats like an invalid session.
\<close>

definition parseStoredSession :: "json_host \<Rightarrow> int \<Rightarrow> jstring option \<Rightarrow> json option \<times> jstring option" where
  "parseStoredSession h t stored =
     (case stored of
        None \<Rightarrow> (None, stored)
      | Some raw \<Rightarrow>
          if raw = [] then (None, stored)
          else (case jsonParse h raw of
                  Inl _ \<Rightarrow> (None, None)
                | Inr parsed \<Rightarrow> if \<not> session_valid h t parsed then (None, None) else (Some parsed, stored)))"

definition initAuth :: "json_host \<Rightarrow> int \<Rightarrow> jstring option \<Rightarrow> auth" where
  "initAuth h t stored =
     (case parseStoredSession h t stored of (s, st) \<Rightarrow> \<lparr>storage = st, session = s, invalidReason = []\<rparr>)"

definition EXPIRED_TEXT :: jstring where
  "EXPIRED_TEXT = [20250, 35805, 24050, 36807, 26399, 65292, 35831, 37325, 26032, 30331, 24405, 12290]"

definition tick :: "json_host \<Rightarrow> int \<Rightarrow> auth \<Rightarrow> auth" where
  "tick h t a =
     (case session a of
        None \<Rightarrow> a
      | Some previous \<Rightarrow>
          if num_less (num t) (expiresOf h previous) then a
          else a\<lparr>storage := None, invalidReason := EXPIRED_TEXT, session := None\<rparr>)"

definition sessionObject :: "jstring \<Rightarrow> int \<Rightarrow> json" where
  "sessionObject account expires = JObj [(js ''accountId'', JStr account), (js ''expiresAt'', JNum (num expires))]"

definition signIn :: "json_host \<Rightarrow> int \<Rightarrow> jstring \<Rightarrow> auth \<Rightarrow> auth" where
  "signIn h t account a =
     (let nextSession = sessionObject (trim account) (t + DEFAULT_SESSION_TTL_MS)
      in a\<lparr>storage := Some (jsonStringify h nextSession), session := Some nextSession, invalidReason := []\<rparr>)"

definition signOut :: "jstring option \<Rightarrow> auth \<Rightarrow> auth" where
  "signOut reason a = a\<lparr>storage := None, session := None, invalidReason := nullish reason []\<rparr>"

definition clearInvalidReason :: "auth \<Rightarrow> auth" where
  "clearInvalidReason a = a\<lparr>invalidReason := []\<rparr>"

definition isAuthenticated :: "auth \<Rightarrow> bool" where
  "isAuthenticated a = (session a \<noteq> None)"

definition useAuth :: "auth option \<Rightarrow> (exn, auth) result" where
  "useAuth context =
     (case context of None \<Rightarrow> Inl (ExError (js ''useAuth must be used within AuthProvider'')) | Some a \<Rightarrow> Inr a)"

datatype guarded = Outlet | NavigateLogin jstring "jstring option"

definition RequireAuth :: "auth \<Rightarrow> jstring \<Rightarrow> jstring \<Rightarrow> guarded" where
  "RequireAuth a pathname search =
     (if \<not> isAuthenticated a
      then NavigateLogin (pathname @ search) (if invalidReason a \<noteq> [] then Some (invalidReason a) else None)
      else Outlet)"

text \<open>What the provider can go through: operations at the times of a clock, and reloads of the page.\<close>

datatype auth_op = Tick int | SignIn int jstring | SignOut "jstring option" | ClearReason | Reload int

fun auth_do :: "json_host \<Rightarrow> auth_op \<Rightarrow> auth \<Rightarrow> auth" where
  "auth_do h (Tick t) a = tick h t a"
| "auth_do h (SignIn t acc) a = signIn h t acc a"
| "auth_do h (SignOut r) a = signOut r a"
| "auth_do h ClearReason a = clearInvalidReason a"
| "auth_do h (Reload t) a = initAuth h t (storage a)"

definition json_codec :: "json_host \<Rightarrow> bool" where
  "json_codec h \<longleftrightarrow> (\<forall>acc t. jsonParse h (jsonStringify h (sessionObject acc t)) = Inr (sessionObject acc t) \<and>
     jsonStringify h (sessionObject acc t) \<noteq> [])"

text \<open>The session in memory and the stored text always agree.\<close>

definition auth_wf :: "json_host \<Rightarrow> auth \<Rightarrow> bool" where
  "auth_wf h a \<longleftrightarrow>
     (case session a of
        None \<Rightarrow> storage a = None \<or> storage a = Some []
      | Some j \<Rightarrow> \<exists>raw. storage a = Some raw \<and> raw \<noteq> [] \<and> jsonParse h raw = Inr j)"

lemma auth_wf_init: "auth_wf h (initAuth h t stored)"
  by (auto simp: auth_wf_def initAuth_def parseStoredSession_def split: option.splits sum.splits)

lemma auth_wf_do: "json_codec h \<Longrightarrow> auth_wf h a \<Longrightarrow> auth_wf h (auth_do h op a)"
  by (cases op)
     (auto simp: auth_wf_init, auto simp: auth_wf_def tick_def signIn_def signOut_def clearInvalidReason_def
        json_codec_def Let_def split: option.splits)

lemma auth_wf_run: "json_codec h \<Longrightarrow> auth_wf h (fold (auth_do h) ops (initAuth h t stored))"
proof (induction ops rule: rev_induct)
  case (snoc op ops)
  then show ?case by (simp add: auth_wf_do)
qed (simp add: auth_wf_init)

lemma reload_session:
  assumes "auth_wf h a"
  shows "session (initAuth h t (storage a)) =
    (case session a of None \<Rightarrow> None | Some j \<Rightarrow> if session_valid h t j then Some j else None)"
  using assms by (auto simp: auth_wf_def initAuth_def parseStoredSession_def split: option.splits)

text \<open>
  reloading the page is safe: after any sequence of operations, a reload at time \<open>t\<close> restores
  exactly the session in memory if it is valid at \<open>t\<close>, and none otherwise. In particular a
  session that was ended (by sign-out, by expiry or by an earlier reload) never comes back.
\<close>

theorem reload_restores_exactly_the_session:
  assumes "json_codec h"
  shows "let a = fold (auth_do h) ops (initAuth h t0 stored)
    in session (auth_do h (Reload t) a) =
      (case session a of None \<Rightarrow> None | Some j \<Rightarrow> if session_valid h t j then Some j else None)"
  using reload_session[OF auth_wf_run[OF assms]] by (simp add: Let_def)

text \<open>JSON itself is such a codec when doubles are exact, as the instance for the witnesses assumes.\<close>

definition exactDigits :: "jsnum \<Rightarrow> jstring" where
  "exactDigits x = (case x of Fin q \<Rightarrow> intString \<lfloor>q\<rfloor> | _ \<Rightarrow> [])"

definition demo_host :: json_host where
  "demo_host =
     \<lparr>jsonParse = (\<lambda>s. case JSON_parse Fin s of None \<Rightarrow> Inl (ExError (js ''syntax'')) | Some j \<Rightarrow> Inr j),
      jsonStringify = JSON_stringify exactDigits [], jsonCoerce = (\<lambda>_. NaN)\<rparr>"

lemma sessionObject_wf: "wfJson Fin exactDigits (sessionObject acc t)"
proof -
  have "wfNumber Fin exactDigits (num t)" by (simp add: wfNumber_def num_def numberJson_def exactDigits_def)
  moreover have "propOrder [(js ''accountId'', JStr acc), (js ''expiresAt'', JNum (num t))] =
      [(js ''accountId'', JStr acc), (js ''expiresAt'', JNum (num t))]"
    by (rule propOrder_no_index) (simp add: not_index_key isDigit_def)
  ultimately show ?thesis unfolding sessionObject_def by simp
qed

lemma demo_codec: "json_codec demo_host"
proof -
  have "JSON_parse Fin (JSON_stringify exactDigits [] (sessionObject acc t)) = Some (sessionObject acc t)" for acc t
    by (rule json_roundtrip) (simp_all add: isGap_def sessionObject_wf)
  moreover have "JSON_stringify exactDigits [] (sessionObject acc t) \<noteq> []" for acc t
    by (simp add: JSON_stringify_def sessionObject_def enclose_def)
  ultimately show ?thesis by (simp add: json_codec_def demo_host_def)
qed

lemma expiresOf_sessionObject [simp]: "expiresOf h (sessionObject acc d) = num d"
  by (simp add: expiresOf_def sessionObject_def)

lemma num_less_num [simp]: "num_less (num i) (num j) \<longleftrightarrow> i < j"
  by (simp add: num_def)

lemma session_valid_object:
  assumes "acc \<noteq> []" "d \<noteq> 0"
  shows "session_valid h t (sessionObject acc d) \<longleftrightarrow> t < d"
  using assms by (auto simp: session_valid_def num_le_def) (auto simp: sessionObject_def num_def)

theorem reload_restores_exactly_the_session_witness:
  "session (auth_do demo_host (Reload 5000) (fold (auth_do demo_host) [SignIn 1000 (js '' ann ''), Tick 2000]
     (initAuth demo_host 0 None))) = Some (sessionObject (js ''ann'') 1801000)"
proof -
  have t: "trim (js '' ann '') = js ''ann''" by (simp add: trim_def trimStart_def trimEnd_def isWhite_def)
  have "session (fold (auth_do demo_host) [SignIn 1000 (js '' ann ''), Tick 2000] (initAuth demo_host 0 None)) =
      Some (sessionObject (js ''ann'') 1801000)"
    by (simp add: signIn_def tick_def DEFAULT_SESSION_TTL_MS_def Let_def t del: js_Cons)
  moreover have "session_valid demo_host 5000 (sessionObject (js ''ann'') 1801000)"
    by (simp add: session_valid_object)
  ultimately show ?thesis
    using reload_restores_exactly_the_session[OF demo_codec, of "[SignIn 1000 (js '' ann ''), Tick 2000]" 0 None 5000]
    by (simp add: Let_def del: js_Cons)
qed

section \<open>How long a session lasts\<close>

text \<open>Whether an operation leaves a session with the given deadline in place.\<close>

fun keeps_until :: "int \<Rightarrow> auth_op \<Rightarrow> bool" where
  "keeps_until d (Tick t) = (t < d)"
| "keeps_until d (Reload t) = (t < d)"
| "keeps_until d op = True"

fun noSignInOut :: "auth_op \<Rightarrow> bool" where
  "noSignInOut (SignIn t acc) = False"
| "noSignInOut (SignOut r) = False"
| "noSignInOut op = True"

lemma noSignInOut_step:
  assumes "auth_wf h a" "noSignInOut op" "acc \<noteq> []" "d \<noteq> 0" "session a = Some (sessionObject acc d)"
  shows "session (auth_do h op a) = (if keeps_until d op then Some (sessionObject acc d) else None)"
  using assms reload_session[OF assms(1)]
  by (cases op) (auto simp: tick_def clearInvalidReason_def session_valid_object)

lemma noSignInOut_ended:
  assumes "auth_wf h a" "noSignInOut op" "session a = None"
  shows "session (auth_do h op a) = None"
  using assms reload_session[OF assms(1)] by (cases op) (auto simp: tick_def clearInvalidReason_def)

lemma noSignInOut_run:
  assumes "json_codec h" "auth_wf h a" "list_all noSignInOut ops" "acc \<noteq> []" "d \<noteq> 0"
    and "session a = Some (sessionObject acc d)"
  shows "auth_wf h (fold (auth_do h) ops a) \<and> session (fold (auth_do h) ops a) =
    (if list_all (keeps_until d) ops then Some (sessionObject acc d) else None)"
  using assms(3)
proof (induction ops rule: rev_induct)
  case (snoc op ops)
  then show ?case
    using noSignInOut_step[of h "fold (auth_do h) ops a" op acc d] noSignInOut_ended[of h "fold (auth_do h) ops a" op]
      auth_wf_do[OF assms(1)] assms(4,5) by (auto split: if_splits)
qed (use assms(2,6) in simp)

text \<open>
  C13: a session lasts exactly its thirty minutes. After a sign-in at time \<open>t\<close>, whatever happened
  before, and through any number of timer ticks, page reloads and dismissed messages, the user
  is still signed in exactly if none of these took place at or after \<open>t + 30 min\<close>; then
  guarded pages are shown, and otherwise they send the user to the login page.
\<close>

theorem session_lasts_thirty_minutes:
  assumes "json_codec h" "0 \<le> t" "trim account \<noteq> []" "list_all noSignInOut later"
  shows "let a = fold (auth_do h) later (signIn h t account (fold (auth_do h) before (initAuth h t0 stored)));
             alive = list_all (keeps_until (t + 1800000)) later
    in session a = (if alive then Some (sessionObject (trim account) (t + 1800000)) else None) \<and>
       (RequireAuth a path query = Outlet \<longleftrightarrow> alive)"
proof -
  let ?b = "signIn h t account (fold (auth_do h) before (initAuth h t0 stored))"
  have "auth_wf h ?b" using auth_wf_do[OF assms(1) auth_wf_run[OF assms(1)], of "SignIn t account"] by simp
  moreover have "session ?b = Some (sessionObject (trim account) (t + 1800000))"
    by (simp add: signIn_def Let_def DEFAULT_SESSION_TTL_MS_def)
  ultimately have "session (fold (auth_do h) later ?b) =
      (if list_all (keeps_until (t + 1800000)) later then Some (sessionObject (trim account) (t + 1800000)) else None)"
    using noSignInOut_run[OF assms(1) _ assms(4,3)] assms(2) by simp
  then show ?thesis by (simp add: Let_def RequireAuth_def isAuthenticated_def)
qed

theorem session_lasts_thirty_minutes_witness:
  "RequireAuth (fold (auth_do demo_host) [Tick 1800999, Reload 1800999]
     (signIn demo_host 1000 (js ''ann'') (initAuth demo_host 0 None))) [] [] = Outlet"
  using session_lasts_thirty_minutes[OF demo_codec, of 1000 "js ''ann''" "[Tick 1800999, Reload 1800999]" "[]" 0 None "[]" "[]"]
  by (simp add: trim_def trimStart_def trimEnd_def isWhite_def Let_def)

end
