(* ===== verification/ApiContract.thy ===== *)
theory ApiContract
  imports WebSession
begin

text \<open>
  The contract between the web application and the backend, \<open>wallet-app/src/api/chainApiContract.ts\<close>: the paths and the list of endpoints, which nothing in the
  application reads. One call of \<open>walletApi\<close> is outside of it. The theory also has the client object of \<open>client.ts\<close>, made from the environment.
\<close>

section \<open>Endpoints\<close>

definition chainApiContractVersion :: jstring where "chainApiContractVersion = js ''v1.4.0''"
definition chainApiContractFrozen :: bool where "chainApiContractFrozen = True"

record ChainApiEndpoint =
  endpointMethod :: HttpMethod
  endpointPath :: jstring

definition chainApiPaths :: "(string \<times> jstring) list" where
  "chainApiPaths =
     [(''health'', js ''/v1/health''),
      (''indexerEvents'', js ''/v1/indexer/events''),
      (''indexerState'', js ''/v1/indexer/state''),
      (''stakingValidators'', js ''/v1/chain/staking/validators''),
      (''stakingDelegationsTemplate'', js ''/v1/chain/staking/delegations/{delegatorAddress}''),
      (''distributionRewardsTemplate'', js ''/v1/chain/distribution/delegators/{delegatorAddress}/rewards''),
      (''governanceProposals'', js ''/v1/chain/gov/proposals''),
      (''governanceProposalTemplate'', js ''/v1/chain/gov/proposals/{proposalId}''),
      (''governanceProposalVotesTemplate'', js ''/v1/chain/gov/proposals/{proposalId}/votes''),
      (''chainTxTemplate'', js ''/v1/chain/txs/{txHash}''),
      (''chainBroadcastTx'', js ''/v1/chain/txs''),
      (''authSignatureChallenge'', js ''/v1/auth/signature/challenge''),
      (''authSignatureConfirm'', js ''/v1/auth/signature/confirm''),
      (''notifications'', js ''/v1/notifications''),
      (''notificationsStream'', js ''/v1/notifications/stream''),
      (''notificationsWebhook'', js ''/v1/notifications/webhook'')]"

definition chainApiEndpoints :: "ChainApiEndpoint list" where
  "chainApiEndpoints = map (\<lambda>(m, k). \<lparr>endpointMethod = m, endpointPath = nullish (map_of chainApiPaths k) []\<rparr>)
     [(GET, ''health''),
      (GET, ''indexerEvents''),
      (GET, ''indexerState''),
      (GET, ''stakingValidators''),
      (GET, ''stakingDelegationsTemplate''),
      (GET, ''distributionRewardsTemplate''),
      (GET, ''governanceProposals''),
      (GET, ''governanceProposalTemplate''),
      (GET, ''governanceProposalVotesTemplate''),
      (GET, ''chainTxTemplate''),
      (POST, ''chainBroadcastTx''),
      (POST, ''authSignatureChallenge''),
      (POST, ''authSignatureConfirm''),
      (GET, ''notifications''),
      (GET, ''notificationsStream''),
      (POST, ''notificationsWebhook'')]"

definition apiClient :: "app_env \<Rightarrow> client_config" where
  "apiClient env = \<lparr>cfgBaseUrl = apiBaseUrl env, cfgTimeoutMs = apiTimeoutMs env, cfgRetryCount = apiRetryCount env\<rparr>"

section \<open>The calls of the application\<close>

datatype wallet_call =
    CallHealth | CallState | CallEvents "(jstring \<times> query_value option) list" IndexerEventsRequestOptions
  | CallEventById jstring IndexerEventsRequestOptions | CallNotifications "(jstring \<times> query_value option) list"
  | CallChallenge jstring | CallConfirm confirm_input

fun walletApi :: "wallet_call \<Rightarrow> ('u, 'r, 'w) api_call" where
  "walletApi CallHealth = getHealth"
| "walletApi CallState = getIndexerState"
| "walletApi (CallEvents query opts) = getIndexerEvents query opts"
| "walletApi (CallEventById i opts) = getIndexerEventById i opts"
| "walletApi (CallNotifications query) = getNotifications query"
| "walletApi (CallChallenge account) = createSignatureChallenge account"
| "walletApi (CallConfirm i) = confirmSignatureAuthorization i"

text \<open>
  A path that an endpoint stands for: a segment in braces is any segment that is not empty.
\<close>

fun fillsSegments :: "jstring list \<Rightarrow> jstring list \<Rightarrow> bool" where
  "fillsSegments [] [] = True"
| "fillsSegments (t # ts) (s # ss) = ((if t \<noteq> [] \<and> hd t = 123 then s \<noteq> [] else s = t) \<and> fillsSegments ts ss)"
| "fillsSegments _ _ = False"

definition inContract :: "HttpMethod \<Rightarrow> jstring \<Rightarrow> bool" where
  "inContract m p = list_ex (\<lambda>e. endpointMethod e = m \<and> fillsSegments (splitOn 47 (endpointPath e)) (splitOn 47 p)) chainApiEndpoints"

lemma chainApiEndpoints_eval:
  "chainApiEndpoints = map (\<lambda>(m, p). \<lparr>endpointMethod = m, endpointPath = js p\<rparr>)
     [(GET, ''/v1/health''), (GET, ''/v1/indexer/events''), (GET, ''/v1/indexer/state''), (GET, ''/v1/chain/staking/validators''),
      (GET, ''/v1/chain/staking/delegations/{delegatorAddress}''), (GET, ''/v1/chain/distribution/delegators/{delegatorAddress}/rewards''),
      (GET, ''/v1/chain/gov/proposals''), (GET, ''/v1/chain/gov/proposals/{proposalId}''), (GET, ''/v1/chain/gov/proposals/{proposalId}/votes''),
      (GET, ''/v1/chain/txs/{txHash}''), (POST, ''/v1/chain/txs''), (POST, ''/v1/auth/signature/challenge''),
      (POST, ''/v1/auth/signature/confirm''), (GET, ''/v1/notifications''), (GET, ''/v1/notifications/stream''),
      (POST, ''/v1/notifications/webhook'')]"
  by (simp add: chainApiEndpoints_def chainApiPaths_def del: js_Cons)

lemma splitOn_some [simp]: "\<not> fillsSegments [] (splitOn c t)"
  by (cases t) (auto split: list.split)

lemma detail_path_outside: "\<not> inContract GET (pathIndexerEvents @ js ''/'' @ t)"
  by (simp add: inContract_def chainApiEndpoints_eval pathIndexerEvents_def)

text \<open>
  The request for a single event is for no endpoint of the contract, whatever the id; the backend serves it.
\<close>

theorem event_detail_outside_contract:
  assumes "encodeURIComponent i = Some t"
  shows "walletApi (CallEventById i opts) web cfg w = api_get web cfg (pathIndexerEvents @ js ''/'' @ t) (eventRequest [] opts) w \<and>
    \<not> inContract GET (pathIndexerEvents @ js ''/'' @ t)"
  using assms detail_path_outside by (simp add: getIndexerEventById_def del: js_Cons)

end
