(* ===== verification/LoginPage.thy ===== *)
theory LoginPage
  imports WebSession
begin

text \<open>
  The login page \<open>wallet-app/src/pages/LoginPage.tsx\<close>: its state, the two handlers with the
  part before and the part after the request they wait for, the redirect effect and the
  redirect timer, and the step relation of the page. The two requests are those of
  \<open>walletApi\<close>; their answers, which may be any value or any thrown error, are inputs of the
  steps, so that edits and clock ticks can come between a request and its answer. Buttons that
  the page disables are guards of the steps.
\<close>

section \<open>State\<close>

text \<open>
  The last three fields are not in the code: the challenges and the answers received so far
  and the navigations made. State that is set after the page was left is not observable.
\<close>

record login =
  accountField :: jstring
  formError :: jstring
  requestingChallenge :: bool
  confirmingSignature :: bool
  challenge :: "json option"
  authorizationResult :: "json option"
  redirectTimer :: "jstring option"
  mounted :: bool
  loginAuth :: auth
  pendingChallenge :: "jstring option"
  pendingConfirm :: "confirm_input option"
  challenges :: "json list"
  answers :: "(confirm_input \<times> int \<times> request_result) list"
  navigations :: "jstring list"

definition redirectPath :: "jstring option \<Rightarrow> jstring" where
  "redirectPath origin =
     (case origin of
        Some p \<Rightarrow> if p \<noteq> [] \<and> p \<noteq> js ''/login'' then p else js ''/''
      | None \<Rightarrow> js ''/'')"

definition sessionMessage :: "jstring option \<Rightarrow> auth \<Rightarrow> jstring" where
  "sessionMessage reason a = orDefault reason (invalidReason a)"

definition succeeded :: "json option \<Rightarrow> bool" where
  "succeeded result = truthy (member result (js ''success''))"

definition openLogin :: "auth \<Rightarrow> login" where
  "openLogin a =
     \<lparr>accountField = js ''demo-user'', formError = [], requestingChallenge = False, confirmingSignature = False,
      challenge = None, authorizationResult = None, redirectTimer = None, mounted = True, loginAuth = a,
      pendingChallenge = None, pendingConfirm = None, challenges = [], answers = [], navigations = []\<rparr>"

section \<open>Handlers\<close>

text \<open>Leaving the page runs the cleanup of the second effect.\<close>

definition leave :: "login \<Rightarrow> login" where
  "leave s = s\<lparr>mounted := False, redirectTimer := None\<rparr>"

definition redirectEffect :: "jstring option \<Rightarrow> login \<Rightarrow> login" where
  "redirectEffect origin s =
     (if mounted s \<and> isAuthenticated (loginAuth s) \<and> \<not> succeeded (authorizationResult s)
      then (leave s)\<lparr>navigations := navigations s @ [redirectPath origin]\<rparr>
      else s)"

definition NEED_ACCOUNT_TEXT :: jstring where
  "NEED_ACCOUNT_TEXT = [35831, 36755, 20837, 30331, 24405, 36134, 21495, 12290]"
definition SESSION_INVALID_TEXT :: jstring where
  "SESSION_INVALID_TEXT = [20250, 35805, 24050, 22833, 25928, 65292, 35831, 21047, 26032, 39029, 38754, 21518, 37325, 35797, 12290]"
definition REQUEST_FAILED_TEXT :: jstring where
  "REQUEST_FAILED_TEXT = [25480, 26435, 35831, 27714, 22833, 36133]"
definition NO_CHALLENGE_TEXT :: jstring where
  "NO_CHALLENGE_TEXT = [35831, 20808, 21457, 36215, 25480, 26435, 35831, 27714, 12290]"
definition DENIED_TEXT :: jstring where
  "DENIED_TEXT = [31614, 21517, 25480, 26435, 26410, 36890, 36807, 65292, 35831, 37325, 35797, 12290]"
definition CONFIRM_FAILED_TEXT :: jstring where
  "CONFIRM_FAILED_TEXT = [31614, 21517, 30830, 35748, 22833, 36133]"

definition requestErrorText :: "lang \<Rightarrow> jstring \<Rightarrow> exn \<Rightarrow> jstring" where
  "requestErrorText lang fallback e =
     (if isSessionInvalidError e then SESSION_INVALID_TEXT
      else case e of
        ExApi err \<Rightarrow> js ''code='' @ apiCode err @ js '' status='' @
          (case apiStatus err of Some n \<Rightarrow> intString n | None \<Rightarrow> js ''-'') @ js '' msg='' @ apiMessage err
      | ExError m \<Rightarrow> m
      | ExAbort \<Rightarrow> abortMessage lang
      | ExValue _ \<Rightarrow> fallback)"

definition submitBegins :: "login \<Rightarrow> login" where
  "submitBegins s =
     (let normalizedAccountId = trim (accountField s)
      in if normalizedAccountId = [] then s\<lparr>formError := NEED_ACCOUNT_TEXT\<rparr>
         else s\<lparr>requestingChallenge := True, pendingChallenge := Some normalizedAccountId\<rparr>)"

definition submitEnds :: "lang \<Rightarrow> request_result \<Rightarrow> login \<Rightarrow> login" where
  "submitEnds lang answer s =
     (case answer of
        Inr c \<Rightarrow> s\<lparr>challenge := Some c, challenges := challenges s @ [c], authorizationResult := None, formError := []\<rparr>
      | Inl e \<Rightarrow> s\<lparr>formError := requestErrorText lang REQUEST_FAILED_TEXT e\<rparr>)
     \<lparr>requestingChallenge := False, pendingChallenge := None\<rparr>"

fun base16 :: "nat \<Rightarrow> jstring" where
  "base16 n =
     (let d = n mod 16; c = (if d < 10 then 48 + d else 87 + d)
      in if n < 16 then [c] else base16 (n div 16) @ [c])"

definition hexString :: "int \<Rightarrow> jstring" where
  "hexString i = (if i < 0 then 45 # base16 (nat (- i)) else base16 (nat i))"

definition confirmBegins :: "lang \<Rightarrow> int \<Rightarrow> login \<Rightarrow> login" where
  "confirmBegins lang t s =
     (if \<not> truthy (challenge s) then s\<lparr>formError := NO_CHALLENGE_TEXT\<rparr>
      else
        let normalizedAccountId = trim (accountField s)
        in if normalizedAccountId = [] then s\<lparr>formError := NEED_ACCOUNT_TEXT\<rparr>
           else
             let requestId = member (challenge s) (js ''requestId'');
                 signature = templateText lang requestId @ js ''.'' @ normalizedAccountId @ js ''.'' @ hexString t
             in s\<lparr>confirmingSignature := True, pendingConfirm := Some
                   \<lparr>confirmAccount = normalizedAccountId, confirmRequestId = requestId, confirmSignature = signature\<rparr>\<rparr>)"

definition confirmAnswered :: "lang \<Rightarrow> json_host \<Rightarrow> jstring option \<Rightarrow> int \<Rightarrow> jstring \<Rightarrow> request_result \<Rightarrow> login \<Rightarrow> login" where
  "confirmAnswered lang h origin t account answer s =
     (case answer of
        Inl e \<Rightarrow> s\<lparr>formError := requestErrorText lang CONFIRM_FAILED_TEXT e\<rparr>
      | Inr result \<Rightarrow>
          let s1 = s\<lparr>authorizationResult := Some result\<rparr>
          in if result = JNull then s1\<lparr>formError := requestErrorText lang CONFIRM_FAILED_TEXT (ExError (nullReadMessage lang))\<rparr>
             else if \<not> succeeded (Some result) then s1\<lparr>formError := DENIED_TEXT\<rparr>
             else s1\<lparr>loginAuth := clearInvalidReason (signIn h t account (loginAuth s1)), formError := [],
                     redirectTimer := Some (redirectPath origin)\<rparr>)"

definition confirmEnds ::
  "lang \<Rightarrow> json_host \<Rightarrow> jstring option \<Rightarrow> int \<Rightarrow> confirm_input \<Rightarrow> request_result \<Rightarrow> login \<Rightarrow> login" where
  "confirmEnds lang h origin t i answer s =
     (confirmAnswered lang h origin t (confirmAccount i) answer s)
     \<lparr>confirmingSignature := False, pendingConfirm := None, answers := answers s @ [(i, t, answer)]\<rparr>"

definition timerFires :: "jstring \<Rightarrow> login \<Rightarrow> login" where
  "timerFires p s = (leave s)\<lparr>navigations := navigations s @ [p]\<rparr>"

section \<open>Steps\<close>

definition canSubmit :: "login \<Rightarrow> bool" where
  "canSubmit s \<longleftrightarrow> mounted s \<and> \<not> (requestingChallenge s \<or> confirmingSignature s)"

definition canConfirm :: "login \<Rightarrow> bool" where
  "canConfirm s \<longleftrightarrow> mounted s \<and> \<not> (confirmingSignature s \<or> requestingChallenge s \<or> \<not> truthy (challenge s))"

inductive login_step :: "lang \<Rightarrow> json_host \<Rightarrow> jstring option \<Rightarrow> login \<Rightarrow> login \<Rightarrow> bool"
  for lang h origin where
  Edit: "mounted s \<Longrightarrow> login_step lang h origin s (s\<lparr>accountField := text\<rparr>)"
| Submit: "canSubmit s \<Longrightarrow> login_step lang h origin s (submitBegins s)"
| Challenged: "pendingChallenge s \<noteq> None \<Longrightarrow>
    login_step lang h origin s (redirectEffect origin (submitEnds lang answer s))"
| Confirm: "canConfirm s \<Longrightarrow> login_step lang h origin s (confirmBegins lang t s)"
| Answered: "pendingConfirm s = Some i \<Longrightarrow>
    login_step lang h origin s (redirectEffect origin (confirmEnds lang h origin t i answer s))"
| Timer: "redirectTimer s = Some p \<Longrightarrow> login_step lang h origin s (timerFires p s)"
| Clock: "login_step lang h origin s (s\<lparr>loginAuth := tick h t (loginAuth s)\<rparr>)"
| Leave: "login_step lang h origin s (leave s)"

inductive_cases login_stepE: "login_step lang h origin s s'"

text \<open>The page is opened without a session; with one, the effect leaves it at once.\<close>

inductive login_reachable :: "lang \<Rightarrow> json_host \<Rightarrow> jstring option \<Rightarrow> login \<Rightarrow> bool"
  for lang h origin where
  Open: "session a = None \<Longrightarrow> login_reachable lang h origin (redirectEffect origin (openLogin a))"
| Step: "login_reachable lang h origin s \<Longrightarrow> login_step lang h origin s s' \<Longrightarrow> login_reachable lang h origin s'"

section \<open>What a login rests on\<close>

text \<open>A confirmation that was made from a challenge of the list, for a named account.\<close>

definition from_challenge :: "json list \<Rightarrow> confirm_input \<Rightarrow> bool" where
  "from_challenge cs i \<longleftrightarrow> confirmAccount i \<noteq> [] \<and> trim (confirmAccount i) = confirmAccount i \<and>
     list_ex (\<lambda>c. truthy (Some c) \<and> confirmRequestId i = member (Some c) (js ''requestId'')) cs"

text \<open>The session that a confirmation with a positive answer at time \<open>t\<close> opens.\<close>

definition opened_by :: "(confirm_input \<times> int \<times> request_result) list \<Rightarrow> json \<Rightarrow> bool" where
  "opened_by hist j \<longleftrightarrow> list_ex (\<lambda>(i, t, answer).
     (case answer of Inr r \<Rightarrow> succeeded (Some r) | Inl _ \<Rightarrow> False) \<and>
     j = sessionObject (confirmAccount i) (t + DEFAULT_SESSION_TTL_MS)) hist"

text \<open>What links the state of the page to the challenges and answers it has received, and the session to an answer.\<close>

definition login_linked :: "login \<Rightarrow> bool" where
  "login_linked s \<longleftrightarrow>
     pred_option (from_challenge (challenges s)) (pendingConfirm s) \<and>
     list_all (\<lambda>(i, t, a). from_challenge (challenges s) i) (answers s) \<and>
     pred_option (\<lambda>c. c \<in> set (challenges s)) (challenge s) \<and>
     confirmingSignature s = (pendingConfirm s \<noteq> None) \<and> requestingChallenge s = (pendingChallenge s \<noteq> None) \<and>
     (pendingConfirm s = None \<or> pendingChallenge s = None)"

definition login_inv :: "login \<Rightarrow> bool" where
  "login_inv s \<longleftrightarrow> pred_option (opened_by (answers s)) (session (loginAuth s)) \<and> login_linked s"

lemma from_challenge_append: "from_challenge cs i \<Longrightarrow> from_challenge (cs @ ds) i"
  by (auto simp: from_challenge_def)

lemma opened_by_mono: "opened_by hist j \<Longrightarrow> set hist \<subseteq> set hist' \<Longrightarrow> opened_by hist' j"
  by (auto simp: opened_by_def list_ex_iff split: sum.splits)

lemma login_linked_simple:
  "login_linked (leave s) = login_linked s" "login_linked (timerFires p s) = login_linked s"
  "login_linked (redirectEffect origin s) = login_linked s" "login_linked (s\<lparr>loginAuth := a\<rparr>) = login_linked s"
  "login_linked (s\<lparr>accountField := text\<rparr>) = login_linked s" "login_linked (s\<lparr>formError := text\<rparr>) = login_linked s"
  "login_linked (s\<lparr>redirectTimer := r\<rparr>) = login_linked s"
  by (simp_all add: login_linked_def leave_def timerFires_def redirectEffect_def)

lemma login_linked_submitBegins: "login_linked s \<Longrightarrow> canSubmit s \<Longrightarrow> login_linked (submitBegins s)"
  by (simp add: submitBegins_def Let_def login_linked_simple) (simp add: login_linked_def canSubmit_def)

lemma login_linked_submitEnds:
  assumes "login_linked s"
  shows "login_linked (submitEnds lang answer s)"
proof (cases answer)
  case (Inr c)
  have "list_all (\<lambda>(i, t, a). from_challenge (challenges s @ [c]) i) (answers s)"
    using assms by (auto simp: login_linked_def list_all_iff from_challenge_append)
  with Inr assms show ?thesis
    by (auto simp: login_linked_def submitEnds_def from_challenge_append pred_option_def)
qed (use assms in \<open>auto simp: login_linked_def submitEnds_def\<close>)

lemma login_linked_confirmBegins:
  assumes "login_linked s" "canConfirm s"
  shows "login_linked (confirmBegins lang t s)"
proof (cases "trim (accountField s) = []")
  case False
  obtain c where c: "challenge s = Some c" "truthy (Some c)"
    using assms(2) by (cases "challenge s") (auto simp: canConfirm_def)
  then have "c \<in> set (challenges s)" using assms(1) by (simp add: login_linked_def)
  with c False have "from_challenge (challenges s)
      \<lparr>confirmAccount = trim (accountField s), confirmRequestId = member (Some c) (js ''requestId''), confirmSignature = g\<rparr>" for g
    by (auto simp: from_challenge_def list_ex_iff)
  with assms c False show ?thesis
    by (simp add: confirmBegins_def Let_def login_linked_def canConfirm_def del: js_Cons)
qed (use assms in \<open>simp add: confirmBegins_def login_linked_simple canConfirm_def\<close>)

lemma session_after_answer:
  assumes "trim account = account"
  shows "session (loginAuth (confirmAnswered lang h origin t account answer s)) =
    (case answer of
       Inr r \<Rightarrow> if succeeded (Some r) then Some (sessionObject account (t + DEFAULT_SESSION_TTL_MS)) else session (loginAuth s)
     | Inl _ \<Rightarrow> session (loginAuth s))"
  using assms
  by (auto simp: confirmAnswered_def Let_def succeeded_def signIn_def clearInvalidReason_def split: sum.splits)

lemma confirmAnswered_frame [simp]:
  "challenges (confirmAnswered lang h origin t account answer s) = challenges s"
  "challenge (confirmAnswered lang h origin t account answer s) = challenge s"
  "pendingChallenge (confirmAnswered lang h origin t account answer s) = pendingChallenge s"
  "requestingChallenge (confirmAnswered lang h origin t account answer s) = requestingChallenge s"
  by (simp_all add: confirmAnswered_def Let_def split: sum.splits)

lemma login_linked_confirmEnds:
  assumes "login_linked s" "pendingConfirm s = Some i"
  shows "login_linked (confirmEnds lang h origin t i answer s)"
  using assms by (simp add: login_linked_def confirmEnds_def)

lemma confirmed_account_trimmed: "login_linked s \<Longrightarrow> pendingConfirm s = Some i \<Longrightarrow> trim (confirmAccount i) = confirmAccount i"
  by (simp add: login_linked_def from_challenge_def)

text \<open>The session after each handler, for any history of answers that contains those of the page.\<close>

lemma session_handlers [simp]:
  "loginAuth (submitBegins s) = loginAuth s" "loginAuth (submitEnds lang answer s) = loginAuth s"
  "loginAuth (confirmBegins lang t s) = loginAuth s" "loginAuth (leave s) = loginAuth s" "loginAuth (timerFires p s) = loginAuth s"
  "loginAuth (redirectEffect origin s) = loginAuth s"
  by (simp_all add: submitBegins_def submitEnds_def confirmBegins_def leave_def timerFires_def redirectEffect_def Let_def split: sum.split)

lemma answers_handlers [simp]:
  "answers (submitBegins s) = answers s" "answers (submitEnds lang answer s) = answers s"
  "answers (confirmBegins lang t s) = answers s" "answers (leave s) = answers s" "answers (timerFires p s) = answers s"
  "answers (redirectEffect origin s) = answers s" "answers (confirmEnds lang h origin t i answer s) = answers s @ [(i, t, answer)]"
  by (simp_all add: submitBegins_def submitEnds_def confirmBegins_def leave_def timerFires_def redirectEffect_def confirmEnds_def Let_def
      split: sum.split)

lemma opened_confirmEnds:
  assumes "pred_option (opened_by hist) (session (loginAuth s))" "trim (confirmAccount i) = confirmAccount i"
    and "set hist \<subseteq> set hist'" "(i, t, answer) \<in> set hist'"
  shows "pred_option (opened_by hist') (session (loginAuth (confirmEnds lang h origin t i answer s)))"
proof -
  have "opened_by hist' (sessionObject (confirmAccount i) (t + DEFAULT_SESSION_TTL_MS))" if "answer = Inr r" "succeeded (Some r)" for r
    using assms(4) that unfolding opened_by_def list_ex_iff by (intro bexI[of _ "(i, t, answer)"]) simp_all
  with assms(1-3) opened_by_mono[of hist _ hist'] show ?thesis
    by (auto simp: confirmEnds_def session_after_answer pred_option_def split: sum.splits if_splits)
qed

lemma tick_session: "session (tick h t a) = session a \<or> session (tick h t a) = None"
  by (simp add: tick_def split: option.split)

lemma login_inv_step: "login_step lang h origin s s' \<Longrightarrow> login_inv s \<Longrightarrow> login_inv s'"
proof (erule login_stepE)
  fix i t answer
  assume "s' = redirectEffect origin (confirmEnds lang h origin t i answer s)" "pendingConfirm s = Some i" "login_inv s"
  then show "login_inv s'"
    using opened_confirmEnds[of "answers s" s i "answers s @ [(i, t, answer)]" t answer] confirmed_account_trimmed[of s i]
    by (auto simp: login_inv_def login_linked_simple login_linked_confirmEnds)
next
  fix t
  assume "s' = s\<lparr>loginAuth := tick h t (loginAuth s)\<rparr>" "login_inv s"
  then show "login_inv s'" using tick_session[of h t "loginAuth s"] by (auto simp: login_inv_def login_linked_simple)
qed (simp_all add: login_inv_def login_linked_simple login_linked_submitBegins login_linked_submitEnds login_linked_confirmBegins)

lemma login_inv_reachable: "login_reachable lang h origin s \<Longrightarrow> login_inv s"
proof (induction rule: login_reachable.induct)
  case (Open a)
  then show ?case by (simp add: login_inv_def login_linked_simple) (simp add: login_linked_def openLogin_def)
qed (rule login_inv_step)

text \<open>
  C3: nobody is logged in without the server's consent. In every state that a page opened without
  a session can reach, through any order of edits, clicks, answers, errors and clock ticks, a
  session in memory was opened by an answer whose \<open>success\<close> is truthy, for the account that was
  sent with that confirmation and with the thirty minutes counted from the answer; the
  confirmation carried the request id of a challenge the server had issued before; and the two
  requests are never in flight at the same time.
\<close>

theorem login_needs_confirmed_challenge:
  assumes "login_reachable lang h origin s"
  shows "(case session (loginAuth s) of
      None \<Rightarrow> True
    | Some j \<Rightarrow> list_ex (\<lambda>(i, t, answer).
        (case answer of Inr r \<Rightarrow> truthy (member (Some r) (js ''success'')) | Inl _ \<Rightarrow> False) \<and>
        j = sessionObject (confirmAccount i) (t + 1800000) \<and> confirmAccount i \<noteq> [] \<and>
        list_ex (\<lambda>c. truthy (Some c) \<and> confirmRequestId i = member (Some c) (js ''requestId'')) (challenges s)) (answers s)) \<and>
    (pendingConfirm s = None \<or> pendingChallenge s = None)"
proof (intro conjI)
  have inv: "login_inv s" by (rule login_inv_reachable[OF assms])
  then show "pendingConfirm s = None \<or> pendingChallenge s = None" by (simp add: login_inv_def login_linked_def)
  show "case session (loginAuth s) of None \<Rightarrow> True | Some j \<Rightarrow> list_ex (\<lambda>(i, t, answer).
        (case answer of Inr r \<Rightarrow> truthy (member (Some r) (js ''success'')) | Inl _ \<Rightarrow> False) \<and>
        j = sessionObject (confirmAccount i) (t + 1800000) \<and> confirmAccount i \<noteq> [] \<and>
        list_ex (\<lambda>c. truthy (Some c) \<and> confirmRequestId i = member (Some c) (js ''requestId'')) (challenges s)) (answers s)"
  proof (cases "session (loginAuth s)")
    case (Some j)
    then have "opened_by (answers s) j" using inv by (simp add: login_inv_def)
    then obtain i t answer where x: "(i, t, answer) \<in> set (answers s)"
        "case answer of Inr r \<Rightarrow> succeeded (Some r) | Inl _ \<Rightarrow> False"
        "j = sessionObject (confirmAccount i) (t + 1800000)"
      by (auto simp: opened_by_def list_ex_iff DEFAULT_SESSION_TTL_MS_def)
    then obtain r where "answer = Inr r" "succeeded (Some r)" by (cases answer) auto
    with x have e: "(i, t, Inr r) \<in> set (answers s)" "succeeded (Some r)"
        "j = sessionObject (confirmAccount i) (t + 1800000)" by auto
    then have "from_challenge (challenges s) i" using inv by (auto simp: login_inv_def login_linked_def list_all_iff)
    with e show ?thesis unfolding Some from_challenge_def succeeded_def list_ex_iff[of _ "answers s"] option.case
      by (intro bexI[of _ "(i, t, Inr r)"]) simp_all
  qed simp
qed

text \<open>A complete login, for the witness.\<close>

definition demo_lang :: lang where
  "demo_lang = \<lparr>templateText = (\<lambda>_. js ''r1''), nullReadMessage = js ''null'', abortMessage = js ''aborted''\<rparr>"

definition demo_challenge :: json where
  "demo_challenge = JObj [(js ''requestId'', JStr (js ''r1''))]"

definition demo_consent :: json where
  "demo_consent = JObj [(js ''success'', JBool True)]"

definition login_start :: login where
  "login_start = openLogin \<lparr>storage = None, session = None, invalidReason = []\<rparr>"

definition login_confirming :: "lang \<Rightarrow> login" where
  "login_confirming lang = confirmBegins lang 1000 (submitEnds lang (Inr demo_challenge) (submitBegins login_start))"

lemma demo_user_trim: "trim (js ''demo-user'') = js ''demo-user''"
  by (simp add: trim_def trimStart_def trimEnd_def isWhite_def)

lemma demo_user_nonempty: "js ''demo-user'' \<noteq> []"
  by simp

lemma demo_members [simp]:
  "truthy (Some demo_challenge)" "member (Some demo_challenge) (js ''requestId'') = Some (JStr (js ''r1''))"
  "succeeded (Some demo_consent)" "demo_consent \<noteq> JNull"
  by (simp_all add: demo_challenge_def demo_consent_def succeeded_def)

lemma effect_without_session: "session (loginAuth s) = None \<Longrightarrow> redirectEffect origin s = s"
  by (simp add: redirectEffect_def isAuthenticated_def)

definition demo_confirm :: "lang \<Rightarrow> confirm_input" where
  "demo_confirm lang = \<lparr>confirmAccount = js ''demo-user'', confirmRequestId = Some (JStr (js ''r1'')),
     confirmSignature = templateText lang (Some (JStr (js ''r1''))) @ js ''.'' @ js ''demo-user'' @ js ''.'' @ hexString 1000\<rparr>"

lemma login_confirming_state:
  "pendingConfirm (login_confirming lang) = Some (demo_confirm lang)"
  "session (loginAuth (login_confirming lang)) = None" "navigations (login_confirming lang) = []"
  "mounted (login_confirming lang)" "answers (login_confirming lang) = []"
  unfolding login_confirming_def confirmBegins_def submitEnds_def submitBegins_def login_start_def openLogin_def demo_confirm_def
  by (simp_all add: demo_user_trim demo_user_nonempty Let_def del: js_Cons)

lemma login_confirming_reachable: "login_reachable lang h origin (login_confirming lang)"
proof -
  let ?s = "submitBegins login_start"
  let ?c = "submitEnds lang (Inr demo_challenge) ?s"
  have s: "pendingChallenge ?s \<noteq> None" "session (loginAuth ?c) = None" "canSubmit login_start" "canConfirm ?c"
    unfolding submitEnds_def submitBegins_def login_start_def openLogin_def canSubmit_def canConfirm_def
    by (simp_all add: demo_user_trim demo_user_nonempty Let_def del: js_Cons)
  have "login_reachable lang h origin login_start"
    using Open[of "\<lparr>storage = None, session = None, invalidReason = []\<rparr>" lang h origin]
    by (simp add: effect_without_session openLogin_def login_start_def)
  then have "login_reachable lang h origin ?s" by (rule Step) (rule Submit[OF s(3)])
  then have "login_reachable lang h origin ?c"
    by (rule Step) (use Challenged[OF s(1), where lang = lang and h = h and origin = origin and answer = "Inr demo_challenge"] s(2) in \<open>simp add: effect_without_session\<close>)
  then show ?thesis unfolding login_confirming_def by (rule Step) (rule Confirm[OF s(4)])
qed

theorem login_needs_confirmed_challenge_witness:
  "\<exists>s. login_reachable demo_lang demo_host None s \<and>
     session (loginAuth s) = Some (sessionObject (js ''demo-user'') 1802000) \<and>
     pendingConfirm s = None \<and>
     list_ex (\<lambda>(i, t, answer). confirmRequestId i \<noteq> None) (answers s)"
proof -
  let ?i = "demo_confirm demo_lang"
  let ?e = "confirmEnds demo_lang demo_host None 2000 ?i (Inr demo_consent) (login_confirming demo_lang)"
  have acc: "confirmAccount ?i = js ''demo-user''" by (simp add: demo_confirm_def)
  have e: "session (loginAuth ?e) = Some (sessionObject (js ''demo-user'') 1802000)" "pendingConfirm ?e = None"
    "authorizationResult ?e = Some demo_consent" "answers ?e = [(?i, 2000, Inr demo_consent)]"
    by (simp_all add: confirmEnds_def confirmAnswered_def Let_def acc demo_user_trim signIn_def clearInvalidReason_def
        DEFAULT_SESSION_TTL_MS_def login_confirming_state del: js_Cons)
  have "redirectEffect None ?e = ?e" by (simp add: redirectEffect_def e(3) del: js_Cons)
  then have reach: "login_reachable demo_lang demo_host None ?e"
    using Answered[OF login_confirming_state(1), where lang = demo_lang and h = demo_host and origin = None and t = 2000 and answer = "Inr demo_consent"]
      login_confirming_reachable[THEN Step] by metis
  have "list_ex (\<lambda>(i, t, answer). confirmRequestId i \<noteq> None) (answers ?e)"
    unfolding e(4) by (simp add: demo_confirm_def)
  with reach e(1,2) login_needs_confirmed_challenge[OF reach] show ?thesis by blast
qed

text \<open>
  The redirect timer outlives the page. A user who leaves the login page while the
  confirmation is under way (the effect's cleanup then finds no timer to clear) is signed in by
  a later positive answer, and the timer that the answer starts on the page that is gone will
  move the user away from wherever they are by then.
\<close>

theorem redirect_timer_outlives_page:
  "\<exists>s s'. login_reachable lang h origin s \<and> \<not> mounted s \<and> navigations s = [] \<and>
     login_step lang h origin s s' \<and> navigations s' = [redirectPath origin]"
proof -
  let ?l = "leave (login_confirming lang)"
  let ?s = "confirmEnds lang h origin 2000 (demo_confirm lang) (Inr demo_consent) ?l"
  have p: "pendingConfirm ?l = Some (demo_confirm lang)" by (simp add: leave_def login_confirming_state)
  have s: "\<not> mounted ?s" "redirectTimer ?s = Some (redirectPath origin)" "navigations ?s = []"
    by (simp_all add: confirmEnds_def confirmAnswered_def Let_def leave_def login_confirming_state)
  then have "redirectEffect origin ?s = ?s" by (simp add: redirectEffect_def)
  then have "login_reachable lang h origin ?s"
    using Answered[OF p, where lang = lang and h = h and origin = origin and t = 2000 and answer = "Inr demo_consent"]
      login_confirming_reachable[THEN Step, OF Leave, THEN Step] by metis
  moreover have "login_step lang h origin ?s (timerFires (redirectPath origin) ?s)" by (rule Timer[OF s(2)])
  moreover have "navigations (timerFires (redirectPath origin) ?s) = [redirectPath origin]"
    using s(3) by (simp add: timerFires_def)
  ultimately show ?thesis using s(1,3) by blast
qed

end
