(* ===== verification/EventExport.thy ===== *)
theory EventExport
  imports JsonText
begin

text \<open>
  \<open>wallet-app/src/lib/eventExport.ts\<close>: export of indexer events as CSV (with a reader for the
  format, against which the writer is proved) and as JSON, the file name, and the loop that
  collects all pages. \<open>downloadTextFile\<close> only drives the browser and is not modelled. The page fetcher
  and the abort signal are parameters on an arbitrary state.
\<close>

record IndexerEvent =
  eventId :: jstring
  eventType :: jstring
  eventHeight :: int
  blockHash :: "jstring option"
  parentHash :: "jstring option"
  rollbackFrom :: "int option"
  payload :: jstring
  producedAt :: jstring
  persistedAt :: "jstring option"

section \<open>CSV\<close>

definition CSV_HEADER :: "jstring list" where
  "CSV_HEADER = [js ''id'', js ''type'', js ''height'', js ''block_hash'', js ''produced_at'', js ''payload'']"

text \<open>\<open>value.replace(/"/g, '""')\<close>, then quoted; 34 is the double quote, 44 the comma.\<close>

definition doubleQuotes :: "jstring \<Rightarrow> jstring" where
  "doubleQuotes v = concat (map (\<lambda>c. if c = 34 then [34, 34] else [c]) v)"

definition escapeCsv :: "jstring \<Rightarrow> jstring" where
  "escapeCsv v = [34] @ doubleQuotes v @ [34]"

definition eventFields :: "IndexerEvent \<Rightarrow> jstring list" where
  "eventFields event = [eventId event, eventType event, intString (eventHeight event),
     nullish (blockHash event) [], producedAt event, payload event]"

definition serializeEventsToCsv :: "IndexerEvent list \<Rightarrow> jstring" where
  "serializeEventsToCsv evs =
     (let rows = map (\<lambda>event. join [44] (map escapeCsv (eventFields event))) evs
      in join [10] (join [44] CSV_HEADER # rows))"

definition padStart2 :: "jstring \<Rightarrow> jstring" where
  "padStart2 s = replicate (2 - length s) 48 @ s"

record local_time =
  year :: nat
  month0 :: nat
  day :: nat
  hour :: nat
  minute :: nat
  second :: nat

datatype export_format = FormatJson | FormatCsv

definition buildEventsExportFileName :: "export_format \<Rightarrow> local_time \<Rightarrow> jstring" where
  "buildEventsExportFileName format moment =
     js ''events-'' @ natString (year moment) @ padStart2 (natString (month0 moment + 1)) @ padStart2 (natString (day moment))
       @ js ''-'' @ padStart2 (natString (hour moment)) @ padStart2 (natString (minute moment))
       @ padStart2 (natString (second moment)) @ js ''.''
       @ (case format of FormatJson \<Rightarrow> js ''json'' | FormatCsv \<Rightarrow> js ''csv'')"

subsection \<open>A reader\<close>

text \<open>The rest of a quoted field behind its opening quote; a doubled quote is one quote.\<close>

fun readQuoted :: "jstring \<Rightarrow> jstring \<times> jstring" where
  "readQuoted [] = ([], [])"
| "readQuoted [c] = (if c = 34 then ([], []) else ([c], []))"
| "readQuoted (c # d # s) =
     (if c = 34 then (if d = 34 then (let (f, r) = readQuoted s in (34 # f, r)) else ([], d # s))
      else (let (f, r) = readQuoted (d # s) in (c # f, r)))"

definition readField :: "jstring \<Rightarrow> jstring \<times> jstring" where
  "readField s =
     (case s of
        [] \<Rightarrow> ([], [])
      | c # t \<Rightarrow> if c = 34 then readQuoted t
                else (takeWhile (\<lambda>x. x \<noteq> 44 \<and> x \<noteq> 10) s, dropWhile (\<lambda>x. x \<noteq> 44 \<and> x \<noteq> 10) s))"

lemma readQuoted_length: "length (snd (readQuoted s)) \<le> length s"
  by (induction s rule: readQuoted.induct) (auto split: prod.splits)

lemma readField_length: "length (snd (readField s)) \<le> length s"
proof (cases s)
  case (Cons c t)
  then show ?thesis
    using readQuoted_length[of t] length_dropWhile_le[of "\<lambda>x. x \<noteq> 44 \<and> x \<noteq> 10" s]
    by (simp add: readField_def del: dropWhile.simps)
qed (simp add: readField_def)

lemma readField_shrinks: "(f, c # t) = readField s \<Longrightarrow> length t < length s"
  using readField_length[of s] by (metis length_Cons less_eq_Suc_le snd_conv)

function readRecord :: "jstring \<Rightarrow> jstring list \<times> jstring" where
  "readRecord s =
     (case readField s of (f, r) \<Rightarrow>
        (case r of
           c # t \<Rightarrow> if c = 44 then (let (fs, rest) = readRecord t in (f # fs, rest)) else ([f], r)
         | [] \<Rightarrow> ([f], [])))"
  by pat_completeness auto
termination
  by (relation "measure length") (auto dest: readField_shrinks)

declare readRecord.simps [simp del]

lemma readRecord_length: "length (snd (readRecord s)) \<le> length s"
proof (induction s rule: readRecord.induct)
  case (1 s)
  obtain f r where fr: "readField s = (f, r)" by fastforce
  have r: "length r \<le> length s" using readField_length[of s] fr by simp
  show ?case
  proof (cases r)
    case (Cons c t)
    then show ?thesis
      using 1[OF fr[symmetric] Cons] fr r by (subst readRecord.simps) (auto split: prod.splits)
  qed (use fr in \<open>simp add: readRecord.simps\<close>)
qed

lemma readRecord_shrinks: "(fs, c # t) = readRecord s \<Longrightarrow> length t < length s"
  using readRecord_length[of s] by (metis length_Cons less_eq_Suc_le snd_conv)

function readCsv :: "jstring \<Rightarrow> jstring list list" where
  "readCsv s =
     (case readRecord s of (fs, r) \<Rightarrow>
        (case r of [] \<Rightarrow> [fs] | c # t \<Rightarrow> if c = 10 then fs # readCsv t else [fs]))"
  by pat_completeness auto
termination
  by (relation "measure length") (auto dest: readRecord_shrinks)

declare readCsv.simps [simp del]

lemma readQuoted_doubled:
  assumes "case rest of c # _ \<Rightarrow> c \<noteq> 34 | [] \<Rightarrow> True"
  shows "readQuoted (doubleQuotes v @ 34 # rest) = (v, rest)"
proof (induction v)
  case Nil
  show ?case using assms by (cases rest) (simp_all add: doubleQuotes_def)
next
  case (Cons c v)
  obtain d s where ds: "doubleQuotes v @ 34 # rest = d # s" by (cases "doubleQuotes v") auto
  show ?case
  proof (cases "c = 34")
    case True
    with Cons show ?thesis by (simp add: doubleQuotes_def)
  next
    case False
    then have "readQuoted (doubleQuotes (c # v) @ 34 # rest) = readQuoted (c # d # s)"
      using ds by (simp add: doubleQuotes_def)
    with False Cons ds show ?thesis by simp
  qed
qed

lemma readField_escaped:
  "case rest of c # _ \<Rightarrow> c \<noteq> 34 | [] \<Rightarrow> True \<Longrightarrow> readField (escapeCsv v @ rest) = (v, rest)"
  by (simp add: readField_def escapeCsv_def readQuoted_doubled)

lemma readRecord_row:
  assumes "fs \<noteq> []" "case rest of c # _ \<Rightarrow> c = 10 | [] \<Rightarrow> True"
  shows "readRecord (join [44] (map escapeCsv fs) @ rest) = (fs, rest)"
  using assms(1)
proof (induction fs rule: induct_list012)
  case (2 f)
  have "case rest of c # _ \<Rightarrow> c \<noteq> 34 | [] \<Rightarrow> True" using assms(2) by (cases rest) auto
  then have "readField (escapeCsv f @ rest) = (f, rest)" by (rule readField_escaped)
  then show ?case using assms(2) by (simp add: readRecord.simps) (cases rest; simp)
next
  case (3 f g fs)
  then show ?case by (subst readRecord.simps) (simp add: readField_escaped)
qed simp

lemma readRecord_header:
  assumes "case rest of c # _ \<Rightarrow> c = 10 | [] \<Rightarrow> True"
  shows "readRecord (join [44] CSV_HEADER @ rest) = (CSV_HEADER, rest)"
  using assms by (cases rest) (simp_all add: CSV_HEADER_def readRecord.simps readField_def)

lemma eventFields_nonempty [simp]: "eventFields e \<noteq> []"
  by (simp add: eventFields_def)

lemma readCsv_rows:
  "evs \<noteq> [] \<Longrightarrow> readCsv (join [10] (map (\<lambda>e. join [44] (map escapeCsv (eventFields e))) evs)) = map eventFields evs"
proof (induction evs rule: induct_list012)
  case (2 e)
  show ?case using readRecord_row[of "eventFields e" "[]"] by (subst readCsv.simps) simp
next
  case (3 e f es)
  then show ?case
    using readRecord_row[of "eventFields e" "10 # join [10] (map (\<lambda>e. join [44] (map escapeCsv (eventFields e))) (f # es))"]
    by (subst readCsv.simps) simp
qed simp

lemma csv_read_back: "readCsv (serializeEventsToCsv evs) = CSV_HEADER # map eventFields evs"
proof (cases "evs = []")
  case True
  then show ?thesis
    using readRecord_header[of "[]"] by (simp add: serializeEventsToCsv_def) (subst readCsv.simps, simp)
next
  case False
  let ?rows = "map (\<lambda>e. join [44] (map escapeCsv (eventFields e))) evs"
  have "serializeEventsToCsv evs = join [44] CSV_HEADER @ 10 # join [10] ?rows"
    using False by (cases evs) (simp_all add: serializeEventsToCsv_def)
  then show ?thesis
    using readRecord_header[of "10 # join [10] ?rows"] readCsv_rows[OF False]
    by (simp add: readCsv.simps[of "join [44] CSV_HEADER @ _"])
qed

text \<open>
  The CSV export loses nothing: a reader of the format returns the header and, for every event
  in order, its six fields, whatever quotes, commas or line breaks they contain.
\<close>

theorem csv_roundtrip: "readCsv (serializeEventsToCsv evs) = CSV_HEADER # map eventFields evs"
  by (rule csv_read_back)

section \<open>JSON\<close>

text \<open>An event as an object, its members in the order of the type; absent ones are left out.\<close>

definition eventMembers :: "IndexerEvent \<Rightarrow> (jstring \<times> json option) list" where
  "eventMembers event =
     [(js ''id'', Some (JStr (eventId event))), (js ''type'', Some (JStr (eventType event))),
      (js ''height'', Some (JNum (num (eventHeight event)))), (js ''blockHash'', map_option JStr (blockHash event)),
      (js ''parentHash'', map_option JStr (parentHash event)),
      (js ''rollbackFrom'', map_option (\<lambda>h. JNum (num h)) (rollbackFrom event)),
      (js ''payload'', Some (JStr (payload event))), (js ''producedAt'', Some (JStr (producedAt event))),
      (js ''persistedAt'', map_option JStr (persistedAt event))]"

definition eventJson :: "IndexerEvent \<Rightarrow> json" where
  "eventJson event = JObj (presentMembers (eventMembers event))"

definition serializeEventsToJson :: "(jsnum \<Rightarrow> jstring) \<Rightarrow> IndexerEvent list \<Rightarrow> jstring" where
  "serializeEventsToJson other evs = JSON_stringify other [32, 32] (JArr (map eventJson evs))"

text \<open>Heights that a double represents and that are written by their digits.\<close>

definition plainHeights :: "(rat \<Rightarrow> jsnum) \<Rightarrow> IndexerEvent \<Rightarrow> bool" where
  "plainHeights rnd event \<longleftrightarrow> list_all (\<lambda>h. \<bar>h\<bar> < 10 ^ 21 \<and> rnd (of_int h) = num h)
     (eventHeight event # (case rollbackFrom event of None \<Rightarrow> [] | Some h \<Rightarrow> [h]))"

lemma eventMembers_keys: "distinct (map fst (eventMembers event))"
  by (simp add: eventMembers_def)

lemma eventJson_wf:
  assumes "plainHeights rnd event"
  shows "wfJson rnd other (eventJson event)"
  unfolding eventJson_def
proof (rule wf_presentMembers[OF eventMembers_keys])
  show "list_all (\<lambda>m. \<not> isDigit (hd (fst m)) \<and> fst m \<noteq> []) (eventMembers event)"
    by (simp add: eventMembers_def isDigit_def)
  show "list_all (\<lambda>m. pred_option (wfJson rnd other) (snd m)) (eventMembers event)"
    using assms wfNumber_small[of _ rnd other]
    by (cases "rollbackFrom event"; cases "blockHash event"; cases "parentHash event"; cases "persistedAt event")
      (simp_all add: eventMembers_def plainHeights_def del: js_Cons)
qed

text \<open>The event that an object stands for.\<close>

fun textMember :: "json option \<Rightarrow> jstring option" where
  "textMember (Some (JStr s)) = Some s"
| "textMember _ = None"

fun heightMember :: "json option \<Rightarrow> int option" where
  "heightMember (Some (JNum (Fin q))) = Some \<lfloor>q\<rfloor>"
| "heightMember _ = None"

definition eventOfJson :: "json \<Rightarrow> IndexerEvent" where
  "eventOfJson j =
     (let text = (\<lambda>k. textMember (member (Some j) k)); height = (\<lambda>k. heightMember (member (Some j) k))
      in \<lparr>eventId = nullish (text (js ''id'')) [], eventType = nullish (text (js ''type'')) [],
          eventHeight = nullish (height (js ''height'')) 0, blockHash = text (js ''blockHash''),
          parentHash = text (js ''parentHash''), rollbackFrom = height (js ''rollbackFrom''),
          payload = nullish (text (js ''payload'')) [], producedAt = nullish (text (js ''producedAt'')) [],
          persistedAt = text (js ''persistedAt'')\<rparr>)"

lemma eventJson_member:
  assumes "(k, v) \<in> set (eventMembers event)"
  shows "member (Some (eventJson event)) k = v"
  unfolding eventJson_def member.simps by (rule presentMembers_lookup[OF eventMembers_keys assms])

lemma textMember_map [simp]: "textMember (map_option JStr x) = x"
  by (cases x) simp_all

lemma heightMember_map [simp]: "heightMember (map_option (\<lambda>h. JNum (num h)) x) = x" "heightMember (Some (JNum (num h))) = Some h"
  by (cases x; simp add: num_def)+

lemma eventOfJson_eventJson [simp]: "eventOfJson (eventJson event) = event"
proof -
  have "member (Some (eventJson event)) (js ''id'') = Some (JStr (eventId event))"
    "member (Some (eventJson event)) (js ''type'') = Some (JStr (eventType event))"
    "member (Some (eventJson event)) (js ''height'') = Some (JNum (num (eventHeight event)))"
    "member (Some (eventJson event)) (js ''blockHash'') = map_option JStr (blockHash event)"
    "member (Some (eventJson event)) (js ''parentHash'') = map_option JStr (parentHash event)"
    "member (Some (eventJson event)) (js ''rollbackFrom'') = map_option (\<lambda>h. JNum (num h)) (rollbackFrom event)"
    "member (Some (eventJson event)) (js ''payload'') = Some (JStr (payload event))"
    "member (Some (eventJson event)) (js ''producedAt'') = Some (JStr (producedAt event))"
    "member (Some (eventJson event)) (js ''persistedAt'') = map_option JStr (persistedAt event)"
    by (rule eventJson_member; simp add: eventMembers_def del: js_Cons)+
  then show ?thesis by (simp add: eventOfJson_def Let_def del: js_Cons)
qed

lemma json_read_back:
  assumes "list_all (plainHeights rnd) evs"
  shows "\<exists>objects. JSON_parse rnd (serializeEventsToJson other evs) = Some (JArr objects) \<and>
    map eventOfJson objects = evs"
proof -
  have "wfJson rnd other (JArr (map eventJson evs))"
    using assms by (auto simp: list_all_iff eventJson_wf)
  then have "JSON_parse rnd (serializeEventsToJson other evs) = Some (JArr (map eventJson evs))"
    unfolding serializeEventsToJson_def by (intro json_roundtrip) (simp_all add: isGap_def)
  then show ?thesis by (simp add: comp_def)
qed

text \<open>
  The JSON export loses nothing: \<open>JSON.parse\<close> accepts the exported text and returns an array
  whose objects stand for the exported events, one by one and in their order, whatever
  characters their texts contain.
\<close>

theorem json_export_roundtrip:
  assumes "list_all (plainHeights rnd) evs"
  shows "\<exists>objects. JSON_parse rnd (serializeEventsToJson other evs) = Some (JArr objects) \<and>
    map eventOfJson objects = evs"
  by (rule json_read_back[OF assms])

definition odd_event :: IndexerEvent where
  "odd_event = \<lparr>eventId = js ''e1'', eventType = [34, 92, 10, 55296], eventHeight = 7, blockHash = None,
     parentHash = Some [], rollbackFrom = Some (-3), payload = js ''{}'', producedAt = [], persistedAt = None\<rparr>"

theorem json_export_roundtrip_witness:
  "\<exists>objects. JSON_parse Fin (serializeEventsToJson (\<lambda>_. []) [odd_event]) = Some (JArr objects) \<and>
     map eventOfJson objects = [odd_event]"
proof -
  have "list_all (plainHeights Fin) [odd_event]" by (simp add: plainHeights_def num_def odd_event_def)
  then show ?thesis by (rule json_export_roundtrip)
qed

section \<open>Collecting all pages\<close>

record IndexerEventsQuery =
  queryOrder :: "jstring option"
  queryType :: "jstring option"
  queryMinHeight :: "int option"
  queryMaxHeight :: "int option"
  queryLimit :: "int option"
  queryOffset :: "int option"

record IndexerEventsResponse =
  pageEvents :: "IndexerEvent list"
  pageTotal :: int
  pageOffset :: int
  pageLimit :: int
  pageHasMore :: bool

record 'w CollectAllEventsOptions =
  pageSize :: "int option"
  maxPages :: "int option"
  maxRecords :: "int option"
  aborted :: "'w \<Rightarrow> bool"

definition EXPORT_CANCELLED_ERROR :: jstring where "EXPORT_CANCELLED_ERROR = js ''EXPORT_CANCELLED''"
definition EXPORT_LIMIT_EXCEEDED_ERROR :: jstring where "EXPORT_LIMIT_EXCEEDED_ERROR = js ''EXPORT_LIMIT_EXCEEDED''"

definition isExportCancelledError :: "exn \<Rightarrow> bool" where
  "isExportCancelledError e \<longleftrightarrow> (case e of ExError m \<Rightarrow> m = EXPORT_CANCELLED_ERROR | ExApi err \<Rightarrow> apiMessage err = EXPORT_CANCELLED_ERROR | _ \<Rightarrow> False)"

definition isExportLimitExceededError :: "exn \<Rightarrow> bool" where
  "isExportLimitExceededError e \<longleftrightarrow> (case e of ExError m \<Rightarrow> m = EXPORT_LIMIT_EXCEEDED_ERROR | ExApi err \<Rightarrow> apiMessage err = EXPORT_LIMIT_EXCEEDED_ERROR | _ \<Rightarrow> False)"

type_synonym 'w fetch_page = "IndexerEventsQuery \<Rightarrow> 'w \<Rightarrow> (exn, IndexerEventsResponse) result \<times> 'w"
type_synonym collect_result = "(exn, IndexerEvent list) result"

text \<open>
  The state of the loop: the world, the collected events, the offset, the iterations begun
  (each reads the signal once and fetches at most one page) and the progress reports.
\<close>

record 'w collect_state =
  colWorld :: 'w
  collected :: "IndexerEvent list"
  offset :: int
  iterations :: nat
  progress :: "(int \<times> nat) list"

text \<open>
  \<open>page\<close> is \<open>pageCount + 1\<close>; the two conditions of the \<open>while\<close> are tested at the end of an
  iteration for the next one, the count also before the first.
\<close>

text \<open>What follows the loop.\<close>

definition collect_end :: "'w CollectAllEventsOptions \<Rightarrow> 'w collect_state \<Rightarrow> collect_result" where
  "collect_end opts s =
     (if aborted opts (colWorld s) then Inl (ExError EXPORT_CANCELLED_ERROR) else Inr (collected s))"

definition collect_round ::
  "'w fetch_page \<Rightarrow> IndexerEventsQuery \<Rightarrow> 'w CollectAllEventsOptions \<Rightarrow> int \<Rightarrow> 'w collect_state
     \<Rightarrow> collect_result round \<times> 'w collect_state" where
  "collect_round fetchPage query opts page s0 =
     (let sz = nullish (pageSize opts) 200; pages = nullish (maxPages opts) 500;
          records = nullish (maxRecords opts) 10000;
          s = s0\<lparr>iterations := Suc (iterations s0)\<rparr>
      in if aborted opts (colWorld s) then (Finish (Inl (ExError EXPORT_CANCELLED_ERROR)), s)
         else case fetchPage (query\<lparr>queryLimit := Some sz, queryOffset := Some (offset s)\<rparr>) (colWorld s) of
           (Inl e, w) \<Rightarrow> (Finish (Inl e), s\<lparr>colWorld := w\<rparr>)
         | (Inr response, w) \<Rightarrow>
             (let s1 = s\<lparr>colWorld := w\<rparr> in
              if pageTotal response > records then (Finish (Inl (ExError EXPORT_LIMIT_EXCEEDED_ERROR)), s1)
              else
                (let s2 = s1\<lparr>collected := collected s1 @ pageEvents response\<rparr> in
                 if int (length (collected s2)) > records
                 then (Finish (Inl (ExError EXPORT_LIMIT_EXCEEDED_ERROR)), s2)
                 else if pageEvents response = [] then (Finish (collect_end opts s2), s2)
                 else
                   (let s3 = s2\<lparr>offset := offset s2 + int (length (pageEvents response)),
                          progress := progress s2 @ [(page, length (collected s2))]\<rparr>
                    in if pageHasMore response \<and> page < pages then (Again, s3)
                       else (Finish (collect_end opts s3), s3)))))"

function collect_loop ::
  "'w fetch_page \<Rightarrow> IndexerEventsQuery \<Rightarrow> 'w CollectAllEventsOptions \<Rightarrow> int \<Rightarrow> 'w collect_state
     \<Rightarrow> collect_result \<times> 'w collect_state" where
  "collect_loop fetchPage query opts page s =
     (if page \<le> nullish (maxPages opts) 500 then
        (case collect_round fetchPage query opts page s of
           (Finish x, s') \<Rightarrow> (x, s')
         | (Again, s') \<Rightarrow> collect_loop fetchPage query opts (page + 1) s')
      else (collect_end opts s, s))"
  by pat_completeness auto
termination
  by (relation "measure (\<lambda>(f, q, opts, page, s). nat (nullish (maxPages opts) 500 + 1 - page))") auto

declare collect_loop.simps [simp del]

definition collect_start :: "'w \<Rightarrow> 'w collect_state" where
  "collect_start w = \<lparr>colWorld = w, collected = [], offset = 0, iterations = 0, progress = []\<rparr>"

definition collectAllEvents ::
  "'w fetch_page \<Rightarrow> IndexerEventsQuery \<Rightarrow> 'w CollectAllEventsOptions \<Rightarrow> 'w \<Rightarrow> collect_result \<times> 'w collect_state" where
  "collectAllEvents fetchPage query opts w = collect_loop fetchPage query opts 1 (collect_start w)"

interpretation col: bounded_rounds "collect_round fetchPage query opts" "collect_loop fetchPage query opts"
  "nullish (maxPages opts) 500" iterations
  for fetchPage :: "'w fetch_page" and query and opts
proof (unfold_locales, goal_cases)
  case (1 k s)
  then show ?case by (simp add: collect_loop.simps[of fetchPage query opts k s])
next
  case (2 k s s')
  then show ?case by (auto simp: collect_round_def Let_def split: prod.splits sum.splits if_splits)
next
  case (3 k s)
  then show ?case by (auto simp: collect_round_def Let_def split: prod.splits sum.splits if_splits)
qed

subsection \<open>An honest server\<close>

text \<open>
  A server that serves a fixed list of events: the requested page, the total and whether
  more events follow. What it does to the rest of the world is arbitrary.
\<close>

definition serves :: "'w fetch_page \<Rightarrow> IndexerEventsQuery \<Rightarrow> IndexerEvent list \<Rightarrow> int \<Rightarrow> bool" where
  "serves fetchPage query evs sz \<longleftrightarrow> (\<forall>off w. \<exists>w'.
     fetchPage (query\<lparr>queryLimit := Some sz, queryOffset := Some (int off)\<rparr>) w =
       (Inr \<lparr>pageEvents = take (nat sz) (drop off evs), pageTotal = int (length evs),
             pageOffset = int off, pageLimit = sz, pageHasMore = (off + nat sz < length evs)\<rparr>, w'))"

definition collected_pages :: "IndexerEvent list \<Rightarrow> nat \<Rightarrow> int \<Rightarrow> 'w collect_state \<Rightarrow> bool" where
  "collected_pages evs n page s \<longleftrightarrow> 1 \<le> page \<and> collected s = take (nat (page - 1) * n) evs \<and>
     offset s = int (nat (page - 1) * n) \<and> (page = 1 \<or> nat (page - 1) * n < length evs)"

lemma take_next_page: "take k evs @ take n (drop k evs) = take (k + n) evs"
  by (simp add: take_add)

lemma collect_round_honest:
  assumes serves: "serves fetchPage query evs (int n)" and n: "0 < n"
    and opts: "nullish (pageSize opts) 200 = int n" "int (length evs) \<le> nullish (maxRecords opts) 10000"
      "\<And>w. \<not> aborted opts w" "int (length evs) \<le> nullish (maxPages opts) 500 * int n"
    and inv: "collected_pages evs n page s" "page \<le> nullish (maxPages opts) 500"
  shows "(\<exists>s'. collect_round fetchPage query opts page s = (Again, s') \<and> collected_pages evs n (page + 1) s') \<or>
    (\<exists>s'. collect_round fetchPage query opts page s = (Finish (Inr evs), s'))"
proof -
  define k where "k = nat (page - 1) * n"
  have page: "nat (page + 1 - 1) = Suc (nat (page - 1))" "1 \<le> page" using inv(1) by (auto simp: collected_pages_def)
  have next_k: "nat (page + 1 - 1) * n = k + n" unfolding page(1) k_def by simp
  have s: "collected s = take k evs" "offset s = int k" using inv(1) by (auto simp: collected_pages_def k_def)
  obtain w' where f: "fetchPage (query\<lparr>queryLimit := Some (int n), queryOffset := Some (int k)\<rparr>) (colWorld s) =
      (Inr \<lparr>pageEvents = take n (drop k evs), pageTotal = int (length evs),
        pageOffset = int k, pageLimit = int n, pageHasMore = (k + n < length evs)\<rparr>, w')"
    using serves unfolding serves_def by (metis nat_int)
  define s3 where "s3 = s\<lparr>iterations := Suc (iterations s), colWorld := w', collected := take (k + n) evs,
      offset := int k + int (length (take n (drop k evs))),
      progress := progress s @ [(page, length (take (k + n) evs))]\<rparr>"
  have app: "collected s @ take n (drop k evs) = take (k + n) evs" using s by (simp add: take_next_page)
  have lim: "\<not> int (length (take (k + n) evs)) > nullish (maxRecords opts) 10000" using opts(2) by simp
  consider "take n (drop k evs) = []" | "take n (drop k evs) \<noteq> []" "k + n < length evs"
    | "take n (drop k evs) \<noteq> []" "length evs \<le> k + n" by linarith
  then show ?thesis
  proof cases
    case 1
    then have "length evs \<le> k" using n by simp
    then have "collected s = evs" using s by simp
    with 1 have "\<exists>s'. collect_round fetchPage query opts page s = (Finish (Inr evs), s')"
      using opts s f by (simp add: collect_round_def Let_def collect_end_def)
    then show ?thesis by blast
  next
    case 2
    have more: "page < nullish (maxPages opts) 500"
    proof (rule ccontr)
      assume "\<not> page < nullish (maxPages opts) 500"
      then have "page = nullish (maxPages opts) 500" using inv(2) by simp
      then have "nullish (maxPages opts) 500 * int n = int (k + n)"
        using page(2) unfolding k_def by (simp add: algebra_simps)
      then show False using 2(2) opts(4) by simp
    qed
    have "collect_round fetchPage query opts page s = (Again, s3)"
      using 2 more opts s f app lim by (simp add: collect_round_def Let_def s3_def)
    moreover have "collected_pages evs n (page + 1) s3"
      using 2 page next_k unfolding collected_pages_def s3_def by (simp add: add.commute)
    ultimately show ?thesis by blast
  next
    case 3
    then have "collect_round fetchPage query opts page s = (Finish (Inr evs), s3)"
      using opts s f app lim by (simp add: collect_round_def Let_def s3_def collect_end_def)
    then show ?thesis by blast
  qed
qed

lemma collect_complete:
  assumes "serves fetchPage query evs (int n)" "0 < n" "nullish (pageSize opts) 200 = int n"
    and "int (length evs) \<le> nullish (maxRecords opts) 10000" "\<forall>w. \<not> aborted opts w"
    and "int (length evs) \<le> nullish (maxPages opts) 500 * int n" "1 \<le> nullish (maxPages opts) 500"
  shows "fst (collectAllEvents fetchPage query opts w) = Inr evs"
proof -
  note honest = collect_round_honest[OF assms(1-4) _ assms(6)]
  have start: "collected_pages evs n 1 (collect_start w)" by (simp add: collected_pages_def collect_start_def)
  have step: "fst (collect_loop fetchPage query opts page s) = Inr evs"
    if "collected_pages evs n page s" "page \<le> nullish (maxPages opts) 500" for page s
    using that
  proof (induction "nat (nullish (maxPages opts) 500 - page)" arbitrary: page s rule: less_induct)
    case less
    from honest[OF _ less.prems] assms(5)
    consider s' where "collect_round fetchPage query opts page s = (Again, s')" "collected_pages evs n (page + 1) s'"
      | s' where "collect_round fetchPage query opts page s = (Finish (Inr evs), s')" by blast
    then show ?case
    proof cases
      case (1 s')
      then have lt: "page < nullish (maxPages opts) 500" by (auto dest: col.again_below)
      then have "fst (collect_loop fetchPage query opts (page + 1) s') = Inr evs"
        by (intro less.hyps 1(2)) auto
      then show ?thesis using col.run_again[OF 1(1)] by simp
    next
      case (2 s')
      then show ?thesis using col.run_finish[OF less.prems(2)] by simp
    qed
  qed
  then show ?thesis using start assms(7) unfolding collectAllEvents_def by blast
qed

text \<open>
  Against a server that serves a fixed list in pages, without cancellation, and with limits
  that admit the list, the export returns exactly that list: no event is lost, repeated or
  reordered, and the loop ends.
\<close>

theorem collectAllEvents_complete:
  assumes "serves fetchPage query evs (int n)" "0 < n" "nullish (pageSize opts) 200 = int n"
    and "int (length evs) \<le> nullish (maxRecords opts) 10000" "\<forall>w. \<not> aborted opts w"
    and "int (length evs) \<le> nullish (maxPages opts) 500 * int n" "1 \<le> nullish (maxPages opts) 500"
  shows "fst (collectAllEvents fetchPage query opts w) = Inr evs"
  by (rule collect_complete[OF assms])

definition demo_events :: "IndexerEvent list" where
  "demo_events = map (\<lambda>i. \<lparr>eventId = natString i, eventType = js ''t'', eventHeight = int i, blockHash = None,
     parentHash = None, rollbackFrom = None, payload = [], producedAt = [], persistedAt = None\<rparr>) [0, 1, 2]"

definition demo_page :: "nat fetch_page" where
  "demo_page q w =
     (let off = nat (nullish (queryOffset q) 0); n = nat (nullish (queryLimit q) 0)
      in (Inr \<lparr>pageEvents = take n (drop off demo_events), pageTotal = int (length demo_events),
               pageOffset = int off, pageLimit = int n, pageHasMore = (off + n < length demo_events)\<rparr>, Suc w))"

definition demo_query :: IndexerEventsQuery where
  "demo_query = \<lparr>queryOrder = None, queryType = None, queryMinHeight = None, queryMaxHeight = None,
     queryLimit = None, queryOffset = None\<rparr>"

definition demo_options :: "nat CollectAllEventsOptions" where
  "demo_options = \<lparr>pageSize = Some 2, maxPages = None, maxRecords = None, aborted = (\<lambda>_. False)\<rparr>"

theorem collectAllEvents_complete_witness:
  "fst (collectAllEvents demo_page demo_query demo_options 0) = Inr demo_events"
proof -
  have "serves demo_page demo_query demo_events (int 2)"
    by (simp add: serves_def demo_page_def demo_query_def Let_def)
  then show ?thesis
    by (rule collectAllEvents_complete) (simp_all add: demo_options_def demo_events_def)
qed

subsection \<open>Bounds\<close>

lemma collect_round_signal:
  assumes "collect_round fetchPage query opts page s = (Finish (Inr evs), s')"
  shows "\<not> aborted opts (colWorld s')"
  using assms
  by (auto simp: collect_round_def collect_end_def Let_def split: if_splits prod.splits sum.splits)

lemma collect_not_aborted:
  assumes "collectAllEvents fetchPage query opts w = (Inr evs, s')" "1 \<le> nullish (maxPages opts) 500"
  shows "\<not> aborted opts (colWorld s')"
  using col.run_ends_in_finish[OF assms(2), where s = "collect_start w" and fetchPage = fetchPage and query = query]
    assms(1) collect_round_signal unfolding collectAllEvents_def by (metis prod.inject)

lemma collect_round_bounded:
  assumes "collect_round fetchPage query opts page s = (Finish (Inr evs), s')"
  shows "int (length evs) \<le> nullish (maxRecords opts) 10000"
  using assms
  by (auto simp: collect_round_def collect_end_def Let_def split: if_splits prod.splits sum.splits)

text \<open>
  C34: whatever the server answers, an export that returns has at most \<open>maxRecords\<close> events, and
  the loop begins between one and \<open>maxPages\<close> iterations, each of which asks for at most one
  page.
\<close>

theorem collectAllEvents_bounded:
  assumes "1 \<le> nullish (maxPages opts) 500"
  shows "(\<forall>evs. fst (collectAllEvents fetchPage query opts w) = Inr evs \<longrightarrow>
      int (length evs) \<le> nullish (maxRecords opts) 10000) \<and>
    iterations (snd (collectAllEvents fetchPage query opts w)) \<in> {1..nat (nullish (maxPages opts) 500)}"
proof -
  obtain n t x s' where run: "collect_loop fetchPage query opts 1 (collect_start w) = (x, s')"
    "collect_round fetchPage query opts (1 + int n) t = (Finish x, s')"
    using col.run_ends_in_finish[OF assms, where s = "collect_start w" and fetchPage = fetchPage and query = query] by blast
  have "iterations (collect_start w) = 0" by (simp add: collect_start_def)
  then have "iterations s' \<in> {1..nat (nullish (maxPages opts) 500)}"
    using col.run_calls[OF assms, where s = "collect_start w" and fetchPage = fetchPage and query = query] run(1) by simp
  then show ?thesis using run collect_round_bounded by (auto simp: collectAllEvents_def)
qed

theorem collectAllEvents_bounded_witness:
  "iterations (snd (collectAllEvents demo_page demo_query demo_options 0)) \<in> {1..500}"
  using collectAllEvents_bounded[of demo_options demo_page demo_query 0] by (simp add: demo_options_def)

end
