(* ===== verification/PageLoad.thy ===== *)
theory PageLoad
  imports WebSession
begin

text \<open>
  What the pages of the web application share: reachable states of a page, the text that a page
  shows for a failed request, and the contract of a handler that answers a request. Every page
  signs the user out when the error says that the session is invalid and otherwise leaves the
  session alone; the consequences for the route guard are proved once, in the locale
  \<open>request_page\<close>, and each page interprets it. \<open>loading_page\<close> adds the flag that disables the page
  while a request is under way.
\<close>

section \<open>Reachable states\<close>

inductive reach :: "('s \<Rightarrow> bool) \<Rightarrow> ('s \<Rightarrow> 's \<Rightarrow> bool) \<Rightarrow> 's \<Rightarrow> bool" for opened step where
  reach_open: "opened s \<Longrightarrow> reach opened step s"
| reach_step: "reach opened step s \<Longrightarrow> step s s' \<Longrightarrow> reach opened step s'"

lemma reach_invariant [consumes 1, case_names opened step]:
  assumes "reach opened step s" "\<And>s. opened s \<Longrightarrow> I s" "\<And>s s'. I s \<Longrightarrow> step s s' \<Longrightarrow> I s'"
  shows "I s"
  using assms(1) by induction (auto intro: assms(2,3))

section \<open>Failed requests\<close>

definition RELOGIN_TEXT :: jstring where
  "RELOGIN_TEXT = [20250, 35805, 24050, 22833, 25928, 65292, 35831, 37325, 26032, 30331, 24405, 12290]"

definition UNKNOWN_ERROR_TEXT :: jstring where
  "UNKNOWN_ERROR_TEXT = [26410, 30693, 38169, 35823]"

text \<open>
  The text of an error that is not a session error: of an \<open>ApiClientError\<close> its code, status and
  message (some pages add \<open>extra\<close>), of another \<open>Error\<close> its message, of anything else a fixed text.
\<close>

definition failureText :: "lang \<Rightarrow> jstring \<Rightarrow> jstring \<Rightarrow> exn \<Rightarrow> jstring" where
  "failureText lang extra fallback e =
     (case e of
        ExApi err \<Rightarrow> js ''code='' @ apiCode err @ js '' status='' @
          (case apiStatus err of Some n \<Rightarrow> intString n | None \<Rightarrow> js ''-'') @ js '' msg='' @ apiMessage err @ extra
      | ExError m \<Rightarrow> m
      | ExAbort \<Rightarrow> abortMessage lang
      | ExValue _ \<Rightarrow> fallback)"

definition endSession :: "auth \<Rightarrow> auth" where
  "endSession a = signOut (Some RELOGIN_TEXT) a"

lemma endSession_simps [simp]:
  "session (endSession a) = None" "storage (endSession a) = None" "invalidReason (endSession a) = RELOGIN_TEXT"
  by (simp_all add: endSession_def signOut_def)

text \<open>What the error attribution of the last lifecycle event adds to the text.\<close>

fun layerText :: "layer \<Rightarrow> jstring" where
  "layerText LayerHttp = js ''http''"
| "layerText LayerTransport = js ''transport''"
| "layerText LayerParse = js ''parse''"
| "layerText LayerUnknown = js ''unknown''"

definition attributionText :: "RequestLifecycleEvent option \<Rightarrow> jstring" where
  "attributionText lastEvent =
     (case lastEvent of
        None \<Rightarrow> []
      | Some event \<Rightarrow>
          (case evAttribution event of
             None \<Rightarrow> []
           | Some a \<Rightarrow> js '' layer='' @ layerText (attrLayer a) @ js '' reason='' @ attrReason a @
               js '' retryable='' @ (if attrRetryable a then js ''true'' else js ''false'')))"

section \<open>The contract of a page that answers requests\<close>

locale request_page =
  fixes answered :: "(exn, 'r) result \<Rightarrow> 's \<Rightarrow> 's"
    and page_auth :: "'s \<Rightarrow> auth"
  assumes lost: "isSessionInvalidError e \<Longrightarrow> page_auth (answered (Inl e) s) = endSession (page_auth s)"
    and kept: "\<not> isSessionInvalidError e \<Longrightarrow> page_auth (answered (Inl e) s) = page_auth s"
    and kept_ok: "page_auth (answered (Inr r) s) = page_auth s"
begin

lemma auth_after:
  "page_auth (answered x s) =
     (case x of Inl e \<Rightarrow> if isSessionInvalidError e then endSession (page_auth s) else page_auth s | Inr _ \<Rightarrow> page_auth s)"
  by (cases x) (auto simp: lost kept kept_ok)

lemma sent_to_login:
  assumes "isSessionInvalidError e"
  shows "RequireAuth (page_auth (answered (Inl e) s)) path query = NavigateLogin (path @ query) (Some RELOGIN_TEXT)"
  unfolding lost[OF assms] by (simp add: RequireAuth_def isAuthenticated_def RELOGIN_TEXT_def)

lemma stays_signed_in:
  assumes "\<And>e. x = Inl e \<Longrightarrow> \<not> isSessionInvalidError e"
  shows "RequireAuth (page_auth (answered x s)) path query = RequireAuth (page_auth s) path query"
  using assms by (simp add: auth_after split: sum.splits)

end

locale loading_page = request_page +
  fixes started :: "'s \<Rightarrow> 's"
    and busy :: "'s \<Rightarrow> bool"
  assumes busy_started: "busy (started s)"
    and idle_answered: "\<not> busy (answered x s)"
    and auth_started: "page_auth (started s) = page_auth s"
begin

lemma load_cycle: "\<not> busy (answered x (started s)) \<and> page_auth (answered x (started s)) =
    (case x of Inl e \<Rightarrow> if isSessionInvalidError e then endSession (page_auth s) else page_auth s | Inr _ \<Rightarrow> page_auth s)"
  by (simp add: idle_answered auth_after auth_started split: sum.split)

end

section \<open>A page that asks for its rows\<close>

text \<open>
  The pages with a table ask for the rows again whenever the part \<open>wanted\<close> of their state that
  selects them changes, and disable the controls that change it while \<open>loading\<close>. \<open>pending\<close> lists
  what was asked for and not yet answered. A step begins a request from an idle page, answers one,
  leaves all alone, or runs the load again because the session was replaced, which \<open>reruns\<close> counts.
  While the page is loading, the request for the selection shown is under way; and until the
  session is replaced no request overlaps another, so that an answer belongs to the selection
  that is shown.
\<close>

locale single_load =
  fixes opened :: "'s \<Rightarrow> bool" and step :: "'s \<Rightarrow> 's \<Rightarrow> bool"
    and wanted :: "'s \<Rightarrow> 'q" and pending :: "'s \<Rightarrow> 'q list" and loading :: "'s \<Rightarrow> bool" and reruns :: "'s \<Rightarrow> nat"
  assumes opens: "opened s \<Longrightarrow> loading s \<and> pending s = [wanted s]"
    and steps: "step s s' \<Longrightarrow>
      \<not> loading s \<and> loading s' \<and> pending s' = pending s @ [wanted s'] \<and> reruns s' = reruns s \<or>
      (\<exists>q. q \<in> set (pending s) \<and> pending s' = remove1 q (pending s) \<and> \<not> loading s' \<and> wanted s' = wanted s \<and> reruns s' = reruns s) \<or>
      wanted s' = wanted s \<and> pending s' = pending s \<and> loading s' = loading s \<and> reruns s' = reruns s \<or>
      loading s' \<and> pending s' = pending s @ [wanted s'] \<and> wanted s' = wanted s \<and> reruns s' = Suc (reruns s)"
begin

lemma requests_bounded:
  assumes "reach opened step s"
  shows "(loading s \<longrightarrow> pending s \<noteq> [] \<and> last (pending s) = wanted s) \<and>
    length (pending s) \<le> (if loading s then 1 else 0) + reruns s"
  using assms
proof (induction rule: reach_invariant)
  case (opened s)
  then show ?case by (simp add: opens)
next
  case (step s s')
  from steps[OF step(2)] step(1) show ?case by (auto simp: length_remove1 split: if_splits)
qed

lemma one_request:
  assumes "reach opened step s" "reruns s = 0"
  shows "pending s = (if loading s then [wanted s] else [])"
proof (cases "pending s")
  case (Cons q qs)
  then show ?thesis using requests_bounded[OF assms(1)] assms(2) by (auto split: if_splits)
qed (use requests_bounded[OF assms(1)] in auto)

end

end
