(* ===== verification/StatusPages.thy ===== *)
theory StatusPages
  imports PageLoad Bip21
begin

text \<open>
  \<open>pages/StatePage.tsx\<close> and \<open>pages/HomePage.tsx\<close> of the web application: the state of the indexer,
  the health check and the form for payment URIs, which composes the functions of \<open>Bip21\<close>.
\<close>

section \<open>The state page\<close>

record state_page =
  stateData :: "json option"
  stateLoading :: bool
  stateError :: jstring
  stateAuth :: auth

definition openStatePage :: "auth \<Rightarrow> state_page" where
  "openStatePage a = \<lparr>stateData = None, stateLoading = True, stateError = [], stateAuth = a\<rparr>"

definition loadStateBegins :: "state_page \<Rightarrow> state_page" where
  "loadStateBegins s = s\<lparr>stateLoading := True\<rparr>"

definition loadStateEnds :: "lang \<Rightarrow> request_result \<Rightarrow> state_page \<Rightarrow> state_page" where
  "loadStateEnds lang answer s =
     (case answer of
        Inr response \<Rightarrow> s\<lparr>stateData := Some response, stateError := []\<rparr>
      | Inl e \<Rightarrow>
          if isSessionInvalidError e then s\<lparr>stateAuth := endSession (stateAuth s)\<rparr>
          else s\<lparr>stateError := failureText lang [] UNKNOWN_ERROR_TEXT e\<rparr>)
     \<lparr>stateLoading := False\<rparr>"

definition loadState ::
  "lang \<Rightarrow> ('u, 'r, 'w) web \<Rightarrow> client_config \<Rightarrow> 'w \<Rightarrow> state_page \<Rightarrow> state_page \<times> 'w req_state" where
  "loadState lang web cfg w s =
     (case getIndexerState web cfg w of (answer, rs) \<Rightarrow> (loadStateEnds lang answer (loadStateBegins s), rs))"

text \<open>What is shown below the error: the cards of the data, or one of two texts.\<close>

datatype state_view = StateCards "json option list" | StateLoadingText | StateEmptyText

definition stateCards :: "json option \<Rightarrow> json option list" where
  "stateCards j =
     [member j (js ''tipHeight''),
      (if truthy (member j (js ''tipHash'')) then member j (js ''tipHash'') else Some (JStr (js ''-''))),
      member j (js ''total''), member j (js ''reorgs'')]"

definition stateView :: "state_page \<Rightarrow> state_view" where
  "stateView s =
     (if truthy (stateData s) then StateCards (stateCards (stateData s))
      else if stateLoading s then StateLoadingText else StateEmptyText)"

definition clickReloadState :: "state_page \<Rightarrow> state_page" where
  "clickReloadState s = (if stateLoading s then s else loadStateBegins s)"

interpretation state_load: loading_page "loadStateEnds lang" stateAuth loadStateBegins stateLoading
  for lang
  by unfold_locales (simp_all add: loadStateEnds_def loadStateBegins_def)

section \<open>The home page\<close>

record home_page =
  homeHealth :: "json option"
  homeError :: jstring
  homeAddress :: jstring
  homeAmount :: jstring
  homeMemo :: jstring
  bip21Input :: jstring
  generatedUri :: jstring
  bip21Error :: jstring
  copyStatus :: jstring
  homeAuth :: auth

definition UNCHECKED_TEXT :: jstring where "UNCHECKED_TEXT = [26410, 26816, 26597]"
definition COPIED_TEXT :: jstring where "COPIED_TEXT = [24050, 22797, 21046]"

definition openHomePage :: "auth \<Rightarrow> home_page" where
  "openHomePage a = \<lparr>homeHealth = Some (JStr UNCHECKED_TEXT), homeError = [], homeAddress = [], homeAmount = [],
     homeMemo = [], bip21Input = [], generatedUri = [], bip21Error = [], copyStatus = [], homeAuth = a\<rparr>"

text \<open>
  \<open>health.toLowerCase()\<close> is evaluated in every rendering and throws unless \<open>health\<close> is a string;
  \<open>notText\<close> is the message of that error.
\<close>

definition healthTone :: "jstring \<Rightarrow> home_page \<Rightarrow> (exn, jstring) result" where
  "healthTone notText h =
     (case homeHealth h of
        Some (JStr t) \<Rightarrow> Inr (if toLowerCase t = js ''ok'' then js ''success'' else js ''neutral'')
      | _ \<Rightarrow> Inl (ExError notText))"

definition checkHealthEnds :: "lang \<Rightarrow> request_result \<Rightarrow> home_page \<Rightarrow> home_page" where
  "checkHealthEnds lang answer h =
     (case answer of
        Inr response \<Rightarrow>
          if response = JNull
          then h\<lparr>homeError := failureText lang [] UNKNOWN_ERROR_TEXT (ExError (nullReadMessage lang))\<rparr>
          else h\<lparr>homeHealth := member (Some response) (js ''status''), homeError := []\<rparr>
      | Inl e \<Rightarrow>
          if isSessionInvalidError e then h\<lparr>homeAuth := endSession (homeAuth h)\<rparr>
          else h\<lparr>homeError := failureText lang [] UNKNOWN_ERROR_TEXT e\<rparr>)"

definition handleCheckHealth ::
  "lang \<Rightarrow> ('u, 'r, 'w) web \<Rightarrow> client_config \<Rightarrow> 'w \<Rightarrow> home_page \<Rightarrow> home_page \<times> 'w req_state" where
  "handleCheckHealth lang web cfg w h =
     (case getHealth web cfg w of (answer, rs) \<Rightarrow> (checkHealthEnds lang answer h, rs))"

definition homeForm :: "home_page \<Rightarrow> Bip21FormInput" where
  "homeForm h = \<lparr>form_address = homeAddress h, form_amount = homeAmount h, form_memo = homeMemo h\<rparr>"

definition handleGenerateBip21 :: "(jstring \<rightharpoonup> jstring) \<Rightarrow> home_page \<Rightarrow> home_page" where
  "handleGenerateBip21 inherited h =
     (case createBip21PaymentUri (homeForm h) of
        Inr uri \<Rightarrow> h\<lparr>generatedUri := uri, bip21Input := uri, copyStatus := [], bip21Error := []\<rparr>
      | Inl e \<Rightarrow> h\<lparr>bip21Error := toUnifiedBip21Error inherited e\<rparr>)"

definition handleParseBip21 :: "(jstring \<rightharpoonup> jstring) \<Rightarrow> home_page \<Rightarrow> home_page" where
  "handleParseBip21 inherited h =
     (case parseBip21Input (bip21Input h) of
        Inr parsed \<Rightarrow> h\<lparr>homeAddress := form_address parsed, homeAmount := form_amount parsed,
          homeMemo := form_memo parsed, bip21Error := []\<rparr>
      | Inl e \<Rightarrow> h\<lparr>bip21Error := toUnifiedBip21Error inherited e\<rparr>)"

datatype home_input = AddressIn jstring | AmountIn jstring | MemoIn jstring | UriIn jstring

fun homeInput :: "home_input \<Rightarrow> home_page \<Rightarrow> home_page" where
  "homeInput (AddressIn t) h = h\<lparr>homeAddress := t\<rparr>"
| "homeInput (AmountIn t) h = h\<lparr>homeAmount := t\<rparr>"
| "homeInput (MemoIn t) h = h\<lparr>homeMemo := t\<rparr>"
| "homeInput (UriIn t) h = h\<lparr>bip21Input := t\<rparr>"

text \<open>\<open>copied\<close> is the outcome of \<open>navigator.clipboard.writeText\<close>.\<close>

definition handleCopyUri :: "(jstring \<rightharpoonup> jstring) \<Rightarrow> (thrown, unit) result \<Rightarrow> home_page \<Rightarrow> home_page" where
  "handleCopyUri inherited copied h =
     (if generatedUri h = [] then h
      else case copied of
        Inr _ \<Rightarrow> h\<lparr>copyStatus := COPIED_TEXT, bip21Error := []\<rparr>
      | Inl e \<Rightarrow> h\<lparr>copyStatus := [], bip21Error := toUnifiedBip21Error inherited e\<rparr>)"

interpretation health: request_page "checkHealthEnds lang" homeAuth
  for lang
  by unfold_locales (simp_all add: checkHealthEnds_def)

lemma unified_error_nonempty: "toUnifiedBip21Error inherited e \<noteq> []"
  by (auto simp: toUnifiedBip21Error_def buildUiErrorMessage_def BIP21_UI_PREFIX_def split: thrown.splits option.splits)

lemma generated_when_no_error:
  assumes "bip21Error (handleGenerateBip21 inherited h) = []"
  obtains uri where "createBip21PaymentUri (homeForm h) = Inr uri"
  using assms that by (auto simp: handleGenerateBip21_def unified_error_nonempty split: sum.splits)

lemma form_regenerates:
  assumes "createBip21PaymentUri f = Inr uri"
  shows "createBip21PaymentUri \<lparr>form_address = trim (form_address f), form_amount = trim (form_amount f),
    form_memo = trim (form_memo f)\<rparr> = Inr uri"
proof -
  have "validateAddress (trim a) = validateAddress a" "validateAmountBip21 (trim a) = validateAmountBip21 a" for a
    by (simp_all add: validateAddress_def validateAmountBip21_def normalizeNonEmptyBip21_def Let_def)
  then show ?thesis
    using assms unfolding createBip21PaymentUri_def generate_Inr
    by (auto simp: trimmedMemo_def simp del: js_Cons)
qed

text \<open>
  C38: the payment form is stable. When the page has built a URI from the form (no error is shown),
  reading that URI back fills the form with the address, amount and memo the user typed,
  without surrounding white space, shows no error, and building the URI again gives the
  same URI. (The memo is well-formed text.)
\<close>

theorem home_form_stable:
  assumes "bip21Error (handleGenerateBip21 inherited h) = []" "isWellFormed (trim (homeMemo h))"
  shows "let h1 = handleParseBip21 inherited (handleGenerateBip21 inherited h)
    in homeForm h1 = \<lparr>form_address = trim (homeAddress h), form_amount = trim (homeAmount h),
         form_memo = trim (homeMemo h)\<rparr> \<and>
       bip21Error h1 = [] \<and> generatedUri (handleGenerateBip21 inherited h1) = generatedUri h1"
proof -
  obtain uri where uri: "createBip21PaymentUri (homeForm h) = Inr uri" using generated_when_no_error[OF assms(1)] .
  have "parseBip21Input uri = Inr \<lparr>form_address = trim (homeAddress h), form_amount = trim (homeAmount h),
      form_memo = trim (homeMemo h)\<rparr>"
    using generated_uri_parses[OF uri[unfolded createBip21PaymentUri_def]] assms(2)
    by (auto simp: parseBip21Input_def homeForm_def trimmedMemo_def)
  with uri form_regenerates[OF uri] show ?thesis
    by (simp add: handleParseBip21_def handleGenerateBip21_def homeForm_def Let_def)
qed

definition demo_home :: home_page where
  "demo_home = (openHomePage \<lparr>storage = None, session = None, invalidReason = []\<rparr>)
     \<lparr>homeAddress := js '' ab'', homeAmount := js ''1.5'', homeMemo := js ''x ''\<rparr>"

lemma demo_home_generates: "bip21Error (handleGenerateBip21 inherited demo_home) = []"
proof -
  have "rx_test SCHEME_REGEX (js ''bitcoin'')" by code_simp
  then have "validateScheme (js ''bitcoin'') = Inr (js ''bitcoin'')"
    by (simp add: validateScheme_Inr text_eval)
  moreover have "trim (js ''1.5'') = js ''1.5''" "trim (js ''x '') = js ''x''" by (simp_all add: text_eval)
  ultimately have "\<exists>uri. createBip21PaymentUri (homeForm demo_home) = Inr uri"
    using validate_soul unfolding createBip21PaymentUri_def generate_Inr
    by (simp add: homeForm_def demo_home_def del: js_Cons)
  then show ?thesis by (auto simp: handleGenerateBip21_def)
qed

theorem home_form_stable_witness:
  "homeForm (handleParseBip21 (\<lambda>_. None) (handleGenerateBip21 (\<lambda>_. None) demo_home)) =
     \<lparr>form_address = js ''ab'', form_amount = js ''1.5'', form_memo = js ''x''\<rparr>"
proof -
  have "isWellFormed (trim (homeMemo demo_home))"
    by (simp add: demo_home_def text_eval surrogate_defs)
  from home_form_stable[OF demo_home_generates this] show ?thesis
    by (simp add: Let_def demo_home_def text_eval)
qed

text \<open>
  The health check does not look at what it receives. An answer without a text as its
  \<open>status\<close> is stored as it is, and from then on the page cannot be rendered: computing the tone of
  the badge throws.
\<close>

theorem health_without_text_breaks_page:
  assumes "response \<noteq> JNull" "\<forall>t. member (Some response) (js ''status'') \<noteq> Some (JStr t)"
  shows "healthTone notText (checkHealthEnds lang (Inr response) h) = Inl (ExError notText)"
  using assms by (auto simp: healthTone_def checkHealthEnds_def split: option.splits json.splits)

theorem health_without_text_breaks_page_witness:
  "healthTone (js ''TypeError'') (checkHealthEnds \<lparr>templateText = (\<lambda>_. []), nullReadMessage = [], abortMessage = []\<rparr>
     (Inr (JObj [(js ''state'', JStr (js ''ok''))])) (openHomePage \<lparr>storage = None, session = None, invalidReason = []\<rparr>))
     = Inl (ExError (js ''TypeError''))"
  by (rule health_without_text_breaks_page) simp_all

end
