(* ===== verification/NotificationsPage.thy ===== *)
theory NotificationsPage
  imports PageLoad
begin

text \<open>
  \<open>pages/NotificationsPage.tsx\<close>: the paged list of notifications and the stream that adds to it. The
  effect that loads a page runs when the page is opened, when \<open>offset\<close> changes, and when \<open>signOut\<close> is a new
  function, which it is after a sign-in: the late answer to a login page that was left. An entry of the list is the JSON
  value received, since the code does not look into it before it is shown; the rest of an
  answer has its declared type. \<open>npPending\<close>, the offsets asked for and not yet answered, and \<open>npReruns\<close>, how
  often a new \<open>signOut\<close> has made the effect run, are kept for the proofs.
\<close>

datatype streamStatus = Connecting | StreamOpen | StreamClosed

record NotificationsResponse =
  notifItems :: "json list"
  notifTotal :: int
  notifOffset :: int
  notifLimit :: int
  notifHasMore :: bool

record notifications_page =
  npItems :: "json list"
  npLoading :: bool
  npError :: jstring
  npOffset :: int
  npHasMore :: bool
  npStream :: streamStatus
  npAuth :: auth
  npPending :: "int list"
  npReruns :: nat

definition NOTIFICATIONS_LIMIT :: nat where "NOTIFICATIONS_LIMIT = 20"

definition NOTIFICATIONS_FAILED_TEXT :: jstring where
  "NOTIFICATIONS_FAILED_TEXT = [36890, 30693, 26597, 35810, 22833, 36133]"

section \<open>Loading\<close>

definition runBegins :: "notifications_page \<Rightarrow> notifications_page" where
  "runBegins p = p\<lparr>npLoading := True, npPending := npPending p @ [npOffset p]\<rparr>"

text \<open>The effect after \<open>signOut\<close> was replaced.\<close>

definition notificationsRerun :: "notifications_page \<Rightarrow> notifications_page" where
  "notificationsRerun p = runBegins (p\<lparr>npReruns := Suc (npReruns p)\<rparr>)"

definition notificationsQuery :: "int \<Rightarrow> (jstring \<times> query_value option) list" where
  "notificationsQuery off = [(js ''limit'', Some (QNumber (num (int NOTIFICATIONS_LIMIT)))),
     (js ''offset'', Some (QNumber (num off)))]"

definition runShows :: "lang \<Rightarrow> (exn, NotificationsResponse) result \<Rightarrow> notifications_page \<Rightarrow> notifications_page" where
  "runShows lang answer p =
     (case answer of
        Inr response \<Rightarrow> p\<lparr>npItems := notifItems response, npHasMore := notifHasMore response, npError := []\<rparr>
      | Inl e \<Rightarrow>
          if isSessionInvalidError e then p\<lparr>npAuth := endSession (npAuth p)\<rparr>
          else p\<lparr>npError := failureText lang [] NOTIFICATIONS_FAILED_TEXT e\<rparr>)
     \<lparr>npLoading := False\<rparr>"

definition runEnds :: "lang \<Rightarrow> int \<Rightarrow> (exn, NotificationsResponse) result \<Rightarrow> notifications_page \<Rightarrow> notifications_page" where
  "runEnds lang off answer p = (runShows lang answer p)\<lparr>npPending := remove1 off (npPending p)\<rparr>"

text \<open>\<open>setOffset\<close>: React runs the effect again only when the value differs from the one before.\<close>

definition setOffset :: "int \<Rightarrow> notifications_page \<Rightarrow> notifications_page" where
  "setOffset off p = (if off = npOffset p then p else runBegins (p\<lparr>npOffset := off\<rparr>))"

definition openNotifications :: "auth \<Rightarrow> notifications_page" where
  "openNotifications a = runBegins \<lparr>npItems = [], npLoading = True, npError = [], npOffset = 0, npHasMore = False,
     npStream = Connecting, npAuth = a, npPending = [], npReruns = 0\<rparr>"

section \<open>The buttons\<close>

text \<open>The handler of each button behind its \<open>disabled\<close> attribute.\<close>

definition clickRefresh :: "notifications_page \<Rightarrow> notifications_page" where
  "clickRefresh p = (if npLoading p then p else setOffset 0 p)"

definition clickPrev :: "notifications_page \<Rightarrow> notifications_page" where
  "clickPrev p = (if npLoading p \<or> npOffset p = 0 then p else setOffset (max 0 (npOffset p - int NOTIFICATIONS_LIMIT)) p)"

definition clickNext :: "notifications_page \<Rightarrow> notifications_page" where
  "clickNext p = (if npLoading p \<or> \<not> npHasMore p then p else setOffset (npOffset p + int NOTIFICATIONS_LIMIT) p)"

section \<open>The stream\<close>

text \<open>
  The second effect opens the stream once; computing its address may throw. The subscriptions
  set the status and add messages in front, of which at most \<open>limit\<close> are kept; a message that is
  not JSON is dropped.
\<close>

definition openStream ::
  "(jstring \<Rightarrow> jstring \<Rightarrow> (exn, 'u) result) \<Rightarrow> ('u, 'r, 'w) web \<Rightarrow> app_env \<Rightarrow> notifications_page
     \<Rightarrow> (exn, jstring) result \<times> notifications_page" where
  "openStream newUrlOn web env p =
     (getNotificationsStreamUrl newUrlOn web env (Some (num (int NOTIFICATIONS_LIMIT))), p\<lparr>npStream := Connecting\<rparr>)"

definition streamOpened :: "notifications_page \<Rightarrow> notifications_page" where
  "streamOpened p = p\<lparr>npStream := StreamOpen\<rparr>"

definition streamFailed :: "notifications_page \<Rightarrow> notifications_page" where
  "streamFailed p = p\<lparr>npStream := StreamClosed\<rparr>"

definition streamMessage :: "(rat \<Rightarrow> jsnum) \<Rightarrow> jstring \<Rightarrow> notifications_page \<Rightarrow> notifications_page" where
  "streamMessage rnd data p =
     (case JSON_parse rnd data of
        Some parsed \<Rightarrow> p\<lparr>npItems := take NOTIFICATIONS_LIMIT (parsed # npItems p)\<rparr>
      | None \<Rightarrow> p)"

section \<open>The table\<close>

text \<open>
  \<open>new Date(value)\<close> and its text in the locale are parameters: \<open>dateText\<close> is \<open>None\<close> for an invalid
  date.
\<close>

definition formatTime :: "(json option \<Rightarrow> jstring option) \<Rightarrow> json option \<Rightarrow> json option" where
  "formatTime dateText v =
     (if \<not> truthy v then Some (JStr (js ''-''))
      else case dateText v of None \<Rightarrow> v | Some t \<Rightarrow> Some (JStr t))"

record notification_row =
  rowKey :: jstring
  rowCells :: "json option list"

text \<open>Reading a property of \<open>null\<close> throws.\<close>

definition notificationRow ::
  "lang \<Rightarrow> (json option \<Rightarrow> jstring option) \<Rightarrow> json \<Rightarrow> (exn, notification_row) result" where
  "notificationRow lang dateText notification =
     (if notification = JNull then Inl (ExError (nullReadMessage lang))
      else let cell = (\<lambda>k. member (Some notification) k) in
        Inr \<lparr>rowKey = templateText lang (cell (js ''id'')) @ js ''-'' @ templateText lang (cell (js ''receivedAt'')),
             rowCells = [cell (js ''id''), cell (js ''type''), cell (js ''height''),
               (if truthy (cell (js ''blockHash'')) then cell (js ''blockHash'') else Some (JStr (js ''-''))),
               formatTime dateText (cell (js ''receivedAt'')), cell (js ''payload'')]\<rparr>)"

fun notificationRows ::
  "lang \<Rightarrow> (json option \<Rightarrow> jstring option) \<Rightarrow> json list \<Rightarrow> (exn, notification_row list) result" where
  "notificationRows lang dateText [] = Inr []"
| "notificationRows lang dateText (n # ns) =
     ebind (notificationRow lang dateText n) (\<lambda>row.
       ebind (notificationRows lang dateText ns) (\<lambda>rows. Inr (row # rows)))"

definition showsEmptyText :: "notifications_page \<Rightarrow> bool" where
  "showsEmptyText p \<longleftrightarrow> \<not> npLoading p \<and> npItems p = []"

section \<open>Steps\<close>

inductive np_step :: "lang \<Rightarrow> (rat \<Rightarrow> jsnum) \<Rightarrow> notifications_page \<Rightarrow> notifications_page \<Rightarrow> bool" for lang rnd where
  np_answer: "off \<in> set (npPending p) \<Longrightarrow> np_step lang rnd p (runEnds lang off answer p)"
| np_refresh: "np_step lang rnd p (clickRefresh p)"
| np_prev: "np_step lang rnd p (clickPrev p)"
| np_next: "np_step lang rnd p (clickNext p)"
| np_opened: "np_step lang rnd p (streamOpened p)"
| np_failed: "np_step lang rnd p (streamFailed p)"
| np_message: "np_step lang rnd p (streamMessage rnd data p)"
| np_rerun: "np_step lang rnd p (notificationsRerun p)"

definition np_open :: "notifications_page \<Rightarrow> bool" where
  "np_open p \<longleftrightarrow> (\<exists>a. p = openNotifications a)"

lemmas np_load_defs = runEnds_def runShows_def runBegins_def setOffset_def
lemmas np_click_defs = clickRefresh_def clickPrev_def clickNext_def
lemmas np_stream_defs = streamOpened_def streamFailed_def streamMessage_def

lemma stream_keeps:
  "npReruns (streamMessage rnd data p) = npReruns p" "npLoading (streamMessage rnd data p) = npLoading p" "npPending (streamMessage rnd data p) = npPending p"
  "npOffset (streamMessage rnd data p) = npOffset p" "npAuth (streamMessage rnd data p) = npAuth p"
  by (simp_all add: streamMessage_def split: option.split)

lemma run_keeps:
  "npReruns (runEnds lang off answer p) = npReruns p" "npOffset (runEnds lang off answer p) = npOffset p" "\<not> npLoading (runEnds lang off answer p)"
  "npPending (runEnds lang off answer p) = remove1 off (npPending p)"
  by (simp_all add: runEnds_def runShows_def split: sum.split)

lemma setOffset_simps:
  "npReruns (setOffset off p) = npReruns p" "npOffset (setOffset off p) = off"
  "npLoading (setOffset off p) = (off \<noteq> npOffset p \<or> npLoading p)"
  "npPending (setOffset off p) = (if off = npOffset p then npPending p else npPending p @ [off])"
  by (simp_all add: setOffset_def runBegins_def)

lemma rerun_simps:
  "npReruns (notificationsRerun p) = Suc (npReruns p)" "npOffset (notificationsRerun p) = npOffset p"
  "npLoading (notificationsRerun p)" "npPending (notificationsRerun p) = npPending p @ [npOffset p]"
  by (simp_all add: notificationsRerun_def runBegins_def)

interpretation np_load: loading_page "runShows lang" npAuth runBegins npLoading
  for lang
  by unfold_locales (simp_all add: runShows_def runBegins_def)

interpretation np_single: single_load np_open "np_step lang rnd" npOffset npPending npLoading npReruns
  for lang rnd
proof (unfold_locales, goal_cases)
  case (1 s)
  then show ?case by (auto simp: np_open_def openNotifications_def runBegins_def)
next
  case (2 s s')
  then show ?case
  proof cases
    case (np_answer off answer)
    then show ?thesis by (auto simp: run_keeps)
  qed (auto simp: np_click_defs setOffset_simps stream_keeps streamOpened_def streamFailed_def rerun_simps)
qed

section \<open>Properties\<close>

lemma np_offset_inv:
  assumes "reach np_open (np_step lang rnd) p"
  shows "0 \<le> npOffset p \<and> int NOTIFICATIONS_LIMIT dvd npOffset p"
  using assms
proof (induction rule: reach_invariant)
  case (opened s)
  then show ?case by (auto simp: np_open_def openNotifications_def runBegins_def)
next
  case (step s s')
  from step(2,1) show ?case
  proof cases
    case np_prev
    then show ?thesis using step(1) by (auto simp: clickPrev_def setOffset_simps max_def)
  qed (auto simp: np_click_defs setOffset_simps run_keeps stream_keeps streamOpened_def streamFailed_def rerun_simps)
qed

text \<open>
  The notification page asks for one page at a time and shows the answer to the
  page it names. In every reachable state the offset is a non-negative multiple of the
  page size, while the page is loading the last request made is for the offset shown, and other requests are under way
  only after a replaced session has run the load again; without that it is loading exactly while one request is under
  way, and the answer, whatever it is, makes the page usable again.
\<close>

theorem notifications_one_request:
  assumes "reach np_open (np_step lang rnd) p"
  shows "0 \<le> npOffset p \<and> int NOTIFICATIONS_LIMIT dvd npOffset p \<and>
    (npLoading p \<longrightarrow> npPending p \<noteq> [] \<and> last (npPending p) = npOffset p) \<and>
    length (npPending p) \<le> (if npLoading p then 1 else 0) + npReruns p \<and>
    (npReruns p = 0 \<longrightarrow> npPending p = (if npLoading p then [npOffset p] else []) \<and>
       \<not> npLoading (runEnds lang (npOffset p) answer p) \<and> npPending (runEnds lang (npOffset p) answer p) = [])"
  using np_single.one_request[OF assms] np_single.requests_bounded[OF assms] np_offset_inv[OF assms] by (simp add: run_keeps)

definition demo_lang :: lang where
  "demo_lang = \<lparr>templateText = (\<lambda>_. []), nullReadMessage = [], abortMessage = []\<rparr>"

definition demo_auth :: auth where
  "demo_auth = \<lparr>storage = None, session = Some JNull, invalidReason = []\<rparr>"

definition demo_notifications :: notifications_page where
  "demo_notifications = clickNext (runEnds demo_lang 0
     (Inr \<lparr>notifItems = [], notifTotal = 30, notifOffset = 0, notifLimit = 20, notifHasMore = True\<rparr>)
     (openNotifications demo_auth))"

theorem notifications_one_request_witness:
  "\<forall>answer. npPending demo_notifications = [20] \<and> npOffset demo_notifications = 20 \<and>
     \<not> npLoading (runEnds demo_lang 20 answer demo_notifications)"
proof
  fix answer
  let ?answer = "Inr \<lparr>notifItems = [], notifTotal = 30, notifOffset = 0, notifLimit = 20, notifHasMore = True\<rparr>"
  let ?step = "np_step demo_lang Fin"
  have "reach np_open ?step (openNotifications demo_auth)" by (rule reach_open) (auto simp: np_open_def)
  then have "reach np_open ?step (runEnds demo_lang 0 ?answer (openNotifications demo_auth))"
    by (rule reach_step) (rule np_answer, simp add: openNotifications_def runBegins_def)
  then have "reach np_open ?step demo_notifications"
    unfolding demo_notifications_def by (rule reach_step) (rule np_next)
  from notifications_one_request[OF this, of answer]
  show "npPending demo_notifications = [20] \<and> npOffset demo_notifications = 20 \<and>
     \<not> npLoading (runEnds demo_lang 20 answer demo_notifications)"
    by (simp add: demo_notifications_def np_load_defs clickNext_def openNotifications_def NOTIFICATIONS_LIMIT_def)
qed

lemma take_append_take: "take n (xs @ take n ys) = take n (xs @ ys)"
  by (simp add: take_append min_def)

lemma stream_items:
  "npItems (fold (streamMessage rnd) ms p) =
     (if List.map_filter (JSON_parse rnd) ms = [] then npItems p
      else take NOTIFICATIONS_LIMIT (rev (List.map_filter (JSON_parse rnd) ms) @ npItems p))"
proof (induction ms arbitrary: p)
  case (Cons m ms)
  then show ?case
    by (cases "JSON_parse rnd m") (simp_all add: map_filter_simps streamMessage_def take_append_take)
qed (simp add: map_filter_simps)

lemma stream_rest:
  "(fold (streamMessage rnd) ms p)\<lparr>npItems := xs\<rparr> = p\<lparr>npItems := xs\<rparr>"
  by (induction ms arbitrary: p) (simp_all add: streamMessage_def split: option.split)

text \<open>
  C32: The stream. After any sequence of messages the list holds the messages that are JSON, the
  latest first, in front of what it held before, cut to the page size; messages that
  are not JSON change nothing, and the rest of the page (offset, loading, error, status of the stream,
  session) is never touched.
\<close>

theorem stream_messages:
  "fold (streamMessage rnd) ms p =
     (let received = rev (List.map_filter (JSON_parse rnd) ms)
      in p\<lparr>npItems := (if received = [] then npItems p else take NOTIFICATIONS_LIMIT (received @ npItems p))\<rparr>)"
proof -
  have "fold (streamMessage rnd) ms p = (fold (streamMessage rnd) ms p)\<lparr>npItems := npItems (fold (streamMessage rnd) ms p)\<rparr>"
    by simp
  also have "\<dots> = p\<lparr>npItems := npItems (fold (streamMessage rnd) ms p)\<rparr>" by (rule stream_rest)
  finally show ?thesis by (simp add: stream_items Let_def)
qed

text \<open>
  The stream can take the page down. One message whose text is \<open>null\<close> is JSON, is put in front of
  the list, and rendering the table then throws.
\<close>

theorem null_message_breaks_table:
  "notificationRows lang dateText (npItems (streamMessage rnd (js ''null'') p)) = Inl (ExError (nullReadMessage lang))"
proof -
  have "JSON_parse rnd (js ''null'') = Some JNull" 
    using json_roundtrip[of "[]" rnd "\<lambda>_. []" JNull] by (simp add: JSON_stringify_def isGap_def)
  then show ?thesis by (simp add: streamMessage_def NOTIFICATIONS_LIMIT_def notificationRow_def)
qed

text \<open>
  The refresh button of the first page does nothing: it sets the offset to the value it has, so the
  list is not asked for again.
\<close>

theorem refresh_on_first_page: "npOffset p = 0 \<Longrightarrow> clickRefresh p = p"
  by (simp add: clickRefresh_def setOffset_def)

theorem refresh_on_first_page_witness:
  "clickRefresh (openNotifications demo_auth) = openNotifications demo_auth"
  by (rule refresh_on_first_page) (simp add: openNotifications_def runBegins_def)

end
