(* ===== verification/EventsPage.thy ===== *)
theory EventsPage
  imports PageLoad EventExport
begin

text \<open>
  \<open>pages/EventsPage.tsx\<close>: the filtered and paged table of indexer events and the four exports. The effect
  that loads the rows runs when the page is opened, whenever \<open>offset\<close> or the object \<open>queryState\<close> changes, and
  when \<open>signOut\<close> is a new function, which it is after a sign-in: the late answer to a login page that was left.
  An answer of the server has its declared type (\<open>IndexerEventsResponse\<close>). An abort
  controller is a number, its order of creation. Kept for the proofs: \<open>epPending\<close>, the requests
  for rows not yet answered; \<open>epReruns\<close>, how often a new \<open>signOut\<close> has made the effect run; \<open>epControllers\<close> and \<open>epAborted\<close>, the controllers made and aborted;
  \<open>epExports\<close>, the exports under way with the filters they were started with; \<open>epDownloads\<close>, the files
  handed to the browser.
\<close>

section \<open>Filters and cells\<close>

definition PAGE_SIZE_OPTIONS :: "int list" where "PAGE_SIZE_OPTIONS = [10, 20, 50]"
definition EVENTS_RETRY_COUNT :: rat where "EVENTS_RETRY_COUNT = 2"
definition EVENTS_RETRY_BACKOFF_MS :: rat where "EVENTS_RETRY_BACKOFF_MS = 250"
definition MAX_EXPORT_RECORDS :: int where "MAX_EXPORT_RECORDS = 10000"

datatype event_order = Asc | Desc

fun orderText :: "event_order \<Rightarrow> jstring" where
  "orderText Asc = js ''asc''"
| "orderText Desc = js ''desc''"

record EventsQueryState =
  qsLimit :: int
  qsOrder :: event_order
  qsType :: "jstring option"
  qsMinHeight :: "int option"
  qsMaxHeight :: "int option"

definition parseHeightFilter :: "(rat \<Rightarrow> jsnum) \<Rightarrow> jstring \<Rightarrow> int option" where
  "parseHeightFilter rnd value =
     (let trimmed = trim value in
      if trimmed = [] then None
      else let parsed = toNumber rnd trimmed in
        if \<not> isInteger parsed \<or> num_less parsed (Fin 0) then None else Some (int (index_value parsed)))"

definition formatEventPayload :: "(rat \<Rightarrow> jsnum) \<Rightarrow> (jsnum \<Rightarrow> jstring) \<Rightarrow> jstring \<Rightarrow> jstring" where
  "formatEventPayload rnd other text =
     (case JSON_parse rnd text of Some parsed \<Rightarrow> JSON_stringify other [] parsed | None \<Rightarrow> text)"

text \<open>\<open>dateText\<close>: the date a text stands for as the locale writes it, \<open>None\<close> for an invalid date.\<close>

definition formatEventTime :: "(jstring \<Rightarrow> jstring option) \<Rightarrow> jstring \<Rightarrow> jstring" where
  "formatEventTime dateText value = (if value = [] then js ''-'' else nullish (dateText value) value)"

section \<open>The state of the page\<close>

record events_page =
  epData :: "IndexerEventsResponse option"
  epLoading :: bool
  epError :: jstring
  epOffset :: int
  epQuery :: EventsQueryState
  epLimitInput :: int
  epOrderInput :: event_order
  epTypeInput :: jstring
  epMinInput :: jstring
  epMaxInput :: jstring
  epLifecycle :: "RequestLifecycleEvent option"
  epLifecycleRef :: "RequestLifecycleEvent option"
  epExportingAll :: bool
  epProgress :: jstring
  epAbortRef :: "nat option"
  epAuth :: auth
  epPending :: "(int \<times> EventsQueryState) list"
  epReruns :: nat
  epControllers :: nat
  epAborted :: "nat list"
  epExports :: "(nat \<times> export_format \<times> EventsQueryState) list"
  epDownloads :: "(jstring \<times> jstring \<times> jstring) list"

definition initialQuery :: EventsQueryState where
  "initialQuery = \<lparr>qsLimit = hd PAGE_SIZE_OPTIONS, qsOrder = Desc, qsType = None, qsMinHeight = None, qsMaxHeight = None\<rparr>"

section \<open>Loading the rows\<close>

definition eventsQuery :: "int \<Rightarrow> EventsQueryState \<Rightarrow> (jstring \<times> query_value option) list" where
  "eventsQuery nextOffset nextQuery =
     [(js ''limit'', Some (QNumber (num (qsLimit nextQuery)))), (js ''offset'', Some (QNumber (num nextOffset))),
      (js ''order'', Some (QString (orderText (qsOrder nextQuery)))), (js ''type'', map_option QString (qsType nextQuery)),
      (js ''minHeight'', map_option (\<lambda>h. QNumber (num h)) (qsMinHeight nextQuery)),
      (js ''maxHeight'', map_option (\<lambda>h. QNumber (num h)) (qsMaxHeight nextQuery))]"

definition eventsOptions :: IndexerEventsRequestOptions where
  "eventsOptions = \<lparr>evRetryCount = Some EVENTS_RETRY_COUNT, evRetryBackoffMs = Some EVENTS_RETRY_BACKOFF_MS,
     evTrace = Some \<lparr>traceFeature = js ''events_page'', traceAction = js ''fetch_events'', traceRequestId = None\<rparr>,
     evObserved = True\<rparr>"

definition loadEventsBegins :: "events_page \<Rightarrow> events_page" where
  "loadEventsBegins p = p\<lparr>epLoading := True, epPending := epPending p @ [(epOffset p, epQuery p)]\<rparr>"

text \<open>The effect after \<open>signOut\<close> was replaced.\<close>

definition eventsRerun :: "events_page \<Rightarrow> events_page" where
  "eventsRerun p = loadEventsBegins (p\<lparr>epReruns := Suc (epReruns p)\<rparr>)"

definition onLifecycle :: "RequestLifecycleEvent \<Rightarrow> events_page \<Rightarrow> events_page" where
  "onLifecycle event p = p\<lparr>epLifecycleRef := Some event, epLifecycle := Some event\<rparr>"

definition loadEventsShows :: "lang \<Rightarrow> (exn, IndexerEventsResponse) result \<Rightarrow> events_page \<Rightarrow> events_page" where
  "loadEventsShows lang answer p =
     (case answer of
        Inr response \<Rightarrow> p\<lparr>epData := Some response, epError := []\<rparr>
      | Inl e \<Rightarrow>
          if isSessionInvalidError e then p\<lparr>epAuth := endSession (epAuth p)\<rparr>
          else p\<lparr>epError := failureText lang (attributionText (epLifecycleRef p)) UNKNOWN_ERROR_TEXT e\<rparr>)
     \<lparr>epLoading := False\<rparr>"

definition loadEventsEnds ::
  "lang \<Rightarrow> int \<times> EventsQueryState \<Rightarrow> (exn, IndexerEventsResponse) result \<Rightarrow> events_page \<Rightarrow> events_page" where
  "loadEventsEnds lang asked answer p = (loadEventsShows lang answer p)\<lparr>epPending := remove1 asked (epPending p)\<rparr>"

text \<open>A whole load without other steps in between; \<open>decode\<close> reads an answer at its declared type.\<close>

definition loadEvents ::
  "lang \<Rightarrow> (json \<Rightarrow> IndexerEventsResponse) \<Rightarrow> ('u, 'r, 'w) web \<Rightarrow> client_config \<Rightarrow> 'w \<Rightarrow> events_page \<Rightarrow> events_page" where
  "loadEvents lang decode web cfg w p =
     (case getIndexerEvents (eventsQuery (epOffset p) (epQuery p)) eventsOptions web cfg w of
        (answer, rs) \<Rightarrow> loadEventsEnds lang (epOffset p, epQuery p)
          (case answer of Inl e \<Rightarrow> Inl e | Inr data \<Rightarrow> Inr (decode data))
          (fold onLifecycle (events rs) (loadEventsBegins p)))"

definition openEventsPage :: "auth \<Rightarrow> events_page" where
  "openEventsPage a = loadEventsBegins
     \<lparr>epData = None, epLoading = True, epError = [], epOffset = 0, epQuery = initialQuery,
      epLimitInput = hd PAGE_SIZE_OPTIONS, epOrderInput = Desc, epTypeInput = [], epMinInput = [], epMaxInput = [],
      epLifecycle = None, epLifecycleRef = None, epExportingAll = False, epProgress = [], epAbortRef = None, epAuth = a,
      epPending = [], epReruns = 0, epControllers = 0, epAborted = [], epExports = [], epDownloads = []\<rparr>"

section \<open>Derived values\<close>

definition epEvents :: "events_page \<Rightarrow> IndexerEvent list" where
  "epEvents p = (case epData p of None \<Rightarrow> [] | Some response \<Rightarrow> pageEvents response)"

definition currentPage :: "events_page \<Rightarrow> int" where
  "currentPage p = epOffset p div qsLimit (epQuery p) + 1"

definition canPrev :: "events_page \<Rightarrow> bool" where
  "canPrev p \<longleftrightarrow> epOffset p > 0"

definition canNext :: "events_page \<Rightarrow> bool" where
  "canNext p \<longleftrightarrow> (case epData p of None \<Rightarrow> False | Some response \<Rightarrow> pageHasMore response)"

section \<open>Filters and paging\<close>

text \<open>
  React runs the effect after \<open>setOffset\<close> only when the value changes, and after \<open>setQueryState\<close>
  always: the object is a new one.
\<close>

definition setEventsOffset :: "int \<Rightarrow> events_page \<Rightarrow> events_page" where
  "setEventsOffset off p = (if off = epOffset p then p else loadEventsBegins (p\<lparr>epOffset := off\<rparr>))"

definition setEventsQuery :: "EventsQueryState \<Rightarrow> events_page \<Rightarrow> events_page" where
  "setEventsQuery q p = loadEventsBegins (p\<lparr>epOffset := 0, epQuery := q, epError := []\<rparr>)"

definition HEIGHT_TEXT :: jstring where
  "HEIGHT_TEXT = [39640, 24230, 31579, 36873, 24517, 39035, 26159, 22823, 20110, 31561, 20110] @ js '' 0 '' @ [30340, 25972, 25968]"
definition HEIGHT_ORDER_TEXT :: jstring where
  "HEIGHT_ORDER_TEXT = [26368, 23567, 39640, 24230, 19981, 33021, 22823, 20110, 26368, 22823, 39640, 24230]"

definition applyFilters :: "(rat \<Rightarrow> jsnum) \<Rightarrow> events_page \<Rightarrow> events_page" where
  "applyFilters rnd p =
     (let minHeight = parseHeightFilter rnd (epMinInput p); maxHeight = parseHeightFilter rnd (epMaxInput p)
      in if (trim (epMinInput p) \<noteq> [] \<and> minHeight = None) \<or> (trim (epMaxInput p) \<noteq> [] \<and> maxHeight = None)
         then p\<lparr>epError := HEIGHT_TEXT\<rparr>
         else if (case (minHeight, maxHeight) of (Some a, Some b) \<Rightarrow> a > b | _ \<Rightarrow> False)
         then p\<lparr>epError := HEIGHT_ORDER_TEXT\<rparr>
         else setEventsQuery
           \<lparr>qsLimit = epLimitInput p, qsOrder = epOrderInput p,
            qsType = (if trim (epTypeInput p) = [] then None else Some (trim (epTypeInput p))),
            qsMinHeight = minHeight, qsMaxHeight = maxHeight\<rparr> p)"

definition resetFilters :: "events_page \<Rightarrow> events_page" where
  "resetFilters p = setEventsQuery initialQuery
     (p\<lparr>epLimitInput := hd PAGE_SIZE_OPTIONS, epOrderInput := Desc, epTypeInput := [], epMinInput := [], epMaxInput := []\<rparr>)"

text \<open>The inputs and buttons are disabled while loading.\<close>

datatype filter_input = LimitIn nat | OrderIn event_order | TypeIn jstring | MinIn jstring | MaxIn jstring

fun changeInput :: "filter_input \<Rightarrow> events_page \<Rightarrow> events_page" where
  "changeInput (LimitIn i) p =
     (if i < length PAGE_SIZE_OPTIONS then p\<lparr>epLimitInput := PAGE_SIZE_OPTIONS ! i\<rparr> else p)"
| "changeInput (OrderIn d) p = p\<lparr>epOrderInput := d\<rparr>"
| "changeInput (TypeIn t) p = p\<lparr>epTypeInput := t\<rparr>"
| "changeInput (MinIn t) p = p\<lparr>epMinInput := t\<rparr>"
| "changeInput (MaxIn t) p = p\<lparr>epMaxInput := t\<rparr>"

text \<open>
  The buttons, here and below, are those of the markup: a click runs the handler, or nothing while the
  \<open>disabled\<close> attribute of the button is set. The handlers themselves test nothing of that.
\<close>

definition clickPrevPage :: "events_page \<Rightarrow> events_page" where
  "clickPrevPage p =
     (if epLoading p \<or> \<not> canPrev p then p else setEventsOffset (max (epOffset p - qsLimit (epQuery p)) 0) p)"

definition clickNextPage :: "events_page \<Rightarrow> events_page" where
  "clickNextPage p =
     (if epLoading p \<or> \<not> canNext p then p else setEventsOffset (epOffset p + qsLimit (epQuery p)) p)"

definition clickRefreshList :: "events_page \<Rightarrow> events_page" where
  "clickRefreshList p = (if epLoading p then p else setEventsOffset 0 p)"

section \<open>Exports\<close>

text \<open>
  The exports to JSON and to CSV are the same code up to the serializer, the extension and the media
  type. \<open>moment\<close> is the local time at which the name of the file is made.
\<close>

definition serializeAs :: "(jsnum \<Rightarrow> jstring) \<Rightarrow> export_format \<Rightarrow> IndexerEvent list \<Rightarrow> jstring" where
  "serializeAs other format evs =
     (case format of FormatJson \<Rightarrow> serializeEventsToJson other evs | FormatCsv \<Rightarrow> serializeEventsToCsv evs)"

definition mimeType :: "export_format \<Rightarrow> jstring" where
  "mimeType format =
     (case format of FormatJson \<Rightarrow> js ''application/json;charset=utf-8'' | FormatCsv \<Rightarrow> js ''text/csv;charset=utf-8'')"

definition downloadEvents ::
  "(jsnum \<Rightarrow> jstring) \<Rightarrow> local_time \<Rightarrow> export_format \<Rightarrow> IndexerEvent list \<Rightarrow> events_page \<Rightarrow> events_page" where
  "downloadEvents other moment format evs p = p\<lparr>epDownloads := epDownloads p @
     [(serializeAs other format evs, buildEventsExportFileName format moment, mimeType format)]\<rparr>"

definition NO_PAGE_EVENTS_TEXT :: jstring where
  "NO_PAGE_EVENTS_TEXT = [24403, 21069, 39029, 27809, 26377, 21487, 23548, 20986, 30340, 20107, 20214, 25968, 25454]"

definition exportAs :: "(jsnum \<Rightarrow> jstring) \<Rightarrow> local_time \<Rightarrow> export_format \<Rightarrow> events_page \<Rightarrow> events_page" where
  "exportAs other moment format p =
     (if epEvents p = [] then p\<lparr>epError := NO_PAGE_EVENTS_TEXT\<rparr>
      else (downloadEvents other moment format (epEvents p) p)\<lparr>epError := []\<rparr>)"

definition EXPORT_STARTED_TEXT :: jstring where
  "EXPORT_STARTED_TEXT = [24320, 22987, 25289, 21462, 20107, 20214] @ js ''...''"
definition NO_EVENTS_TEXT :: jstring where
  "NO_EVENTS_TEXT = [31579, 36873, 26465, 20214, 19979, 27809, 26377, 21487, 23548, 20986, 30340, 20107, 20214, 25968, 25454]"
definition EXPORT_CANCELLED_TEXT :: jstring where
  "EXPORT_CANCELLED_TEXT = [23548, 20986, 24050, 21462, 28040]"
definition EXPORT_LIMIT_TEXT :: jstring where
  "EXPORT_LIMIT_TEXT = [23548, 20986, 25968, 25454, 37327, 36229, 36807] @ js '' '' @ intString MAX_EXPORT_RECORDS @ js '' '' @
     [26465, 19978, 38480, 65292, 35831, 25910, 31364, 31579, 36873, 26465, 20214, 21518, 37325, 35797]"
definition EXPORT_FAILED_TEXT :: jstring where
  "EXPORT_FAILED_TEXT = [20840, 37327, 23548, 20986, 22833, 36133]"

definition abortCurrent :: "events_page \<Rightarrow> events_page" where
  "abortCurrent p = (case epAbortRef p of None \<Rightarrow> p | Some c \<Rightarrow> p\<lparr>epAborted := c # epAborted p\<rparr>)"

definition exportAllBegins :: "export_format \<Rightarrow> events_page \<Rightarrow> events_page" where
  "exportAllBegins format p =
     (let p1 = abortCurrent p; c = epControllers p
      in p1\<lparr>epControllers := Suc c, epAbortRef := Some c, epExportingAll := True, epProgress := EXPORT_STARTED_TEXT,
            epExports := epExports p @ [(c, format, epQuery p)]\<rparr>)"

definition exportQuery :: "EventsQueryState \<Rightarrow> IndexerEventsQuery" where
  "exportQuery q = \<lparr>queryOrder = Some (orderText (qsOrder q)), queryType = qsType q, queryMinHeight = qsMinHeight q,
     queryMaxHeight = qsMaxHeight q, queryLimit = None, queryOffset = None\<rparr>"

definition exportOptions :: "('w \<Rightarrow> bool) \<Rightarrow> 'w CollectAllEventsOptions" where
  "exportOptions signalled = \<lparr>pageSize = None, maxPages = None, maxRecords = Some MAX_EXPORT_RECORDS, aborted = signalled\<rparr>"

definition onProgress :: "int \<times> nat \<Rightarrow> events_page \<Rightarrow> events_page" where
  "onProgress snapshot p = (case snapshot of (page, totalCollected) \<Rightarrow>
     p\<lparr>epProgress := [24050, 25289, 21462] @ js '' '' @ intString page @ js '' '' @ [39029, 65292, 32047, 35745] @ js '' '' @
       natString totalCollected @ js '' '' @ [26465]\<rparr>)"

definition exportDoneText :: "nat \<Rightarrow> jstring" where
  "exportDoneText n = [23548, 20986, 23436, 25104, 65292, 20849] @ js '' '' @ natString n @ js '' '' @ [26465]"

definition exportErrorText :: "lang \<Rightarrow> exn \<Rightarrow> jstring" where
  "exportErrorText lang e =
     (case e of ExApi err \<Rightarrow> apiMessage err | ExError m \<Rightarrow> m | ExAbort \<Rightarrow> abortMessage lang | ExValue _ \<Rightarrow> EXPORT_FAILED_TEXT)"

definition exportAllShows ::
  "lang \<Rightarrow> (jsnum \<Rightarrow> jstring) \<Rightarrow> local_time \<Rightarrow> export_format \<Rightarrow> collect_result \<Rightarrow> events_page \<Rightarrow> events_page" where
  "exportAllShows lang other moment format answer p =
     (case answer of
        Inr allEvents \<Rightarrow>
          if allEvents = [] then p\<lparr>epError := NO_EVENTS_TEXT, epProgress := []\<rparr>
          else (downloadEvents other moment format allEvents p)
            \<lparr>epError := [], epProgress := exportDoneText (length allEvents)\<rparr>
      | Inl e \<Rightarrow>
          if isExportCancelledError e then p\<lparr>epProgress := EXPORT_CANCELLED_TEXT\<rparr>
          else if isExportLimitExceededError e then p\<lparr>epProgress := [], epError := EXPORT_LIMIT_TEXT\<rparr>
          else if isSessionInvalidError e then p\<lparr>epAuth := endSession (epAuth p), epProgress := []\<rparr>
          else p\<lparr>epProgress := [], epError := exportErrorText lang e\<rparr>)"

definition exportAllEnds ::
  "lang \<Rightarrow> (jsnum \<Rightarrow> jstring) \<Rightarrow> local_time \<Rightarrow> nat \<times> export_format \<times> EventsQueryState \<Rightarrow> collect_result
     \<Rightarrow> events_page \<Rightarrow> events_page" where
  "exportAllEnds lang other moment export answer p =
     (case export of (c, format, q) \<Rightarrow>
        (let p1 = exportAllShows lang other moment format answer p
         in p1\<lparr>epAbortRef := (if epAbortRef p1 = Some c then None else epAbortRef p1), epExportingAll := False,
               epExports := remove1 export (epExports p1)\<rparr>))"

definition cancelExport :: "events_page \<Rightarrow> events_page" where
  "cancelExport p = abortCurrent p"

text \<open>
  A whole export without other steps in between; \<open>signalled\<close> tells in the state of the world whether the signal of the
  export is aborted.
\<close>

definition exportAll ::
  "lang \<Rightarrow> (jsnum \<Rightarrow> jstring) \<Rightarrow> local_time \<Rightarrow> 'w fetch_page \<Rightarrow> ('w \<Rightarrow> bool) \<Rightarrow> 'w \<Rightarrow> export_format
     \<Rightarrow> events_page \<Rightarrow> events_page" where
  "exportAll lang other moment fetchPage signalled w format p =
     (case collectAllEvents fetchPage (exportQuery (epQuery p)) (exportOptions signalled) w of
        (answer, cs) \<Rightarrow> exportAllEnds lang other moment (epControllers p, format, epQuery p) answer
          (fold onProgress (progress cs) (exportAllBegins format p)))"

text \<open>The page fetcher of the exports: requests without options of their own.\<close>

definition exportFetch ::
  "(json \<Rightarrow> IndexerEventsResponse) \<Rightarrow> ('u, 'r, 'w) web \<Rightarrow> client_config \<Rightarrow> 'w fetch_page" where
  "exportFetch decode web cfg query w =
     (case getIndexerEvents
        [(js ''order'', map_option QString (queryOrder query)), (js ''type'', map_option QString (queryType query)),
         (js ''minHeight'', map_option (\<lambda>h. QNumber (num h)) (queryMinHeight query)),
         (js ''maxHeight'', map_option (\<lambda>h. QNumber (num h)) (queryMaxHeight query)),
         (js ''limit'', map_option (\<lambda>n. QNumber (num n)) (queryLimit query)),
         (js ''offset'', map_option (\<lambda>n. QNumber (num n)) (queryOffset query))]
        \<lparr>evRetryCount = None, evRetryBackoffMs = None, evTrace = None, evObserved = False\<rparr> web cfg w of
        (answer, rs) \<Rightarrow> (case answer of Inl e \<Rightarrow> Inl e | Inr data \<Rightarrow> Inr (decode data), world rs))"

definition clickExport :: "(jsnum \<Rightarrow> jstring) \<Rightarrow> local_time \<Rightarrow> export_format \<Rightarrow> events_page \<Rightarrow> events_page" where
  "clickExport other moment format p =
     (if epLoading p \<or> epExportingAll p \<or> epEvents p = [] then p else exportAs other moment format p)"

definition clickExportAll :: "export_format \<Rightarrow> events_page \<Rightarrow> events_page" where
  "clickExportAll format p = (if epLoading p \<or> epExportingAll p then p else exportAllBegins format p)"

definition clickCancel :: "events_page \<Rightarrow> events_page" where
  "clickCancel p = (if \<not> epExportingAll p then p else cancelExport p)"

definition clickApply :: "(rat \<Rightarrow> jsnum) \<Rightarrow> events_page \<Rightarrow> events_page" where
  "clickApply rnd p = (if epLoading p then p else applyFilters rnd p)"

definition clickReset :: "events_page \<Rightarrow> events_page" where
  "clickReset p = (if epLoading p then p else resetFilters p)"

section \<open>The table\<close>

definition eventRow ::
  "(rat \<Rightarrow> jsnum) \<Rightarrow> (jsnum \<Rightarrow> jstring) \<Rightarrow> (jstring \<Rightarrow> jstring option) \<Rightarrow> IndexerEvent \<Rightarrow> jstring list \<times> jstring" where
  "eventRow rnd other dateText event =
     ([eventId event, eventType event, intString (eventHeight event), orDefault (blockHash event) (js ''-''),
       formatEventTime dateText (producedAt event), formatEventPayload rnd other (payload event)],
      js ''/events/'' @ eventId event)"

text \<open>The values of the line above the table that depend on the page, and the line on the last request.\<close>

definition eventsMeta :: "events_page \<Rightarrow> jstring list" where
  "eventsMeta p =
     (let q = epQuery p; height = (\<lambda>h. case h of None \<Rightarrow> js ''-'' | Some n \<Rightarrow> intString n)
      in [intString (case epData p of None \<Rightarrow> 0 | Some r \<Rightarrow> pageTotal r), intString (currentPage p),
          intString (epOffset p), intString (qsLimit q), orderText (qsOrder q),
          nullish (qsType q) [20840, 37096], height (qsMinHeight q), height (qsMaxHeight q)])"

fun stageText :: "stage \<Rightarrow> jstring" where
  "stageText Start = js ''start''"
| "stageText Retry = js ''retry''"
| "stageText Success = js ''success''"
| "stageText Failure = js ''failure''"

definition lifecycleMeta :: "(jsnum \<Rightarrow> jstring) \<Rightarrow> RequestLifecycleEvent option \<Rightarrow> jstring" where
  "lifecycleMeta numText lastEvent =
     (let dash = js ''-'';
          (st, rid, att, dur, attr) = (case lastEvent of
             None \<Rightarrow> (dash, dash, dash, dash, dash)
           | Some e \<Rightarrow> (stageText (evStage e), evRequestId e,
               intString (evAttempt e + 1) @ js ''/'' @ numText (Fin (evMaxRetries e + 1)), intString (evDurationMs e),
               (case evAttribution e of
                  None \<Rightarrow> dash
                | Some a \<Rightarrow> layerText (attrLayer a) @ js ''/'' @ attrReason a @ js ''/'' @ nullish (attrCode a) dash)))
      in [35831, 27714, 35266, 27979] @ js '': stage='' @ st @ js '' requestId='' @ rid @ js '' attempt='' @ att @
         js '' duration='' @ dur @ js ''ms attribution='' @ attr)"

definition showsNoEvents :: "events_page \<Rightarrow> bool" where
  "showsNoEvents p \<longleftrightarrow> \<not> epLoading p \<and> epEvents p = []"

section \<open>Steps\<close>

inductive ep_step :: "lang \<Rightarrow> (rat \<Rightarrow> jsnum) \<Rightarrow> (jsnum \<Rightarrow> jstring) \<Rightarrow> events_page \<Rightarrow> events_page \<Rightarrow> bool"
  for lang rnd other where
  ep_answer: "asked \<in> set (epPending p) \<Longrightarrow> ep_step lang rnd other p (loadEventsEnds lang asked answer p)"
| ep_observed: "ep_step lang rnd other p (onLifecycle event p)"
| ep_input: "\<not> epLoading p \<Longrightarrow> ep_step lang rnd other p (changeInput i p)"
| ep_apply: "ep_step lang rnd other p (clickApply rnd p)"
| ep_reset: "ep_step lang rnd other p (clickReset p)"
| ep_refresh: "ep_step lang rnd other p (clickRefreshList p)"
| ep_prev: "ep_step lang rnd other p (clickPrevPage p)"
| ep_next: "ep_step lang rnd other p (clickNextPage p)"
| ep_export: "ep_step lang rnd other p (clickExport other moment format p)"
| ep_export_all: "ep_step lang rnd other p (clickExportAll format p)"
| ep_progress: "epExports p \<noteq> [] \<Longrightarrow> ep_step lang rnd other p (onProgress snapshot p)"
| ep_exported: "export \<in> set (epExports p) \<Longrightarrow> ep_step lang rnd other p (exportAllEnds lang other moment export answer p)"
| ep_cancel: "ep_step lang rnd other p (clickCancel p)"
| ep_rerun: "ep_step lang rnd other p (eventsRerun p)"

definition ep_open :: "events_page \<Rightarrow> bool" where
  "ep_open p \<longleftrightarrow> (\<exists>a. p = openEventsPage a)"

section \<open>What each operation keeps\<close>

lemmas click_defs = clickApply_def clickReset_def clickRefreshList_def clickPrevPage_def clickNextPage_def
  clickExport_def clickExportAll_def clickCancel_def

lemma loadEventsShows_keeps [simp]:
  "epReruns (loadEventsShows lang answer p) = epReruns p" "epOffset (loadEventsShows lang answer p) = epOffset p" "epQuery (loadEventsShows lang answer p) = epQuery p"
  "epLimitInput (loadEventsShows lang answer p) = epLimitInput p" "\<not> epLoading (loadEventsShows lang answer p)"
  "epExportingAll (loadEventsShows lang answer p) = epExportingAll p" "epAbortRef (loadEventsShows lang answer p) = epAbortRef p"
  "epExports (loadEventsShows lang answer p) = epExports p" "epControllers (loadEventsShows lang answer p) = epControllers p"
  "epDownloads (loadEventsShows lang answer p) = epDownloads p"
  by (simp_all add: loadEventsShows_def split: sum.split)

lemma exportAllShows_keeps [simp]:
  "epReruns (exportAllShows lang other moment f answer p) = epReruns p" "epOffset (exportAllShows lang other moment f answer p) = epOffset p"
  "epQuery (exportAllShows lang other moment f answer p) = epQuery p"
  "epLimitInput (exportAllShows lang other moment f answer p) = epLimitInput p"
  "epLoading (exportAllShows lang other moment f answer p) = epLoading p"
  "epPending (exportAllShows lang other moment f answer p) = epPending p"
  "epAbortRef (exportAllShows lang other moment f answer p) = epAbortRef p"
  "epExports (exportAllShows lang other moment f answer p) = epExports p"
  "epControllers (exportAllShows lang other moment f answer p) = epControllers p"
  by (simp_all add: exportAllShows_def downloadEvents_def split: sum.split)

lemma changeInput_keeps [simp]:
  "epReruns (changeInput i p) = epReruns p" "epOffset (changeInput i p) = epOffset p" "epQuery (changeInput i p) = epQuery p"
  "epLoading (changeInput i p) = epLoading p" "epPending (changeInput i p) = epPending p"
  "epAbortRef (changeInput i p) = epAbortRef p" "epExports (changeInput i p) = epExports p"
  "epExportingAll (changeInput i p) = epExportingAll p"
  by (cases i; simp)+

lemma abortCurrent_keeps [simp]:
  "epReruns (abortCurrent p) = epReruns p" "epOffset (abortCurrent p) = epOffset p" "epQuery (abortCurrent p) = epQuery p" "epLimitInput (abortCurrent p) = epLimitInput p"
  "epLoading (abortCurrent p) = epLoading p" "epPending (abortCurrent p) = epPending p"
  "epAbortRef (abortCurrent p) = epAbortRef p" "epExports (abortCurrent p) = epExports p"
  "epExportingAll (abortCurrent p) = epExportingAll p" "epDownloads (abortCurrent p) = epDownloads p"
  by (simp_all add: abortCurrent_def split: option.split)

lemmas page_defs = loadEventsEnds_def onLifecycle_def setEventsOffset_def setEventsQuery_def loadEventsBegins_def
  eventsRerun_def applyFilters_def resetFilters_def exportAs_def downloadEvents_def exportAllBegins_def exportAllEnds_def onProgress_def cancelExport_def

interpretation ep_load: loading_page "loadEventsShows lang" epAuth loadEventsBegins epLoading
  for lang
  by unfold_locales (simp_all add: loadEventsShows_def loadEventsBegins_def)

interpretation ep_single: single_load ep_open "ep_step lang rnd other" "\<lambda>p. (epOffset p, epQuery p)" epPending epLoading epReruns
  for lang rnd other
proof (unfold_locales, goal_cases)
  case (1 s)
  then show ?case by (auto simp: ep_open_def openEventsPage_def loadEventsBegins_def)
next
  case (2 s s')
  then show ?case
    by cases (auto simp: page_defs click_defs Let_def split: prod.splits)
qed

section \<open>Invariants\<close>

text \<open>Paging: the page size is one that the page offers, and the offset a multiple of it.\<close>

definition paging_ok :: "events_page \<Rightarrow> bool" where
  "paging_ok p \<longleftrightarrow> qsLimit (epQuery p) \<in> set PAGE_SIZE_OPTIONS \<and> epLimitInput p \<in> set PAGE_SIZE_OPTIONS \<and>
     0 \<le> epOffset p \<and> qsLimit (epQuery p) dvd epOffset p"

text \<open>The filters: trimmed, not negative and in order.\<close>

definition filters_ok :: "EventsQueryState \<Rightarrow> bool" where
  "filters_ok q \<longleftrightarrow> pred_option (\<lambda>t. t \<noteq> [] \<and> trim t = t) (qsType q) \<and>
     pred_option (\<lambda>h. 0 \<le> h) (qsMinHeight q) \<and> pred_option (\<lambda>h. 0 \<le> h) (qsMaxHeight q) \<and>
     (case (qsMinHeight q, qsMaxHeight q) of (Some a, Some b) \<Rightarrow> a \<le> b | _ \<Rightarrow> True)"

text \<open>Exports: at most one, and then its controller is the one that the cancel button aborts.\<close>

definition exports_ok :: "events_page \<Rightarrow> bool" where
  "exports_ok p \<longleftrightarrow> map fst (epExports p) = (case epAbortRef p of None \<Rightarrow> [] | Some c \<Rightarrow> [c]) \<and>
     epExportingAll p = (epAbortRef p \<noteq> None)"

lemma options_positive: "n \<in> set PAGE_SIZE_OPTIONS \<Longrightarrow> 0 < n"
  by (auto simp: PAGE_SIZE_OPTIONS_def)

lemma hd_option: "hd PAGE_SIZE_OPTIONS \<in> set PAGE_SIZE_OPTIONS"
  by (simp add: PAGE_SIZE_OPTIONS_def)

lemma changeInput_limit: "epLimitInput p \<in> set PAGE_SIZE_OPTIONS \<Longrightarrow> epLimitInput (changeInput i p) \<in> set PAGE_SIZE_OPTIONS"
  by (cases i) auto

lemma parseHeightFilter_nonneg: "pred_option ((\<le>) 0) (parseHeightFilter rnd t)"
  by (simp add: parseHeightFilter_def Let_def)

lemma applyFilters_filters:
  assumes "filters_ok (epQuery p)"
  shows "filters_ok (epQuery (applyFilters rnd p))"
proof -
  have "pred_option ((\<le>) 0) (parseHeightFilter rnd (epMinInput p))" "pred_option ((\<le>) 0) (parseHeightFilter rnd (epMaxInput p))"
    by (rule parseHeightFilter_nonneg)+
  then show ?thesis
    using assms
    by (cases "qsMinHeight (epQuery p)"; cases "qsMaxHeight (epQuery p)")
      (simp_all add: applyFilters_def setEventsQuery_def loadEventsBegins_def filters_ok_def Let_def split: option.split)
qed

lemma ep_paging:
  assumes "reach ep_open (ep_step lang rnd other) p"
  shows "paging_ok p"
  using assms
proof (induction rule: reach_invariant)
  case (opened s)
  then show ?case
    by (auto simp: ep_open_def openEventsPage_def loadEventsBegins_def paging_ok_def initialQuery_def hd_option)
next
  case (step s s')
  from step(2,1) show ?case
  proof cases
    case ep_prev
    then show ?thesis using step(1) by (auto simp: paging_ok_def clickPrevPage_def setEventsOffset_def loadEventsBegins_def max_def)
  next
    case ep_next
    then show ?thesis using step(1) options_positive[of "qsLimit (epQuery s)"]
      by (auto simp: paging_ok_def clickNextPage_def setEventsOffset_def loadEventsBegins_def)
  qed (auto simp: paging_ok_def page_defs click_defs initialQuery_def Let_def hd_option intro: changeInput_limit split: prod.splits)
qed

lemma ep_filters:
  assumes "reach ep_open (ep_step lang rnd other) p"
  shows "filters_ok (epQuery p)"
  using assms
proof (induction rule: reach_invariant)
  case (opened s)
  then show ?case
    by (auto simp: ep_open_def openEventsPage_def loadEventsBegins_def filters_ok_def initialQuery_def)
next
  case (step s s')
  from step(2,1) show ?case
  proof cases
    case ep_apply
    then show ?thesis using step(1) applyFilters_filters by (simp add: clickApply_def)
  next
    case ep_reset
    then show ?thesis using step(1) by (auto simp: filters_ok_def page_defs clickReset_def initialQuery_def)
  qed (auto simp: page_defs click_defs Let_def split: prod.splits)
qed

lemma ep_exports:
  assumes "reach ep_open (ep_step lang rnd other) p"
  shows "exports_ok p"
  using assms
proof (induction rule: reach_invariant)
  case (opened s)
  then show ?case
    by (auto simp: ep_open_def openEventsPage_def loadEventsBegins_def exports_ok_def)
next
  case (step s s')
  from step(2,1) show ?case
    by cases (auto simp: exports_ok_def page_defs click_defs Let_def split: prod.splits option.splits)
qed

section \<open>Properties\<close>

text \<open>
  C14: the event table does not mix pages as long as the session is not replaced. In every reachable state the page
  size is one of those on offer, the page number is exact (the offset is that many whole pages), and the
  filters in force are trimmed, not negative and in order. While the page is loading, a request for the offset and the
  filters shown is under way, and it is the last one made. Requests under way beyond that one are at most as many as there were
  re-runs of the load for a new \<open>signOut\<close>; without any, the page is loading exactly while one request is under
  way, for the offset and the filters shown, so that its answer can only fill the page it was asked for.
\<close>

theorem events_page_consistent:
  assumes "reach ep_open (ep_step lang rnd other) p"
  shows "qsLimit (epQuery p) \<in> set PAGE_SIZE_OPTIONS \<and>
    1 \<le> currentPage p \<and> epOffset p = (currentPage p - 1) * qsLimit (epQuery p) \<and> filters_ok (epQuery p) \<and>
    (epLoading p \<longrightarrow> epPending p \<noteq> [] \<and> last (epPending p) = (epOffset p, epQuery p)) \<and>
    length (epPending p) \<le> (if epLoading p then 1 else 0) + epReruns p \<and>
    (epReruns p = 0 \<longrightarrow> epPending p = (if epLoading p then [(epOffset p, epQuery p)] else []))"
proof -
  have "qsLimit (epQuery p) \<in> set PAGE_SIZE_OPTIONS" "1 \<le> currentPage p"
      "epOffset p = (currentPage p - 1) * qsLimit (epQuery p)"
    using ep_paging[OF assms] options_positive[of "qsLimit (epQuery p)"]
    by (auto simp: paging_ok_def currentPage_def pos_imp_zdiv_nonneg_iff)
  then show ?thesis
    using ep_filters[OF assms] ep_single.requests_bounded[OF assms] ep_single.one_request[OF assms] by blast
qed

definition demo_response :: IndexerEventsResponse where
  "demo_response = \<lparr>pageEvents = demo_events, pageTotal = 30, pageOffset = 0, pageLimit = 10, pageHasMore = True\<rparr>"

definition demo_lang_ep :: lang where
  "demo_lang_ep = \<lparr>templateText = (\<lambda>_. []), nullReadMessage = [], abortMessage = []\<rparr>"

definition demo_first_page :: events_page where
  "demo_first_page = loadEventsEnds demo_lang_ep (0, initialQuery) (Inr demo_response)
     (openEventsPage \<lparr>storage = None, session = Some JNull, invalidReason = []\<rparr>)"

lemma demo_first_page_reached: "reach ep_open (ep_step demo_lang_ep Fin (\<lambda>_. [])) demo_first_page"
proof -
  have "reach ep_open (ep_step demo_lang_ep Fin (\<lambda>_. [])) (openEventsPage \<lparr>storage = None, session = Some JNull, invalidReason = []\<rparr>)"
    by (rule reach_open) (auto simp: ep_open_def)
  then show ?thesis
    unfolding demo_first_page_def
    by (rule reach_step) (rule ep_answer, simp add: openEventsPage_def loadEventsBegins_def)
qed

lemmas demo_page_eval = demo_first_page_def openEventsPage_def loadEventsBegins_def loadEventsEnds_def loadEventsShows_def
  demo_response_def initialQuery_def PAGE_SIZE_OPTIONS_def

theorem events_page_consistent_witness:
  "epPending (clickNextPage demo_first_page) = [(10, initialQuery)] \<and> currentPage (clickNextPage demo_first_page) = 2"
proof -
  have "reach ep_open (ep_step demo_lang_ep Fin (\<lambda>_. [])) (clickNextPage demo_first_page)"
    using demo_first_page_reached by (rule reach_step) (rule ep_next)
  from events_page_consistent[OF this] show ?thesis
    by (simp add: demo_page_eval clickNextPage_def canNext_def setEventsOffset_def currentPage_def)
qed

text \<open>
  A re-run mixes pages. The session is replaced while the first page loads, so that two requests for it are under way; the first answer
  lets the user go on to the second page, and the second answer then fills that page with the rows of the first one and
  ends the loading, although the request for the second page is still under way.
\<close>

theorem rerun_mixes_pages:
  "\<exists>p. reach ep_open (ep_step demo_lang_ep Fin (\<lambda>_. [])) p \<and> currentPage p = 2 \<and> epData p = Some demo_response \<and>
     pageOffset demo_response = 0 \<and> \<not> epLoading p \<and> epPending p = [(10, initialQuery)]"
proof -
  let ?R = "reach ep_open (ep_step demo_lang_ep Fin (\<lambda>_. []))"
  let ?a = "openEventsPage \<lparr>storage = None, session = Some JNull, invalidReason = []\<rparr>"
  let ?b = "loadEventsEnds demo_lang_ep (0, initialQuery) (Inr demo_response) (eventsRerun ?a)"
  let ?c = "loadEventsEnds demo_lang_ep (0, initialQuery) (Inr demo_response) (clickNextPage ?b)"
  have "?R ?a" by (rule reach_open) (auto simp: ep_open_def)
  then have "?R (eventsRerun ?a)" by (rule reach_step) (rule ep_rerun)
  then have "?R ?b" by (rule reach_step) (rule ep_answer, simp add: eventsRerun_def loadEventsBegins_def openEventsPage_def)
  then have "?R (clickNextPage ?b)" by (rule reach_step) (rule ep_next)
  then have "?R ?c"
    by (rule reach_step) (rule ep_answer, simp add: eventsRerun_def demo_page_eval clickNextPage_def canNext_def setEventsOffset_def)
  moreover have "currentPage ?c = 2" "epData ?c = Some demo_response" "pageOffset demo_response = 0" "\<not> epLoading ?c"
      "epPending ?c = [(10, initialQuery)]"
    by (simp_all add: eventsRerun_def demo_page_eval clickNextPage_def canNext_def setEventsOffset_def currentPage_def)
  ultimately show ?thesis by blast
qed

text \<open>
  C18: exports. In every reachable state at most one export of all events is under way, the page says so exactly then, the
  cancel button aborts the signal of that very export, and whatever the export ends with, the page is
  ready for the next one.
\<close>

theorem export_under_control:
  assumes "reach ep_open (ep_step lang rnd other) p"
  shows "(epExportingAll p \<longleftrightarrow> epExports p \<noteq> []) \<and>
    (\<forall>export \<in> set (epExports p). epExports p = [export] \<and> fst export \<in> set (epAborted (clickCancel p)) \<and>
       (\<forall>moment answer. let p' = exportAllEnds lang other moment export answer p
          in \<not> epExportingAll p' \<and> epExports p' = [] \<and> epAbortRef p' = None))"
proof -
  note ok = ep_exports[OF assms]
  show ?thesis
  proof (cases "epAbortRef p")
    case None
    then show ?thesis using ok by (simp add: exports_ok_def)
  next
    case (Some c)
    then obtain f q where "epExports p = [(c, f, q)]" using ok by (auto simp: exports_ok_def)
    then show ?thesis
      using ok Some by (auto simp: exports_ok_def exportAllEnds_def clickCancel_def cancelExport_def abortCurrent_def Let_def)
  qed
qed

theorem export_under_control_witness:
  "epExports (clickExportAll FormatCsv demo_first_page) = [(0, FormatCsv, initialQuery)] \<and>
   0 \<in> set (epAborted (clickCancel (clickExportAll FormatCsv demo_first_page)))"
proof -
  have "reach ep_open (ep_step demo_lang_ep Fin (\<lambda>_. [])) (clickExportAll FormatCsv demo_first_page)"
    using demo_first_page_reached by (rule reach_step) (rule ep_export_all)
  moreover have e: "epExports (clickExportAll FormatCsv demo_first_page) = [(0, FormatCsv, initialQuery)]"
    by (simp add: demo_page_eval clickExportAll_def exportAllBegins_def abortCurrent_def)
  ultimately show ?thesis using export_under_control[of demo_lang_ep Fin "\<lambda>_. []"] by fastforce
qed

subsection \<open>Exports of all events\<close>

lemma onProgress_fold:
  "(fold onProgress ms p)\<lparr>epProgress := t\<rparr> = p\<lparr>epProgress := t\<rparr>"
  by (induction ms arbitrary: p) (simp_all add: onProgress_def split: prod.split)

lemma onProgress_keeps [simp]:
  "epDownloads (fold onProgress ms p) = epDownloads p" "epQuery (fold onProgress ms p) = epQuery p"
  "epError (fold onProgress ms p) = epError p" "epExports (fold onProgress ms p) = epExports p"
  "epAbortRef (fold onProgress ms p) = epAbortRef p" "epAuth (fold onProgress ms p) = epAuth p"
  by (induction ms arbitrary: p) (simp_all add: onProgress_def split: prod.split)

lemma exportAllBegins_simps [simp]:
  "epDownloads (exportAllBegins f p) = epDownloads p" "epError (exportAllBegins f p) = epError p"
  "epAuth (exportAllBegins f p) = epAuth p"
  by (simp_all add: exportAllBegins_def abortCurrent_def Let_def split: option.split)

lemma exportAllEnds_simps:
  "epDownloads (exportAllEnds lang other moment (c, f, q) answer p) = epDownloads (exportAllShows lang other moment f answer p)"
  "epError (exportAllEnds lang other moment (c, f, q) answer p) = epError (exportAllShows lang other moment f answer p)"
  "epProgress (exportAllEnds lang other moment (c, f, q) answer p) = epProgress (exportAllShows lang other moment f answer p)"
  "epExportingAll (exportAllEnds lang other moment (c, f, q) answer p) = False"
  by (simp_all add: exportAllEnds_def Let_def)

text \<open>
  What a reader gets from a downloaded file: of CSV the header and the six columns of each event (\<open>eventFields\<close>; the
  parent hash, the height of a rollback and the time of storage are not in the file), of JSON the events.
\<close>

definition reads_back :: "(rat \<Rightarrow> jsnum) \<Rightarrow> export_format \<Rightarrow> jstring \<Rightarrow> IndexerEvent list \<Rightarrow> bool" where
  "reads_back rnd format content evs =
     (case format of
        FormatCsv \<Rightarrow> readCsv content = CSV_HEADER # map eventFields evs
      | FormatJson \<Rightarrow>
          (case JSON_parse rnd content of Some (JArr objects) \<Rightarrow> map eventOfJson objects = evs | _ \<Rightarrow> False))"

lemma serializeAs_reads_back:
  assumes "format = FormatJson \<Longrightarrow> list_all (plainHeights rnd) evs"
  shows "reads_back rnd format (serializeAs other format evs) evs"
proof (cases format)
  case FormatJson
  then show ?thesis using json_read_back[OF assms, of other] by (auto simp: reads_back_def serializeAs_def)
next
  case FormatCsv
  then show ?thesis by (simp add: reads_back_def serializeAs_def csv_read_back)
qed

lemma collect_too_many:
  assumes "serves fetchPage query evs 200" "10000 < length evs" "\<forall>w. \<not> signalled w"
  shows "\<exists>cs. collectAllEvents fetchPage query (exportOptions signalled) w = (Inl (ExError EXPORT_LIMIT_EXCEEDED_ERROR), cs)"
proof -
  obtain w' where "fetchPage (query\<lparr>queryLimit := Some 200, queryOffset := Some 0\<rparr>) w =
      (Inr \<lparr>pageEvents = take 200 evs, pageTotal = int (length evs), pageOffset = 0, pageLimit = 200, pageHasMore = (200 < length evs)\<rparr>, w')"
    using assms(1) unfolding serves_def by (metis add_0 drop0 nat_numeral of_nat_0)
  then show ?thesis
    using assms(2,3)
    by (simp add: collectAllEvents_def collect_loop.simps[of _ _ _ 1] collect_round_def collect_start_def exportOptions_def
        MAX_EXPORT_RECORDS_def Let_def)
qed

lemma exportAll_answered:
  assumes "collectAllEvents fetchPage (exportQuery (epQuery p)) (exportOptions signalled) w = (x, cs)"
  shows "let p' = exportAll lang other moment fetchPage signalled w format p;
      q = exportAllShows lang other moment format x (fold onProgress (progress cs) (exportAllBegins format p))
    in epDownloads p' = epDownloads q \<and> epError p' = epError q \<and> epProgress p' = epProgress q \<and> \<not> epExportingAll p'"
  using assms by (simp add: exportAll_def exportAllEnds_simps Let_def)

lemma limit_error_is_limit:
  "\<not> isExportCancelledError (ExError EXPORT_LIMIT_EXCEEDED_ERROR)" "isExportLimitExceededError (ExError EXPORT_LIMIT_EXCEEDED_ERROR)"
  by (simp_all add: isExportCancelledError_def isExportLimitExceededError_def EXPORT_LIMIT_EXCEEDED_ERROR_def EXPORT_CANCELLED_ERROR_def)

text \<open>
  C15: exporting everything, end to end. If the server serves a fixed list of events for the filters in force and the user does
  not cancel, then: an empty list and a list of more than 10000 events save no file, and the page says that there is nothing
  to export, or that the limit is exceeded; any other list ends with exactly one more file handed to the browser, with the
  name and media type of the format, no error, and the number of events as the progress. Reading a JSON file back gives exactly the
  server's events in their order, provided that the heights are below \<open>10 ^ 21\<close> and numbers that a double represents; reading a CSV file back
  gives the header and the six columns of each event, in order. In every case the page is ready for the next export.
\<close>

theorem export_all_complete:
  assumes "serves fetchPage (exportQuery (epQuery p)) evs 200" "\<forall>w. \<not> signalled w"
    and "format = FormatJson \<longrightarrow> list_all (plainHeights rnd) evs"
  shows "let p' = exportAll lang other moment fetchPage signalled w format p
    in \<not> epExportingAll p' \<and>
      (if evs = [] then epDownloads p' = epDownloads p \<and> epError p' = NO_EVENTS_TEXT \<and> epProgress p' = []
       else if 10000 < length evs then epDownloads p' = epDownloads p \<and> epError p' = EXPORT_LIMIT_TEXT \<and> epProgress p' = []
       else \<exists>content. epDownloads p' = epDownloads p @ [(content, buildEventsExportFileName format moment, mimeType format)] \<and>
         reads_back rnd format content evs \<and> epError p' = [] \<and> epProgress p' = exportDoneText (length evs))"
proof (cases "10000 < length evs")
  case True
  then obtain cs where cs: "collectAllEvents fetchPage (exportQuery (epQuery p)) (exportOptions signalled) w =
      (Inl (ExError EXPORT_LIMIT_EXCEEDED_ERROR), cs)" using collect_too_many[OF assms(1) True assms(2)] by blast
  from True exportAll_answered[OF cs, of lang other moment format] show ?thesis
    by (auto simp: exportAllShows_def limit_error_is_limit Let_def)
next
  case False
  obtain x cs where run: "collectAllEvents fetchPage (exportQuery (epQuery p)) (exportOptions signalled) w = (x, cs)"
    by fastforce
  have "fst (collectAllEvents fetchPage (exportQuery (epQuery p)) (exportOptions signalled) w) = Inr evs"
    by (rule collect_complete[where n = 200]) (use assms False in \<open>simp_all add: exportOptions_def MAX_EXPORT_RECORDS_def\<close>)
  with run have x: "x = Inr evs" by simp
  have "reads_back rnd format (serializeAs other format evs) evs" using assms(3) by (intro serializeAs_reads_back) simp
  with False x exportAll_answered[OF run, of lang other moment format] show ?thesis
    by (auto simp: exportAllShows_def downloadEvents_def Let_def)
qed

definition demo_serve :: "IndexerEvent list \<Rightarrow> nat fetch_page" where
  "demo_serve evs q w =
     (let off = nat (nullish (queryOffset q) 0); n = nat (nullish (queryLimit q) 0)
      in (Inr \<lparr>pageEvents = take n (drop off evs), pageTotal = int (length evs), pageOffset = int off,
               pageLimit = int n, pageHasMore = (off + n < length evs)\<rparr>, Suc w))"

lemma demo_serve_serves: "serves (demo_serve evs) q evs 200"
  by (simp add: serves_def demo_serve_def Let_def)

theorem export_all_complete_witness:
  "\<exists>content. epDownloads (exportAll demo_lang_ep (\<lambda>_. []) \<lparr>year = 2024, month0 = 0, day = 2, hour = 3, minute = 4, second = 5\<rparr>
       (demo_serve [odd_event]) (\<lambda>_. False) 0 FormatJson demo_first_page) =
     [(content, js ''events-20240102-030405.json'', js ''application/json;charset=utf-8'')] \<and>
     reads_back Fin FormatJson content [odd_event]"
proof -
  have "list_all (plainHeights Fin) [odd_event]" by (simp add: plainHeights_def num_def odd_event_def)
  moreover have "epDownloads demo_first_page = []" by (simp add: demo_page_eval)
  moreover have "buildEventsExportFileName FormatJson \<lparr>year = 2024, month0 = 0, day = 2, hour = 3, minute = 4, second = 5\<rparr>
      = js ''events-20240102-030405.json''" by code_simp
  ultimately show ?thesis
    using export_all_complete[where p = demo_first_page and rnd = Fin and lang = demo_lang_ep and other = "\<lambda>_. []" and w = 0 and
        format = FormatJson and evs = "[odd_event]" and signalled = "\<lambda>_. False" and
        moment = "\<lparr>year = 2024, month0 = 0, day = 2, hour = 3, minute = 4, second = 5\<rparr>", OF demo_serve_serves]
    by (auto simp: mimeType_def Let_def simp del: js_Cons)
qed

text \<open>
  C39: A cancelled export hands no file to the browser. If the signal of the export is aborted by the time it
  has fetched its last page, whatever the server did, the files are those from before and the page is ready again.
\<close>

theorem cancelled_export_downloads_nothing:
  assumes "signalled (colWorld (snd (collectAllEvents fetchPage (exportQuery (epQuery p)) (exportOptions signalled) w)))"
  shows "epDownloads (exportAll lang other moment fetchPage signalled w format p) = epDownloads p \<and>
    \<not> epExportingAll (exportAll lang other moment fetchPage signalled w format p)"
proof -
  obtain x cs where run: "collectAllEvents fetchPage (exportQuery (epQuery p)) (exportOptions signalled) w = (x, cs)"
    by fastforce
  have "x \<noteq> Inr evs" for evs
    using collect_not_aborted[of fetchPage "exportQuery (epQuery p)" "exportOptions signalled" w evs cs] run assms
    by (auto simp: exportOptions_def)
  then obtain e where "x = Inl e" by (cases x) auto
  with run show ?thesis by (simp add: exportAll_def exportAllEnds_simps exportAllShows_def)
qed

theorem cancelled_export_downloads_nothing_witness:
  "epDownloads (exportAll demo_lang_ep (\<lambda>_. []) \<lparr>year = 2024, month0 = 0, day = 2, hour = 3, minute = 4, second = 5\<rparr>
     (demo_serve [odd_event]) (\<lambda>w. w \<noteq> 0) 0 FormatCsv demo_first_page) = epDownloads demo_first_page"
proof -
  have "colWorld (snd (collectAllEvents (demo_serve [odd_event]) (exportQuery (epQuery demo_first_page)) (exportOptions (\<lambda>w. w \<noteq> 0)) 0)) \<noteq> 0"
    by (simp add: collectAllEvents_def collect_loop.simps collect_round_def collect_start_def demo_serve_def exportOptions_def
        MAX_EXPORT_RECORDS_def Let_def)
  then show ?thesis using cancelled_export_downloads_nothing[of "\<lambda>w. w \<noteq> 0"] by blast
qed

subsection \<open>Filters\<close>

text \<open>A height as a user types it: nothing, or digits of a number that a double represents.\<close>

definition height_text :: "(rat \<Rightarrow> jsnum) \<Rightarrow> jstring \<Rightarrow> int option \<Rightarrow> bool" where
  "height_text rnd t h \<longleftrightarrow>
     (case h of
        None \<Rightarrow> trim t = []
      | Some n \<Rightarrow> trim t \<noteq> [] \<and> list_all isDigit (trim t) \<and> n = int (digitsValue (trim t)) \<and> rnd (of_int n) = num n)"

lemma num_index [simp]: "isInteger (num n)" "num_less (num n) (Fin 0) = (n < 0)" "0 \<le> n \<Longrightarrow> int (index_value (num n)) = n"
  by (simp_all add: num_def index_value_def)

lemma parseHeightFilter_digits:
  assumes "height_text rnd t h"
  shows "parseHeightFilter rnd t = h"
proof (cases h)
  case (Some n)
  then have "toNumber rnd (trim t) = num n" using assms by (auto simp: height_text_def toNumber_digits)
  with Some assms show ?thesis by (auto simp: parseHeightFilter_def height_text_def Let_def)
qed (use assms in \<open>simp add: height_text_def parseHeightFilter_def\<close>)

lemma height_text_blank: "height_text rnd t h \<Longrightarrow> trim t \<noteq> [] \<Longrightarrow> h \<noteq> None"
  by (cases h) (simp_all add: height_text_def)

text \<open>
  The filters. When the two heights are blank or typed in digits, applying them asks for the first page with
  exactly the typed values (and the trimmed type, if any) and clears the error, unless the smallest height exceeds
  the largest: then only the error changes.
\<close>

theorem applyFilters_typed:
  assumes "height_text rnd (epMinInput p) lo" "height_text rnd (epMaxInput p) hi"
  shows "applyFilters rnd p =
    (if (\<exists>a b. lo = Some a \<and> hi = Some b \<and> b < a) then p\<lparr>epError := HEIGHT_ORDER_TEXT\<rparr>
     else loadEventsBegins (p\<lparr>epOffset := 0, epQuery :=
        \<lparr>qsLimit = epLimitInput p, qsOrder = epOrderInput p,
         qsType = (if trim (epTypeInput p) = [] then None else Some (trim (epTypeInput p))),
         qsMinHeight = lo, qsMaxHeight = hi\<rparr>, epError := []\<rparr>))"
  using parseHeightFilter_digits[OF assms(1)] parseHeightFilter_digits[OF assms(2)]
    height_text_blank[OF assms(1)] height_text_blank[OF assms(2)]
  by (cases lo; cases hi) (auto simp: applyFilters_def setEventsQuery_def Let_def)

theorem applyFilters_typed_witness:
  "qsMinHeight (epQuery (applyFilters Fin (demo_first_page\<lparr>epMinInput := js '' 12''\<rparr>))) = Some 12"
proof -
  have "height_text Fin (js '' 12'') (Some 12)" "height_text Fin [] None"
    by (simp_all add: height_text_def trim_def trimStart_def trimEnd_def isWhite_def isDigit_def digitsValue_def num_def)
  then show ?thesis
    using applyFilters_typed[of Fin "demo_first_page\<lparr>epMinInput := js '' 12''\<rparr>" "Some 12" None]
    by (simp add: demo_page_eval)
qed

subsection \<open>Failures\<close>

lemma onLifecycle_fold:
  "fold onLifecycle evs p = (if evs = [] then p else p\<lparr>epLifecycleRef := Some (last evs), epLifecycle := Some (last evs)\<rparr>)"
  by (induction evs arbitrary: p) (auto simp: onLifecycle_def)

lemma getIndexerEvents_attributed:
  assumes "fetch_plain web" "getIndexerEvents q eventsOptions web cfg w = (Inl (ExApi err), rs)" "events rs \<noteq> []"
  shows "\<exists>a. evAttribution (last (events rs)) = Some a \<and> attrCode a = Some (apiCode err)"
proof -
  let ?opts = "(eventRequest q eventsOptions)\<lparr>optMethod := Some GET\<rparr>"
  have run: "api_request web cfg pathIndexerEvents ?opts w = (Inl (ExApi err), rs)"
    using assms(2) by (simp add: getIndexerEvents_def api_get_def)
  obtain rq where rq: "prepareRequest web cfg pathIndexerEvents ?opts w = Inr rq"
    using run assms(3) by (cases "prepareRequest web cfg pathIndexerEvents ?opts w") (auto simp: api_request_def)
  then have "rqMaxRetries rq = of_int 2" "rqObserved rq"
    by (auto simp: prepareRequest_def eventRequest_def eventsOptions_def EVENTS_RETRY_COUNT_def Let_def ebind_eq_Inr)
  from request_loop_attributed[OF this(1) _ assms(1) this(2), of "request_start rq w"] run api_request_prepared[OF rq]
  show ?thesis by (auto simp: attributed_def)
qed

text \<open>
  A failed load explains itself. When a request for rows fails with an error of the client (other than a lost
  session) after it was begun, the page stops loading, keeps its rows and filters, and shows the
  code, status and message of the error followed by an attribution, and that attribution is the one of this very failure:
  its code is the code shown.
\<close>

theorem failed_load_is_attributed:
  assumes "fetch_plain web" "\<not> isSessionInvalidError (ExApi err)" "events rs \<noteq> []"
    and "getIndexerEvents (eventsQuery (epOffset p) (epQuery p)) eventsOptions web cfg w = (Inl (ExApi err), rs)"
  shows "let p' = loadEvents lang decode web cfg w p in
    \<not> epLoading p' \<and> epEvents p' = epEvents p \<and> epQuery p' = epQuery p \<and> epAuth p' = epAuth p \<and>
    (\<exists>a :: RequestErrorAttribution. attrCode a = Some (apiCode err) \<and> epError p' = js ''code='' @ apiCode err @ js '' status='' @
       (case apiStatus err of Some n \<Rightarrow> intString n | None \<Rightarrow> js ''-'') @ js '' msg='' @ apiMessage err @
       js '' layer='' @ layerText (attrLayer a) @ js '' reason='' @ attrReason a @
       js '' retryable='' @ (if attrRetryable a then js ''true'' else js ''false''))"
proof -
  obtain a where a: "evAttribution (last (events rs)) = Some a" "attrCode a = Some (apiCode err)"
    using getIndexerEvents_attributed[OF assms(1,4,3)] by blast
  show ?thesis
    unfolding Let_def
    by (intro conjI exI[of _ a])
      (use a assms(2-4) in \<open>simp_all add: loadEvents_def loadEventsEnds_def loadEventsShows_def onLifecycle_fold
        loadEventsBegins_def failureText_def attributionText_def epEvents_def del: js_Cons\<close>)
qed

lemma offline_rows:
  "\<exists>rs. getIndexerEvents q eventsOptions offline_web demo_cfg 0 = (Inl (ExApi (networkError (ExError (js ''offline'')))), rs) \<and>
     events rs \<noteq> []"
  by (auto simp: getIndexerEvents_def api_get_def api_request_def prepareRequest_def buildUrl_def offline_web_def demo_web_def
      demo_cfg_def request_loop.simps request_round_def handleException_def handleTransport_def eventRequest_def eventsOptions_def
      EVENTS_RETRY_COUNT_def Let_def simp del: js_Cons)

theorem failed_load_is_attributed_witness:
  "\<not> epLoading (loadEvents demo_lang_ep (\<lambda>_. demo_response) offline_web demo_cfg 0 demo_first_page) \<and>
   epEvents (loadEvents demo_lang_ep (\<lambda>_. demo_response) offline_web demo_cfg 0 demo_first_page) = demo_events"
proof -
  have f: "fetch_plain offline_web" by (simp add: fetch_plain_def offline_web_def)
  have i: "\<not> isSessionInvalidError (ExApi (networkError (ExError (js ''offline''))))"
    by (simp add: isSessionInvalidError_def networkError_def)
  obtain rs where rs: "events rs \<noteq> []"
    "getIndexerEvents (eventsQuery (epOffset demo_first_page) (epQuery demo_first_page)) eventsOptions offline_web demo_cfg 0 =
      (Inl (ExApi (networkError (ExError (js ''offline'')))), rs)" using offline_rows by blast
  have "epEvents demo_first_page = demo_events" by (simp add: demo_page_eval epEvents_def)
  with failed_load_is_attributed[OF f i rs, of demo_lang_ep "\<lambda>_. demo_response"] show ?thesis
    unfolding Let_def by argo
qed

text \<open>
  After a failed load the table still shows the rows of the page before, under the number of the page that could
  not be loaded.
\<close>

theorem failed_page_keeps_rows:
  assumes "\<not> epLoading p" "canNext p" "0 < qsLimit (epQuery p)"
  shows "let p' = loadEventsEnds lang asked (Inl e) (clickNextPage p)
    in epEvents p' = epEvents p \<and> currentPage p' = currentPage p + 1"
  using assms by (simp add: Let_def clickNextPage_def setEventsOffset_def loadEventsBegins_def loadEventsEnds_def
      loadEventsShows_def epEvents_def currentPage_def)

theorem failed_page_keeps_rows_witness:
  "epEvents (loadEventsEnds demo_lang_ep (10, initialQuery) (Inl ExAbort) (clickNextPage demo_first_page)) = demo_events \<and>
   currentPage (loadEventsEnds demo_lang_ep (10, initialQuery) (Inl ExAbort) (clickNextPage demo_first_page)) = 2"
  using failed_page_keeps_rows[of demo_first_page demo_lang_ep "(10, initialQuery)" ExAbort]
  by (simp add: Let_def demo_page_eval canNext_def epEvents_def currentPage_def)

end
