(* ===== verification/EventDetailPage.thy ===== *)
theory EventDetailPage
  imports EventsPage
begin

text \<open>
  \<open>pages/EventDetailPage.tsx\<close>: one event, from the state of the route or asked for by its identifier. The page stays
  mounted while the user moves from one event to another; each run of its effect has a flag of its own, \<open>mounted\<close>, that
  the next run clears. A run is a number; \<open>dpMounted\<close> is the run whose flag is still set. Kept for the
  proofs: \<open>dpRuns\<close>, the runs whose request is not yet answered with the identifier asked for, and
  \<open>dpAnswered\<close>, the identifier whose answer \<open>dpEvent\<close> is.
\<close>

record detail_page =
  dpParam :: "jstring option"
  dpRoute :: "IndexerEvent option"
  dpEvent :: "IndexerEvent option"
  dpLoading :: bool
  dpError :: jstring
  dpLifecycle :: "RequestLifecycleEvent option"
  dpLifecycleRef :: "RequestLifecycleEvent option"
  dpAuth :: auth
  dpMounted :: "nat option"
  dpRuns :: "(nat \<times> jstring) list"
  dpNextRun :: nat
  dpAnswered :: "jstring option"

section \<open>Cells\<close>

definition detailTime :: "(jstring \<Rightarrow> jstring option) \<Rightarrow> jstring \<Rightarrow> jstring" where
  "detailTime dateText value = (if value = [] then js ''-'' else nullish (dateText value) value)"

definition formatPayload :: "(rat \<Rightarrow> jsnum) \<Rightarrow> (jsnum \<Rightarrow> jstring) \<Rightarrow> jstring \<Rightarrow> jstring" where
  "formatPayload rnd other text =
     (if text = [] then js ''-''
      else case JSON_parse rnd text of Some parsed \<Rightarrow> JSON_stringify other [32, 32] parsed | None \<Rightarrow> text)"

section \<open>The event to show\<close>

definition targetEventId :: "detail_page \<Rightarrow> jstring" where
  "targetEventId d = (case dpParam d of None \<Rightarrow> [] | Some i \<Rightarrow> trim i)"

definition routeMatches :: "detail_page \<Rightarrow> bool" where
  "routeMatches d \<longleftrightarrow> (case dpRoute d of None \<Rightarrow> False | Some e \<Rightarrow> eventId e = targetEventId d)"

definition effectiveEvent :: "detail_page \<Rightarrow> IndexerEvent option" where
  "effectiveEvent d = (if routeMatches d then dpRoute d else dpEvent d)"

section \<open>The effect\<close>

definition detailRunBegins :: "detail_page \<Rightarrow> detail_page" where
  "detailRunBegins d = d\<lparr>dpLoading := True, dpError := [], dpEvent := None, dpMounted := Some (dpNextRun d),
     dpRuns := dpRuns d @ [(dpNextRun d, targetEventId d)], dpNextRun := Suc (dpNextRun d), dpAnswered := None\<rparr>"

definition detailEffect :: "detail_page \<Rightarrow> detail_page" where
  "detailEffect d =
     (if targetEventId d = [] then d
      else if routeMatches d then d
      else detailRunBegins d)"

text \<open>Opening the page, and moving to another event: the clean-up of the last run comes before the next.\<close>

definition openDetail :: "auth \<Rightarrow> jstring option \<Rightarrow> IndexerEvent option \<Rightarrow> detail_page" where
  "openDetail a param route = detailEffect
     \<lparr>dpParam = param, dpRoute = route, dpEvent = route, dpLoading = False, dpError = [], dpLifecycle = None,
      dpLifecycleRef = None, dpAuth = a, dpMounted = None, dpRuns = [], dpNextRun = 0, dpAnswered = None\<rparr>"

text \<open>
  The effect runs again when the identifier or the event of the route is another one; the event that comes with a
  navigation is a new object each time. It also runs again when \<open>signOut\<close> is a new function, after a sign-in.
\<close>

definition detailRerun :: "detail_page \<Rightarrow> detail_page" where
  "detailRerun d = detailEffect (d\<lparr>dpMounted := None\<rparr>)"

definition navigateDetail :: "jstring option \<Rightarrow> IndexerEvent option \<Rightarrow> detail_page \<Rightarrow> detail_page" where
  "navigateDetail param route d =
     (let d1 = d\<lparr>dpParam := param, dpRoute := route\<rparr>
      in if targetEventId d1 = targetEventId d \<and> route = None \<and> dpRoute d = None then d1 else detailRerun d1)"

section \<open>The request\<close>

definition detailOptions :: IndexerEventsRequestOptions where
  "detailOptions = \<lparr>evRetryCount = Some 2, evRetryBackoffMs = Some 250,
     evTrace = Some \<lparr>traceFeature = js ''event_detail_page'', traceAction = js ''fetch_event_detail'', traceRequestId = None\<rparr>,
     evObserved = True\<rparr>"

definition detailLifecycle :: "nat \<Rightarrow> RequestLifecycleEvent \<Rightarrow> detail_page \<Rightarrow> detail_page" where
  "detailLifecycle n nextEvent d =
     (let d1 = d\<lparr>dpLifecycleRef := Some nextEvent\<rparr>
      in if dpMounted d = Some n then d1\<lparr>dpLifecycle := Some nextEvent\<rparr> else d1)"

definition NOT_FOUND_TEXT :: jstring where
  "NOT_FOUND_TEXT = [26410, 25214, 21040, 20107, 20214] @ js '' ''"

definition detailError :: "lang \<Rightarrow> jstring \<Rightarrow> exn \<Rightarrow> detail_page \<Rightarrow> jstring" where
  "detailError lang target e d =
     (case e of
        ExApi err \<Rightarrow>
          if apiStatus err = Some 404 then NOT_FOUND_TEXT @ target
          else failureText lang (attributionText (dpLifecycleRef d)) UNKNOWN_ERROR_TEXT e
      | _ \<Rightarrow> failureText lang [] UNKNOWN_ERROR_TEXT e)"

text \<open>What a run does with its answer while its flag is set.\<close>

definition detailShows :: "lang \<Rightarrow> jstring \<Rightarrow> (exn, IndexerEvent) result \<Rightarrow> detail_page \<Rightarrow> detail_page" where
  "detailShows lang target answer d =
     (case answer of
        Inr event \<Rightarrow> d\<lparr>dpEvent := Some event, dpAnswered := Some target\<rparr>
      | Inl e \<Rightarrow>
          if isSessionInvalidError e then d\<lparr>dpAuth := endSession (dpAuth d)\<rparr>
          else d\<lparr>dpError := detailError lang target e d\<rparr>)
     \<lparr>dpLoading := False\<rparr>"

definition detailRunEnds :: "lang \<Rightarrow> nat \<times> jstring \<Rightarrow> (exn, IndexerEvent) result \<Rightarrow> detail_page \<Rightarrow> detail_page" where
  "detailRunEnds lang run answer d =
     (let d1 = d\<lparr>dpRuns := remove1 run (dpRuns d)\<rparr>
      in if dpMounted d = Some (fst run) then detailShows lang (snd run) answer d1 else d1)"

text \<open>A whole run without other steps in between; \<open>decode\<close> reads the member \<open>event\<close> of an answer.\<close>

definition runDetail ::
  "lang \<Rightarrow> (json \<Rightarrow> IndexerEvent) \<Rightarrow> ('u, 'r, 'w) web \<Rightarrow> client_config \<Rightarrow> 'w \<Rightarrow> detail_page \<Rightarrow> detail_page" where
  "runDetail lang decode web cfg w d =
     (let n = dpNextRun d; target = targetEventId d in
      case getIndexerEventById target detailOptions web cfg w of
        (answer, rs) \<Rightarrow> detailRunEnds lang (n, target)
          (case answer of Inl e \<Rightarrow> Inl e | Inr data \<Rightarrow> Inr (decode data))
          (fold (detailLifecycle n) (events rs) (detailRunBegins d)))"

section \<open>The view\<close>

definition NO_DETAIL_TEXT :: jstring where
  "NO_DETAIL_TEXT = [26410, 25214, 21040, 20107, 20214, 35814, 24773, 12290]"
definition BAD_ID_TEXT :: jstring where
  "BAD_ID_TEXT = [20107, 20214] @ js ''ID'' @ [26080, 25928, 65292, 35831, 20174, 21015, 34920, 37325, 26032, 36827, 20837, 12290]"

datatype detail_view =
    DetailLoading
  | DetailMissing jstring jstring
  | DetailShown jstring "jstring list" jstring jstring

definition detailCells :: "(jstring \<Rightarrow> jstring option) \<Rightarrow> IndexerEvent \<Rightarrow> jstring list" where
  "detailCells dateText e =
     [eventId e, eventType e, intString (eventHeight e), orDefault (blockHash e) (js ''-''), orDefault (parentHash e) (js ''-''),
      (case rollbackFrom e of None \<Rightarrow> js ''-'' | Some h \<Rightarrow> intString h), detailTime dateText (producedAt e),
      detailTime dateText (nullish (persistedAt e) [])]"

definition detailView ::
  "(rat \<Rightarrow> jsnum) \<Rightarrow> (jsnum \<Rightarrow> jstring) \<Rightarrow> (jstring \<Rightarrow> jstring option) \<Rightarrow> detail_page \<Rightarrow> detail_view" where
  "detailView rnd other dateText d =
     (case effectiveEvent d of
        None \<Rightarrow>
          if dpLoading d then DetailLoading
          else DetailMissing (if dpError d \<noteq> [] then dpError d else if targetEventId d \<noteq> [] then NO_DETAIL_TEXT else BAD_ID_TEXT)
            (lifecycleMeta other (dpLifecycle d))
      | Some e \<Rightarrow> DetailShown (dpError d) (detailCells dateText e) (formatPayload rnd other (payload e))
          (lifecycleMeta other (dpLifecycle d)))"

section \<open>Steps\<close>

inductive dp_step :: "lang \<Rightarrow> detail_page \<Rightarrow> detail_page \<Rightarrow> bool" for lang where
  dp_navigate: "dp_step lang d (navigateDetail param route d)"
| dp_rerun: "dp_step lang d (detailRerun d)"
| dp_lifecycle: "run \<in> set (dpRuns d) \<Longrightarrow> dp_step lang d (detailLifecycle (fst run) event d)"
| dp_answer: "run \<in> set (dpRuns d) \<Longrightarrow> dp_step lang d (detailRunEnds lang run answer d)"

definition dp_open :: "detail_page \<Rightarrow> bool" where
  "dp_open d \<longleftrightarrow> (\<exists>a param route. d = openDetail a param route)"

text \<open>
  The runs are numbered; the run whose flag is set was started for the identifier of the page and is the
  only one for which the page may be waiting; the event kept is the answer for the identifier of the page
  (a page whose identifier is blank or whose route brings the event starts no run and keeps what it had).
\<close>

definition runs_ok :: "detail_page \<Rightarrow> bool" where
  "runs_ok d \<longleftrightarrow> (\<forall>(n, t) \<in> set (dpRuns d). n < dpNextRun d) \<and>
     (\<forall>n. dpMounted d = Some n \<longrightarrow> n < dpNextRun d \<and> targetEventId d \<noteq> [] \<and> \<not> routeMatches d \<and>
        (\<forall>t. (n, t) \<in> set (dpRuns d) \<longrightarrow> t = targetEventId d)) \<and>
     (targetEventId d \<noteq> [] \<and> \<not> routeMatches d \<longrightarrow> dpMounted d \<noteq> None \<and>
        (dpEvent d \<noteq> None \<longrightarrow> dpAnswered d = Some (targetEventId d)))"

lemma target_cong: "dpParam d' = dpParam d \<Longrightarrow> targetEventId d' = targetEventId d"
  by (simp add: targetEventId_def)

lemma route_cong: "dpParam d' = dpParam d \<Longrightarrow> dpRoute d' = dpRoute d \<Longrightarrow> routeMatches d' = routeMatches d"
  using target_cong[of d' d] by (simp add: routeMatches_def split: option.split)

lemma detailRunBegins_simps [simp]:
  "targetEventId (detailRunBegins d) = targetEventId d" "routeMatches (detailRunBegins d) = routeMatches d"
  "dpMounted (detailRunBegins d) = Some (dpNextRun d)" "dpNextRun (detailRunBegins d) = Suc (dpNextRun d)"
  "dpRuns (detailRunBegins d) = dpRuns d @ [(dpNextRun d, targetEventId d)]" "dpEvent (detailRunBegins d) = None"
  by (rule target_cong route_cong; simp add: detailRunBegins_def)+ (simp_all add: detailRunBegins_def)

lemma detailRunEnds_simps [simp]:
  "targetEventId (detailRunEnds lang run answer d) = targetEventId d" "routeMatches (detailRunEnds lang run answer d) = routeMatches d"
  "dpMounted (detailRunEnds lang run answer d) = dpMounted d" "dpNextRun (detailRunEnds lang run answer d) = dpNextRun d"
  "dpRuns (detailRunEnds lang run answer d) = remove1 run (dpRuns d)"
  by (rule target_cong route_cong; simp add: detailRunEnds_def detailShows_def Let_def split: sum.split)+
    (simp_all add: detailRunEnds_def detailShows_def Let_def split: sum.split)

lemma detailLifecycle_simps [simp]:
  "targetEventId (detailLifecycle n event d) = targetEventId d" "routeMatches (detailLifecycle n event d) = routeMatches d"
  "dpMounted (detailLifecycle n event d) = dpMounted d" "dpNextRun (detailLifecycle n event d) = dpNextRun d"
  "dpRuns (detailLifecycle n event d) = dpRuns d" "dpEvent (detailLifecycle n event d) = dpEvent d"
  "dpAnswered (detailLifecycle n event d) = dpAnswered d"
  by (rule target_cong route_cong; simp add: detailLifecycle_def Let_def)+ (simp_all add: detailLifecycle_def Let_def)

lemma runs_ok_effect:
  assumes "\<forall>(n, t) \<in> set (dpRuns d). n < dpNextRun d" "dpMounted d = None"
  shows "runs_ok (detailEffect d)"
proof (cases "targetEventId d = [] \<or> routeMatches d")
  case True
  then show ?thesis using assms by (auto simp: detailEffect_def runs_ok_def)
next
  case False
  then have "detailEffect d = detailRunBegins d" by (simp add: detailEffect_def)
  with False assms show ?thesis by (auto simp: runs_ok_def)
qed

lemma runs_ok_rerun: "runs_ok d \<Longrightarrow> dpRuns d' = dpRuns d \<Longrightarrow> dpNextRun d' = dpNextRun d \<Longrightarrow> runs_ok (detailRerun d')"
  unfolding detailRerun_def by (rule runs_ok_effect) (simp_all add: runs_ok_def)

lemma runs_ok_navigate:
  assumes "runs_ok d"
  shows "runs_ok (navigateDetail param route d)"
proof (cases "targetEventId (d\<lparr>dpParam := param, dpRoute := route\<rparr>) = targetEventId d \<and> route = None \<and> dpRoute d = None")
  case True
  let ?d = "d\<lparr>dpParam := param, dpRoute := None\<rparr>"
  have "navigateDetail param route d = ?d" using True by (auto simp: navigateDetail_def Let_def)
  moreover have "targetEventId ?d = targetEventId d" "routeMatches ?d = routeMatches d"
    using True by (auto simp: routeMatches_def)
  ultimately show ?thesis using assms by (simp add: runs_ok_def)
next
  case False
  then have "navigateDetail param route d = detailRerun (d\<lparr>dpParam := param, dpRoute := route\<rparr>)"
    by (auto simp: navigateDetail_def Let_def)
  then show ?thesis using runs_ok_rerun[OF assms] by simp
qed

lemma runs_ok_answer:
  assumes "runs_ok d" "run \<in> set (dpRuns d)"
  shows "runs_ok (detailRunEnds lang run answer d)"
proof -
  have keep: "dpEvent (detailRunEnds lang run answer d) = dpEvent d \<and> dpAnswered (detailRunEnds lang run answer d) = dpAnswered d \<or>
      dpMounted d = Some (fst run) \<and> dpAnswered (detailRunEnds lang run answer d) = Some (snd run)"
    by (auto simp: detailRunEnds_def detailShows_def Let_def split: sum.split)
  have "snd run = targetEventId d" if "dpMounted d = Some (fst run)"
    using assms that unfolding runs_ok_def by (metis prod.collapse)
  with keep show ?thesis
    using assms(1) set_remove1_subset[of run "dpRuns d"] unfolding runs_ok_def detailRunEnds_simps
    by (intro conjI allI impI ballI) (blast | metis)+
qed

lemma dp_runs:
  assumes "reach dp_open (dp_step lang) d"
  shows "runs_ok d"
  using assms
proof (induction rule: reach_invariant)
  case (opened s)
  then show ?case by (auto simp: dp_open_def openDetail_def intro!: runs_ok_effect)
next
  case (step s s')
  from step(2,1) show ?case
  proof cases
    case (dp_navigate param route)
    then show ?thesis using runs_ok_navigate step(1) by blast
  next
    case dp_rerun
    then show ?thesis using runs_ok_rerun step(1) by blast
  next
    case (dp_lifecycle run event)
    then show ?thesis using step(1) by (simp add: runs_ok_def)
  next
    case (dp_answer run answer)
    then show ?thesis using runs_ok_answer step(1) by blast
  qed
qed

interpretation dp_load: loading_page "detailShows lang target" dpAuth detailRunBegins dpLoading
  for lang target
  by unfold_locales (simp_all add: detailShows_def detailRunBegins_def)

section \<open>Properties\<close>

text \<open>
  C17: the detail page shows the event it is for, however fast the user moves and however late the answers come. In every
  reachable state in which the identifier of the address is not blank, the event shown is the one of the route and has that identifier, or it is
  the answer to a request for exactly that identifier; and the answer of a run is dropped unless that run is the
  current one and asked for the identifier of the page: it then changes neither event, error, loading nor
  session.
\<close>

theorem detail_shows_current:
  assumes "reach dp_open (dp_step lang) d"
  shows "(targetEventId d \<noteq> [] \<longrightarrow> effectiveEvent d = Some e \<longrightarrow>
      dpRoute d = Some e \<and> eventId e = targetEventId d \<or> dpEvent d = Some e \<and> dpAnswered d = Some (targetEventId d)) \<and>
    (\<forall>(n, t) \<in> set (dpRuns d). dpMounted d = Some n \<and> t = targetEventId d \<or>
      detailRunEnds lang (n, t) answer d = d\<lparr>dpRuns := remove1 (n, t) (dpRuns d)\<rparr>)"
proof (intro conjI ballI impI)
  note ok = dp_runs[OF assms]
  show "dpRoute d = Some e \<and> eventId e = targetEventId d \<or> dpEvent d = Some e \<and> dpAnswered d = Some (targetEventId d)"
    if "targetEventId d \<noteq> []" "effectiveEvent d = Some e"
    using ok that by (auto simp: runs_ok_def effectiveEvent_def routeMatches_def split: if_splits option.splits)
  show "case run of (n, t) \<Rightarrow> dpMounted d = Some n \<and> t = targetEventId d \<or>
      detailRunEnds lang (n, t) answer d = d\<lparr>dpRuns := remove1 (n, t) (dpRuns d)\<rparr>"
    if "run \<in> set (dpRuns d)" for run
    using ok that by (cases run) (auto simp: runs_ok_def detailRunEnds_def Let_def split: if_splits)
qed

definition demo_detail :: detail_page where
  "demo_detail = navigateDetail (Some (js ''e2'')) None
     (openDetail \<lparr>storage = None, session = Some JNull, invalidReason = []\<rparr> (Some (js ''e1'')) None)"

lemmas detail_eval = Let_def demo_detail_def navigateDetail_def detailRerun_def openDetail_def detailEffect_def routeMatches_def targetEventId_def
  detailRunBegins_def trim_def trimStart_def trimEnd_def isWhite_def

theorem detail_shows_current_witness:
  "dpRuns demo_detail = [(0, js ''e1''), (1, js ''e2'')] \<and>
   detailRunEnds demo_lang_ep (0, js ''e1'') (Inr odd_event) demo_detail = demo_detail\<lparr>dpRuns := [(1, js ''e2'')]\<rparr>"
proof -
  have r: "dpRuns demo_detail = [(0, js ''e1''), (1, js ''e2'')]" and m: "dpMounted demo_detail = Some 1"
    by (simp_all add: detail_eval)
  have "reach dp_open (dp_step demo_lang_ep)
      (openDetail \<lparr>storage = None, session = Some JNull, invalidReason = []\<rparr> (Some (js ''e1'')) None)"
    by (rule reach_open) (auto simp: dp_open_def)
  then have "reach dp_open (dp_step demo_lang_ep) demo_detail"
    unfolding demo_detail_def by (rule reach_step) (rule dp_navigate)
  from detail_shows_current[OF this, of odd_event "Inr odd_event"] r m show ?thesis by auto
qed

text \<open>
  An event that comes with the route does not clear the error of the event before: the page shows the new event
  under the old error.
\<close>

theorem stale_detail_error:
  assumes "eventId e = trim i"
  shows "let d' = navigateDetail (Some i) (Some e) d
    in effectiveEvent d' = Some e \<and> dpError d' = dpError d"
  using assms by (simp add: navigateDetail_def detailRerun_def detailEffect_def effectiveEvent_def routeMatches_def targetEventId_def Let_def)

theorem stale_detail_error_witness:
  "dpError (navigateDetail (Some (js ''e1'')) (Some odd_event) (demo_detail\<lparr>dpError := js ''old''\<rparr>)) = js ''old''"
  using stale_detail_error[of odd_event "js ''e1''" "demo_detail\<lparr>dpError := js ''old''\<rparr>"]
  by (simp add: Let_def odd_event_def trim_def trimStart_def trimEnd_def isWhite_def)

lemma unmounted_answers:
  assumes "dpMounted d = None"
  shows "fold (\<lambda>(run, answer). detailRunEnds lang run answer) answers d =
    d\<lparr>dpRuns := fold (\<lambda>(run, answer). remove1 run) answers (dpRuns d)\<rparr>"
  using assms by (induction answers arbitrary: d) (simp_all add: detailRunEnds_def case_prod_beta)

text \<open>
  Moving to a blank identifier while an event is being loaded leaves the page loading for ever: the effect returns
  before it could reset the flag, the run under way may no longer do so, and whatever is still answered, the page shows the
  loading text instead of the text for an invalid identifier.
\<close>

theorem blank_id_loads_forever:
  assumes "trim i = []" "targetEventId d \<noteq> []" "dpLoading d" "dpEvent d = None"
  shows "detailView rnd other dateText
    (fold (\<lambda>(run, answer). detailRunEnds lang run answer) answers (navigateDetail (Some i) None d)) = DetailLoading"
proof -
  have "navigateDetail (Some i) None d = d\<lparr>dpParam := Some i, dpRoute := None, dpMounted := None\<rparr>" (is "_ = ?d")
    using assms(1,2) by (auto simp: navigateDetail_def detailRerun_def detailEffect_def targetEventId_def Let_def)
  then show ?thesis using assms(3,4) by (simp add: unmounted_answers detailView_def effectiveEvent_def routeMatches_def)
qed

theorem blank_id_loads_forever_witness:
  "detailView Fin (\<lambda>_. []) (\<lambda>_. None) (fold (\<lambda>(run, answer). detailRunEnds demo_lang_ep run answer)
     [((0, js ''e1''), Inr odd_event), ((1, js ''e2''), Inr odd_event)] (navigateDetail (Some (js '' '')) None demo_detail)) = DetailLoading"
  by (rule blank_id_loads_forever) (simp_all add: detail_eval)

text \<open>
  Moving to a blank identifier keeps the event of the address that was left on the screen, instead of the text for an invalid
  identifier.
\<close>

theorem blank_id_keeps_event:
  assumes "trim i = []" "targetEventId d \<noteq> []" "dpEvent d = Some e"
  shows "let d' = navigateDetail (Some i) None d
    in targetEventId d' = [] \<and> effectiveEvent d' = Some e \<and>
      (\<exists>text payloadText meta. detailView rnd other dateText d' = DetailShown text (detailCells dateText e) payloadText meta)"
proof -
  have "navigateDetail (Some i) None d = d\<lparr>dpParam := Some i, dpRoute := None, dpMounted := None\<rparr>"
    using assms(1,2) by (auto simp: navigateDetail_def detailRerun_def detailEffect_def targetEventId_def Let_def)
  then show ?thesis using assms(1,3) by (simp add: Let_def targetEventId_def effectiveEvent_def routeMatches_def detailView_def)
qed

theorem blank_id_keeps_event_witness:
  "effectiveEvent (navigateDetail (Some (js '' '')) None (demo_detail\<lparr>dpEvent := Some odd_event\<rparr>)) = Some odd_event"
  using blank_id_keeps_event[of "js '' ''" "demo_detail\<lparr>dpEvent := Some odd_event\<rparr>" odd_event]
  by (simp add: Let_def detail_eval)

end
