(* ===== verification/AppRoutes.thy ===== *)
theory AppRoutes
  imports LoginPage StatusPages NotificationsPage EventDetailPage
begin

text \<open>
  The frame of the web application: the route table of \<open>router.tsx\<close> as data, and the header of \<open>App.tsx\<close>. Matching an address against
  the table belongs to the router library; what is proved here is about every branch of the table.
\<close>

datatype element =
    ElWebsiteLayout | ElWebsiteHome | ElWebsiteDownload | ElWebsiteInfo | ElLogin | ElRequireAuth | ElApp
  | ElHome | ElState | ElEvents | ElNotifications | ElEventDetail

datatype route = Route (routePath: "jstring option") (routeIndex: bool) (routeElement: element) (routeChildren: "route list")

abbreviation page :: "jstring \<Rightarrow> element \<Rightarrow> route" where
  "page p el \<equiv> Route (Some p) False el []"
abbreviation indexPage :: "element \<Rightarrow> route" where
  "indexPage el \<equiv> Route None True el []"

definition appRouter :: "route list" where
  "appRouter =
     [Route (Some (js ''/site'')) False ElWebsiteLayout
        [indexPage ElWebsiteHome, page (js ''download'') ElWebsiteDownload, page (js ''info'') ElWebsiteInfo],
      page (js ''/login'') ElLogin,
      Route None False ElRequireAuth
        [Route (Some (js ''/'')) False ElApp
           [indexPage ElHome, page (js ''state'') ElState, page (js ''events'') ElEvents,
            page (js ''notifications'') ElNotifications, page (js ''events/:eventId'') ElEventDetail]]]"

text \<open>The branches of the table: the elements from the outermost to a page, with the segments of its path.\<close>

fun branches :: "route \<Rightarrow> (element list \<times> jstring list) list" where
  "branches (Route p i el cs) =
     (let here = (case p of None \<Rightarrow> [] | Some s \<Rightarrow> [s])
      in if cs = [] then [([el], here)]
         else map (\<lambda>(els, ps). (el # els, here @ ps)) (concat (map branches cs)))"

definition allBranches :: "(element list \<times> jstring list) list" where
  "allBranches = concat (map branches appRouter)"

text \<open>The pages that ask the backend with the session of the user.\<close>

fun isWalletPage :: "element \<Rightarrow> bool" where
  "isWalletPage ElHome = True"
| "isWalletPage ElState = True"
| "isWalletPage ElEvents = True"
| "isWalletPage ElNotifications = True"
| "isWalletPage ElEventDetail = True"
| "isWalletPage _ = False"

section \<open>The header\<close>

definition sessionText :: "auth \<Rightarrow> json option" where
  "sessionText a =
     (let accountId = member (session a) (js ''accountId'')
      in if accountId = None \<or> accountId = Some JNull then Some (JStr (js ''-'')) else accountId)"

definition clickSignOut :: "auth \<Rightarrow> auth" where
  "clickSignOut a = signOut None a"

section \<open>Rendering a branch\<close>

text \<open>
  What a branch shows: the elements are nested, and \<open>RequireAuth\<close> shows what is inside it or sends the user to the login page.
\<close>

datatype shown = Page element | LoginRedirect jstring "jstring option"

fun renderBranch :: "auth \<Rightarrow> jstring \<Rightarrow> jstring \<Rightarrow> element list \<Rightarrow> shown option" where
  "renderBranch a pathname search [] = None"
| "renderBranch a pathname search [el] = Some (Page el)"
| "renderBranch a pathname search (el # els) =
     (if el = ElRequireAuth then
        (case RequireAuth a pathname search of
           NavigateLogin from reason \<Rightarrow> Some (LoginRedirect from reason)
         | Outlet \<Rightarrow> renderBranch a pathname search els)
      else renderBranch a pathname search els)"

section \<open>Properties\<close>

lemma wallet_branches:
  "filter (\<lambda>b. isWalletPage (last (fst b))) allBranches =
     map (\<lambda>(el, ps). ([ElRequireAuth, ElApp, el], js ''/'' # ps))
       [(ElHome, []), (ElState, [js ''state'']), (ElEvents, [js ''events'']), (ElNotifications, [js ''notifications'']),
        (ElEventDetail, [js ''events/:eventId''])]"
  by (simp add: allBranches_def appRouter_def del: js_Cons)

lemma wallet_branch_cases:
  assumes "b \<in> set allBranches" "isWalletPage (last (fst b))"
  obtains el where "isWalletPage el" "fst b = [ElRequireAuth, ElApp, el]"
proof -
  have "b \<in> set (filter (\<lambda>b. isWalletPage (last (fst b))) allBranches)" using assms by simp
  then show thesis unfolding wallet_branches using that by auto
qed

text \<open>
  no page of the wallet is reachable without a session. Every branch of the route table that ends in one of its five pages passes through the guard:
  without a session it shows the redirect to the login page, which carries the address asked for and the reason, and with a session the page
  itself.
\<close>

theorem wallet_pages_are_guarded:
  assumes "b \<in> set allBranches" "isWalletPage (last (fst b))"
  shows "renderBranch a pathname search (fst b) =
    (if isAuthenticated a then Some (Page (last (fst b)))
     else Some (LoginRedirect (pathname @ search) (if invalidReason a = [] then None else Some (invalidReason a))))"
proof -
  obtain el where "fst b = [ElRequireAuth, ElApp, el]" using wallet_branch_cases[OF assms] by blast
  then show ?thesis by (simp add: RequireAuth_def)
qed

theorem wallet_pages_are_guarded_witness:
  "renderBranch \<lparr>storage = None, session = None, invalidReason = js ''x''\<rparr> (js ''/events/e1'') [] [ElRequireAuth, ElApp, ElEventDetail] =
     Some (LoginRedirect (js ''/events/e1'') (Some (js ''x'')))"
proof -
  have "([ElRequireAuth, ElApp, ElEventDetail], [js ''/'', js ''events/:eventId'']) \<in> set allBranches"
    by (simp add: allBranches_def appRouter_def del: js_Cons)
  from wallet_pages_are_guarded[OF this, of "\<lparr>storage = None, session = None, invalidReason = js ''x''\<rparr>" "js ''/events/e1''" "[]"]
  show ?thesis by (simp add: isAuthenticated_def)
qed

end
