(* ===== verification/BrowserDownload.thy ===== *)
theory BrowserDownload
  imports EventsPage
begin

text \<open>
  \<open>downloadTextFile\<close> of \<open>wallet-app/src/lib/eventExport.ts\<close> on what it uses of the browser: the object URLs that are alive, the anchors in the body of the document, and
  the files saved. Clicking an anchor in the document saves the object that its address stands for at that moment, under the name of its
  \<open>download\<close> attribute. \<open>urlName\<close> gives the names of object URLs.
\<close>

record blob =
  blobContent :: jstring
  blobType :: jstring

record anchor =
  anchorNode :: nat
  anchorHref :: jstring
  anchorDownload :: jstring

record browser =
  objectUrls :: "(jstring \<times> blob) list"
  bodyAnchors :: "anchor list"
  savedFiles :: "(jstring \<times> jstring \<times> jstring) list"
  nextUrl :: nat
  nextNode :: nat

definition createObjectURL :: "(nat \<Rightarrow> jstring) \<Rightarrow> blob \<Rightarrow> browser \<Rightarrow> jstring \<times> browser" where
  "createObjectURL urlName b br =
     (urlName (nextUrl br), br\<lparr>objectUrls := (urlName (nextUrl br), b) # objectUrls br, nextUrl := Suc (nextUrl br)\<rparr>)"

definition revokeObjectURL :: "jstring \<Rightarrow> browser \<Rightarrow> browser" where
  "revokeObjectURL href br = br\<lparr>objectUrls := filter (\<lambda>(u, b). u \<noteq> href) (objectUrls br)\<rparr>"

definition createAnchor :: "browser \<Rightarrow> anchor \<times> browser" where
  "createAnchor br = (\<lparr>anchorNode = nextNode br, anchorHref = [], anchorDownload = []\<rparr>, br\<lparr>nextNode := Suc (nextNode br)\<rparr>)"

definition appendAnchor :: "anchor \<Rightarrow> browser \<Rightarrow> browser" where
  "appendAnchor a br = br\<lparr>bodyAnchors := bodyAnchors br @ [a]\<rparr>"

definition removeAnchor :: "anchor \<Rightarrow> browser \<Rightarrow> browser" where
  "removeAnchor a br = br\<lparr>bodyAnchors := filter (\<lambda>x. anchorNode x \<noteq> anchorNode a) (bodyAnchors br)\<rparr>"

definition clickAnchor :: "anchor \<Rightarrow> browser \<Rightarrow> browser" where
  "clickAnchor a br =
     (case map_of (objectUrls br) (anchorHref a) of
        Some b \<Rightarrow> br\<lparr>savedFiles := savedFiles br @ [(blobContent b, anchorDownload a, blobType b)]\<rparr>
      | None \<Rightarrow> br)"

definition downloadTextFile :: "(nat \<Rightarrow> jstring) \<Rightarrow> jstring \<Rightarrow> jstring \<Rightarrow> jstring \<Rightarrow> browser \<Rightarrow> browser" where
  "downloadTextFile urlName content fileName mime br0 =
     (let b = \<lparr>blobContent = content, blobType = mime\<rparr>;
          (href, br1) = createObjectURL urlName b br0;
          (node, br2) = createAnchor br1;
          a = node\<lparr>anchorHref := href, anchorDownload := fileName\<rparr>
      in revokeObjectURL href (removeAnchor a (clickAnchor a (appendAnchor a br2))))"

text \<open>Names and nodes are handed out once.\<close>

definition browser_ok :: "(nat \<Rightarrow> jstring) \<Rightarrow> browser \<Rightarrow> bool" where
  "browser_ok urlName br \<longleftrightarrow> inj urlName \<and> list_all (\<lambda>a. anchorNode a < nextNode br) (bodyAnchors br) \<and>
     list_all (\<lambda>(u, b). \<exists>n < nextUrl br. u = urlName n) (objectUrls br)"

lemma download_effect:
  assumes "browser_ok urlName br"
  shows "let br' = downloadTextFile urlName content fileName mime br
    in savedFiles br' = savedFiles br @ [(content, fileName, mime)] \<and> objectUrls br' = objectUrls br \<and>
       bodyAnchors br' = bodyAnchors br \<and> browser_ok urlName br'"
proof -
  have "filter (\<lambda>x. anchorNode x \<noteq> nextNode br) (bodyAnchors br) = bodyAnchors br"
    using assms by (auto simp: browser_ok_def list_all_iff filter_id_conv)
  moreover have "filter (\<lambda>(u, b). u \<noteq> urlName (nextUrl br)) (objectUrls br) = objectUrls br"
    using assms by (fastforce simp: browser_ok_def list_all_iff filter_id_conv dest: injD)
  ultimately show ?thesis
    using assms by (auto simp: downloadTextFile_def createObjectURL_def createAnchor_def appendAnchor_def removeAnchor_def clickAnchor_def
        revokeObjectURL_def browser_ok_def list_all_iff less_Suc_eq)
qed

text \<open>The downloads that a page has asked for, in order.\<close>

definition runDownloads :: "(nat \<Rightarrow> jstring) \<Rightarrow> (jstring \<times> jstring \<times> jstring) list \<Rightarrow> browser \<Rightarrow> browser" where
  "runDownloads urlName ds br = fold (\<lambda>(content, fileName, mime). downloadTextFile urlName content fileName mime) ds br"

text \<open>
  C29: downloads save exactly their files and leave nothing behind. Whatever files the events page has asked for, each is saved once, in order, with its content, name
  and type; afterwards the object URLs and the anchors of the document are those of before.
\<close>

theorem downloads_save_and_clean:
  assumes "browser_ok urlName br"
  shows "let br' = runDownloads urlName (epDownloads p) br
    in savedFiles br' = savedFiles br @ epDownloads p \<and> objectUrls br' = objectUrls br \<and> bodyAnchors br' = bodyAnchors br \<and> browser_ok urlName br'"
proof -
  have "savedFiles (runDownloads urlName ds br) = savedFiles br @ ds \<and> objectUrls (runDownloads urlName ds br) = objectUrls br \<and>
      bodyAnchors (runDownloads urlName ds br) = bodyAnchors br \<and> browser_ok urlName (runDownloads urlName ds br)" for ds
    using assms
  proof (induction ds arbitrary: br)
    case (Cons d ds)
    obtain content fileName mime where d: "d = (content, fileName, mime)" by (cases d)
    show ?case
      using Cons.IH[of "downloadTextFile urlName content fileName mime br"] download_effect[OF Cons.prems, of content fileName mime]
      by (simp add: d runDownloads_def Let_def)
  qed (simp add: runDownloads_def)
  then show ?thesis by (simp add: Let_def)
qed

definition empty_browser :: browser where
  "empty_browser = \<lparr>objectUrls = [], bodyAnchors = [], savedFiles = [], nextUrl = 0, nextNode = 0\<rparr>"

definition demo_exported :: events_page where
  "demo_exported = clickExport (\<lambda>_. []) \<lparr>year = 2025, month0 = 0, day = 1, hour = 0, minute = 0, second = 0\<rparr> FormatCsv demo_first_page"

theorem downloads_save_and_clean_witness: "length (savedFiles (runDownloads natString (epDownloads demo_exported) empty_browser)) = 1"
proof -
  have "browser_ok natString empty_browser" "savedFiles empty_browser = []" by (simp_all add: browser_ok_def empty_browser_def inj_def)
  moreover have "length (epDownloads demo_exported) = 1"
    by (simp add: demo_exported_def clickExport_def exportAs_def downloadEvents_def demo_page_eval epEvents_def demo_events_def)
  ultimately show ?thesis using downloads_save_and_clean[of natString empty_browser demo_exported] by (simp add: Let_def)
qed

end
