(* ===== verification/Markup.thy ===== *)
theory Markup
  imports PageLoad
begin

text \<open>
  The markup that the components of the web application return: elements with attributes, flags (\<open>disabled\<close>, \<open>readOnly\<close>), handlers
  and children, as JSX writes them. A handler is named by the action of the user that it serves; a value that
  a component passes to React as it is stands in a leaf of its own. \<open>offers\<close> says which actions a rendered page accepts: a disabled element
  takes no input, and a form is submitted through a submit button that is not disabled. The locale
  \<open>controlled_page\<close> is the contract between the markup of a page and its handlers.
\<close>

section \<open>Elements\<close>

datatype 'e attribute =
    Attr string jstring
  | Flag string bool
  | LinkState json
  | On string 'e

datatype 'e jsx =
    Elem string "'e attribute list" "'e jsx list"
  | Txt jstring
  | Val "json option"

text \<open>\<open>cond ? <x/> : null\<close>\<close>

definition orNothing :: "bool \<Rightarrow> 'a \<Rightarrow> 'a list" where
  "orNothing cond x = (if cond then [x] else [])"

lemma orNothing_simps [simp]: "orNothing True x = [x]" "orNothing False x = []" "map f (orNothing c x) = orNothing c (f x)" "concat (orNothing c xs) = (if c then xs else [])"
  "list_ex P (orNothing c x) \<longleftrightarrow> c \<and> P x" "set (orNothing c x) = (if c then {x} else {})"
  by (cases c; simp add: orNothing_def)+

fun elements :: "'e jsx \<Rightarrow> (string \<times> 'e attribute list) list" where
  "elements (Elem tag as ns) = (tag, as) # concat (map elements ns)"
| "elements (Txt t) = []"
| "elements (Val v) = []"

fun attrValue :: "string \<Rightarrow> 'e attribute \<Rightarrow> jstring list" where
  "attrValue k (Attr n v) = (if n = k then [v] else [])"
| "attrValue k _ = []"

definition attrValues :: "string \<Rightarrow> 'e attribute list \<Rightarrow> jstring list" where
  "attrValues k as = concat (map (attrValue k) as)"

lemma attrValues_simps [simp]:
  "attrValues k [] = []" "attrValues k (a # as) = attrValue k a @ attrValues k as"
  by (simp_all add: attrValues_def)

fun isDisabledFlag :: "'e attribute \<Rightarrow> bool" where
  "isDisabledFlag (Flag n b) = (n = ''disabled'' \<and> b)"
| "isDisabledFlag _ = False"

definition isDisabled :: "'e attribute list \<Rightarrow> bool" where
  "isDisabled as = list_ex isDisabledFlag as"

lemma isDisabled_simps [simp]:
  "\<not> isDisabled []" "isDisabled (a # as) \<longleftrightarrow> isDisabledFlag a \<or> isDisabled as"
  by (simp_all add: isDisabled_def)

section \<open>Links\<close>

text \<open>The addresses within the application, and the anchors that leave it.\<close>

definition linksOf :: "'e jsx \<Rightarrow> jstring list" where
  "linksOf n = concat (map (\<lambda>(tag, as). if tag \<in> {''Link'', ''NavLink''} then attrValues ''to'' as else []) (elements n))"

definition anchors :: "'e jsx \<Rightarrow> 'e attribute list list" where
  "anchors n = map snd (filter (\<lambda>(tag, as). tag = ''a'') (elements n))"

lemma linksOf_simps [simp]:
  "linksOf (Elem tag as ns) = (if tag \<in> {''Link'', ''NavLink''} then attrValues ''to'' as else []) @ concat (map linksOf ns)"
  "linksOf (Txt t) = []" "linksOf (Val v) = []"
  by (induction ns) (simp_all add: linksOf_def)

lemma anchors_simps [simp]:
  "anchors (Elem tag as ns) = (if tag = ''a'' then [as] else []) @ concat (map anchors ns)"
  "anchors (Txt t) = []" "anchors (Val v) = []"
  by (induction ns) (simp_all add: anchors_def split: if_splits)

text \<open>An outer component shows the inner one in the place of its \<open><Outlet />\<close>.\<close>

fun plug :: "'e jsx \<Rightarrow> 'e jsx \<Rightarrow> 'e jsx" where
  "plug inner (Elem tag as ns) = (if tag = ''Outlet'' then inner else Elem tag as (map (plug inner) ns))"
| "plug inner (Txt t) = Txt t"
| "plug inner (Val v) = Val v"

lemma linksOf_plug: "set (linksOf (plug inner n)) \<subseteq> set (linksOf inner) \<union> set (linksOf n)"
  by (induction inner n rule: plug.induct) auto

lemma anchors_plug: "set (anchors (plug inner n)) \<subseteq> set (anchors inner) \<union> set (anchors n)"
  by (induction inner n rule: plug.induct) auto

section \<open>Actions\<close>

fun handlers :: "'e attribute list \<Rightarrow> (string \<times> 'e) list" where
  "handlers [] = []"
| "handlers (On h e # as) = (h, e) # handlers as"
| "handlers (_ # as) = handlers as"

definition submitEnabled :: "'e jsx list \<Rightarrow> bool" where
  "submitEnabled ns =
     list_ex (\<lambda>(tag, as). tag = ''button'' \<and> attrValues ''type'' as = [js ''submit''] \<and> \<not> isDisabled as) (concat (map elements ns))"

fun offers :: "'e jsx \<Rightarrow> 'e \<Rightarrow> bool" where
  "offers (Elem tag as ns) e =
     (\<not> isDisabled as \<and> list_ex (\<lambda>(h, x). x = e \<and> (h = ''onSubmit'' \<longrightarrow> submitEnabled ns)) (handlers as) \<or>
      list_ex (\<lambda>n. offers n e) ns)"
| "offers (Txt t) e = False"
| "offers (Val v) e = False"

lemma offers_map [simp]: "(\<And>x. \<not> offers (f x) e) \<Longrightarrow> \<not> list_ex (\<lambda>n. offers n e) (map f xs)"
  by (simp add: list_ex_iff)

text \<open>
  A page and its handlers: \<open>act\<close> is what an input does to the state of the page, \<open>uses\<close> the action
  that the markup must offer for it. What the markup does not offer changes nothing.
\<close>

locale controlled_page =
  fixes view :: "'s \<Rightarrow> (exn, 'e jsx) result"
    and act :: "'i \<Rightarrow> 's \<Rightarrow> 's"
    and uses :: "'i \<Rightarrow> 'e"
  assumes inert: "view s = Inr t \<Longrightarrow> \<not> offers t (uses i) \<Longrightarrow> act i s = s"
begin

definition offered_step :: "'s \<Rightarrow> 's \<Rightarrow> bool" where
  "offered_step s s' \<longleftrightarrow> (\<exists>t i. view s = Inr t \<and> offers t (uses i) \<and> s' = act i s)"

definition shown_step :: "'s \<Rightarrow> 's \<Rightarrow> bool" where
  "shown_step s s' \<longleftrightarrow> (\<exists>t i. view s = Inr t \<and> s' = act i s)"

text \<open>The states that a user can reach through the page are those of the handlers, called at any moment.\<close>

lemma offered_reaches: "offered_step\<^sup>*\<^sup>* s s' \<longleftrightarrow> shown_step\<^sup>*\<^sup>* s s'"
proof
  assume "offered_step\<^sup>*\<^sup>* s s'"
  then show "shown_step\<^sup>*\<^sup>* s s'"
    by (rule rtranclp_mono[THEN predicate2D, rotated]) (auto simp: offered_step_def shown_step_def)
next
  assume "shown_step\<^sup>*\<^sup>* s s'"
  then show "offered_step\<^sup>*\<^sup>* s s'"
  proof (induction rule: rtranclp_induct)
    case (step y z)
    then obtain t i where i: "view y = Inr t" "z = act i y" by (auto simp: shown_step_def)
    show ?case
    proof (cases "offers t (uses i)")
      case True
      then have "offered_step y z" using i by (auto simp: offered_step_def)
      with step.IH show ?thesis by (rule rtranclp.rtrancl_into_rtrancl)
    qed (use inert[OF i(1)] i(2) step.IH in simp)
  qed simp
qed

end

end
