(* ===== verification/PageViews.thy ===== *)
theory PageViews
  imports Markup EventDetailPage LoginPage StatusPages NotificationsPage
begin

text \<open>
  What the pages of the wallet return: the markup of \<open>LoginPage.tsx\<close>, \<open>HomePage.tsx\<close>, \<open>StatePage.tsx\<close>, \<open>NotificationsPage.tsx\<close>, \<open>EventsPage.tsx\<close>
  and \<open>EventDetailPage.tsx\<close> as a function of the state of the page. Two of them can throw while they render. For each page with controls the actions
  that the markup offers are computed from the state, and the locale \<open>controlled_page\<close> is interpreted on it: an input that is not offered does nothing
  in the model of the page, whose inputs carry the \<open>disabled\<close> attributes of the source.
\<close>

section \<open>The login page\<close>

datatype login_ui = TypesAccount | SubmitsForm | ConfirmsSignature

definition loginView :: "(json option \<Rightarrow> jstring) \<Rightarrow> jstring option \<Rightarrow> login \<Rightarrow> login_ui jsx" where
  "loginView dateLocale reason s =
    Elem ''section'' [Attr ''className'' (js ''login-page'')]
      ([Elem ''div'' [Attr ''className'' (js ''login-hero'')]
          [Elem ''p'' [Attr ''className'' (js ''page-kicker'')] [Txt (js ''Spot Access'')],
            Elem ''h2'' [] [Txt [20132, 26131, 32456, 31471, 30331, 24405]],
            Elem ''p'' [Attr ''className'' (js ''page-description'')] [Txt [36755, 20837, 36134, 21495, 24182, 23436, 25104, 20004, 27493, 31614, 21517, 25480, 26435, 65292, 21363, 21487, 36827, 20837, 38065, 21253, 20132, 26131, 21488, 12290]]]] @
       orNothing (sessionMessage reason (loginAuth s) \<noteq> [])
        (Elem ''p'' [Attr ''className'' (js ''error-text'')] [Txt (sessionMessage reason (loginAuth s))]) @
       [Elem ''form'' [Attr ''className'' (js ''login-form''), On ''onSubmit'' SubmitsForm]
          [Elem ''label'' [Attr ''htmlFor'' (js ''accountId'')] [Txt [36134, 21495, 26631, 35782]],
            Elem ''input'' [Attr ''id'' (js ''accountId''), Attr ''name'' (js ''accountId''), Attr ''value'' (accountField s), On ''onChange'' TypesAccount, Attr ''autoComplete'' (js ''off''), Attr ''placeholder'' ([20363, 22914, 65306] @ js ''demo-user'')] [],
            Elem ''div'' [Attr ''className'' (js ''login-actions'')]
              [Elem ''button'' [Attr ''type'' (js ''submit''), Flag ''disabled'' (requestingChallenge s \<or> confirmingSignature s)] [Txt (if requestingChallenge s then [35831, 27714, 25480, 26435, 20013] @ js ''...'' else js ''1. '' @ [21457, 36215, 25480, 26435, 35831, 27714])],
                Elem ''button'' [Attr ''type'' (js ''button''), Attr ''className'' (js ''ghost-button''), On ''onClick'' ConfirmsSignature, Flag ''disabled'' (confirmingSignature s \<or> requestingChallenge s \<or> \<not> truthy (challenge s))] [Txt (if confirmingSignature s then [31614, 21517, 30830, 35748, 20013] @ js ''...'' else js ''2. '' @ [30830, 35748, 31614, 21517, 24182, 30331, 24405])]]]] @
       orNothing (truthy (challenge s))
        (Elem ''div'' [Attr ''className'' (js ''auth-result-card'')]
           [Elem ''p'' [Attr ''className'' (js ''card-title'')] [Txt [25480, 26435, 25361, 25112]],
             Elem ''p'' [] [Txt (js ''requestId: ''), Val (member (challenge s) (js ''requestId''))],
             Elem ''p'' [] [Txt (js ''expiresAt: ''), Txt (dateLocale (member (challenge s) (js ''expiresAt'')))],
             Elem ''pre'' [] [Val (member (challenge s) (js ''challengeMessage''))]]) @
       orNothing (truthy (authorizationResult s))
        (Elem ''div'' [Attr ''className'' (js ''auth-result-card'')]
           [Elem ''p'' [Attr ''className'' (js ''card-title'')] [Txt [25480, 26435, 32467, 26524]],
             Elem ''p'' [] [Txt ([29366, 24577] @ js '': ''), Txt (if succeeded (authorizationResult s) then [25104, 21151] else [22833, 36133])],
             Elem ''p'' [] [Txt (js ''requestId: ''), Val (member (authorizationResult s) (js ''requestId''))],
             Elem ''p'' [] [Txt (js ''account: ''), Val (member (authorizationResult s) (js ''accountId''))],
             Elem ''p'' [] [Txt (js ''authorizedAt: ''), Txt (dateLocale (member (authorizationResult s) (js ''authorizedAt'')))],
             Elem ''p'' [] [Txt (js ''signature: ''), Val (member (authorizationResult s) (js ''signature''))]]) @
       orNothing (formError s \<noteq> [])
        (Elem ''p'' [Attr ''className'' (js ''error-text'')] [Txt (formError s)]))"

text \<open>The inputs of a user: the text typed, the submitted form, and the confirmation at a time.\<close>

datatype login_input = TypeAccount jstring | PressSubmit | PressConfirm int

fun loginUses :: "login_input \<Rightarrow> login_ui" where
  "loginUses (TypeAccount t) = TypesAccount"
| "loginUses PressSubmit = SubmitsForm"
| "loginUses (PressConfirm t) = ConfirmsSignature"

fun loginAct :: "lang \<Rightarrow> login_input \<Rightarrow> login \<Rightarrow> login" where
  "loginAct lang (TypeAccount t) s = s\<lparr>accountField := t\<rparr>"
| "loginAct lang PressSubmit s = (if canSubmit s then submitBegins s else s)"
| "loginAct lang (PressConfirm t) s = (if canConfirm s then confirmBegins lang t s else s)"

section \<open>The home page\<close>

datatype home_ui = TypesAddress | TypesAmount | TypesMemo | TypesUri | Generates | Parses | Copies | ChecksHealth

definition homeView :: "jstring \<Rightarrow> jstring \<Rightarrow> home_page \<Rightarrow> (exn, home_ui jsx) result" where
  "homeView notText baseUrl h = ebind (healthTone notText h) (\<lambda>tone. Inr (
    Elem ''section'' [Attr ''className'' (js ''home-page'')]
      ([Elem ''div'' [Attr ''className'' (js ''home-overview'')]
          [Elem ''p'' [Attr ''className'' (js ''page-kicker'')] [Txt (js ''Spot Overview'')],
            Elem ''h2'' [] [Txt [20132, 26131, 39318, 39029]],
            Elem ''p'' [Attr ''className'' (js ''page-description'')] [Txt [32858, 21512, 20851, 38190, 20837, 21475, 19982, 26381, 21153, 29366, 24577, 65292, 24555, 36895, 36827, 20837, 38142, 29366, 24577, 21644, 20132, 26131, 20107, 20214, 39029, 38754, 12290]]],
        Elem ''div'' [Attr ''className'' (js ''home-grid'')]
          [Elem ''div'' [Attr ''className'' (js ''exchange-card'')]
              [Elem ''p'' [Attr ''className'' (js ''card-title'')] [Txt (js ''BIP-21 '' @ [25910, 27454] @ js ''/'' @ [25903, 20184])],
                Elem ''div'' [Attr ''className'' (js ''bip21-form'')]
                  [Elem ''label'' [Attr ''className'' (js ''field-block'')]
                      [Txt [25910, 27454, 22320, 22336],
                        Elem ''input'' [Attr ''value'' (homeAddress h), On ''onChange'' TypesAddress, Attr ''placeholder'' (js ''soulon1...'')] []],
                    Elem ''label'' [Attr ''className'' (js ''field-block'')]
                      [Txt [37329, 39069, 65288, 21487, 36873, 65289],
                        Elem ''input'' [Attr ''value'' (homeAmount h), On ''onChange'' TypesAmount, Attr ''placeholder'' (js ''1.25'')] []],
                    Elem ''label'' [Attr ''className'' (js ''field-block'')]
                      [Txt [22791, 27880, 65288, 21487, 36873, 65289],
                        Elem ''input'' [Attr ''value'' (homeMemo h), On ''onChange'' TypesMemo, Attr ''placeholder'' (js ''for coffee'')] []],
                    Elem ''div'' [Attr ''className'' (js ''bip21-actions'')]
                      [Elem ''button'' [Attr ''type'' (js ''button''), On ''onClick'' Generates] [Txt ([29983, 25104, 25903, 20184] @ js '' URI'')]],
                    Elem ''label'' [Attr ''className'' (js ''field-block'')]
                      [Txt (js ''URI '' @ [31896, 36148] @ js ''/'' @ [25195, 30721, 32467, 26524]),
                        Elem ''input'' [Attr ''value'' (bip21Input h), On ''onChange'' TypesUri, Attr ''placeholder'' (js ''bitcoin:soulon1...?amount=1.25&memo=...'')] []],
                    Elem ''div'' [Attr ''className'' (js ''bip21-actions'')]
                      [Elem ''button'' [Attr ''type'' (js ''button''), On ''onClick'' Parses] [Txt [35299, 26512, 24182, 22238, 22635, 34920, 21333]]],
                    Elem ''label'' [Attr ''className'' (js ''field-block'')]
                      [Txt ([24050, 29983, 25104] @ js '' URI''),
                        Elem ''input'' [Attr ''value'' (generatedUri h), Flag ''readOnly'' True, Attr ''placeholder'' ([28857, 20987, 8220, 29983, 25104, 25903, 20184] @ js '' URI'' @ [8221, 21518, 23637, 31034])] []],
                    Elem ''div'' [Attr ''className'' (js ''bip21-actions'')]
                      ([Elem ''button'' [Attr ''type'' (js ''button''), Attr ''className'' (js ''ghost-button''), On ''onClick'' Copies, Flag ''disabled'' (generatedUri h = [])] [Txt ([22797, 21046] @ js '' URI'')]] @
                       orNothing (copyStatus h \<noteq> [])
                        (Elem ''span'' [Attr ''className'' (js ''status-badge success'')] [Txt (copyStatus h)]))]],
            Elem ''div'' [Attr ''className'' (js ''exchange-card'')]
              [Elem ''p'' [Attr ''className'' (js ''card-title'')] [Txt [24555, 25463, 20837, 21475]],
                Elem ''div'' [Attr ''className'' (js ''quick-links'')]
                  [Elem ''Link'' [Attr ''to'' (js ''/state'')] [Txt [38142, 29366, 24577, 38754, 26495]],
                    Elem ''Link'' [Attr ''to'' (js ''/events'')] [Txt [20132, 26131, 20107, 20214, 27969]]]],
            Elem ''div'' [Attr ''className'' (js ''exchange-card'')]
              [Elem ''p'' [Attr ''className'' (js ''card-title'')] [Txt [31995, 32479, 29366, 24577]],
                Elem ''p'' [Attr ''className'' (js ''meta-line'')] [Txt (js ''API Base URL: ''), Txt baseUrl],
                Elem ''div'' [Attr ''className'' (js ''health-panel'')]
                  [Elem ''button'' [Attr ''type'' (js ''button''), On ''onClick'' ChecksHealth] [Txt [26816, 26597, 21518, 31471, 20581, 24247, 29366, 24577]],
                    Elem ''span'' [Attr ''className'' (js ''status-badge '' @ tone)] [Txt (js ''health: ''), Val (homeHealth h)]]]]] @
       orNothing (homeError h \<noteq> [])
        (Elem ''p'' [Attr ''className'' (js ''error-text'')] [Txt (homeError h)]) @
       orNothing (bip21Error h \<noteq> [])
        (Elem ''p'' [Attr ''className'' (js ''error-text'')] [Txt (bip21Error h)]))))"

text \<open>The health check changes nothing before its answer.\<close>

datatype home_act = InputHome home_input | PressGenerate | PressParse | PressCopy "(thrown, unit) result"

fun homeUses :: "home_act \<Rightarrow> home_ui" where
  "homeUses (InputHome (AddressIn t)) = TypesAddress"
| "homeUses (InputHome (AmountIn t)) = TypesAmount"
| "homeUses (InputHome (MemoIn t)) = TypesMemo"
| "homeUses (InputHome (UriIn t)) = TypesUri"
| "homeUses PressGenerate = Generates"
| "homeUses PressParse = Parses"
| "homeUses (PressCopy copied) = Copies"

fun homeAct :: "(jstring \<rightharpoonup> jstring) \<Rightarrow> home_act \<Rightarrow> home_page \<Rightarrow> home_page" where
  "homeAct inherited (InputHome i) h = homeInput i h"
| "homeAct inherited PressGenerate h = handleGenerateBip21 inherited h"
| "homeAct inherited PressParse h = handleParseBip21 inherited h"
| "homeAct inherited (PressCopy copied) h = handleCopyUri inherited copied h"

section \<open>The state page\<close>

datatype state_ui = ReloadsState

definition stateMarkup :: "state_page \<Rightarrow> state_ui jsx" where
  "stateMarkup s =
    Elem ''section'' [Attr ''className'' (js ''panel-page'')]
      ([Elem ''div'' [Attr ''className'' (js ''panel-overview'')]
          [Elem ''p'' [Attr ''className'' (js ''page-kicker'')] [Txt (js ''Spot Chain Monitor'')],
            Elem ''h2'' [] [Txt [38142, 29366, 24577]],
            Elem ''p'' [Attr ''className'' (js ''page-description'')] [Txt [32858, 21512, 32034, 24341, 22120, 26680, 24515, 29366, 24577, 25351, 26631, 65292, 24110, 21161, 20320, 24555, 36895, 25484, 25569, 24403, 21069, 38142, 36335, 20581, 24247, 24230, 12290]]],
        Elem ''div'' [Attr ''className'' (js ''page-actions'')]
          [Elem ''button'' [Attr ''type'' (js ''button''), On ''onClick'' ReloadsState, Flag ''disabled'' (stateLoading s)] [Txt (if stateLoading s then [21152, 36733, 20013] @ js ''...'' else [21047, 26032, 29366, 24577])]]] @
       orNothing (stateError s \<noteq> [])
        (Elem ''p'' [Attr ''className'' (js ''error-text'')] [Txt (stateError s)]) @
       (if truthy (stateData s)
        then [Elem ''div'' [Attr ''className'' (js ''state-grid state-grid-compact'')]
                [Elem ''article'' [Attr ''className'' (js ''state-card'')]
                    [Elem ''span'' [] [Txt (js ''Tip Height'')],
                      Elem ''strong'' [] [Val (member (stateData s) (js ''tipHeight''))]],
                  Elem ''article'' [Attr ''className'' (js ''state-card'')]
                    [Elem ''span'' [] [Txt (js ''Tip Hash'')],
                      Elem ''strong'' [] [Val (if truthy (member (stateData s) (js ''tipHash'')) then member (stateData s) (js ''tipHash'') else Some (JStr (js ''-'')))]],
                  Elem ''article'' [Attr ''className'' (js ''state-card'')]
                    [Elem ''span'' [] [Txt [24635, 21306, 22359, 25968]],
                      Elem ''strong'' [] [Val (member (stateData s) (js ''total''))]],
                  Elem ''article'' [Attr ''className'' (js ''state-card'')]
                    [Elem ''span'' [] [Txt [37325, 32452, 27425, 25968]],
                      Elem ''strong'' [] [Val (member (stateData s) (js ''reorgs''))]]]]
        else [Elem ''p'' [] [Txt (if stateLoading s then [27491, 22312, 21152, 36733, 38142, 29366, 24577] @ js ''...'' else [26242, 26080, 29366, 24577, 25968, 25454, 12290])]]))"

section \<open>The notifications page\<close>

datatype notifications_ui = Refreshes | PreviousPage | NextPage

fun streamText :: "streamStatus \<Rightarrow> jstring" where
  "streamText Connecting = js ''connecting''"
| "streamText StreamOpen = js ''open''"
| "streamText StreamClosed = js ''closed''"

definition notificationsView ::
  "lang \<Rightarrow> (json option \<Rightarrow> jstring option) \<Rightarrow> notifications_page \<Rightarrow> (exn, notifications_ui jsx) result" where
  "notificationsView lang dateText p = ebind (notificationRows lang dateText (npItems p)) (\<lambda>rows. Inr (
    Elem ''section'' [Attr ''className'' (js ''panel-page'')]
      ([Elem ''div'' [Attr ''className'' (js ''panel-overview'')]
          [Elem ''p'' [Attr ''className'' (js ''page-kicker'')] [Txt (js ''Spot Notification Feed'')],
            Elem ''h2'' [] [Txt [36890, 30693, 20013, 24515]],
            Elem ''p'' [Attr ''className'' (js ''page-description'')] [Txt ([25509, 25910, 24182, 23637, 31034] @ js '' Indexer '' @ [25512, 36865, 30340, 38142, 19978, 36890, 30693, 28040, 24687, 12290])]],
        Elem ''div'' [Attr ''className'' (js ''exchange-card'')]
          [Elem ''div'' [Attr ''className'' (js ''page-actions'')]
              [Elem ''button'' [Attr ''type'' (js ''button''), On ''onClick'' Refreshes, Flag ''disabled'' (npLoading p)] [Txt [21047, 26032]],
                Elem ''button'' [Attr ''type'' (js ''button''), On ''onClick'' PreviousPage, Flag ''disabled'' (npLoading p \<or> npOffset p = 0)] [Txt [19978, 19968, 39029]],
                Elem ''button'' [Attr ''type'' (js ''button''), On ''onClick'' NextPage, Flag ''disabled'' (npLoading p \<or> \<not> npHasMore p)] [Txt [19979, 19968, 39029]]],
            Elem ''p'' [Attr ''className'' (js ''events-meta'')] [Txt ([23454, 26102, 35746, 38405] @ js '': ''), Txt (streamText (npStream p))]]] @
       orNothing (npError p \<noteq> [])
        (Elem ''p'' [Attr ''className'' (js ''error-text'')] [Txt (npError p)]) @
       [Elem ''div'' [Attr ''className'' (js ''events-table-wrap'')]
          ([Elem ''table'' [Attr ''className'' (js ''events-table'')]
              [Elem ''thead'' []
                  [Elem ''tr'' []
                      [Elem ''th'' [] [Txt (js ''ID'')],
                        Elem ''th'' [] [Txt [31867, 22411]],
                        Elem ''th'' [] [Txt [39640, 24230]],
                        Elem ''th'' [] [Txt [21306, 22359, 21704, 24076]],
                        Elem ''th'' [] [Txt [25509, 25910, 26102, 38388]],
                        Elem ''th'' [] [Txt (js ''Payload'')]]],
                Elem ''tbody'' []
                  (map (\<lambda>row. Elem ''tr'' [Attr ''key'' (rowKey row)] (map (\<lambda>c. Elem ''td'' [] [Val c]) (rowCells row))) rows)]] @
           orNothing (showsEmptyText p)
            (Elem ''p'' [] [Txt [26242, 26080, 36890, 30693, 25968, 25454, 12290]]))])))"

fun notificationsAct :: "notifications_ui \<Rightarrow> notifications_page \<Rightarrow> notifications_page" where
  "notificationsAct Refreshes p = clickRefresh p"
| "notificationsAct PreviousPage p = clickPrev p"
| "notificationsAct NextPage p = clickNext p"

section \<open>The events page\<close>

datatype events_ui =
    PicksLimit | PicksOrder | TypesType | TypesMin | TypesMax | Applies | Resets | RefreshesList
  | Exports export_format | ExportsAll export_format | CancelsExport | PreviousEvents | NextEvents

definition eventMarkup ::
  "(rat \<Rightarrow> jsnum) \<Rightarrow> (jsnum \<Rightarrow> jstring) \<Rightarrow> (jstring \<Rightarrow> jstring option) \<Rightarrow> IndexerEvent \<Rightarrow> 'e jsx" where
  "eventMarkup rnd other dateText event =
     Elem ''tr'' [Attr ''key'' (eventId event)]
       (map (\<lambda>c. Elem ''td'' [] [Txt c]) (fst (eventRow rnd other dateText event)) @
        [Elem ''td'' []
           [Elem ''Link'' [Attr ''className'' (js ''table-link''), Attr ''to'' (snd (eventRow rnd other dateText event)),
              LinkState (JObj [(js ''event'', eventJson event)])]
              [Txt [26597, 30475, 35814, 24773]]]])"

definition eventsView ::
  "(rat \<Rightarrow> jsnum) \<Rightarrow> (jsnum \<Rightarrow> jstring) \<Rightarrow> (jstring \<Rightarrow> jstring option) \<Rightarrow> (jsnum \<Rightarrow> jstring) \<Rightarrow> events_page \<Rightarrow> events_ui jsx" where
  "eventsView rnd other dateText numText p =
    Elem ''section'' [Attr ''className'' (js ''panel-page'')]
      ([Elem ''div'' [Attr ''className'' (js ''panel-overview'')]
          [Elem ''p'' [Attr ''className'' (js ''page-kicker'')] [Txt (js ''Spot Event Stream'')],
            Elem ''h2'' [] [Txt [20132, 26131, 19982, 20107, 20214]],
            Elem ''p'' [Attr ''className'' (js ''page-description'')] [Txt [25353, 26465, 20214, 31579, 36873, 24182, 20998, 39029, 26597, 30475, 38142, 19978, 20107, 20214, 65292, 24555, 36895, 36861, 36394, 24322, 24120, 21644, 19994, 21153, 36712, 36857, 12290]]],
        Elem ''div'' [Attr ''className'' (js ''exchange-card filter-card'')]
          [Elem ''div'' [Attr ''className'' (js ''page-actions'')]
              [Elem ''label'' [Attr ''className'' (js ''field-inline'')]
                  [Txt [27599, 39029],
                    Elem ''select'' [Attr ''value'' (intString (epLimitInput p)), On ''onChange'' PicksLimit, Flag ''disabled'' (epLoading p)]
                      (map (\<lambda>size.
                         Elem ''option'' [Attr ''key'' (intString size), Attr ''value'' (intString size)] [Txt (intString size)]) PAGE_SIZE_OPTIONS)],
                Elem ''label'' [Attr ''className'' (js ''field-inline'')]
                  [Txt [25490, 24207],
                    Elem ''select'' [Attr ''value'' (orderText (epOrderInput p)), On ''onChange'' PicksOrder, Flag ''disabled'' (epLoading p)]
                      [Elem ''option'' [Attr ''value'' (js ''desc'')] [Txt (js ''desc'')],
                        Elem ''option'' [Attr ''value'' (js ''asc'')] [Txt (js ''asc'')]]],
                Elem ''label'' [Attr ''className'' (js ''field-inline'')]
                  [Txt [20107, 20214, 31867, 22411],
                    Elem ''input'' [Attr ''value'' (epTypeInput p), On ''onChange'' TypesType, Attr ''placeholder'' ([22914] @ js '' new_block''), Flag ''disabled'' (epLoading p)] []],
                Elem ''label'' [Attr ''className'' (js ''field-inline'')]
                  [Txt [26368, 23567, 39640, 24230],
                    Elem ''input'' [Attr ''value'' (epMinInput p), On ''onChange'' TypesMin, Attr ''placeholder'' (js ''>=0''), Flag ''disabled'' (epLoading p)] []],
                Elem ''label'' [Attr ''className'' (js ''field-inline'')]
                  [Txt [26368, 22823, 39640, 24230],
                    Elem ''input'' [Attr ''value'' (epMaxInput p), On ''onChange'' TypesMax, Attr ''placeholder'' (js ''>=0''), Flag ''disabled'' (epLoading p)] []],
                Elem ''button'' [Attr ''type'' (js ''button''), On ''onClick'' Applies, Flag ''disabled'' (epLoading p)] [Txt [24212, 29992, 31579, 36873]],
                Elem ''button'' [Attr ''type'' (js ''button''), On ''onClick'' Resets, Flag ''disabled'' (epLoading p)] [Txt [37325, 32622]],
                Elem ''button'' [Attr ''type'' (js ''button''), On ''onClick'' RefreshesList, Flag ''disabled'' (epLoading p)] [Txt [21047, 26032, 21015, 34920]],
                Elem ''button'' [Attr ''type'' (js ''button''), On ''onClick'' (Exports FormatJson), Flag ''disabled'' (epLoading p \<or> epExportingAll p \<or> epEvents p = [])] [Txt ([23548, 20986] @ js ''JSON'')],
                Elem ''button'' [Attr ''type'' (js ''button''), On ''onClick'' (Exports FormatCsv), Flag ''disabled'' (epLoading p \<or> epExportingAll p \<or> epEvents p = [])] [Txt ([23548, 20986] @ js ''CSV'')],
                Elem ''button'' [Attr ''type'' (js ''button''), On ''onClick'' (ExportsAll FormatJson), Flag ''disabled'' (epLoading p \<or> epExportingAll p)] [Txt (if epExportingAll p then [23548, 20986, 20013] @ js ''...'' else [23548, 20986, 20840, 37096] @ js ''JSON'')],
                Elem ''button'' [Attr ''type'' (js ''button''), On ''onClick'' (ExportsAll FormatCsv), Flag ''disabled'' (epLoading p \<or> epExportingAll p)] [Txt (if epExportingAll p then [23548, 20986, 20013] @ js ''...'' else [23548, 20986, 20840, 37096] @ js ''CSV'')],
                Elem ''button'' [Attr ''type'' (js ''button''), On ''onClick'' CancelsExport, Flag ''disabled'' (\<not> epExportingAll p)] [Txt [21462, 28040, 23548, 20986]]]]] @
       orNothing (epError p \<noteq> [])
        (Elem ''p'' [Attr ''className'' (js ''error-text'')] [Txt (epError p)]) @
       orNothing (epProgress p \<noteq> [])
        (Elem ''p'' [Attr ''className'' (js ''events-meta'')] [Txt (epProgress p)]) @
       [Elem ''div'' [Attr ''className'' (js ''events-meta-grid'')]
          [Elem ''p'' [Attr ''className'' (js ''events-meta events-meta-card'')]
              [Txt ([24635, 25968] @ js '': ''),
                Txt (eventsMeta p ! 0),
                Txt ([65292, 24403, 21069, 39029] @ js '': ''),
                Txt (eventsMeta p ! 1),
                Txt ([65292] @ js ''offset: ''),
                Txt (eventsMeta p ! 2),
                Txt ([65292] @ js ''limit: ''),
                Txt (eventsMeta p ! 3),
                Txt ([65292] @ js ''order:''),
                Txt (js '' ''),
                Txt (eventsMeta p ! 4),
                Txt ([65292] @ js ''type: ''),
                Txt (eventsMeta p ! 5),
                Txt ([65292] @ js ''height: ''),
                Txt (eventsMeta p ! 6),
                Txt (js '' ~''),
                Txt (js '' ''),
                Txt (eventsMeta p ! 7)],
            Elem ''p'' [Attr ''className'' (js ''events-meta events-meta-card'')] [Txt (lifecycleMeta numText (epLifecycle p))]],
        Elem ''div'' [Attr ''className'' (js ''events-table-wrap'')]
          ([Elem ''table'' [Attr ''className'' (js ''events-table'')]
              [Elem ''thead'' []
                  [Elem ''tr'' []
                      [Elem ''th'' [] [Txt (js ''ID'')],
                        Elem ''th'' [] [Txt [31867, 22411]],
                        Elem ''th'' [] [Txt [39640, 24230]],
                        Elem ''th'' [] [Txt [21306, 22359, 21704, 24076]],
                        Elem ''th'' [] [Txt [26102, 38388]],
                        Elem ''th'' [] [Txt (js ''Payload'')],
                        Elem ''th'' [] [Txt [25805, 20316]]]],
                Elem ''tbody'' []
                  (map (eventMarkup rnd other dateText) (epEvents p))]] @
           orNothing (showsNoEvents p)
            (Elem ''p'' [] [Txt [26242, 26080, 20107, 20214, 25968, 25454, 12290]])),
        Elem ''div'' [Attr ''className'' (js ''pagination-actions'')]
          [Elem ''button'' [Attr ''type'' (js ''button''), On ''onClick'' PreviousEvents, Flag ''disabled'' (epLoading p \<or> \<not> canPrev p)] [Txt [19978, 19968, 39029]],
            Elem ''button'' [Attr ''type'' (js ''button''), On ''onClick'' NextEvents, Flag ''disabled'' (epLoading p \<or> \<not> canNext p)] [Txt [19979, 19968, 39029]]]])"

datatype events_input =
    InputEvents filter_input | PressApply | PressReset | PressRefresh | PressExport local_time export_format
  | PressExportAll export_format | PressCancel | PressPrev | PressNext

fun eventsUses :: "events_input \<Rightarrow> events_ui" where
  "eventsUses (InputEvents (LimitIn i)) = PicksLimit"
| "eventsUses (InputEvents (OrderIn d)) = PicksOrder"
| "eventsUses (InputEvents (TypeIn t)) = TypesType"
| "eventsUses (InputEvents (MinIn t)) = TypesMin"
| "eventsUses (InputEvents (MaxIn t)) = TypesMax"
| "eventsUses PressApply = Applies"
| "eventsUses PressReset = Resets"
| "eventsUses PressRefresh = RefreshesList"
| "eventsUses (PressExport moment format) = Exports format"
| "eventsUses (PressExportAll format) = ExportsAll format"
| "eventsUses PressCancel = CancelsExport"
| "eventsUses PressPrev = PreviousEvents"
| "eventsUses PressNext = NextEvents"

text \<open>
  What an input of the user does: the handler of the control, or nothing while the control is disabled. The conditions are those of the \<open>disabled\<close> attributes;
  the handlers of the source do not test them.
\<close>

fun eventsAct :: "(rat \<Rightarrow> jsnum) \<Rightarrow> (jsnum \<Rightarrow> jstring) \<Rightarrow> events_input \<Rightarrow> events_page \<Rightarrow> events_page" where
  "eventsAct rnd other (InputEvents i) p = (if epLoading p then p else changeInput i p)"
| "eventsAct rnd other PressApply p = clickApply rnd p"
| "eventsAct rnd other PressReset p = clickReset p"
| "eventsAct rnd other PressRefresh p = clickRefreshList p"
| "eventsAct rnd other (PressExport moment format) p = clickExport other moment format p"
| "eventsAct rnd other (PressExportAll format) p = clickExportAll format p"
| "eventsAct rnd other PressCancel p = clickCancel p"
| "eventsAct rnd other PressPrev p = clickPrevPage p"
| "eventsAct rnd other PressNext p = clickNextPage p"

section \<open>The detail page\<close>

fun detailMarkup :: "detail_page \<Rightarrow> detail_view \<Rightarrow> 'e jsx" where
  "detailMarkup d DetailLoading =
    Elem ''section'' [Attr ''className'' (js ''panel-page'')]
      [Elem ''div'' [Attr ''className'' (js ''panel-overview'')]
          [Elem ''p'' [Attr ''className'' (js ''page-kicker'')] [Txt (js ''Spot Event Detail'')],
            Elem ''h2'' [] [Txt [20132, 26131, 35814, 24773]],
            Elem ''p'' [Attr ''className'' (js ''page-description'')] [Txt [27491, 22312, 22238, 28304, 21152, 36733, 20107, 20214, 35814, 24773, 65292, 35831, 31245, 20505, 12290]]],
        Elem ''p'' [] [Txt ([21152, 36733, 20013] @ js ''...'')]]"
| "detailMarkup d (DetailMissing err meta) =
    Elem ''section'' [Attr ''className'' (js ''panel-page'')]
      [Elem ''div'' [Attr ''className'' (js ''panel-overview'')]
          [Elem ''p'' [Attr ''className'' (js ''page-kicker'')] [Txt (js ''Spot Event Detail'')],
            Elem ''h2'' [] [Txt [20132, 26131, 35814, 24773]],
            Elem ''p'' [Attr ''className'' (js ''page-description'')] [Txt [26410, 25214, 21040, 20132, 26131, 35814, 24773, 25968, 25454, 65292, 35831, 36820, 22238, 21015, 34920, 25110, 31245, 21518, 37325, 35797, 12290]]],
        Elem ''p'' [Attr ''className'' (js ''error-text'')] [Txt err],
        Elem ''p'' [Attr ''className'' (js ''meta-line'')] [Txt meta],
        Elem ''div'' [Attr ''className'' (js ''page-actions'')]
          [Elem ''Link'' [Attr ''to'' (js ''/events'')] [Txt [36820, 22238, 20132, 26131, 19982, 20107, 20214, 21015, 34920]]]]"
| "detailMarkup d (DetailShown err cells pay meta) =
    Elem ''section'' [Attr ''className'' (js ''panel-page'')]
      ([Elem ''div'' [Attr ''className'' (js ''panel-overview'')]
          [Elem ''p'' [Attr ''className'' (js ''page-kicker'')] [Txt (js ''Spot Event Detail'')],
            Elem ''h2'' [] [Txt [20132, 26131, 35814, 24773]],
            Elem ''p'' [Attr ''className'' (js ''page-description'')] [Txt ([26597, 30475, 20107, 20214, 20851, 38190, 23383, 27573, 19982] @ js '' payload '' @ [20869, 23481, 65292, 36741, 21161, 23450, 20301, 38142, 36335, 34892, 20026, 19982, 29366, 24577, 21464, 21270, 12290])]],
        Elem ''div'' [Attr ''className'' (js ''exchange-card detail-head-card'')]
          [Elem ''p'' [Attr ''className'' (js ''meta-line'')] [Txt ([20107, 20214] @ js ''ID: ''), Val (map_option JStr (dpParam d))]]] @
       orNothing (err \<noteq> [])
        (Elem ''p'' [Attr ''className'' (js ''error-text'')] [Txt err]) @
       [Elem ''div'' [Attr ''className'' (js ''detail-grid'')]
          [Elem ''div'' [Attr ''className'' (js ''state-card'')]
              [Elem ''span'' [] [Txt (js ''ID'')],
                Elem ''strong'' [] [Txt (cells ! 0)]],
            Elem ''div'' [Attr ''className'' (js ''state-card'')]
              [Elem ''span'' [] [Txt [31867, 22411]],
                Elem ''strong'' [] [Txt (cells ! 1)]],
            Elem ''div'' [Attr ''className'' (js ''state-card'')]
              [Elem ''span'' [] [Txt [39640, 24230]],
                Elem ''strong'' [] [Txt (cells ! 2)]],
            Elem ''div'' [Attr ''className'' (js ''state-card'')]
              [Elem ''span'' [] [Txt [21306, 22359, 21704, 24076]],
                Elem ''strong'' [] [Txt (cells ! 3)]],
            Elem ''div'' [Attr ''className'' (js ''state-card'')]
              [Elem ''span'' [] [Txt [29238, 21306, 22359, 21704, 24076]],
                Elem ''strong'' [] [Txt (cells ! 4)]],
            Elem ''div'' [Attr ''className'' (js ''state-card'')]
              [Elem ''span'' [] [Txt [22238, 28378, 39640, 24230]],
                Elem ''strong'' [] [Txt (cells ! 5)]],
            Elem ''div'' [Attr ''className'' (js ''state-card'')]
              [Elem ''span'' [] [Txt [20135, 29983, 26102, 38388]],
                Elem ''strong'' [] [Txt (cells ! 6)]],
            Elem ''div'' [Attr ''className'' (js ''state-card'')]
              [Elem ''span'' [] [Txt [25345, 20037, 21270, 26102, 38388]],
                Elem ''strong'' [] [Txt (cells ! 7)]]],
        Elem ''div'' [Attr ''className'' (js ''payload-panel exchange-card'')]
          [Elem ''h3'' [] [Txt (js ''Payload'')],
            Elem ''pre'' [] [Txt pay]],
        Elem ''p'' [Attr ''className'' (js ''meta-line'')] [Txt meta],
        Elem ''div'' [Attr ''className'' (js ''page-actions'')]
          [Elem ''Link'' [Attr ''to'' (js ''/events'')] [Txt [36820, 22238, 20132, 26131, 19982, 20107, 20214, 21015, 34920]]]])"

section \<open>Offered actions\<close>

lemma rows_inert [simp]: "\<not> offers (eventMarkup rnd other dateText event) e"
  by (simp add: eventMarkup_def eventRow_def list_ex_iff)

lemma login_offers:
  "offers (loginView dateLocale reason s) TypesAccount"
  "offers (loginView dateLocale reason s) SubmitsForm \<longleftrightarrow> \<not> (requestingChallenge s \<or> confirmingSignature s)"
  "offers (loginView dateLocale reason s) ConfirmsSignature \<longleftrightarrow> \<not> (confirmingSignature s \<or> requestingChallenge s \<or> \<not> truthy (challenge s))"
  by (simp_all add: loginView_def submitEnabled_def del: js_Cons)

lemma home_offers:
  assumes "homeView notText baseUrl h = Inr t"
  shows "offers t a \<longleftrightarrow> (a = Copies \<longrightarrow> generatedUri h \<noteq> [])"
proof -
  obtain tone where "healthTone notText h = Inr tone" using assms by (auto simp: homeView_def ebind_eq_Inr)
  then have t: "t = projr (homeView notText baseUrl h)" using assms by simp
  show ?thesis using \<open>healthTone notText h = Inr tone\<close> by (cases a) (simp_all add: t homeView_def del: js_Cons)
qed

lemma state_offers: "offers (stateMarkup s) ReloadsState \<longleftrightarrow> \<not> stateLoading s"
  by (simp add: stateMarkup_def del: js_Cons)

lemma notifications_offers:
  assumes "notificationsView lang dateText p = Inr t"
  shows "offers t Refreshes \<longleftrightarrow> \<not> npLoading p" "offers t PreviousPage \<longleftrightarrow> \<not> (npLoading p \<or> npOffset p = 0)"
    "offers t NextPage \<longleftrightarrow> \<not> (npLoading p \<or> \<not> npHasMore p)"
proof -
  obtain rows where rows: "notificationRows lang dateText (npItems p) = Inr rows" using assms by (auto simp: notificationsView_def ebind_eq_Inr)
  then have t: "t = projr (notificationsView lang dateText p)" using assms by simp
  show "offers t Refreshes \<longleftrightarrow> \<not> npLoading p" "offers t PreviousPage \<longleftrightarrow> \<not> (npLoading p \<or> npOffset p = 0)"
    "offers t NextPage \<longleftrightarrow> \<not> (npLoading p \<or> \<not> npHasMore p)"
    using rows by (simp_all add: t notificationsView_def del: js_Cons)
qed

text \<open>When a control of the events page takes input.\<close>

fun eventsAllows :: "events_ui \<Rightarrow> events_page \<Rightarrow> bool" where
  "eventsAllows (Exports f) p = (\<not> epLoading p \<and> \<not> epExportingAll p \<and> epEvents p \<noteq> [])"
| "eventsAllows (ExportsAll f) p = (\<not> epLoading p \<and> \<not> epExportingAll p)"
| "eventsAllows CancelsExport p = epExportingAll p"
| "eventsAllows PreviousEvents p = (\<not> epLoading p \<and> 0 < epOffset p)"
| "eventsAllows NextEvents p = (\<not> epLoading p \<and> canNext p)"
| "eventsAllows _ p = (\<not> epLoading p)"

lemma events_offers: "offers (eventsView rnd other dateText numText p) a \<longleftrightarrow> eventsAllows a p"
proof (cases a)
  case (Exports f)
  then show ?thesis by (cases f) (simp_all add: eventsView_def canPrev_def del: js_Cons)
next
  case (ExportsAll f)
  then show ?thesis by (cases f) (simp_all add: eventsView_def canPrev_def del: js_Cons)
qed (simp_all add: eventsView_def canPrev_def del: js_Cons)

text \<open>The handlers of every page behind the contract.\<close>

interpretation login_controls: controlled_page "\<lambda>s. Inr (loginView dateLocale reason s)" "loginAct lang" loginUses
  for dateLocale reason lang
proof unfold_locales
  fix s t i
  assume "Inr (loginView dateLocale reason s) = Inr t" "\<not> offers t (loginUses i)"
  then show "loginAct lang i s = s" by (cases i) (auto simp: login_offers canSubmit_def canConfirm_def)
qed

interpretation home_controls: controlled_page "homeView notText baseUrl" "homeAct inherited" homeUses
  for notText baseUrl inherited
proof unfold_locales
  fix s t i
  assume "homeView notText baseUrl s = Inr t" "\<not> offers t (homeUses i)"
  then show "homeAct inherited i s = s"
    by (cases i rule: homeUses.cases) (auto simp: home_offers handleCopyUri_def)
qed

interpretation state_controls: controlled_page "\<lambda>s. Inr (stateMarkup s)" "\<lambda>(_ :: unit). clickReloadState" "\<lambda>_. ReloadsState"
  by unfold_locales (auto simp: state_offers clickReloadState_def)

interpretation notifications_controls: controlled_page "notificationsView lang dateText" notificationsAct "\<lambda>a. a"
  for lang dateText
proof unfold_locales
  fix s t i
  assume "notificationsView lang dateText s = Inr t" "\<not> offers t i"
  then show "notificationsAct i s = s"
    by (cases i) (auto simp: notifications_offers clickRefresh_def clickPrev_def clickNext_def)
qed

interpretation events_controls: controlled_page "\<lambda>p. Inr (eventsView rnd other dateText numText p)" "eventsAct rnd other" eventsUses
  for rnd other dateText numText
proof unfold_locales
  fix s t i
  assume "Inr (eventsView rnd other dateText numText s) = Inr t" "\<not> offers t (eventsUses i)"
  then show "eventsAct rnd other i s = s"
    by (cases i rule: eventsUses.cases) (auto simp: events_offers click_defs canPrev_def)
qed

section \<open>Properties\<close>

lemma eventsAct_step: "eventsAct rnd other i p = p \<or> ep_step lang rnd other p (eventsAct rnd other i p)"
  by (cases i) (auto intro: ep_step.intros)

text \<open>
  The buttons of the login page. While the page is open its form can be submitted exactly when neither request is under way, and the signature
  confirmed exactly when in addition a challenge is shown; these are the guards of the steps of the page.
\<close>

theorem login_controls_exact:
  assumes "mounted s"
  shows "offers (loginView dateLocale reason s) SubmitsForm = canSubmit s \<and> offers (loginView dateLocale reason s) ConfirmsSignature = canConfirm s"
  using assms by (simp_all add: login_offers canSubmit_def canConfirm_def)

theorem login_controls_exact_witness:
  "offers (loginView (\<lambda>_. []) None (openLogin \<lparr>storage = None, session = None, invalidReason = []\<rparr>)) SubmitsForm \<and>
   \<not> offers (loginView (\<lambda>_. []) None (openLogin \<lparr>storage = None, session = None, invalidReason = []\<rparr>)) ConfirmsSignature"
proof -
  let ?s = "openLogin \<lparr>storage = None, session = None, invalidReason = []\<rparr>"
  have "mounted ?s" by (simp add: openLogin_def)
  from login_controls_exact[OF this] show ?thesis by (simp add: openLogin_def canSubmit_def canConfirm_def)
qed

text \<open>A user of the events page reaches, through its controls, only states that keep the invariant of the page.\<close>

lemma events_user_reach:
  assumes "reach ep_open (ep_step lang rnd other) p" "events_controls.offered_step rnd other dateText numText p p'"
  shows "reach ep_open (ep_step lang rnd other) p'"
proof -
  obtain i where "p' = eventsAct rnd other i p" using assms(2) by (auto simp: events_controls.offered_step_def)
  then show ?thesis using assms(1) eventsAct_step[of rnd other i p lang] reach_step by metis
qed

end
