(* ===== verification/WebsitePages.thy ===== *)
theory WebsitePages
  imports Markup
begin

text \<open>
  The pages of the website under \<open>/site\<close> (\<open>WebsiteLayout.tsx\<close>, \<open>WebsiteHomePage.tsx\<close>, \<open>WebsiteDownloadPage.tsx\<close> and \<open>WebsiteInfoPage.tsx\<close>):
  their data and their markup. They have no state and no handlers.
\<close>

section \<open>Data\<close>

record download_channel =
  platform :: jstring
  packageName :: jstring
  version :: jstring
  channelNote :: jstring

definition downloadChannels :: "download_channel list" where
  "downloadChannels = [
      \<lparr>platform = js ''Chrome'',
       packageName = js ''Chrome Web Store'',
       version = js ''Latest'',
       channelNote = js ''Install Backpack extension from Chrome Web Store.''\<rparr>,
      \<lparr>platform = js ''Brave'',
       packageName = js ''Brave Browser'',
       version = js ''Latest'',
       channelNote = js ''Use the same extension package with Brave support.''\<rparr>,
      \<lparr>platform = js ''Arc'',
       packageName = js ''Arc Browser'',
       version = js ''Latest'',
       channelNote = js ''Install via Chrome extension compatibility mode.''\<rparr>]"

record news =
  newsTitle :: jstring
  newsDescription :: jstring
  newsImage :: jstring
  newsHref :: jstring

definition highlights :: "news list" where
  "highlights = [
      \<lparr>newsTitle = js ''CoinDesk'',
       newsDescription = js ''Heavy Demand for Madlads NFT Breaks Internet, Delays Mint'',
       newsImage = js ''https://www.coindesk.com/resizer/aHFTwpGDGmuTTf1AC6ueAsmJv1w=/2112x1188/filters:quality(80):format(webp)/cloudfront-us-east-1.images.arcpublishing.com/coindesk/FB4VEP3MIBCLNHHOHFWHRHCP2A.jpg'',
       newsHref = js ''https://www.coindesk.com/web3/2023/04/21/heavy-demand-for-madlads-nft-breaks-internet-delays-mint''\<rparr>,
      \<lparr>newsTitle = js ''Fortune Crypto'',
       newsDescription = js ''Solana has outperformed Bitcoin and Ethereum since January thanks in part to Mad Lads NFTs'',
       newsImage = js ''https://content.fortune.com/wp-content/uploads/2023/04/Coins-Solana-6.jpg?w=1440&q=75'',
       newsHref = js ''https://fortune.com/crypto/2023/04/28/solana-cryptocurrency-outperforms-bitcoin-and-ethereum-ytd-mad-lads/''\<rparr>,
      \<lparr>newsTitle = js ''Decrypt'',
       newsDescription = js ''Solana NFTs Come to Portfolio App Floor Amid Mad Lads Boom'',
       newsImage = js ''https://img.decrypt.co/insecure/rs:fit:1536:0:0:0/plain/https://cdn.decrypt.co/wp-content/uploads/2023/01/floor-app-2023-gID_7.png@webp'',
       newsHref = js ''https://decrypt.co/137634/solana-nfts-come-to-portfolio-app-floor-amid-mad-lads-boom''\<rparr>,
      \<lparr>newsTitle = js ''Blockworks'',
       newsDescription = js ''So You Know What NFTs Are, but How About xNFTs?'',
       newsImage = js ''https://blockworks.co/_next/image?url=https%3A%2F%2Fblockworks-co.imgix.net%2Fwp-content%2Fuploads%2F2023%2F05%2FNFT-royalties.jpg&w=1920&q=75'',
       newsHref = js ''https://blockworks.co/news/you-know-xnfts''\<rparr>]"

record info_section =
  infoTitle :: jstring
  infoDescription :: jstring

definition infoSections :: "info_section list" where
  "infoSections = [
      \<lparr>infoTitle = js ''About Backpack'',
       infoDescription = js ''Backpack is a next level crypto wallet for Solana and Ethereum users.''\<rparr>,
      \<lparr>infoTitle = js ''Security'',
       infoDescription = js ''Approval flow and request isolation are designed to reduce signing risks.''\<rparr>,
      \<lparr>infoTitle = js ''Support'',
       infoDescription = js ''Use official docs, Discord and release notes to track updates.''\<rparr>,
      \<lparr>infoTitle = js ''Notice'',
       infoDescription = js ''This is a UI replica for pixel alignment and interaction benchmarking.''\<rparr>]"

section \<open>Pages\<close>

definition WebsiteLayout :: "jstring \<Rightarrow> 'e jsx" where
  "WebsiteLayout pathname =
    Elem ''div'' [Attr ''className'' (js ''site-shell backpack-site-shell'')]
      [Elem ''div'' [Attr ''className'' (js ''backpack-site-container'')]
          [Elem ''header'' [Attr ''className'' (js ''site-header backpack-site-header'')]
              [Elem ''div'' [Attr ''className'' (js ''site-brand backpack-site-brand'')]
                  [Elem ''img'' [Attr ''src'' (js ''https://raw.githubusercontent.com/coral-xyz/backpack/master/web/public/backpack.svg''), Attr ''alt'' (js ''Backpack''), Attr ''className'' (js ''backpack-logo'')] []],
                Elem ''nav'' [Attr ''className'' (js ''site-nav backpack-site-nav'')]
                  [Elem ''a'' [Attr ''href'' (js ''https://backpack.exchange''), Attr ''target'' (js ''_blank''), Attr ''rel'' (js ''noopener noreferrer'')] [Txt (js ''Exchange'')],
                    Elem ''NavLink'' [Attr ''to'' (js ''/site/download'')] [Txt (js ''Downloads'')],
                    Elem ''NavLink'' [Attr ''to'' (js ''/site''), Flag ''end'' True] [Txt (js ''News'')]]],
            Elem ''main'' [Attr ''className'' (js ''site-main backpack-site-main'')]
              [Elem ''div'' [Attr ''key'' pathname, Attr ''className'' (js ''site-page-transition backpack-site-page-transition''), Attr ''data-route-key'' pathname]
                  [Elem ''Outlet'' [] []]],
            Elem ''footer'' [Attr ''className'' (js ''backpack-site-footer'')] [Txt ([169] @ js '' Backpack UI Replica'')]]]"

definition WebsiteHomePage :: "'e jsx" where
  "WebsiteHomePage =
    Elem ''section'' [Attr ''className'' (js ''site-page site-page-home backpack-home-page'')]
      [Elem ''div'' [Attr ''className'' (js ''site-section-head'')]
          [Elem ''h2'' [] [Txt (js ''News'')]],
        Elem ''div'' [Attr ''className'' (js ''site-news-grid'')]
          (map (\<lambda>item.
             Elem ''article'' [Attr ''key'' (newsTitle item), Attr ''className'' (js ''site-card site-card-interactive backpack-news-card'')]
               [Elem ''div'' [Attr ''className'' (js ''backpack-news-body'')]
                   [Elem ''h3'' [] [Txt (newsTitle item)],
                     Elem ''p'' [] [Txt (newsDescription item)],
                     Elem ''a'' [Attr ''href'' (newsHref item), Attr ''target'' (js ''_blank''), Attr ''rel'' (js ''noopener noreferrer'')] [Txt (js ''Read '' @ [8594])]],
                 Elem ''img'' [Attr ''src'' (newsImage item), Attr ''alt'' (newsTitle item)] []]) highlights)]"

definition WebsiteDownloadPage :: "'e jsx" where
  "WebsiteDownloadPage =
    Elem ''section'' [Attr ''className'' (js ''site-page site-page-download'')]
      [Elem ''div'' [Attr ''className'' (js ''site-section-head'')]
          [Elem ''h2'' [] [Txt (js ''Download'')]],
        Elem ''div'' [Attr ''className'' (js ''site-download-grid'')]
          (map (\<lambda>item.
             Elem ''article'' [Attr ''key'' (platform item), Attr ''className'' (js ''site-card site-card-interactive backpack-download-card'')]
               [Elem ''p'' [Attr ''className'' (js ''site-card-label'')] [Txt (platform item)],
                 Elem ''h3'' [] [Txt (packageName item)],
                 Elem ''p'' [] [Txt (channelNote item)],
                 Elem ''div'' [Attr ''className'' (js ''site-download-actions'')]
                   [Elem ''button'' [Attr ''type'' (js ''button'')] [Txt (js ''Download ''), Txt (version item)]]]) downloadChannels)]"

definition WebsiteInfoPage :: "'e jsx" where
  "WebsiteInfoPage =
    Elem ''section'' [Attr ''className'' (js ''site-page site-page-info'')]
      [Elem ''div'' [Attr ''className'' (js ''site-section-head'')]
          [Elem ''h2'' [] [Txt (js ''Information'')]],
        Elem ''div'' [Attr ''className'' (js ''site-info-list'')]
          (map (\<lambda>item.
             Elem ''article'' [Attr ''key'' (infoTitle item), Attr ''className'' (js ''site-card site-card-interactive backpack-info-card'')]
               [Elem ''h3'' [] [Txt (infoTitle item)],
                 Elem ''p'' [] [Txt (infoDescription item)]]) infoSections)]"

section \<open>What the pages show\<close>

text \<open>The words of the \<open>className\<close> of an element.\<close>

definition hasClass :: "string \<Rightarrow> 'e attribute list \<Rightarrow> bool" where
  "hasClass c as = list_ex (\<lambda>v. js c \<in> set (splitOn 32 v)) (attrValues ''className'' as)"

definition countClass :: "string \<Rightarrow> 'e jsx \<Rightarrow> nat" where
  "countClass c n = length (filter (\<lambda>(tag, as). hasClass c as) (elements n))"

text \<open>
  The website shows four, three and four cards, and no element with a class of the entrance motion, against the expectations of
  \<open>WebsitePagesMotion.test.tsx\<close> (six cards on the home page, and at least one such element).
\<close>

theorem website_cards:
  "countClass ''site-card-interactive'' (WebsiteHomePage :: 'e jsx) = 4" "countClass ''site-motion-rise'' (WebsiteHomePage :: 'e jsx) = 0"
  "countClass ''site-card-interactive'' (WebsiteDownloadPage :: 'e jsx) = 3" "countClass ''site-card-interactive'' (WebsiteInfoPage :: 'e jsx) = 4"
  by (simp_all add: countClass_def hasClass_def WebsiteHomePage_def WebsiteDownloadPage_def WebsiteInfoPage_def highlights_def
      downloadChannels_def infoSections_def)

text \<open>No download can be started: the buttons of the download page have no handler, and the page has no link.\<close>

theorem downloads_do_nothing: "\<not> offers (WebsiteDownloadPage :: 'e jsx) e" "linksOf (WebsiteDownloadPage :: 'e jsx) = []" "anchors (WebsiteDownloadPage :: 'e jsx) = []"
  by (simp_all add: WebsiteDownloadPage_def list_ex_iff o_def del: js_Cons)

text \<open>
  The links that leave the application open a new page that cannot reach the one it was opened from.
\<close>

theorem external_links_isolated:
  "list_all (\<lambda>as. attrValues ''target'' as = [js ''_blank''] \<and> attrValues ''rel'' as = [js ''noopener noreferrer''])
     (anchors (WebsiteLayout pathname :: 'e jsx) @ anchors (WebsiteHomePage :: 'e jsx))"
  by (simp add: WebsiteLayout_def WebsiteHomePage_def highlights_def del: js_Cons)

end
