(* ===== verification/AppViews.thy ===== *)
theory AppViews
  imports AppRoutes PageViews WebsitePages
begin

text \<open>
  The web application on the screen: the frame of \<open>App.tsx\<close>, the markup of every element of the route table, and the markup of a branch, in which each
  outer element shows the inner one in the place of its outlet. The states of all pages are given; what belongs to the browser
  (dates in the locale, numbers as texts) is a record of functions.
\<close>

section \<open>The frame\<close>

datatype app_ui =
    OnLogin login_ui | OnHome home_ui | OnState state_ui | OnNotifications notifications_ui | OnEvents events_ui | SignsOut

definition App :: "auth \<Rightarrow> app_ui jsx" where
  "App a =
    Elem ''div'' [Attr ''className'' (js ''app-shell'')]
      [Elem ''div'' [Attr ''className'' (js ''app-frame'')]
          [Elem ''header'' [Attr ''className'' (js ''app-header'')]
              [Elem ''div'' [Attr ''className'' (js ''brand-block'')]
                  [Elem ''p'' [Attr ''className'' (js ''brand-eyebrow'')] [Txt (js ''Spot Wallet Terminal'')],
                    Elem ''h1'' [] [Txt (js ''Soulon Wallet App'')],
                    Elem ''p'' [Attr ''className'' (js ''session-text'')] [Txt [24403, 21069, 30331, 24405, 65306], Val (sessionText a)]],
                Elem ''button'' [Attr ''type'' (js ''button''), On ''onClick'' SignsOut] [Txt [36864, 20986, 30331, 24405]]],
            Elem ''nav'' [Attr ''className'' (js ''app-nav'')]
              [Elem ''NavLink'' [Attr ''to'' (js ''/''), Flag ''end'' True] [Txt [39318, 39029]],
                Elem ''NavLink'' [Attr ''to'' (js ''/state'')] [Txt [38142, 29366, 24577]],
                Elem ''NavLink'' [Attr ''to'' (js ''/events'')] [Txt [20132, 26131, 20107, 20214]],
                Elem ''NavLink'' [Attr ''to'' (js ''/notifications'')] [Txt [36890, 30693, 20013, 24515]]],
            Elem ''main'' [Attr ''className'' (js ''app-main'')]
              [Elem ''Outlet'' [] []]]]"

text \<open>The guard of \<open>RequireAuth.tsx\<close> as markup; the state of the redirect names the address and the reason.\<close>

definition guardMarkup :: "auth \<Rightarrow> jstring \<Rightarrow> jstring \<Rightarrow> 'e jsx" where
  "guardMarkup a pathname search =
     (case RequireAuth a pathname search of
        Outlet \<Rightarrow> Elem ''Outlet'' [] []
      | NavigateLogin from reason \<Rightarrow>
          Elem ''Navigate'' [Attr ''to'' (js ''/login''), Flag ''replace'' True,
            LinkState (JObj (presentMembers [(js ''from'', Some (JStr from)), (js ''reason'', map_option JStr reason)]))] [])"

section \<open>The markup of a branch\<close>

record browser_texts =
  btLang :: lang
  btRnd :: "rat \<Rightarrow> jsnum"
  btOther :: "jsnum \<Rightarrow> jstring"
  btDate :: "jstring \<Rightarrow> jstring option"
  btDateOf :: "json option \<Rightarrow> jstring option"
  btDateLocale :: "json option \<Rightarrow> jstring"
  btNotText :: jstring
  btBaseUrl :: jstring

record web_pages =
  wpPath :: jstring
  wpSearch :: jstring
  wpAuth :: auth
  wpReason :: "jstring option"
  wpLogin :: login
  wpHome :: home_page
  wpState :: state_page
  wpNotifications :: notifications_page
  wpEvents :: events_page
  wpDetail :: detail_page

fun elementView :: "browser_texts \<Rightarrow> web_pages \<Rightarrow> element \<Rightarrow> (exn, app_ui jsx) result" where
  "elementView b w ElWebsiteLayout = Inr (WebsiteLayout (wpPath w))"
| "elementView b w ElWebsiteHome = Inr WebsiteHomePage"
| "elementView b w ElWebsiteDownload = Inr WebsiteDownloadPage"
| "elementView b w ElWebsiteInfo = Inr WebsiteInfoPage"
| "elementView b w ElLogin = Inr (map_jsx OnLogin (loginView (btDateLocale b) (wpReason w) (wpLogin w)))"
| "elementView b w ElRequireAuth = Inr (guardMarkup (wpAuth w) (wpPath w) (wpSearch w))"
| "elementView b w ElApp = Inr (App (wpAuth w))"
| "elementView b w ElHome = ebind (homeView (btNotText b) (btBaseUrl b) (wpHome w)) (\<lambda>t. Inr (map_jsx OnHome t))"
| "elementView b w ElState = Inr (map_jsx OnState (stateMarkup (wpState w)))"
| "elementView b w ElEvents = Inr (map_jsx OnEvents (eventsView (btRnd b) (btOther b) (btDate b) (btOther b) (wpEvents w)))"
| "elementView b w ElNotifications =
     ebind (notificationsView (btLang b) (btDateOf b) (wpNotifications w)) (\<lambda>t. Inr (map_jsx OnNotifications t))"
| "elementView b w ElEventDetail = Inr (detailMarkup (wpDetail w) (detailView (btRnd b) (btOther b) (btDate b) (wpDetail w)))"

text \<open>An element without an outlet does not render what is inside it.\<close>

definition hasOutlet :: "'e jsx \<Rightarrow> bool" where
  "hasOutlet n = list_ex (\<lambda>(tag, as). tag = ''Outlet'') (elements n)"

fun viewBranch :: "browser_texts \<Rightarrow> web_pages \<Rightarrow> element list \<Rightarrow> (exn, app_ui jsx) result" where
  "viewBranch b w [] = Inr (Elem ''Outlet'' [] [])"
| "viewBranch b w (el # els) =
     ebind (elementView b w el) (\<lambda>outer.
       if els \<noteq> [] \<and> hasOutlet outer then ebind (viewBranch b w els) (\<lambda>inner. Inr (plug inner outer)) else Inr outer)"

text \<open>The path of a branch: the segments of its routes below the root.\<close>

definition branchPath :: "jstring list \<Rightarrow> jstring" where
  "branchPath segments = 47 # join [47] (filter (\<lambda>s. s \<noteq> []) (map (dropWhile (\<lambda>c. c = 47)) segments))"

definition routedPaths :: "jstring list" where
  "routedPaths = map (branchPath \<circ> snd) allBranches"

section \<open>Links\<close>

lemma elements_map [simp]: "elements (map_jsx f n) = map (\<lambda>(tag, as). (tag, map (map_attribute f) as)) (elements n)"
  by (induction n) (auto simp: map_concat o_def intro!: arg_cong[where f = concat] map_cong)

lemma attrValue_map [simp]: "attrValue k (map_attribute f a) = attrValue k a"
  by (cases a) simp_all

lemma attrValues_map [simp]: "attrValues k (map (map_attribute f) as) = attrValues k as"
  by (simp add: attrValues_def o_def)

lemma linksOf_map [simp]: "linksOf (map_jsx f n) = linksOf n"
  by (simp add: linksOf_def o_def case_prod_unfold cong: if_cong)

lemma anchors_map: "anchors (map_jsx f n) = map (map (map_attribute f)) (anchors n)"
  by (simp add: anchors_def filter_map o_def case_prod_unfold)

lemma routedPaths_eval:
  "routedPaths = [js ''/site'', js ''/site/download'', js ''/site/info'', js ''/login'', js ''/'', js ''/state'', js ''/events'', js ''/notifications'',
     js ''/events/:eventId'']"
  by (simp add: routedPaths_def allBranches_def appRouter_def branchPath_def)

lemma no_links [simp]:
  "(\<And>x. linksOf (f x) = []) \<Longrightarrow> concat (map linksOf (map f xs)) = []"
  "(\<And>x. anchors (f x) = []) \<Longrightarrow> concat (map anchors (map f xs)) = []"
  by (induction xs) simp_all

lemma view_links:
  "linksOf (loginView dateLocale reason s) = []" "linksOf (stateMarkup st) = []"
  "homeView notText baseUrl h = Inr t \<Longrightarrow> linksOf t = [js ''/state'', js ''/events'']"
  "notificationsView lang dateText p = Inr u \<Longrightarrow> linksOf u = []"
  "linksOf (eventsView rnd other date numText ep) = map (\<lambda>e. js ''/events/'' @ eventId e) (epEvents ep)"
  "set (linksOf (detailMarkup d v)) \<subseteq> {js ''/events''}"
  "linksOf (App a) = [js ''/'', js ''/state'', js ''/events'', js ''/notifications'']"
  "linksOf (WebsiteLayout pathname) = [js ''/site/download'', js ''/site'']"
  "linksOf WebsiteHomePage = []" "linksOf WebsiteInfoPage = []" "linksOf (guardMarkup a pathname search) = []"
proof -
  show "linksOf (loginView dateLocale reason s) = []" by (simp add: loginView_def del: js_Cons)
  show "linksOf (stateMarkup st) = []" by (simp add: stateMarkup_def del: js_Cons)
  show "homeView notText baseUrl h = Inr t \<Longrightarrow> linksOf t = [js ''/state'', js ''/events'']"
    by (cases "healthTone notText h") (auto simp: homeView_def simp del: js_Cons)
  show "notificationsView lang dateText p = Inr u \<Longrightarrow> linksOf u = []"
    by (cases "notificationRows lang dateText (npItems p)") (auto simp: notificationsView_def o_def simp del: js_Cons)
  show "linksOf (eventsView rnd other date numText ep) = map (\<lambda>e. js ''/events/'' @ eventId e) (epEvents ep)"
    by (simp add: eventsView_def eventMarkup_def eventRow_def o_def del: js_Cons)
  show "set (linksOf (detailMarkup d v)) \<subseteq> {js ''/events''}" by (cases v) (simp_all del: js_Cons)
  show "linksOf (App a) = [js ''/'', js ''/state'', js ''/events'', js ''/notifications'']" by (simp add: App_def del: js_Cons)
  show "linksOf (WebsiteLayout pathname) = [js ''/site/download'', js ''/site'']" by (simp add: WebsiteLayout_def del: js_Cons)
  show "linksOf WebsiteHomePage = []" by (simp add: WebsiteHomePage_def o_def del: js_Cons)
  show "linksOf WebsiteInfoPage = []" by (simp add: WebsiteInfoPage_def o_def del: js_Cons)
  show "linksOf (guardMarkup a pathname search) = []" by (simp add: guardMarkup_def split: guarded.split del: js_Cons)
qed

definition openLinks :: "web_pages \<Rightarrow> jstring set" where
  "openLinks w = {js ''/site'', js ''/site/download'', js ''/'', js ''/state'', js ''/events'', js ''/notifications''} \<union>
     (\<lambda>e. js ''/events/'' @ eventId e) ` set (epEvents (wpEvents w))"

lemma element_links: "elementView b w el = Inr t \<Longrightarrow> set (linksOf t) \<subseteq> openLinks w"
  using view_links(6)[THEN subsetD] view_links(3,4)
  by (cases el) (auto simp: openLinks_def view_links downloads_do_nothing ebind_eq_Inr simp del: js_Cons)

lemma branch_links: "viewBranch b w els = Inr t \<Longrightarrow> set (linksOf t) \<subseteq> openLinks w"
proof (induction els arbitrary: t)
  case (Cons el els)
  then obtain outer where outer: "elementView b w el = Inr outer" by (auto simp: ebind_eq_Inr)
  show ?case
  proof (cases "els \<noteq> [] \<and> hasOutlet outer")
    case True
    then obtain inner where "viewBranch b w els = Inr inner" "t = plug inner outer" using Cons.prems outer by (auto simp: ebind_eq_Inr)
    then show ?thesis using Cons.IH element_links[OF outer] linksOf_plug[of inner outer] by blast
  qed (use Cons.prems outer element_links in \<open>auto split: if_splits\<close>)
qed simp

text \<open>The information page of the website has a route and no link leads to it.\<close>

theorem info_page_unlinked:
  assumes "viewBranch b w els = Inr t"
  shows "js ''/site/info'' \<in> set routedPaths \<and> js ''/site/info'' \<notin> set (linksOf t)"
proof -
  have routed: "js ''/site/info'' \<in> set routedPaths" unfolding routedPaths_eval by (simp del: js_Cons)
  have "js ''/site/info'' \<noteq> js ''/events/'' @ x" for x by simp
  then have "js ''/site/info'' \<notin> openLinks w" by (auto simp: openLinks_def simp del: js_Cons)
  then show ?thesis using branch_links[OF assms] routed by blast
qed

section \<open>The guard on the markup\<close>

lemma guardMarkup_session:
  "isAuthenticated a \<Longrightarrow> guardMarkup a pathname search = Elem ''Outlet'' [] []"
  "\<not> isAuthenticated a \<Longrightarrow> \<not> offers (guardMarkup a pathname search) e \<and> \<not> hasOutlet (guardMarkup a pathname search) \<and>
     linksOf (guardMarkup a pathname search) = []"
  by (simp_all add: guardMarkup_def RequireAuth_def hasOutlet_def)

lemma App_outlet: "hasOutlet (App a)"
  by (simp add: App_def hasOutlet_def del: js_Cons)

lemma guarded_branch_view:
  "viewBranch b w [ElRequireAuth, ElApp, el] =
     (if isAuthenticated (wpAuth w) then ebind (elementView b w el) (\<lambda>inner. Inr (plug inner (App (wpAuth w))))
      else Inr (guardMarkup (wpAuth w) (wpPath w) (wpSearch w)))"
proof -
  have "ebind r Inr = r" for r :: "(exn, app_ui jsx) result" by (cases r) simp_all
  moreover have "hasOutlet (Elem ''Outlet'' [] [] :: app_ui jsx)" by (simp add: hasOutlet_def)
  moreover have "plug inner (Elem ''Outlet'' [] []) = inner" for inner :: "app_ui jsx" by simp
  ultimately show ?thesis
    by (cases "isAuthenticated (wpAuth w)") (simp_all add: App_outlet guardMarkup_session del: plug.simps)
qed

text \<open>
  The wallet is shown to its user only. The markup of each branch of the table that ends in a page of the wallet is, with a session, the frame with the
  page in it, and without one the redirect to the login page, which offers no control and no link of the wallet.
\<close>

theorem wallet_markup_is_guarded:
  assumes "br \<in> set allBranches" "isWalletPage (last (fst br))"
  shows "viewBranch b w (fst br) =
      (if isAuthenticated (wpAuth w)
       then ebind (elementView b w (last (fst br))) (\<lambda>inner. Inr (plug inner (App (wpAuth w))))
       else Inr (guardMarkup (wpAuth w) (wpPath w) (wpSearch w))) \<and>
    (\<not> isAuthenticated (wpAuth w) \<longrightarrow>
       linksOf (guardMarkup (wpAuth w) (wpPath w) (wpSearch w) :: app_ui jsx) = [] \<and>
       (\<forall>a. \<not> offers (guardMarkup (wpAuth w) (wpPath w) (wpSearch w)) (a :: app_ui)))"
proof -
  obtain el where "fst br = [ElRequireAuth, ElApp, el]" using wallet_branch_cases[OF assms] by blast
  then show ?thesis by (simp add: guarded_branch_view guardMarkup_session del: viewBranch.simps)
qed

definition demo_pages :: "auth \<Rightarrow> web_pages" where
  "demo_pages a = \<lparr>wpPath = js ''/events'', wpSearch = [], wpAuth = a, wpReason = None, wpLogin = openLogin a, wpHome = openHomePage a,
     wpState = openStatePage a, wpNotifications = openNotifications a, wpEvents = demo_first_page, wpDetail = openDetail a None None\<rparr>"

definition demo_texts :: browser_texts where
  "demo_texts = \<lparr>btLang = demo_lang_ep, btRnd = Fin, btOther = (\<lambda>_. []), btDate = (\<lambda>_. None), btDateOf = (\<lambda>_. None),
     btDateLocale = (\<lambda>_. []), btNotText = [], btBaseUrl = []\<rparr>"

theorem wallet_markup_is_guarded_witness:
  "linksOf (projr (viewBranch demo_texts (demo_pages \<lparr>storage = None, session = None, invalidReason = []\<rparr>) [ElRequireAuth, ElApp, ElEvents])) = []"
proof -
  let ?w = "demo_pages \<lparr>storage = None, session = None, invalidReason = []\<rparr>"
  have "([ElRequireAuth, ElApp, ElEvents], [js ''/'', js ''events'']) \<in> set allBranches" "\<not> isAuthenticated (wpAuth ?w)"
    by (simp_all add: allBranches_def appRouter_def demo_pages_def isAuthenticated_def del: js_Cons)
  with wallet_markup_is_guarded[OF this(1), of demo_texts ?w] show ?thesis by simp
qed

end
