(* ===== verification/SessionLease.thy ===== *)
theory SessionLease
  imports WebSession
begin

text \<open>
  What the session of \<open>auth/AuthContext.tsx\<close> promises, without JSON, storage and texts: a lease, that is an account with a deadline, or none. The provider, with its stored text
  that survives reloads, refines it.
\<close>

type_synonym lease = "(jstring \<times> int) option"

fun lease_do :: "auth_op \<Rightarrow> lease \<Rightarrow> lease" where
  "lease_do (SignIn t account) l = Some (trim account, t + 1800000)"
| "lease_do (SignOut reason) l = None"
| "lease_do ClearReason l = l"
| "lease_do (Tick t) None = None"
| "lease_do (Tick t) (Some (account, deadline)) = (if t < deadline then Some (account, deadline) else None)"
| "lease_do (Reload t) None = None"
| "lease_do (Reload t) (Some (account, deadline)) =
     (if account \<noteq> [] \<and> deadline \<noteq> 0 \<and> t < deadline then Some (account, deadline) else None)"

definition leaseSession :: "lease \<Rightarrow> json option" where
  "leaseSession l = map_option (\<lambda>(account, deadline). sessionObject account deadline) l"

lemma leaseSession_simps [simp]:
  "leaseSession None = None" "leaseSession (Some (account, deadline)) = Some (sessionObject account deadline)"
  by (simp_all add: leaseSession_def)

lemma session_valid_lease: "session_valid h t (sessionObject account d) \<longleftrightarrow> account \<noteq> [] \<and> d \<noteq> 0 \<and> t < d"
  by (auto simp: session_valid_def num_le_def) (auto simp: sessionObject_def num_def)

text \<open>Every operation of the provider is the operation of the lease.\<close>

lemma lease_simulation:
  assumes "auth_wf h a" "session a = leaseSession l"
  shows "session (auth_do h op a) = leaseSession (lease_do op l)"
proof (cases l)
  case None
  then show ?thesis
    using assms reload_session[OF assms(1)]
    by (cases op) (simp_all add: signIn_def signOut_def clearInvalidReason_def tick_def Let_def DEFAULT_SESSION_TTL_MS_def)
next
  case (Some x)
  then show ?thesis
    using assms reload_session[OF assms(1)]
    by (cases op; cases x) (simp_all add: signIn_def signOut_def clearInvalidReason_def tick_def Let_def DEFAULT_SESSION_TTL_MS_def session_valid_lease)
qed

text \<open>
  C7: the session refines a lease. Through any sequence of sign-ins, sign-outs, timer ticks, dismissed messages and reloads of a tab that starts without a stored session,
  the session of the provider is the one of the lease, and guarded pages are shown exactly while there is a lease.
\<close>

theorem session_refines_lease:
  assumes "json_codec h"
  shows "let a = fold (auth_do h) ops (initAuth h t0 None); l = fold lease_do ops None
    in session a = leaseSession l \<and> (RequireAuth a path query = Outlet \<longleftrightarrow> l \<noteq> None)"
proof -
  have "session (fold (auth_do h) ops (initAuth h t0 None)) = leaseSession (fold lease_do ops None)"
  proof (induction ops rule: rev_induct)
    case (snoc op ops)
    then show ?case using lease_simulation[OF auth_wf_run[OF assms]] by simp
  qed (simp add: initAuth_def parseStoredSession_def)
  then show ?thesis by (simp add: Let_def RequireAuth_def isAuthenticated_def leaseSession_def)
qed

theorem session_refines_lease_witness:
  "session (fold (auth_do demo_host) [SignIn 1000 (js ''ann''), Reload 2000, Tick 1801000] (initAuth demo_host 0 None)) = None"
  using session_refines_lease[OF demo_codec, of "[SignIn 1000 (js ''ann''), Reload 2000, Tick 1801000]" 0 "[]" "[]"]
  by (simp add: Let_def trim_def trimStart_def trimEnd_def isWhite_def)

end
