(* ===== verification/WebApp.thy ===== *)
theory WebApp
  imports AppViews SessionLease
begin

text \<open>
  The web application as a whole (\<open>main.tsx\<close>): the provider of the session around the router, with the pages that the user opens and leaves. A
  page that was left is not on the screen any more, but the requests it has sent are still answered, and the answers reach the one session
  that all pages share. So the state keeps every instance of a page that was opened since the last load, and the session, the clock, and the address.
  What belongs to the router library is the parameter that resolves a text to a location.
\<close>

section \<open>Locations and page instances\<close>

text \<open>A location of the router: path, query, parameter \<open>eventId\<close>, the branch that matches (empty: none), and what its state holds.\<close>

record location =
  locPath :: jstring
  locSearch :: jstring
  locParam :: "jstring option"
  locBranch :: "element list"
  locFrom :: "jstring option"
  locReason :: "jstring option"
  locEvent :: "IndexerEvent option"

definition loginLocation :: "jstring \<Rightarrow> jstring option \<Rightarrow> location" where
  "loginLocation from reason = \<lparr>locPath = js ''/login'', locSearch = [], locParam = None, locBranch = [ElLogin],
     locFrom = Some from, locReason = reason, locEvent = None\<rparr>"

text \<open>
  The instances. A login page knows the origin of its location and the one at the last click on confirm, which the handler has captured; the home and the state page
  count their requests that are not answered yet.
\<close>

datatype page_inst =
    NoPage
  | SiteInst element
  | LoginInst "jstring option" "jstring option" login
  | HomeInst nat home_page
  | StateInst nat state_page
  | NotificationsInst notifications_page
  | EventsInst events_page
  | DetailInst detail_page

fun instElement :: "page_inst \<Rightarrow> element option" where
  "instElement NoPage = None"
| "instElement (SiteInst el) = Some el"
| "instElement (LoginInst origin clicked s) = Some ElLogin"
| "instElement (HomeInst n h) = Some ElHome"
| "instElement (StateInst n s) = Some ElState"
| "instElement (NotificationsInst p) = Some ElNotifications"
| "instElement (EventsInst p) = Some ElEvents"
| "instElement (DetailInst d) = Some ElEventDetail"

fun openInst :: "auth \<Rightarrow> location \<Rightarrow> element \<Rightarrow> page_inst" where
  "openInst a loc ElLogin = LoginInst (locFrom loc) (locFrom loc) (openLogin a)"
| "openInst a loc ElHome = HomeInst 0 (openHomePage a)"
| "openInst a loc ElState = StateInst 1 (loadStateBegins (openStatePage a))"
| "openInst a loc ElNotifications = NotificationsInst (openNotifications a)"
| "openInst a loc ElEvents = EventsInst (openEventsPage a)"
| "openInst a loc ElEventDetail = DetailInst (openDetail a (locParam loc) (locEvent loc))"
| "openInst a loc el = SiteInst el"

text \<open>The clean-ups of a page that is left: the timer of the login page, the stream, the flag of the run of the detail page.\<close>

fun leaveInst :: "page_inst \<Rightarrow> page_inst" where
  "leaveInst (LoginInst origin clicked s) = LoginInst origin clicked (leave s)"
| "leaveInst (NotificationsInst p) = NotificationsInst (streamFailed p)"
| "leaveInst (DetailInst d) = DetailInst (d\<lparr>dpMounted := None\<rparr>)"
| "leaveInst inst = inst"

text \<open>A page that stays while the location changes.\<close>

fun moveInst :: "location \<Rightarrow> page_inst \<Rightarrow> page_inst" where
  "moveInst loc (LoginInst origin clicked s) = LoginInst (locFrom loc) clicked s"
| "moveInst loc (DetailInst d) = DetailInst (navigateDetail (locParam loc) (locEvent loc) d)"
| "moveInst loc inst = inst"

text \<open>The effects that depend on \<open>signOut\<close>, which is a new function after every sign-in.\<close>

fun rerunEffects :: "page_inst \<Rightarrow> page_inst" where
  "rerunEffects (StateInst n s) = StateInst (Suc n) (loadStateBegins s)"
| "rerunEffects (NotificationsInst p) = NotificationsInst (notificationsRerun p)"
| "rerunEffects (EventsInst p) = EventsInst (eventsRerun p)"
| "rerunEffects (DetailInst d) = DetailInst (detailRerun d)"
| "rerunEffects inst = inst"

fun withAuth :: "auth \<Rightarrow> page_inst \<Rightarrow> page_inst" where
  "withAuth a (LoginInst origin clicked s) = LoginInst origin clicked (s\<lparr>loginAuth := a\<rparr>)"
| "withAuth a (HomeInst n h) = HomeInst n (h\<lparr>homeAuth := a\<rparr>)"
| "withAuth a (StateInst n s) = StateInst n (s\<lparr>stateAuth := a\<rparr>)"
| "withAuth a (NotificationsInst p) = NotificationsInst (p\<lparr>npAuth := a\<rparr>)"
| "withAuth a (EventsInst p) = EventsInst (p\<lparr>epAuth := a\<rparr>)"
| "withAuth a (DetailInst d) = DetailInst (d\<lparr>dpAuth := a\<rparr>)"
| "withAuth a inst = inst"

text \<open>The session that an instance has left behind; a page of the website uses none.\<close>

fun instAuth :: "auth \<Rightarrow> page_inst \<Rightarrow> auth" where
  "instAuth a (LoginInst origin clicked s) = loginAuth s"
| "instAuth a (HomeInst n h) = homeAuth h"
| "instAuth a (StateInst n s) = stateAuth s"
| "instAuth a (NotificationsInst p) = npAuth p"
| "instAuth a (EventsInst p) = epAuth p"
| "instAuth a (DetailInst d) = dpAuth d"
| "instAuth a inst = a"

section \<open>The application\<close>

text \<open>
  \<open>appChecked\<close>, the last time at which the session was compared with the clock, and \<open>appGone\<close>, the instances of earlier loads of the tab, are kept for the proofs.
\<close>

record web_app =
  appTime :: int
  appChecked :: int
  appAuth :: auth
  appLoc :: location
  appInsts :: "page_inst list"
  appCurrent :: nat
  appGone :: "page_inst list"

record web_env =
  weLang :: lang
  weHost :: json_host
  weRnd :: "rat \<Rightarrow> jsnum"
  weOther :: "jsnum \<Rightarrow> jstring"
  weInherited :: "jstring \<rightharpoonup> jstring"
  weResolve :: "jstring \<Rightarrow> location"

definition currentInst :: "web_app \<Rightarrow> page_inst" where
  "currentInst a = appInsts a ! appCurrent a"

definition setInst :: "nat \<Rightarrow> page_inst \<Rightarrow> web_app \<Rightarrow> web_app" where
  "setInst i inst a = a\<lparr>appInsts := (appInsts a)[i := inst]\<rparr>"

text \<open>Another page takes the place of the current one.\<close>

definition replacePage :: "location \<Rightarrow> page_inst \<Rightarrow> web_app \<Rightarrow> web_app" where
  "replacePage loc inst a =
     a\<lparr>appInsts := (appInsts a)[appCurrent a := leaveInst (currentInst a)] @ [inst],
       appCurrent := length (appInsts a), appLoc := loc\<rparr>"

definition placePage :: "location \<Rightarrow> element \<Rightarrow> web_app \<Rightarrow> web_app" where
  "placePage loc el a =
     (if instElement (currentInst a) = Some el
      then (setInst (appCurrent a) (moveInst loc (currentInst a)) a)\<lparr>appLoc := loc\<rparr>
      else replacePage loc (openInst (appAuth a) loc el) a)"

definition toLogin :: "jstring \<Rightarrow> jstring option \<Rightarrow> web_app \<Rightarrow> web_app" where
  "toLogin from reason a =
     (let loc = loginLocation from reason in replacePage loc (openInst (appAuth a) loc ElLogin) a)"

definition rendered :: "web_app \<Rightarrow> location \<Rightarrow> shown option" where
  "rendered a loc = renderBranch (appAuth a) (locPath loc) (locSearch loc) (locBranch loc)"

text \<open>A navigation; where no branch matches, the router shows a page of its own.\<close>

definition navigate :: "location \<Rightarrow> web_app \<Rightarrow> web_app" where
  "navigate loc a =
     (case rendered a loc of
        None \<Rightarrow> replacePage loc NoPage a
      | Some (Page el) \<Rightarrow> placePage loc el a
      | Some (LoginRedirect from reason) \<Rightarrow> toLogin from reason a)"

text \<open>The guard and the effect of the login page, after the session or the page has changed.\<close>

definition guardEffect :: "web_app \<Rightarrow> web_app" where
  "guardEffect a =
     (case rendered a (appLoc a) of
        Some (LoginRedirect from reason) \<Rightarrow> toLogin from reason a
      | _ \<Rightarrow> a)"

definition loginEffect :: "web_env \<Rightarrow> web_app \<Rightarrow> web_app" where
  "loginEffect e a =
     (case currentInst a of
        LoginInst origin clicked s \<Rightarrow>
          if isAuthenticated (appAuth a) \<and> \<not> succeeded (authorizationResult s)
          then navigate (weResolve e (redirectPath origin)) a else a
      | _ \<Rightarrow> a)"

text \<open>The effect runs again when its own navigation ends on the login page, which then has no origin.\<close>

definition settleApp :: "web_env \<Rightarrow> web_app \<Rightarrow> web_app" where
  "settleApp e a = loginEffect e (loginEffect e (guardEffect a))"

text \<open>A load of the application at a location, with the text that the session storage of the tab holds.\<close>

definition loadApp :: "web_env \<Rightarrow> int \<Rightarrow> jstring option \<Rightarrow> location \<Rightarrow> page_inst list \<Rightarrow> web_app" where
  "loadApp e t stored loc gone = settleApp e (navigate loc
     \<lparr>appTime = t, appChecked = t, appAuth = initAuth (weHost e) t stored, appLoc = loc, appInsts = [NoPage], appCurrent = 0, appGone = gone\<rparr>)"

definition reloadApp :: "web_env \<Rightarrow> location \<Rightarrow> web_app \<Rightarrow> web_app" where
  "reloadApp e loc a = loadApp e (appTime a) (storage (appAuth a)) loc (appGone a @ appInsts a)"

definition intervalFires :: "web_env \<Rightarrow> web_app \<Rightarrow> web_app" where
  "intervalFires e a = settleApp e (a\<lparr>appAuth := tick (weHost e) (appTime a) (appAuth a), appChecked := appTime a\<rparr>)"

definition signOutClicked :: "web_env \<Rightarrow> web_app \<Rightarrow> web_app" where
  "signOutClicked e a = settleApp e (a\<lparr>appAuth := clickSignOut (appAuth a)\<rparr>)"

section \<open>Steps\<close>

datatype login_event =
    Types jstring | Submits | ChallengeAnswered request_result | Confirms | ConfirmationAnswered request_result

fun byUser :: "login_event \<Rightarrow> bool" where
  "byUser (ChallengeAnswered answer) = False"
| "byUser (ConfirmationAnswered answer) = False"
| "byUser ev = True"

fun signsIn :: "login_event \<Rightarrow> bool" where
  "signsIn (ConfirmationAnswered (Inr r)) = succeeded (Some r)"
| "signsIn ev = False"

text \<open>What the login page does with an event at time \<open>t\<close>; nothing where the page does not accept or expect it.\<close>

fun loginDo :: "web_env \<Rightarrow> int \<Rightarrow> login_event \<Rightarrow> page_inst \<Rightarrow> page_inst option" where
  "loginDo e t (Types txt) (LoginInst origin clicked s) =
     (if mounted s then Some (LoginInst origin clicked (s\<lparr>accountField := txt\<rparr>)) else None)"
| "loginDo e t Submits (LoginInst origin clicked s) =
     (if canSubmit s then Some (LoginInst origin clicked (submitBegins s)) else None)"
| "loginDo e t (ChallengeAnswered answer) (LoginInst origin clicked s) =
     (if pendingChallenge s \<noteq> None then Some (LoginInst origin clicked (submitEnds (weLang e) answer s)) else None)"
| "loginDo e t Confirms (LoginInst origin clicked s) =
     (if canConfirm s then Some (LoginInst origin origin (confirmBegins (weLang e) t s)) else None)"
| "loginDo e t (ConfirmationAnswered answer) (LoginInst origin clicked s) =
     (case pendingConfirm s of
        Some i \<Rightarrow> Some (LoginInst origin clicked (confirmEnds (weLang e) (weHost e) clicked t i answer s))
      | None \<Rightarrow> None)"
| "loginDo e t ev inst = None"

text \<open>The session that instance \<open>i\<close> has left behind becomes the session of the application.\<close>

definition adopt :: "nat \<Rightarrow> page_inst \<Rightarrow> web_app \<Rightarrow> web_app" where
  "adopt i inst a = (setInst i inst a)\<lparr>appAuth := instAuth (appAuth a) inst\<rparr>"

definition loginHappens :: "web_env \<Rightarrow> nat \<Rightarrow> login_event \<Rightarrow> web_app \<Rightarrow> web_app option" where
  "loginHappens e i ev a =
     (if i < length (appInsts a) \<and> (byUser ev \<longrightarrow> i = appCurrent a) then
        (case loginDo e (appTime a) ev (withAuth (appAuth a) (appInsts a ! i)) of
           None \<Rightarrow> None
         | Some inst \<Rightarrow>
             let a1 = adopt i inst a;
                 a2 = (if signsIn ev then setInst (appCurrent a) (rerunEffects (currentInst a1)) a1 else a1)
             in Some (settleApp e a2))
      else None)"

text \<open>The timer of a login page, which may have been left before it was started.\<close>

definition timerHappens :: "web_env \<Rightarrow> nat \<Rightarrow> web_app \<Rightarrow> web_app option" where
  "timerHappens e i a =
     (if i < length (appInsts a) then
        (case appInsts a ! i of
           LoginInst origin clicked s \<Rightarrow>
             (case redirectTimer s of
                Some p \<Rightarrow> Some (settleApp e (navigate (weResolve e p) (setInst i (LoginInst origin clicked (s\<lparr>redirectTimer := None\<rparr>)) a)))
              | None \<Rightarrow> None)
         | _ \<Rightarrow> None)
      else None)"

text \<open>What reaches a page of the wallet, also after it was left: answers, reports of a request, the progress and the end of an export.\<close>

inductive inst_hears :: "web_env \<Rightarrow> page_inst \<Rightarrow> page_inst \<Rightarrow> bool" for e where
  home_answer: "inst_hears e (HomeInst (Suc n) h) (HomeInst n (checkHealthEnds (weLang e) answer h))"
| state_answer: "inst_hears e (StateInst (Suc n) s) (StateInst n (loadStateEnds (weLang e) answer s))"
| notifications_answer: "off \<in> set (npPending p) \<Longrightarrow>
    inst_hears e (NotificationsInst p) (NotificationsInst (runEnds (weLang e) off answer p))"
| events_answer: "asked \<in> set (epPending p) \<Longrightarrow>
    inst_hears e (EventsInst p) (EventsInst (loadEventsEnds (weLang e) asked answer p))"
| events_report: "epPending p \<noteq> [] \<Longrightarrow> inst_hears e (EventsInst p) (EventsInst (onLifecycle report p))"
| events_progress: "epExports p \<noteq> [] \<Longrightarrow> inst_hears e (EventsInst p) (EventsInst (onProgress snapshot p))"
| events_exported: "export \<in> set (epExports p) \<Longrightarrow>
    inst_hears e (EventsInst p) (EventsInst (exportAllEnds (weLang e) (weOther e) moment export answer p))"
| detail_report: "run \<in> set (dpRuns d) \<Longrightarrow> inst_hears e (DetailInst d) (DetailInst (detailLifecycle (fst run) report d))"
| detail_answer: "run \<in> set (dpRuns d) \<Longrightarrow> inst_hears e (DetailInst d) (DetailInst (detailRunEnds (weLang e) run answer d))"

text \<open>
  The same for a request that fails with the error \<open>err\<close>: the requests and the export of all events that are under way, on a page that is shown or was left. The detail page
  looks whether the run that asked is still the current one. An export takes an error with one of its own two messages for its own.
\<close>

inductive inst_fails :: "web_env \<Rightarrow> exn \<Rightarrow> page_inst \<Rightarrow> page_inst \<Rightarrow> bool" for e err where
  home_fails: "inst_fails e err (HomeInst (Suc n) h) (HomeInst n (checkHealthEnds (weLang e) (Inl err) h))"
| state_fails: "inst_fails e err (StateInst (Suc n) s) (StateInst n (loadStateEnds (weLang e) (Inl err) s))"
| notifications_fails: "off \<in> set (npPending p) \<Longrightarrow>
    inst_fails e err (NotificationsInst p) (NotificationsInst (runEnds (weLang e) off (Inl err) p))"
| events_fails: "asked \<in> set (epPending p) \<Longrightarrow>
    inst_fails e err (EventsInst p) (EventsInst (loadEventsEnds (weLang e) asked (Inl err) p))"
| export_fails: "export \<in> set (epExports p) \<Longrightarrow> \<not> isExportCancelledError err \<Longrightarrow> \<not> isExportLimitExceededError err \<Longrightarrow>
    inst_fails e err (EventsInst p) (EventsInst (exportAllEnds (weLang e) (weOther e) moment export (Inl err) p))"
| detail_fails: "run \<in> set (dpRuns d) \<Longrightarrow> dpMounted d = Some (fst run) \<Longrightarrow>
    inst_fails e err (DetailInst d) (DetailInst (detailRunEnds (weLang e) run (Inl err) d))"

text \<open>
  What the user does on the page that is shown, and what its stream brings. The re-runs of the load effects belong to the sign-in that
  causes them, see \<open>rerunEffects\<close>.
\<close>

inductive inst_acts :: "web_env \<Rightarrow> page_inst \<Rightarrow> page_inst \<Rightarrow> bool" for e where
  home_input: "inst_acts e (HomeInst n h) (HomeInst n (homeInput x h))"
| home_check: "inst_acts e (HomeInst n h) (HomeInst (Suc n) h)"
| home_generate: "inst_acts e (HomeInst n h) (HomeInst n (handleGenerateBip21 (weInherited e) h))"
| home_parse: "inst_acts e (HomeInst n h) (HomeInst n (handleParseBip21 (weInherited e) h))"
| home_copy: "inst_acts e (HomeInst n h) (HomeInst n (handleCopyUri (weInherited e) copied h))"
| state_reload: "\<not> stateLoading s \<Longrightarrow> inst_acts e (StateInst n s) (StateInst (Suc n) (clickReloadState s))"
| notifications_act: "np_step (weLang e) (weRnd e) p p' \<Longrightarrow> npReruns p' = npReruns p \<Longrightarrow> inst_acts e (NotificationsInst p) (NotificationsInst p')"
| events_act: "ep_step (weLang e) (weRnd e) (weOther e) p p' \<Longrightarrow> epReruns p' = epReruns p \<Longrightarrow> inst_acts e (EventsInst p) (EventsInst p')"

definition showsWallet :: "web_app \<Rightarrow> bool" where
  "showsWallet a \<longleftrightarrow> (case instElement (currentInst a) of Some el \<Rightarrow> isWalletPage el | None \<Rightarrow> False)"

text \<open>A location the router can be at: a branch of the table or none; its state, kept in the history, can be anything.\<close>

definition routed :: "location \<Rightarrow> bool" where
  "routed loc \<longleftrightarrow> locBranch loc = [] \<or> locBranch loc \<in> fst ` set allBranches"

inductive app_step :: "web_env \<Rightarrow> web_app \<Rightarrow> web_app \<Rightarrow> bool" for e where
  Clock: "appTime a \<le> t \<Longrightarrow> app_step e a (a\<lparr>appTime := t\<rparr>)"
| Interval: "app_step e a (intervalFires e a)"
| Go: "routed loc \<Longrightarrow> app_step e a (settleApp e (navigate loc a))"
| Load: "routed loc \<Longrightarrow> app_step e a (reloadApp e loc a)"
| ClickSignOut: "showsWallet a \<Longrightarrow> app_step e a (signOutClicked e a)"
| LoginEvent: "loginHappens e i ev a = Some a' \<Longrightarrow> app_step e a a'"
| LoginTimer: "timerHappens e i a = Some a' \<Longrightarrow> app_step e a a'"
| Hears: "i < length (appInsts a) \<Longrightarrow> inst_hears e (withAuth (appAuth a) (appInsts a ! i)) inst \<Longrightarrow>
    app_step e a (settleApp e (adopt i inst a))"
| Acts: "inst_acts e (withAuth (appAuth a) (currentInst a)) inst \<Longrightarrow>
    app_step e a (settleApp e (adopt (appCurrent a) inst a))"

text \<open>A new tab, whose session storage is empty.\<close>

definition app_open :: "web_env \<Rightarrow> web_app \<Rightarrow> bool" where
  "app_open e a \<longleftrightarrow> (\<exists>t loc. routed loc \<and> a = loadApp e t None loc [])"

section \<open>What the pages do to the session\<close>

text \<open>
  The contract between a page and the session it shares with the others: whatever happens on the page, it leaves the session as it is or ends it. A page
  can never open or change a session; only the login page can.
\<close>

locale session_client =
  fixes step :: "'s \<Rightarrow> 's \<Rightarrow> bool" and page_auth :: "'s \<Rightarrow> auth"
  assumes keeps_or_ends: "step s s' \<Longrightarrow> page_auth s' = page_auth s \<or> page_auth s' = endSession (page_auth s)"
begin

lemma session_kept_or_ended: "step\<^sup>*\<^sup>* s s' \<Longrightarrow> page_auth s' = page_auth s \<or> page_auth s' = endSession (page_auth s)"
proof (induction rule: rtranclp_induct)
  case (step s' s'')
  then show ?case using keeps_or_ends[of s' s''] by (auto simp: endSession_def signOut_def)
qed simp

lemma no_session_opened: "step\<^sup>*\<^sup>* s s' \<Longrightarrow> session (page_auth s') \<noteq> None \<Longrightarrow> session (page_auth s') = session (page_auth s)"
  using session_kept_or_ended by fastforce

end

lemma auth_of_load:
  "npAuth (runEnds lang off answer p) = npAuth (runShows lang answer p)"
  "epAuth (loadEventsEnds lang asked found q) = epAuth (loadEventsShows lang found q)"
  "npAuth (setOffset off p) = npAuth p" "epAuth (loadEventsBegins q) = epAuth q" "epAuth (abortCurrent q) = epAuth q"
  "epAuth (changeInput x q) = epAuth q" "npAuth (runBegins p) = npAuth p" "npAuth (notificationsRerun p) = npAuth p" "epAuth (eventsRerun q) = epAuth q"
  by (simp_all add: notificationsRerun_def eventsRerun_def runEnds_def loadEventsEnds_def setOffset_def runBegins_def loadEventsBegins_def abortCurrent_def split: option.split)
    (cases x; simp)

lemma auth_of_exports:
  "epAuth (exportAllEnds lang other moment export answer p) = epAuth p \<or>
   epAuth (exportAllEnds lang other moment export answer p) = endSession (epAuth p)"
  by (auto simp: exportAllEnds_def exportAllShows_def downloadEvents_def Let_def split: sum.split prod.split)

lemma auth_of_detail:
  "dpAuth (detailLifecycle n event d) = dpAuth d" "dpAuth (navigateDetail param route d) = dpAuth d" "dpAuth (detailRerun d) = dpAuth d"
  "dpAuth (detailRunEnds lang run answer d) = dpAuth d \<or> dpAuth (detailRunEnds lang run answer d) = endSession (dpAuth d)"
  by (auto simp: detailLifecycle_def navigateDetail_def detailRerun_def detailEffect_def detailRunBegins_def detailRunEnds_def detailShows_def Let_def
      split: sum.split)

lemma answered_auth:
  "(case x of Inl e \<Rightarrow> if isSessionInvalidError e then endSession a else a | Inr _ \<Rightarrow> a) = a \<or>
   (case x of Inl e \<Rightarrow> if isSessionInvalidError e then endSession a else a | Inr _ \<Rightarrow> a) = endSession a"
  by (simp split: sum.split)

interpretation np_client: session_client "np_step lang rnd" npAuth
  for lang rnd
proof
  fix s s' assume "np_step lang rnd s s'"
  then show "npAuth s' = npAuth s \<or> npAuth s' = endSession (npAuth s)"
  proof cases
    case (np_answer off answer)
    then show ?thesis using answered_auth by (simp add: auth_of_load np_load.auth_after)
  qed (simp_all add: np_click_defs auth_of_load streamOpened_def streamFailed_def stream_keeps)
qed

interpretation ep_client: session_client "ep_step lang rnd other" epAuth
  for lang rnd other
proof
  fix s s' assume "ep_step lang rnd other s s'"
  then show "epAuth s' = epAuth s \<or> epAuth s' = endSession (epAuth s)"
  proof cases
    case (ep_answer asked answer)
    then show ?thesis using answered_auth by (simp add: auth_of_load ep_load.auth_after)
  next
    case (ep_exported export moment answer)
    then show ?thesis by (simp add: auth_of_exports)
  next
    case (ep_progress snapshot)
    then show ?thesis by (simp add: onProgress_def split: prod.split)
  qed (simp_all add: click_defs auth_of_load onLifecycle_def applyFilters_def resetFilters_def setEventsQuery_def setEventsOffset_def
      exportAs_def downloadEvents_def exportAllBegins_def cancelExport_def Let_def)
qed

interpretation dp_client: session_client "dp_step lang" dpAuth
  for lang
proof
  fix s s' assume "dp_step lang s s'"
  then show "dpAuth s' = dpAuth s \<or> dpAuth s' = endSession (dpAuth s)"
    by cases (use auth_of_detail in \<open>simp_all\<close>)
qed

interpretation left_client: session_client "inst_hears e" "instAuth a"
  for e a
proof
  fix s s' assume "inst_hears e s s'"
  then show "instAuth a s' = instAuth a s \<or> instAuth a s' = endSession (instAuth a s)"
  proof cases
    case (events_answer asked p answer)
    then show ?thesis using ep_client.keeps_or_ends[OF ep_step.ep_answer] by simp
  next
    case (notifications_answer off p answer)
    then show ?thesis using np_client.keeps_or_ends[OF np_step.np_answer] by simp
  next
    case (events_progress p snapshot)
    then show ?thesis using ep_client.keeps_or_ends[OF ep_step.ep_progress] by simp
  qed (use answered_auth auth_of_exports auth_of_detail in \<open>simp_all add: health.auth_after state_load.auth_after onLifecycle_def\<close>)
qed

lemma fails_hears: "inst_fails e err inst inst' \<Longrightarrow> inst_hears e inst inst'"
  by (cases rule: inst_fails.cases) (auto intro: inst_hears.intros)

lemma fails_ends:
  assumes "inst_fails e err inst inst'" "isSessionInvalidError err"
  shows "instAuth a inst' = endSession (instAuth a inst)"
  using assms(1)
proof cases
  case (export_fails export p moment)
  then show ?thesis using assms(2) by (cases export) (simp add: exportAllEnds_def exportAllShows_def Let_def)
next
  case (detail_fails run d)
  then show ?thesis using assms(2) by (simp add: detailRunEnds_def dp_load.auth_after)
qed (use assms(2) in \<open>simp_all add: health.auth_after state_load.auth_after auth_of_load np_load.auth_after ep_load.auth_after\<close>)

lemma stale_detail_run: "dpMounted d \<noteq> Some (fst run) \<Longrightarrow> dpAuth (detailRunEnds lang run answer d) = dpAuth d"
  by (simp add: detailRunEnds_def)

interpretation shown_client: session_client "inst_acts e" "instAuth a"
  for e a
proof
  fix s s' assume "inst_acts e s s'"
  then show "instAuth a s' = instAuth a s \<or> instAuth a s' = endSession (instAuth a s)"
  proof cases
    case (home_input n h x)
    then show ?thesis by (cases x) simp_all
  next
    case (notifications_act p p')
    then show ?thesis using np_client.keeps_or_ends by simp
  next
    case (events_act p p')
    then show ?thesis using ep_client.keeps_or_ends by simp
  qed (simp_all add: handleGenerateBip21_def handleParseBip21_def handleCopyUri_def clickReloadState_def loadStateBegins_def split: sum.split)
qed

section \<open>Where a session comes from\<close>

fun instLogins :: "page_inst \<Rightarrow> login list" where
  "instLogins (LoginInst origin clicked s) = [s]"
| "instLogins inst = []"

text \<open>All login pages that were ever opened in the tab, and the answers that they have received.\<close>

definition appLogins :: "web_app \<Rightarrow> login list" where
  "appLogins a = concat (map instLogins (appGone a @ appInsts a))"

definition instAnswers :: "page_inst \<Rightarrow> (confirm_input \<times> int \<times> request_result) list" where
  "instAnswers inst = concat (map answers (instLogins inst))"

definition appAnswers :: "web_app \<Rightarrow> (confirm_input \<times> int \<times> request_result) list" where
  "appAnswers a = concat (map instAnswers (appGone a @ appInsts a))"

definition instLinked :: "page_inst \<Rightarrow> bool" where
  "instLinked inst = list_all login_linked (instLogins inst)"

definition core_inv :: "json_host \<Rightarrow> web_app \<Rightarrow> bool" where
  "core_inv h a \<longleftrightarrow> auth_wf h (appAuth a) \<and> appCurrent a < length (appInsts a) \<and> list_all instLinked (appGone a @ appInsts a) \<and>
     list_all (\<lambda>(i, t, answer). t \<le> appTime a) (appAnswers a) \<and> appChecked a \<le> appTime a \<and>
     pred_option (\<lambda>j. opened_by (appAnswers a) j \<and> num_less (num (appChecked a)) (expiresOf h j)) (session (appAuth a))"

lemma inst_open [simp]: "instAnswers (openInst a loc el) = []" "instLinked (openInst a loc el)" "instElement (openInst a loc el) = Some el"
  by (cases el; simp add: instAnswers_def instLinked_def openLogin_def login_linked_def)+

lemma login_open [simp]: "instAnswers (LoginInst x y (openLogin a)) = []" "instLinked (LoginInst x y (openLogin a))"
  by (simp_all add: instAnswers_def instLinked_def openLogin_def login_linked_def)

lemma inst_none [simp]: "instAnswers NoPage = []" "instLinked NoPage"
  by (simp_all add: instAnswers_def instLinked_def)

lemma inst_leave [simp]:
  "instAnswers (leaveInst inst) = instAnswers inst" "instLinked (leaveInst inst) = instLinked inst"
  by (cases inst; simp add: instAnswers_def instLinked_def login_linked_simple)+

lemma inst_move [simp]:
  "instAnswers (moveInst loc inst) = instAnswers inst" "instLinked (moveInst loc inst) = instLinked inst"
  "instElement (moveInst loc inst) = instElement inst"
  by (cases inst; simp add: instAnswers_def instLinked_def)+

lemma inst_rerun [simp]:
  "instAnswers (rerunEffects inst) = instAnswers inst" "instLinked (rerunEffects inst) = instLinked inst"
  "instElement (rerunEffects inst) = instElement inst"
  by (cases inst; simp add: instAnswers_def instLinked_def)+

lemma inst_with [simp]:
  "instAnswers (withAuth x inst) = instAnswers inst" "instLinked (withAuth x inst) = instLinked inst"
  "instElement (withAuth x inst) = instElement inst"
  by (cases inst; simp add: instAnswers_def instLinked_def login_linked_simple)+

lemma instAuth_with: "instAuth x (withAuth x inst) = x"
  by (cases inst) simp_all

lemma map_update_same: "f y = f (xs ! i) \<Longrightarrow> map f (xs[i := y]) = map f xs"
  by (cases "i < length xs") (simp_all add: map_update list_update_same_conv list_update_beyond)

text \<open>What changes the screen only.\<close>

definition screenOnly :: "web_app \<Rightarrow> web_app \<Rightarrow> bool" where
  "screenOnly a a' \<longleftrightarrow> appTime a' = appTime a \<and> appChecked a' = appChecked a \<and> appAuth a' = appAuth a \<and> appAnswers a' = appAnswers a \<and>
     (list_all instLinked (appGone a @ appInsts a) \<longrightarrow> list_all instLinked (appGone a' @ appInsts a')) \<and>
     (appCurrent a < length (appInsts a) \<longrightarrow> appCurrent a' < length (appInsts a'))"

lemma screenOnly_refl [simp]: "screenOnly a a"
  by (simp add: screenOnly_def)

lemma screenOnly_trans: "screenOnly a b \<Longrightarrow> screenOnly b c \<Longrightarrow> screenOnly a c"
  by (simp add: screenOnly_def)

lemma screenOnly_auth: "screenOnly a a' \<Longrightarrow> appAuth a' = appAuth a"
  by (simp add: screenOnly_def)

lemma core_screenOnly: "core_inv h a \<Longrightarrow> screenOnly a a' \<Longrightarrow> core_inv h a'"
  by (simp add: core_inv_def screenOnly_def)

lemma list_all_update: "list_all P xs \<Longrightarrow> (i < length xs \<Longrightarrow> P y) \<Longrightarrow> list_all P (xs[i := y])"
  by (cases "i < length xs") (auto simp: list_all_length nth_list_update list_update_beyond)

lemma list_all_nth_if: "list_all P xs \<Longrightarrow> i < length xs \<Longrightarrow> P (xs ! i)"
  by (simp add: list_all_length)

lemma screenOnly_setInst:
  assumes "instAnswers inst = instAnswers (appInsts a ! i)" "instLinked inst = instLinked (appInsts a ! i)"
  shows "screenOnly a (setInst i inst a)"
  using assms by (auto simp: screenOnly_def setInst_def appAnswers_def map_update_same intro!: list_all_update dest: list_all_nth_if)

lemma screenOnly_replace:
  assumes "instAnswers inst = []" "instLinked inst"
  shows "screenOnly a (replacePage loc inst a)"
  using assms
  by (auto simp: screenOnly_def replacePage_def appAnswers_def currentInst_def map_update_same intro!: list_all_update dest: list_all_nth_if)

lemma screenOnly_loc: "screenOnly a (a'\<lparr>appLoc := loc\<rparr>) = screenOnly a a'"
  by (simp add: screenOnly_def appAnswers_def)

lemma screenOnly_navigate: "screenOnly a (navigate loc a)"
  by (auto simp: navigate_def toLogin_def placePage_def Let_def screenOnly_loc currentInst_def
      intro!: screenOnly_replace screenOnly_setInst split: option.split shown.split)

lemma screenOnly_effects: "screenOnly a (guardEffect a)" "screenOnly a (loginEffect e a)"
  by (auto simp: guardEffect_def loginEffect_def toLogin_def Let_def
      intro!: screenOnly_replace screenOnly_navigate split: option.split shown.split page_inst.split)

lemma screenOnly_settle: "screenOnly a (settleApp e a)"
  unfolding settleApp_def by (meson screenOnly_effects screenOnly_trans)

lemma core_settle: "core_inv h a \<Longrightarrow> core_inv h (settleApp e a)"
  using core_screenOnly screenOnly_settle by blast

lemma core_navigate: "core_inv h a \<Longrightarrow> core_inv h (navigate loc a)"
  using core_screenOnly screenOnly_navigate by blast

text \<open>A change of the session that keeps or ends it.\<close>

lemma core_auth:
  assumes "core_inv h a" "auth_wf h x" "session x = session (appAuth a) \<or> session x = None"
  shows "core_inv h (a\<lparr>appAuth := x\<rparr>)"
  using assms by (auto simp: core_inv_def appAnswers_def)

lemma auth_wf_end: "auth_wf h (endSession a)" "auth_wf h (clickSignOut a)"
  by (simp_all add: auth_wf_def clickSignOut_def signOut_def)

lemma setInst_auth: "(setInst i inst a)\<lparr>appAuth := x\<rparr> = setInst i inst (a\<lparr>appAuth := x\<rparr>)"
  by (simp add: setInst_def)

lemma hears_keeps: "inst_hears e inst inst' \<Longrightarrow> instAnswers inst' = instAnswers inst \<and> instLinked inst' = instLinked inst \<and> instElement inst' = instElement inst"
  by (erule inst_hears.cases) (simp_all add: instAnswers_def instLinked_def)

lemma acts_keeps: "inst_acts e inst inst' \<Longrightarrow> instAnswers inst' = instAnswers inst \<and> instLinked inst' = instLinked inst \<and> instElement inst' = instElement inst"
  by (erule inst_acts.cases) (simp_all add: instAnswers_def instLinked_def)

lemma core_adopt:
  assumes "core_inv h a" "instAnswers inst = instAnswers (appInsts a ! i)" "instLinked inst = instLinked (appInsts a ! i)"
    and "instAuth (appAuth a) inst = appAuth a \<or> instAuth (appAuth a) inst = endSession (appAuth a)"
  shows "core_inv h (adopt i inst a)"
proof -
  have "core_inv h (a\<lparr>appAuth := instAuth (appAuth a) inst\<rparr>)"
    using assms(1,4) by (intro core_auth) (auto simp: auth_wf_end core_inv_def)
  then show ?thesis unfolding adopt_def setInst_auth
    by (rule core_screenOnly) (rule screenOnly_setInst; simp add: assms)
qed

text \<open>An event of a login page: a positive answer opens the session it stands for, everything else leaves the session alone.\<close>

lemma loginDo_auth:
  assumes "loginDo e t ev (withAuth x inst) = Some inst'" "instLinked inst" "json_codec (weHost e)" "auth_wf (weHost e) x"
  shows "instLinked inst' \<and> instElement inst' = instElement inst \<and> auth_wf (weHost e) (instAuth x inst') \<and>
    (session (instAuth x inst') = session x \<and> instAnswers inst' = instAnswers inst \<or>
     (\<exists>i answer. instAnswers inst' = instAnswers inst @ [(i, t, answer)] \<and>
       (session (instAuth x inst') = session x \<or>
        (\<exists>r. answer = Inr r \<and> succeeded (Some r) \<and>
          session (instAuth x inst') = Some (sessionObject (confirmAccount i) (t + DEFAULT_SESSION_TTL_MS))))))"
proof -
  obtain origin clicked s where inst: "inst = LoginInst origin clicked s"
    using assms(1) by (cases inst; cases ev) simp_all
  let ?s = "s\<lparr>loginAuth := x\<rparr>"
  have linked: "login_linked ?s" using assms(2) by (simp add: inst instLinked_def login_linked_simple)
  show ?thesis
  proof (cases ev)
    case (ConfirmationAnswered answer)
    then obtain i where i: "pendingConfirm ?s = Some i" using assms(1) by (simp add: inst split: option.splits)
    let ?s' = "confirmEnds (weLang e) (weHost e) clicked t i answer ?s"
    have inst': "inst' = LoginInst origin clicked ?s'" using assms(1) i ConfirmationAnswered by (simp add: inst)
    have wf: "auth_wf (weHost e) (loginAuth ?s')"
      using auth_wf_do[OF assms(3) auth_wf_do[OF assms(3,4), of "SignIn t (confirmAccount i)"], of ClearReason] assms(4)
      by (simp add: confirmEnds_def confirmAnswered_def Let_def split: sum.split)
    have "session (loginAuth ?s') = session x \<or> (\<exists>r. answer = Inr r \<and> succeeded (Some r) \<and>
        session (loginAuth ?s') = Some (sessionObject (confirmAccount i) (t + DEFAULT_SESSION_TTL_MS)))"
      using confirmed_account_trimmed[OF linked i]
      by (auto simp: confirmEnds_def session_after_answer split: sum.split)
    then show ?thesis
      using wf login_linked_confirmEnds[OF linked i] by (simp add: inst inst' instLinked_def instAnswers_def)
  qed (use assms linked in \<open>auto simp: inst instLinked_def instAnswers_def login_linked_simple login_linked_submitBegins login_linked_submitEnds
        login_linked_confirmBegins split: if_splits\<close>)
qed

lemma set_concat_update:
  assumes "i < length xs" "f y = f (xs ! i) @ zs"
  shows "set (concat (map f (xs[i := y]))) = set (concat (map f xs)) \<union> set zs"
proof -
  have "set (concat (map f xs)) = set (concat (map f (take i xs @ xs ! i # drop (Suc i) xs)))"
    using id_take_nth_drop[OF assms(1)] by simp
  then show ?thesis using assms by (auto simp: upd_conv_take_nth_drop)
qed

lemma core_login:
  assumes "core_inv (weHost e) a" "json_codec (weHost e)" "loginHappens e i ev a = Some a'"
  shows "core_inv (weHost e) a'"
proof -
  let ?h = "weHost e" and ?x = "appAuth a"
  from assms(3) obtain inst where i: "i < length (appInsts a)"
    and did: "loginDo e (appTime a) ev (withAuth ?x (appInsts a ! i)) = Some inst"
    and a': "a' = settleApp e (if signsIn ev then setInst (appCurrent a) (rerunEffects (currentInst (adopt i inst a))) (adopt i inst a) else adopt i inst a)"
    by (auto simp: loginHappens_def Let_def split: if_splits option.splits)
  have rerun: "screenOnly (adopt i inst a) (setInst (appCurrent a) (rerunEffects (currentInst (adopt i inst a))) (adopt i inst a))"
    by (rule screenOnly_setInst) (simp_all add: currentInst_def adopt_def setInst_def)
  have linked: "instLinked (appInsts a ! i)" using assms(1) i list_all_nth_if[of instLinked "appInsts a"] by (simp add: core_inv_def)
  have wf: "auth_wf ?h ?x" using assms(1) by (simp add: core_inv_def)
  note result = loginDo_auth[OF did linked assms(2) wf]
  define y where "y = instAuth ?x inst"
  obtain new where ans: "instAnswers inst = instAnswers (appInsts a ! i) @ new" and now: "list_all (\<lambda>(i, t, answer). t = appTime a) new"
    and ses: "session y = session ?x \<or>
      (\<exists>k r. (k, appTime a, Inr r) \<in> set new \<and> succeeded (Some r) \<and> session y = Some (sessionObject (confirmAccount k) (appTime a + DEFAULT_SESSION_TTL_MS)))"
    using result unfolding y_def by fastforce
  have all: "set (appAnswers (adopt i inst a)) = set (appAnswers a) \<union> set new"
    using set_concat_update[OF i ans] by (auto simp: appAnswers_def adopt_def setInst_def)
  have "pred_option (\<lambda>j. opened_by (appAnswers (adopt i inst a)) j \<and> num_less (num (appChecked a)) (expiresOf ?h j)) (session y)"
    using ses
  proof (elim disjE exE conjE)
    assume "session y = session ?x"
    then show ?thesis using assms(1) opened_by_mono[of "appAnswers a" _ "appAnswers (adopt i inst a)"] all by (auto simp: core_inv_def pred_option_def)
  next
    fix k r assume "(k, appTime a, Inr r) \<in> set new" "succeeded (Some r)"
      "session y = Some (sessionObject (confirmAccount k) (appTime a + DEFAULT_SESSION_TTL_MS))"
    moreover from this(1,2) have "opened_by (appAnswers (adopt i inst a)) (sessionObject (confirmAccount k) (appTime a + DEFAULT_SESSION_TTL_MS))"
      unfolding opened_by_def list_ex_iff all by (intro bexI[of _ "(k, appTime a, Inr r)"]) simp_all
    ultimately show ?thesis using assms(1) by (simp add: core_inv_def DEFAULT_SESSION_TTL_MS_def)
  qed
  moreover have "list_all (\<lambda>(i, t, answer). t \<le> appTime a) (appAnswers (adopt i inst a))"
    using assms(1) now unfolding core_inv_def list_all_iff all by auto
  ultimately have "core_inv ?h (adopt i inst a)"
    using assms(1) result unfolding core_inv_def y_def by (auto simp: adopt_def setInst_def intro!: list_all_update)
  then show ?thesis unfolding a' using core_screenOnly[OF _ rerun] core_settle by simp
qed

lemma core_timer:
  assumes "core_inv h a" "timerHappens e i a = Some a'"
  shows "core_inv h a'"
proof -
  obtain origin clicked s p where inst: "appInsts a ! i = LoginInst origin clicked s"
    and a': "a' = settleApp e (navigate (weResolve e p) (setInst i (LoginInst origin clicked (s\<lparr>redirectTimer := None\<rparr>)) a))"
    using assms(2) by (auto simp: timerHappens_def split: if_splits page_inst.splits option.splits)
  have "screenOnly a (setInst i (LoginInst origin clicked (s\<lparr>redirectTimer := None\<rparr>)) a)"
    by (rule screenOnly_setInst) (simp_all add: inst instAnswers_def instLinked_def login_linked_simple)
  then show ?thesis unfolding a' by (intro core_settle core_navigate core_screenOnly[OF assms(1)])
qed

text \<open>A load keeps what the session rests on: the answers of the login pages of earlier loads.\<close>

lemma opened_session: "opened_by hist j \<Longrightarrow> \<exists>acc d. j = sessionObject acc d"
  by (auto simp: opened_by_def list_ex_iff)

lemma core_reload:
  assumes "core_inv (weHost e) a"
  shows "core_inv (weHost e) (reloadApp e loc a)"
proof -
  let ?h = "weHost e"
  let ?y = "initAuth ?h (appTime a) (storage (appAuth a))"
  let ?b = "\<lparr>appTime = appTime a, appChecked = appTime a, appAuth = ?y, appLoc = loc, appInsts = [NoPage], appCurrent = 0,
    appGone = appGone a @ appInsts a\<rparr>"
  have wf: "auth_wf ?h (appAuth a)" using assms by (simp add: core_inv_def)
  have ans: "appAnswers ?b = appAnswers a" by (simp add: appAnswers_def)
  have "pred_option (\<lambda>j. opened_by (appAnswers a) j \<and> num_less (num (appTime a)) (expiresOf ?h j)) (session ?y)"
    unfolding reload_session[OF wf] using assms opened_session
    by (auto simp: core_inv_def pred_option_def session_valid_lease split: option.splits if_splits)
      (metis expiresOf_sessionObject num_less_num opened_session session_valid_lease)
  then have "core_inv ?h ?b" using assms unfolding core_inv_def ans by (auto simp: auth_wf_init)
  then show ?thesis unfolding reloadApp_def loadApp_def by (intro core_settle core_navigate)
qed

lemma core_open: "core_inv (weHost e) (loadApp e t None loc [])"
  unfolding loadApp_def
  by (intro core_settle core_navigate) (simp add: core_inv_def auth_wf_def appAnswers_def initAuth_def parseStoredSession_def)

lemma core_interval:
  assumes "core_inv (weHost e) a"
  shows "core_inv (weHost e) (intervalFires e a)"
proof -
  have "core_inv (weHost e) (a\<lparr>appAuth := tick (weHost e) (appTime a) (appAuth a), appChecked := appTime a\<rparr>)"
    using assms by (auto simp: core_inv_def tick_def auth_wf_def appAnswers_def split: option.split)
  then show ?thesis unfolding intervalFires_def by (rule core_settle)
qed

lemma core_step:
  assumes "app_step e a a'" "json_codec (weHost e)" "core_inv (weHost e) a"
  shows "core_inv (weHost e) a'"
  using assms(1)
proof cases
  case (Clock t)
  have "list_all (\<lambda>(i, s, answer). s \<le> t) (appAnswers a)"
    using assms(3) Clock(2) by (auto simp: core_inv_def list_all_iff dest!: bspec)
  then show ?thesis using assms(3) Clock by (simp add: core_inv_def appAnswers_def)
next
  case ClickSignOut
  then show ?thesis unfolding ClickSignOut signOutClicked_def
    by (intro core_settle core_auth assms(3) auth_wf_end) (simp add: clickSignOut_def signOut_def)
next
  case (Hears i inst)
  then show ?thesis
    using left_client.keeps_or_ends[OF Hears(3), of "appAuth a"] hears_keeps[OF Hears(3)] assms(3)
    by (auto simp: instAuth_with intro!: core_settle core_adopt)
next
  case (Acts inst)
  then show ?thesis
    using shown_client.keeps_or_ends[OF Acts(2), of "appAuth a"] acts_keeps[OF Acts(2)] assms(3)
    by (auto simp: instAuth_with currentInst_def intro!: core_settle core_adopt)
next
  case (LoginEvent i ev)
  show ?thesis by (rule core_login[OF assms(3,2) LoginEvent])
next
  case (LoginTimer i)
  show ?thesis by (rule core_timer[OF assms(3) LoginTimer])
qed (simp_all add: assms core_interval core_settle core_navigate core_reload)

lemma core_reachable:
  assumes "reach (app_open e) (app_step e) a" "json_codec (weHost e)"
  shows "core_inv (weHost e) a"
  using assms(1)
proof (induction rule: reach_invariant)
  case (opened s)
  then show ?case by (auto simp: app_open_def core_open)
qed (use core_step assms(2) in blast)

section \<open>What is on the screen\<close>

definition branchPage :: "element list \<Rightarrow> element option" where
  "branchPage els = (if els = [] then None else Some (last els))"

lemma all_branches:
  "fst ` set allBranches = {[ElWebsiteLayout, ElWebsiteHome], [ElWebsiteLayout, ElWebsiteDownload], [ElWebsiteLayout, ElWebsiteInfo], [ElLogin],
     [ElRequireAuth, ElApp, ElHome], [ElRequireAuth, ElApp, ElState], [ElRequireAuth, ElApp, ElEvents], [ElRequireAuth, ElApp, ElNotifications],
     [ElRequireAuth, ElApp, ElEventDetail]}"
  by (simp add: allBranches_def appRouter_def insert_commute del: js_Cons)

lemma rendered_routed:
  assumes "routed loc"
  shows "rendered a loc =
    (case branchPage (locBranch loc) of
       None \<Rightarrow> None
     | Some el \<Rightarrow> Some (if isWalletPage el \<and> \<not> isAuthenticated (appAuth a)
         then LoginRedirect (locPath loc @ locSearch loc) (if invalidReason (appAuth a) \<noteq> [] then Some (invalidReason (appAuth a)) else None)
         else Page el))"
  using assms unfolding routed_def all_branches by (auto simp: rendered_def branchPage_def RequireAuth_def)

text \<open>The instance on the screen is the one of the address; \<open>onScreen\<close> adds that it may be shown.\<close>

definition matches :: "web_app \<Rightarrow> bool" where
  "matches a \<longleftrightarrow> appCurrent a < length (appInsts a) \<and> routed (appLoc a) \<and> instElement (currentInst a) = branchPage (locBranch (appLoc a))"

definition onScreen :: "web_app \<Rightarrow> bool" where
  "onScreen a \<longleftrightarrow> matches a \<and> (showsWallet a \<longrightarrow> isAuthenticated (appAuth a))"

definition router_ok :: "web_env \<Rightarrow> bool" where
  "router_ok e \<longleftrightarrow> (\<forall>p. routed (weResolve e p))"

lemma routed_login: "routed (loginLocation from reason)"
  unfolding routed_def all_branches by (simp add: loginLocation_def)

lemma current_replaced [simp]: "currentInst (replacePage loc inst a) = inst" "appLoc (replacePage loc inst a) = loc"
  "appCurrent (replacePage loc inst a) < length (appInsts (replacePage loc inst a))" "appAuth (replacePage loc inst a) = appAuth a"
  by (simp_all add: replacePage_def currentInst_def nth_append)

lemma toLogin_screen: "onScreen (toLogin from reason a)"
  by (simp add: onScreen_def matches_def toLogin_def Let_def routed_login showsWallet_def branchPage_def) (simp add: loginLocation_def)

lemma navigate_screen:
  assumes "routed loc" "appCurrent a < length (appInsts a)"
  shows "onScreen (navigate loc a)"
proof (cases "branchPage (locBranch loc)")
  case None
  then show ?thesis using assms by (simp add: navigate_def rendered_routed onScreen_def matches_def showsWallet_def)
next
  case (Some el)
  show ?thesis
  proof (cases "isWalletPage el \<and> \<not> isAuthenticated (appAuth a)")
    case True
    then show ?thesis using assms Some by (simp add: navigate_def rendered_routed toLogin_screen)
  next
    case False
    then have "navigate loc a = placePage loc el a" using assms Some by (auto simp: navigate_def rendered_routed)
    then show ?thesis using assms Some False
      by (auto simp: placePage_def onScreen_def matches_def showsWallet_def setInst_def currentInst_def)
        (auto simp: replacePage_def nth_append)
  qed
qed

lemma guardEffect_screen: "matches a \<Longrightarrow> onScreen (guardEffect a)"
  by (auto simp: guardEffect_def matches_def rendered_routed toLogin_screen split: option.split)
    (auto simp: onScreen_def matches_def showsWallet_def)

lemma loginEffect_screen: "onScreen a \<Longrightarrow> router_ok e \<Longrightarrow> onScreen (loginEffect e a)"
  using navigate_screen by (auto simp: loginEffect_def router_ok_def onScreen_def matches_def split: page_inst.split)

lemma settle_screen: "matches a \<Longrightarrow> router_ok e \<Longrightarrow> onScreen (settleApp e a)"
  by (simp add: settleApp_def guardEffect_screen loginEffect_screen)

lemma onScreen_matches: "onScreen a \<Longrightarrow> matches a"
  by (simp add: onScreen_def)

lemma matches_setInst:
  "matches a \<Longrightarrow> instElement inst = instElement (appInsts a ! i) \<Longrightarrow> matches (setInst i inst a)"
  by (cases "i = appCurrent a") (auto simp: matches_def setInst_def currentInst_def)

lemma matches_adopt: "matches a \<Longrightarrow> instElement inst = instElement (appInsts a ! i) \<Longrightarrow> matches (adopt i inst a)"
  using matches_setInst[of a inst i] by (simp add: adopt_def matches_def currentInst_def)

lemma loginDo_element: "loginDo e t ev inst = Some inst' \<Longrightarrow> instElement inst' = instElement inst"
  by (cases ev; cases inst) (auto split: if_splits option.splits)

lemma screen_step:
  assumes "app_step e a a'" "router_ok e" "onScreen a"
  shows "onScreen a'"
proof -
  have m: "matches a" and c: "appCurrent a < length (appInsts a)" using assms(3) by (simp_all add: onScreen_def matches_def)
  from assms(1) show ?thesis
  proof cases
    case (Clock t)
    then show ?thesis using assms(3) by (simp add: onScreen_def matches_def showsWallet_def currentInst_def)
  next
    case (Go loc)
    then show ?thesis using navigate_screen[OF Go(2) c] assms(2) by (simp add: settle_screen onScreen_matches)
  next
    case (Load loc)
    then show ?thesis using navigate_screen[OF Load(2)] assms(2) by (simp add: reloadApp_def loadApp_def settle_screen onScreen_matches)
  next
    case (LoginEvent i ev)
    then obtain inst where "loginDo e (appTime a) ev (withAuth (appAuth a) (appInsts a ! i)) = Some inst"
      and a': "a' = settleApp e (if signsIn ev then setInst (appCurrent a) (rerunEffects (currentInst (adopt i inst a))) (adopt i inst a) else adopt i inst a)"
      by (auto simp: loginHappens_def Let_def split: if_splits option.splits)
    then have "matches (adopt i inst a)" using matches_adopt[OF m, of inst i] loginDo_element by simp
    moreover from this have "matches (setInst (appCurrent a) (rerunEffects (currentInst (adopt i inst a))) (adopt i inst a))"
      by (rule matches_setInst) (simp add: currentInst_def adopt_def setInst_def)
    ultimately show ?thesis unfolding a' using assms(2) by (simp add: settle_screen)
  next
    case (LoginTimer i)
    then obtain p inst where "a' = settleApp e (navigate (weResolve e p) (setInst i inst a))"
      by (auto simp: timerHappens_def split: if_splits page_inst.splits option.splits)
    moreover have "onScreen (navigate (weResolve e p) (setInst i inst a))"
      using assms(2) c by (intro navigate_screen) (simp_all add: router_ok_def setInst_def)
    ultimately show ?thesis using assms(2) by (simp add: settle_screen onScreen_matches)
  next
    case (Hears i inst)
    then show ?thesis using hears_keeps[OF Hears(3)] m assms(2) by (simp add: settle_screen matches_adopt)
  next
    case (Acts inst)
    then show ?thesis using acts_keeps[OF Acts(2)] m assms(2) by (simp add: settle_screen matches_adopt currentInst_def)
  qed (use m assms(2) in \<open>simp_all add: intervalFires_def signOutClicked_def settle_screen matches_def currentInst_def\<close>)
qed

lemma screen_reachable:
  assumes "reach (app_open e) (app_step e) a" "router_ok e"
  shows "onScreen a"
  using assms(1)
proof (induction rule: reach_invariant)
  case (opened s)
  then show ?case using navigate_screen assms(2) by (auto simp: app_open_def loadApp_def settle_screen onScreen_matches)
qed (use screen_step assms(2) in blast)

text \<open>The markup on the screen; where no branch matches, the page of the router takes the place of the outlet.\<close>

definition shownPages :: "web_app \<Rightarrow> web_pages" where
  "shownPages a =
     (let x = appAuth a; inst = withAuth x (currentInst a) in
      \<lparr>wpPath = locPath (appLoc a), wpSearch = locSearch (appLoc a), wpAuth = x, wpReason = locReason (appLoc a),
       wpLogin = (case inst of LoginInst origin clicked s \<Rightarrow> s | _ \<Rightarrow> openLogin x),
       wpHome = (case inst of HomeInst n h \<Rightarrow> h | _ \<Rightarrow> openHomePage x),
       wpState = (case inst of StateInst n s \<Rightarrow> s | _ \<Rightarrow> openStatePage x),
       wpNotifications = (case inst of NotificationsInst p \<Rightarrow> p | _ \<Rightarrow> openNotifications x),
       wpEvents = (case inst of EventsInst p \<Rightarrow> p | _ \<Rightarrow> openEventsPage x),
       wpDetail = (case inst of DetailInst d \<Rightarrow> d | _ \<Rightarrow> openDetail x None None)\<rparr>)"

definition appView :: "browser_texts \<Rightarrow> web_app \<Rightarrow> (exn, app_ui jsx) result" where
  "appView b a = viewBranch b (shownPages a) (locBranch (appLoc a))"

definition actionsOf :: "'e jsx \<Rightarrow> 'e list" where
  "actionsOf n = concat (map (\<lambda>(tag, as). map snd (handlers as)) (elements n))"

lemma actionsOf_simps [simp]:
  "actionsOf (Elem tag as ns) = map snd (handlers as) @ concat (map actionsOf ns)" "actionsOf (Txt t) = []" "actionsOf (Val v) = []"
  by (induction ns) (simp_all add: actionsOf_def)

lemma handlers_map: "handlers (map (map_attribute f) as) = map (\<lambda>(k, x). (k, f x)) (handlers as)"
  by (induction as rule: handlers.induct) auto

lemma actionsOf_map: "actionsOf (map_jsx f n) = map f (actionsOf n)"
  by (simp add: actionsOf_def handlers_map map_concat o_def case_prod_unfold)

lemma actionsOf_plug: "set (actionsOf (plug inner n)) \<subseteq> set (actionsOf inner) \<union> set (actionsOf n)"
  by (induction inner n rule: plug.induct) auto

lemma offers_action: "offers n x \<Longrightarrow> x \<in> set (actionsOf n)"
  by (induction n x rule: offers.induct) (force simp: list_ex_iff)+

lemma site_actions:
  "actionsOf (WebsiteLayout pathname) = []" "actionsOf WebsiteHomePage = []" "actionsOf WebsiteDownloadPage = []" "actionsOf WebsiteInfoPage = []"
  by (simp_all add: WebsiteLayout_def WebsiteHomePage_def WebsiteDownloadPage_def WebsiteInfoPage_def o_def del: js_Cons)

lemma site_view:
  assumes "el \<in> {ElWebsiteHome, ElWebsiteDownload, ElWebsiteInfo}" "viewBranch b w [ElWebsiteLayout, el] = Inr t"
  shows "set (actionsOf t) = {}"
proof -
  obtain inner where inner: "elementView b w el = Inr inner" "actionsOf inner = []"
    using assms(1) by (elim insertE emptyE) (simp_all add: site_actions)
  then have "t = plug inner (WebsiteLayout (wpPath w)) \<or> t = WebsiteLayout (wpPath w)"
    using assms(2) by (simp split: if_splits del: plug.simps)
  then show ?thesis
  proof
    assume "t = plug inner (WebsiteLayout (wpPath w))"
    then show ?thesis using actionsOf_plug[of inner "WebsiteLayout (wpPath w)"] inner(2) by (simp add: site_actions del: plug.simps)
  qed (simp add: site_actions)
qed

text \<open>A page that accepts more than the actions of the login form is shown to somebody with a session.\<close>

lemma view_needs_session:
  assumes "routed loc" "viewBranch b w (locBranch loc) = Inr t" "offers t ui" "\<And>l. ui \<noteq> OnLogin l"
  shows "isAuthenticated (wpAuth w)"
proof (rule ccontr)
  assume no: "\<not> isAuthenticated (wpAuth w)"
  consider "locBranch loc = []" | "locBranch loc = [ElLogin]"
    | el where "el \<in> {ElWebsiteHome, ElWebsiteDownload, ElWebsiteInfo}" "locBranch loc = [ElWebsiteLayout, el]"
    | el where "locBranch loc = [ElRequireAuth, ElApp, el]"
    using assms(1) unfolding routed_def all_branches by blast
  then show False
  proof cases
    case 1
    then show False using assms(2,3) by auto
  next
    case 2
    then have "t = map_jsx OnLogin (loginView (btDateLocale b) (wpReason w) (wpLogin w))" using assms(2) by simp
    then show False using offers_action[OF assms(3)] assms(4) by (auto simp: actionsOf_map)
  next
    case (3 el)
    then show False using site_view[of el b w t] assms(2) offers_action[OF assms(3)] by simp
  next
    case (4 el)
    then have "t = guardMarkup (wpAuth w) (wpPath w) (wpSearch w)" using assms(2) no by (simp add: guarded_branch_view del: viewBranch.simps)
    then show False using assms(3) no by (simp add: guardMarkup_session)
  qed
qed

section \<open>Properties\<close>

text \<open>
  C4: the wallet is open only with the consent of the server. In every state that a new tab can reach, through any order of navigations, loads, clicks,
  answers (also those to pages that were left), timers and logins, a screen that accepts an action of the wallet, that is one beyond those of the login form,
  belongs to a session that some login page of the tab has opened: on a positive answer to a confirmation that carried the request id of a
  challenge the server had issued to that page, for the account sent with it, at a time not in the future; and when the clock was last looked at, the
  thirty minutes from that answer were not over.
\<close>

theorem wallet_open_only_with_consent:
  assumes "json_codec (weHost e)" "router_ok e" "reach (app_open e) (app_step e) a"
    and "appView b a = Inr screen" "offers screen ui" "\<forall>l. ui \<noteq> OnLogin l"
  shows "\<exists>s \<in> set (appLogins a). \<exists>i t r. (i, t, Inr r) \<in> set (answers s) \<and> truthy (member (Some r) (js ''success'')) \<and>
    from_challenge (challenges s) i \<and> session (appAuth a) = Some (sessionObject (confirmAccount i) (t + 1800000)) \<and>
    t \<le> appTime a \<and> appChecked a < t + 1800000"
proof -
  have inv: "core_inv (weHost e) a" by (rule core_reachable[OF assms(3,1)])
  have "routed (appLoc a)" using screen_reachable[OF assms(3,2)] by (simp add: onScreen_def matches_def)
  from view_needs_session[OF this assms(4)[unfolded appView_def] assms(5)] assms(6)
  obtain j where j: "session (appAuth a) = Some j" by (auto simp: shownPages_def Let_def isAuthenticated_def)
  with inv have "opened_by (appAnswers a) j" "num_less (num (appChecked a)) (expiresOf (weHost e) j)" by (simp_all add: core_inv_def)
  then obtain i t r where x: "(i, t, Inr r) \<in> set (appAnswers a)" "succeeded (Some r)" "j = sessionObject (confirmAccount i) (t + 1800000)"
      "appChecked a < t + 1800000"
    unfolding opened_by_def list_ex_iff by (fastforce simp: DEFAULT_SESSION_TTL_MS_def split: sum.splits)
  then obtain inst s where s: "inst \<in> set (appGone a @ appInsts a)" "s \<in> set (instLogins inst)" "(i, t, Inr r) \<in> set (answers s)"
    by (auto simp: appAnswers_def instAnswers_def)
  then have "login_linked s" using inv unfolding core_inv_def list_all_iff instLinked_def by blast
  with s x j inv have "s \<in> set (appLogins a)" "from_challenge (challenges s) i" "t \<le> appTime a"
    by (auto simp: appLogins_def login_linked_def core_inv_def list_all_iff)
  with s x j show ?thesis unfolding succeeded_def by blast
qed

subsection \<open>The end of a session\<close>

lemma shows_branch: "matches a \<Longrightarrow> showsWallet a \<Longrightarrow> \<exists>el. branchPage (locBranch (appLoc a)) = Some el \<and> isWalletPage el"
  by (auto simp: matches_def showsWallet_def split: option.splits)

lemma settle_without_session:
  assumes "matches a" "showsWallet a" "\<not> isAuthenticated (appAuth a)"
  shows "settleApp e a = toLogin (locPath (appLoc a) @ locSearch (appLoc a))
    (if invalidReason (appAuth a) \<noteq> [] then Some (invalidReason (appAuth a)) else None) a"
proof -
  have "guardEffect a = toLogin (locPath (appLoc a) @ locSearch (appLoc a))
      (if invalidReason (appAuth a) \<noteq> [] then Some (invalidReason (appAuth a)) else None) a"
    using shows_branch[OF assms(1,2)] assms(1,3) by (auto simp: guardEffect_def matches_def rendered_routed)
  then show ?thesis using assms(3) by (simp add: settleApp_def loginEffect_def toLogin_def Let_def)
qed

text \<open>The login page for an address, opened without a session, in the place of a page of the wallet.\<close>

definition sentToLogin :: "web_app \<Rightarrow> jstring option \<Rightarrow> web_app \<Rightarrow> bool" where
  "sentToLogin a reason a' \<longleftrightarrow>
     (let from = locPath (appLoc a) @ locSearch (appLoc a) in
      session (appAuth a') = None \<and> storage (appAuth a') = None \<and> appLoc a' = loginLocation from reason \<and>
      currentInst a' = LoginInst (Some from) (Some from) (openLogin (appAuth a')))"

lemma sentToLogin_intro:
  assumes "matches a" "showsWallet a" "appLoc b = appLoc a" "showsWallet b" "matches b" "session (appAuth b) = None" "storage (appAuth b) = None"
    and "reason = (if invalidReason (appAuth b) \<noteq> [] then Some (invalidReason (appAuth b)) else None)"
  shows "sentToLogin a reason (settleApp e b)"
  using settle_without_session[of b e] assms
  by (simp add: sentToLogin_def isAuthenticated_def toLogin_def Let_def) (simp add: loginLocation_def)

lemma invalid_answer:
  assumes "matches a" "showsWallet a" "inst_hears e (withAuth (appAuth a) (appInsts a ! i)) inst" "instAuth (appAuth a) inst = endSession (appAuth a)"
  shows "sentToLogin a (Some RELOGIN_TEXT) (settleApp e' (adopt i inst a))"
proof -
  have el: "instElement inst = instElement (appInsts a ! i)" using hears_keeps[OF assms(3)] by simp
  have "showsWallet (adopt i inst a)"
    using assms(1,2) el by (cases "i = appCurrent a") (auto simp: showsWallet_def adopt_def setInst_def currentInst_def matches_def)
  moreover have "matches (adopt i inst a)" using matches_adopt assms(1) el by blast
  ultimately show ?thesis
    by (intro sentToLogin_intro) (simp_all add: assms(1,2), simp_all add: assms(4) adopt_def setInst_def RELOGIN_TEXT_def)
qed

text \<open>
  C5: whatever ends the session closes the wallet. While a page of the wallet is shown, each of these at once puts a fresh login page in the place of the page,
  for the same address and with the reason of that way, and removes the session from memory and from the storage of the tab: the timer of the provider at or after the
  deadline; the button in the header; and a request under way that fails because the session is invalid, be it of the home, state, notification, events or detail page
  or an export of all events, on the page shown or on one that was left. Of the detail page only the run that is current counts: the failure of any other run, also of a
  page that was left, changes nothing of the session.
\<close>

theorem session_end_closes_wallet:
  assumes "router_ok e" "reach (app_open e) (app_step e) a" "showsWallet a"
  shows "(session (appAuth a) = Some j \<and> \<not> num_less (num (appTime a)) (expiresOf (weHost e) j) \<longrightarrow>
      sentToLogin a (Some EXPIRED_TEXT) (intervalFires e a)) \<and>
    sentToLogin a None (signOutClicked e a) \<and>
    (i < length (appInsts a) \<and> inst_fails e err (withAuth (appAuth a) (appInsts a ! i)) inst \<and> isSessionInvalidError err \<longrightarrow>
      app_step e a (settleApp e (adopt i inst a)) \<and> sentToLogin a (Some RELOGIN_TEXT) (settleApp e (adopt i inst a))) \<and>
    (appInsts a ! i = DetailInst d \<and> dpMounted d \<noteq> Some (fst run) \<longrightarrow>
      instAuth (appAuth a) (DetailInst (detailRunEnds (weLang e) run answer (d\<lparr>dpAuth := appAuth a\<rparr>))) = appAuth a)"
proof (intro conjI impI)
  have m: "matches a" using screen_reachable[OF assms(2,1)] by (rule onScreen_matches)
  note sent = sentToLogin_intro[OF m assms(3)]
  have keep: "matches (a\<lparr>appAuth := x, appChecked := c\<rparr>)" "showsWallet (a\<lparr>appAuth := x, appChecked := c\<rparr>)"
    "matches (a\<lparr>appAuth := x\<rparr>)" "showsWallet (a\<lparr>appAuth := x\<rparr>)" for x c
    using m assms(3) by (simp_all add: matches_def showsWallet_def currentInst_def)
  show "sentToLogin a (Some EXPIRED_TEXT) (intervalFires e a)"
    if "session (appAuth a) = Some j \<and> \<not> num_less (num (appTime a)) (expiresOf (weHost e) j)"
    unfolding intervalFires_def by (rule sent) (use that in \<open>simp_all add: keep tick_def EXPIRED_TEXT_def\<close>)
  show "sentToLogin a None (signOutClicked e a)"
    unfolding signOutClicked_def by (rule sent) (simp_all add: keep clickSignOut_def signOut_def)
  assume fails: "i < length (appInsts a) \<and> inst_fails e err (withAuth (appAuth a) (appInsts a ! i)) inst \<and> isSessionInvalidError err"
  then have hears: "inst_hears e (withAuth (appAuth a) (appInsts a ! i)) inst" using fails_hears by blast
  with fails show "app_step e a (settleApp e (adopt i inst a))" by (simp add: Hears)
  have "instAuth (appAuth a) inst = endSession (appAuth a)"
    using fails_ends[of e err "withAuth (appAuth a) (appInsts a ! i)" inst "appAuth a"] fails by (simp add: instAuth_with)
  then show "sentToLogin a (Some RELOGIN_TEXT) (settleApp e (adopt i inst a))" using invalid_answer[OF m assms(3) hears] by blast
qed (simp add: stale_detail_run)

subsection \<open>The way back\<close>

lemma settle_login:
  assumes "matches a" "currentInst a = LoginInst origin clicked s" "\<not> isAuthenticated (appAuth a) \<or> succeeded (authorizationResult s)"
  shows "settleApp e a = a"
proof -
  have "branchPage (locBranch (appLoc a)) = Some ElLogin" "routed (appLoc a)" using assms(1,2) by (simp_all add: matches_def)
  then have "guardEffect a = a" by (simp add: guardEffect_def rendered_routed)
  moreover have "loginEffect e a = a" using assms(2,3) by (auto simp: loginEffect_def)
  ultimately show ?thesis by (simp add: settleApp_def)
qed

lemma settle_wallet:
  assumes "onScreen a" "showsWallet a"
  shows "settleApp e a = a"
proof -
  obtain el where "branchPage (locBranch (appLoc a)) = Some el" using shows_branch[OF onScreen_matches] assms by blast
  then have "guardEffect a = a" using assms by (simp add: guardEffect_def onScreen_def matches_def rendered_routed)
  moreover have "loginEffect e a = a" using assms(2) by (cases "currentInst a") (simp_all add: loginEffect_def showsWallet_def)
  ultimately show ?thesis by (simp add: settleApp_def)
qed

lemma happens_unsettled:
  assumes "matches a" "loginDo e (appTime a) ev (withAuth (appAuth a) (currentInst a)) = Some (LoginInst origin clicked s)"
    and "loginAuth s = y" "\<not> isAuthenticated y \<or> succeeded (authorizationResult s)"
  shows "loginHappens e (appCurrent a) ev a = Some ((setInst (appCurrent a) (LoginInst origin clicked s) a)\<lparr>appAuth := y\<rparr>)"
proof -
  let ?inst = "LoginInst origin clicked s"
  let ?a = "(setInst (appCurrent a) ?inst a)\<lparr>appAuth := y\<rparr>"
  have c: "appCurrent a < length (appInsts a)" using assms(1) by (simp add: matches_def)
  have a: "adopt (appCurrent a) ?inst a = ?a" using assms(3) by (simp add: adopt_def)
  have cur: "currentInst ?a = ?inst" using c by (simp add: currentInst_def setInst_def)
  then have "setInst (appCurrent a) (rerunEffects (currentInst ?a)) ?a = ?a" by (simp add: setInst_def)
  moreover have "instElement ?inst = instElement (appInsts a ! appCurrent a)"
    using loginDo_element[OF assms(2)] by (simp add: currentInst_def)
  then have "matches ?a" using matches_adopt[OF assms(1)] a by metis
  then have "settleApp e ?a = ?a" using cur assms(4) by (intro settle_login) simp_all
  ultimately show ?thesis using assms(2) c a by (simp add: loginHappens_def Let_def currentInst_def)
qed

lemma confirmed_state:
  assumes "succeeded (Some r)"
  shows "authorizationResult (confirmEnds lang h origin t i (Inr r) s) = Some r"
    "redirectTimer (confirmEnds lang h origin t i (Inr r) s) = Some (redirectPath origin)"
    "loginAuth (confirmEnds lang h origin t i (Inr r) s) = clearInvalidReason (signIn h t (confirmAccount i) (loginAuth s))"
  using assms by (auto simp: confirmEnds_def confirmAnswered_def Let_def succeeded_def)

text \<open>The positive answer and then the timer, on the login page that is shown.\<close>

definition confirmedApp :: "web_env \<Rightarrow> json \<Rightarrow> confirm_input \<Rightarrow> web_app \<Rightarrow> web_app" where
  "confirmedApp e r i a =
     (case currentInst a of
        LoginInst origin clicked s \<Rightarrow>
          let s' = confirmEnds (weLang e) (weHost e) clicked (appTime a) i (Inr r) (s\<lparr>loginAuth := appAuth a\<rparr>)
          in (setInst (appCurrent a) (LoginInst origin clicked s') a)\<lparr>appAuth := loginAuth s'\<rparr>
      | _ \<Rightarrow> a)"

lemma confirmed_happens:
  assumes "matches a" "currentInst a = LoginInst origin clicked s" "pendingConfirm s = Some i" "succeeded (Some r)"
  shows "loginHappens e (appCurrent a) (ConfirmationAnswered (Inr r)) a = Some (confirmedApp e r i a)"
  unfolding confirmedApp_def assms(2) page_inst.case Let_def
  by (rule happens_unsettled[OF assms(1)]) (simp_all add: assms confirmed_state)

lemma timer_after_confirmed:
  assumes "matches a" "currentInst a = LoginInst origin clicked s" "succeeded (Some r)" "router_ok e"
    and "branchPage (locBranch (weResolve e (redirectPath clicked))) = Some el" "isWalletPage el"
  shows "\<exists>a'. timerHappens e (appCurrent a) (confirmedApp e r i a) = Some a' \<and> appLoc a' = weResolve e (redirectPath clicked) \<and>
    currentInst a' = openInst (appAuth a') (appLoc a') el \<and> appAuth a' = appAuth (confirmedApp e r i a) \<and>
    appTime a' = appTime a \<and> (\<forall>k < length (appInsts a). k \<noteq> appCurrent a \<longrightarrow> appInsts a' ! k = appInsts a ! k) \<and>
    length (appInsts a') = Suc (length (appInsts a)) \<and> appCurrent a' = length (appInsts a)"
proof -
  let ?loc = "weResolve e (redirectPath clicked)"
  let ?s = "confirmEnds (weLang e) (weHost e) clicked (appTime a) i (Inr r) (s\<lparr>loginAuth := appAuth a\<rparr>)"
  let ?b = "(setInst (appCurrent a) (LoginInst origin clicked (?s\<lparr>redirectTimer := None\<rparr>)) a)\<lparr>appAuth := loginAuth ?s\<rparr>"
  let ?c = "replacePage ?loc (openInst (loginAuth ?s) ?loc el) ?b"
  have c: "appCurrent a < length (appInsts a)" using assms(1) by (simp add: matches_def)
  have routed: "routed ?loc" using assms(4) by (simp add: router_ok_def)
  have auth: "isAuthenticated (appAuth ?b)"
    by (simp add: confirmed_state[OF assms(3)] isAuthenticated_def clearInvalidReason_def signIn_def Let_def)
  have "currentInst ?b = LoginInst origin clicked (?s\<lparr>redirectTimer := None\<rparr>)" using c by (simp add: currentInst_def setInst_def)
  then have nav: "navigate ?loc ?b = ?c"
    using routed auth assms(5,6) by (auto simp: navigate_def rendered_routed placePage_def)
  have "onScreen ?c" "showsWallet ?c"
    using navigate_screen[OF routed, of ?b] c assms(6) unfolding nav by (simp_all add: setInst_def showsWallet_def)
  then have "settleApp e ?c = ?c" by (rule settle_wallet)
  moreover have "appInsts (confirmedApp e r i a) ! appCurrent a = LoginInst origin clicked ?s"
      "length (appInsts (confirmedApp e r i a)) = length (appInsts a)"
    using c by (simp_all add: confirmedApp_def assms(2) Let_def setInst_def)
  moreover have "setInst (appCurrent a) (LoginInst origin clicked (?s\<lparr>redirectTimer := None\<rparr>)) (confirmedApp e r i a) = ?b"
    by (simp add: confirmedApp_def assms(2) Let_def setInst_def)
  ultimately have "timerHappens e (appCurrent a) (confirmedApp e r i a) = Some ?c"
    using nav c by (simp add: timerHappens_def confirmed_state(2)[OF assms(3)])
  moreover have "appAuth (confirmedApp e r i a) = loginAuth ?s" by (simp add: confirmedApp_def assms(2) Let_def)
  ultimately show ?thesis using c
    by (intro exI[of _ ?c]) (simp add: currentInst_def replacePage_def setInst_def nth_append)
qed

text \<open>
  A step after which the login page that was shown is still shown, at the same location: no navigation, no load and no redirect.
\<close>

definition login_stays :: "web_env \<Rightarrow> web_app \<Rightarrow> web_app \<Rightarrow> bool" where
  "login_stays e a b \<longleftrightarrow> app_step e a b \<and> appCurrent b = appCurrent a \<and> appLoc b = appLoc a \<and> appGone b = appGone a"

text \<open>
  The instance \<open>n\<close> is a login page with the origin of the location, that has captured the origin \<open>c\<close>; or another page has taken its place.
\<close>

definition originAt :: "nat \<Rightarrow> jstring option \<Rightarrow> web_app \<Rightarrow> bool" where
  "originAt n c a \<longleftrightarrow> n \<le> appCurrent a \<and> appCurrent a < length (appInsts a) \<and>
     (appCurrent a = n \<longrightarrow> (\<exists>s. currentInst a = LoginInst (locFrom (appLoc a)) c s))"

lemma originAt_replace: "originAt n c a \<Longrightarrow> originAt n c (replacePage loc inst a)"
  by (simp add: originAt_def replacePage_def)

lemma originAt_navigate: "originAt n c a \<Longrightarrow> originAt n c (navigate loc a)"
  by (auto simp: navigate_def toLogin_def Let_def placePage_def originAt_replace split: option.split shown.split)
    (auto simp: originAt_def currentInst_def setInst_def)

lemma originAt_settle:
  assumes "originAt n c a"
  shows "originAt n c (settleApp e a)"
proof -
  have "originAt n c (guardEffect x)" if "originAt n c x" for x
    using that by (auto simp: guardEffect_def toLogin_def Let_def originAt_replace split: option.split shown.split)
  moreover have "originAt n c (loginEffect e x)" if "originAt n c x" for x
    using that by (auto simp: loginEffect_def originAt_navigate split: page_inst.split)
  ultimately show ?thesis using assms by (simp add: settleApp_def)
qed

lemma screen_keeps_gone: "appGone (settleApp e a) = appGone a" "appGone (navigate loc a) = appGone a"
proof -
  have n: "appGone (navigate loc x) = appGone x" for loc x
    by (simp add: navigate_def toLogin_def placePage_def replacePage_def setInst_def Let_def split: option.split shown.split)
  moreover have "appGone (guardEffect x) = appGone x" for x
    by (simp add: guardEffect_def toLogin_def replacePage_def Let_def split: option.split shown.split)
  moreover have "appGone (loginEffect e x) = appGone x" for x
    by (simp add: loginEffect_def n split: page_inst.split)
  ultimately show "appGone (settleApp e a) = appGone a" "appGone (navigate loc a) = appGone a" by (simp_all add: settleApp_def)
qed

lemma originAt_other:
  assumes "originAt n c a" "appCurrent a = n" "i \<noteq> n"
  shows "originAt n c (adopt i inst a)" "originAt n c (setInst i inst a)"
  using assms by (simp_all add: originAt_def adopt_def setInst_def currentInst_def)

lemma originAt_login:
  assumes "loginHappens e i ev a = Some a'" "currentInst a = LoginInst (Some from) (Some from) s" "locFrom (appLoc a) = Some from"
    and "appCurrent a < length (appInsts a)"
  shows "originAt (appCurrent a) (Some from) a'"
proof -
  obtain inst where did: "loginDo e (appTime a) ev (withAuth (appAuth a) (appInsts a ! i)) = Some inst"
    and a': "a' = settleApp e (if signsIn ev then setInst (appCurrent a) (rerunEffects (currentInst (adopt i inst a))) (adopt i inst a) else adopt i inst a)"
    using assms(1) by (auto simp: loginHappens_def Let_def split: if_splits option.splits)
  have "\<exists>s'. currentInst (adopt i inst a) = LoginInst (Some from) (Some from) s'"
  proof (cases "i = appCurrent a")
    case True
    then have "loginDo e (appTime a) ev (LoginInst (Some from) (Some from) (s\<lparr>loginAuth := appAuth a\<rparr>)) = Some inst"
      using did assms(2) by (simp add: currentInst_def)
    then have "\<exists>s'. inst = LoginInst (Some from) (Some from) s'" by (cases ev) (auto split: if_splits option.splits)
    then show ?thesis using True assms(4) by (auto simp: adopt_def setInst_def currentInst_def)
  next
    case False
    then show ?thesis using assms(2) by (simp add: adopt_def setInst_def currentInst_def)
  qed
  then have "originAt (appCurrent a) (Some from)
      (if signsIn ev then setInst (appCurrent a) (rerunEffects (currentInst (adopt i inst a))) (adopt i inst a) else adopt i inst a)"
    using assms(3,4) by (auto simp: originAt_def adopt_def setInst_def currentInst_def)
  then show ?thesis unfolding a' by (rule originAt_settle)
qed

lemma originAt_timer:
  assumes "timerHappens e i a = Some a'" "currentInst a = LoginInst (Some from) (Some from) s" "locFrom (appLoc a) = Some from"
    and "appCurrent a < length (appInsts a)"
  shows "originAt (appCurrent a) (Some from) a'"
proof -
  obtain x c t p where inst: "appInsts a ! i = LoginInst x c t"
    and a': "a' = settleApp e (navigate (weResolve e p) (setInst i (LoginInst x c (t\<lparr>redirectTimer := None\<rparr>)) a))"
    using assms(1) by (auto simp: timerHappens_def split: if_splits page_inst.splits option.splits)
  have "originAt (appCurrent a) (Some from) (setInst i (LoginInst x c (t\<lparr>redirectTimer := None\<rparr>)) a)"
    using assms(2-4) inst by (cases "i = appCurrent a") (auto simp: originAt_def setInst_def currentInst_def)
  then show ?thesis unfolding a' by (intro originAt_settle originAt_navigate)
qed

lemma login_stays_origin:
  assumes "login_stays e a b" "currentInst a = LoginInst (Some from) (Some from) s" "locFrom (appLoc a) = Some from"
    and "appCurrent a < length (appInsts a)"
  shows "(\<exists>s'. currentInst b = LoginInst (Some from) (Some from) s') \<and> locFrom (appLoc b) = Some from \<and> appCurrent b < length (appInsts b)"
proof -
  let ?n = "appCurrent a"
  have at: "originAt ?n (Some from) a" using assms(2-4) by (simp add: originAt_def)
  have b: "app_step e a b" "appCurrent b = ?n" "appLoc b = appLoc a" "appGone b = appGone a"
    using assms(1) by (simp_all add: login_stays_def)
  have keep: "originAt ?n (Some from) (a\<lparr>appAuth := x\<rparr>)" "originAt ?n (Some from) (a\<lparr>appAuth := x, appChecked := k\<rparr>)" for x k
    using at by (simp_all add: originAt_def currentInst_def)
  from b(1) have "originAt ?n (Some from) b"
  proof cases
    case (Clock t)
    then show ?thesis using at by (simp add: originAt_def currentInst_def)
  next
    case (Load loc)
    then have "appGone b = appGone a @ appInsts a" by (simp add: reloadApp_def loadApp_def screen_keeps_gone)
    then show ?thesis using b(4) assms(4) by simp
  next
    case (LoginEvent i ev)
    then show ?thesis using originAt_login assms(2-4) by blast
  next
    case (LoginTimer i)
    then show ?thesis using originAt_timer assms(2-4) by blast
  next
    case (Hears i inst)
    moreover have "i \<noteq> ?n" using Hears(3) assms(2) by (auto simp: currentInst_def elim: inst_hears.cases)
    ultimately show ?thesis using originAt_other(1)[OF at] by (simp add: originAt_settle)
  next
    case (Acts inst)
    then show ?thesis using assms(2) by (auto elim: inst_acts.cases)
  qed (use at keep in \<open>simp_all add: intervalFires_def signOutClicked_def originAt_settle originAt_navigate\<close>)
  then show ?thesis using b(2,3) assms(3) by (simp add: originAt_def)
qed

lemma login_stays_origins:
  assumes "(login_stays e)\<^sup>*\<^sup>* a b" "currentInst a = LoginInst (Some from) (Some from) s" "locFrom (appLoc a) = Some from"
    and "appCurrent a < length (appInsts a)"
  shows "(\<exists>s'. currentInst b = LoginInst (Some from) (Some from) s') \<and> locFrom (appLoc b) = Some from \<and> appCurrent b < length (appInsts b)"
  using assms(1)
proof (induction rule: rtranclp_induct)
  case base
  then show ?case using assms(2-4) by simp
next
  case (step y z)
  then show ?case using login_stays_origin by blast
qed

lemma login_stays_reach: "(login_stays e)\<^sup>*\<^sup>* a b \<Longrightarrow> reach (app_open e) (app_step e) a \<Longrightarrow> reach (app_open e) (app_step e) b"
  by (induction rule: rtranclp_induct) (auto simp: login_stays_def intro: reach_step)

text \<open>The guard turns down an address of the wallet.\<close>

lemma turned_down:
  assumes "routed loc" "branchPage (locBranch loc) = Some el" "isWalletPage el" "\<not> isAuthenticated (appAuth a)"
  obtains reason where "settleApp e (navigate loc a) = toLogin (locPath loc @ locSearch loc) reason a"
    "currentInst (toLogin (locPath loc @ locSearch loc) reason a) =
       LoginInst (Some (locPath loc @ locSearch loc)) (Some (locPath loc @ locSearch loc)) (openLogin (appAuth a))"
    "locFrom (appLoc (toLogin (locPath loc @ locSearch loc) reason a)) = Some (locPath loc @ locSearch loc)"
proof -
  let ?from = "locPath loc @ locSearch loc"
  obtain reason where n: "navigate loc a = toLogin ?from reason a"
    using assms by (auto simp: navigate_def rendered_routed)
  have cur: "currentInst (toLogin ?from reason a) = LoginInst (Some ?from) (Some ?from) (openLogin (appAuth a))"
    "locFrom (appLoc (toLogin ?from reason a)) = Some ?from"
    by (simp_all add: toLogin_def Let_def loginLocation_def)
  have "matches (toLogin ?from reason a)" using toLogin_screen by (rule onScreen_matches)
  then have "settleApp e (toLogin ?from reason a) = toLogin ?from reason a"
    using assms(4) by (intro settle_login[OF _ cur(1)]) (simp_all add: toLogin_def Let_def)
  with n cur show thesis using that by simp
qed

text \<open>
  C6: a login leads to where the user wanted to go. Somebody without a session goes to an address of the wallet, and the guard shows the login page instead. Whatever
  happens from then on while that login page stays on the screen at its location (typing, challenges asked for and answered, clicks on confirm, time, answers to pages that were
  left), when a confirmation that it has sent is answered positively, the application holds the session of the account that was sent, for thirty minutes from now, and the
  timer that the answer has started opens a fresh page of the wallet at the very address that was turned down: same path, query, parameter and page, without a state. Of the
  router this uses that the path and the query of the location resolve to that location, without a state; the address must not be empty or
  that of the login page.
\<close>

theorem login_leads_to_origin:
  assumes "json_codec (weHost e)" "router_ok e" "reach (app_open e) (app_step e) a" "\<not> isAuthenticated (appAuth a)"
    and "routed loc" "branchPage (locBranch loc) = Some el" "isWalletPage el"
    and "weResolve e (locPath loc @ locSearch loc) = loc\<lparr>locFrom := None, locReason := None, locEvent := None\<rparr>"
    and "locPath loc @ locSearch loc \<noteq> []" "locPath loc @ locSearch loc \<noteq> js ''/login''"
    and "(login_stays e)\<^sup>*\<^sup>* (settleApp e (navigate loc a)) b" "currentInst b = LoginInst origin clicked s"
    and "pendingConfirm s = Some i" "truthy (member (Some r) (js ''success''))"
  shows "\<exists>b1 b2. loginHappens e (appCurrent b) (ConfirmationAnswered (Inr r)) b = Some b1 \<and> timerHappens e (appCurrent b) b1 = Some b2 \<and>
    session (appAuth b2) = Some (sessionObject (confirmAccount i) (appTime b + 1800000)) \<and>
    appLoc b2 = loc\<lparr>locFrom := None, locReason := None, locEvent := None\<rparr> \<and>
    currentInst b2 = openInst (appAuth b2) (appLoc b2) el"
proof -
  let ?from = "locPath loc @ locSearch loc"
  obtain reason where sent: "settleApp e (navigate loc a) = toLogin ?from reason a"
      "currentInst (toLogin ?from reason a) = LoginInst (Some ?from) (Some ?from) (openLogin (appAuth a))"
      "locFrom (appLoc (toLogin ?from reason a)) = Some ?from"
    using turned_down[OF assms(5-7,4)] by blast
  have c: "appCurrent (toLogin ?from reason a) < length (appInsts (toLogin ?from reason a))" by (simp add: toLogin_def Let_def)
  have clicked: "clicked = Some ?from"
    using login_stays_origins[OF assms(11)[unfolded sent(1)] sent(2,3) c] assms(12) by auto
  have to: "weResolve e (redirectPath clicked) = loc\<lparr>locFrom := None, locReason := None, locEvent := None\<rparr>"
    using assms(8-10) by (simp only: clicked redirectPath_def option.case simp_thms if_True)
  have rb: "reach (app_open e) (app_step e) b"
    using login_stays_reach[OF assms(11)] reach_step[OF assms(3) Go[OF assms(5)]] by blast
  have m: "matches b" using screen_reachable[OF rb assms(2)] by (rule onScreen_matches)
  have ok: "succeeded (Some r)" using assms(14) by (simp add: succeeded_def)
  have "instLinked (currentInst b)"
    using core_reachable[OF rb assms(1)] list_all_nth_if[of instLinked "appInsts b"] by (simp add: core_inv_def currentInst_def)
  then have trimmed: "trim (confirmAccount i) = confirmAccount i"
    using confirmed_account_trimmed[of s i] assms(12,13) by (simp add: instLinked_def)
  have page: "branchPage (locBranch (weResolve e (redirectPath clicked))) = Some el" using to assms(6) by simp
  obtain b2 where b2: "timerHappens e (appCurrent b) (confirmedApp e r i b) = Some b2" "appLoc b2 = weResolve e (redirectPath clicked)"
      "currentInst b2 = openInst (appAuth b2) (appLoc b2) el" "appAuth b2 = appAuth (confirmedApp e r i b)"
    using timer_after_confirmed[OF m assms(12) ok assms(2) page assms(7)] by blast
  have "session (appAuth (confirmedApp e r i b)) = Some (sessionObject (confirmAccount i) (appTime b + 1800000))"
    by (simp add: confirmedApp_def assms(12) trimmed Let_def confirmed_state[OF ok] clearInvalidReason_def signIn_def DEFAULT_SESSION_TTL_MS_def)
  with b2 to confirmed_happens[OF m assms(12,13) ok] show ?thesis by metis
qed

subsection \<open>A whole login\<close>

definition sameOthers :: "web_app \<Rightarrow> web_app \<Rightarrow> bool" where
  "sameOthers a a' \<longleftrightarrow> appTime a' = appTime a \<and> appAuth a' = appAuth a \<and> appCurrent a' = appCurrent a \<and>
     length (appInsts a') = length (appInsts a) \<and> (\<forall>k. k \<noteq> appCurrent a \<longrightarrow> appInsts a' ! k = appInsts a ! k)"

lemma login_progress:
  assumes "reach (app_open e) (app_step e) a" "router_ok e" "\<not> isAuthenticated (appAuth a)" "currentInst a = LoginInst origin clicked s"
    and "loginDo e (appTime a) ev (LoginInst origin clicked (s\<lparr>loginAuth := appAuth a\<rparr>)) = Some (LoginInst origin' clicked' s')" "loginAuth s' = appAuth a"
  obtains a' where "reach (app_open e) (app_step e) a'" "currentInst a' = LoginInst origin' clicked' s'" "sameOthers a a'" "login_stays e a a'"
proof -
  let ?a = "(setInst (appCurrent a) (LoginInst origin' clicked' s') a)\<lparr>appAuth := appAuth a\<rparr>"
  have m: "matches a" using screen_reachable[OF assms(1,2)] by (rule onScreen_matches)
  have "loginHappens e (appCurrent a) ev a = Some ?a"
    by (rule happens_unsettled[OF m]) (use assms(3-6) in simp_all)
  then have step: "app_step e a ?a" by (rule LoginEvent)
  from reach_step[OF assms(1) this] have "reach (app_open e) (app_step e) ?a" .
  moreover have "currentInst ?a = LoginInst origin' clicked' s'" "sameOthers a ?a" "login_stays e a ?a"
    using m step by (simp_all add: currentInst_def setInst_def matches_def sameOthers_def login_stays_def)
  ultimately show thesis by (rule that)
qed

lemma login_asks:
  assumes "reach (app_open e) (app_step e) a" "router_ok e" "\<not> isAuthenticated (appAuth a)" "currentInst a = LoginInst origin clicked (openLogin x)"
  obtains a3 s i where "reach (app_open e) (app_step e) a3" "currentInst a3 = LoginInst origin origin s" "sameOthers a a3"
    "pendingConfirm s = Some i" "confirmAccount i = js ''demo-user''" "(login_stays e)\<^sup>*\<^sup>* a a3"
proof -
  let ?y = "appAuth a" and ?lang = "weLang e"
  let ?s1 = "submitBegins (openLogin ?y)"
  let ?s2 = "submitEnds ?lang (Inr demo_challenge) ?s1"
  let ?s3 = "confirmBegins ?lang (appTime a) ?s2"
  have open_y: "(openLogin x)\<lparr>loginAuth := y\<rparr> = openLogin y" for y by (simp add: openLogin_def)
  have can: "canSubmit (openLogin ?y)" "pendingChallenge ?s1 \<noteq> None" "canConfirm ?s2"
    unfolding submitEnds_def submitBegins_def openLogin_def canSubmit_def canConfirm_def
    by (simp_all add: demo_user_trim demo_user_nonempty Let_def del: js_Cons)
  obtain i where i: "pendingConfirm ?s3 = Some i" "confirmAccount i = js ''demo-user''"
    unfolding confirmBegins_def submitEnds_def submitBegins_def openLogin_def
    by (simp add: demo_user_trim demo_user_nonempty Let_def del: js_Cons)
  have self: "s\<lparr>loginAuth := ?y\<rparr> = s" if "loginAuth s = ?y" for s :: login using that by simp
  have same: "loginAuth ?s1 = ?y" "loginAuth ?s2 = ?y" "loginAuth ?s3 = ?y" by (simp_all add: openLogin_def)
  obtain a1 where a1: "reach (app_open e) (app_step e) a1" "currentInst a1 = LoginInst origin clicked ?s1" "sameOthers a a1" "login_stays e a a1"
    using login_progress[OF assms(1-4), of Submits origin clicked ?s1] can(1) same(1) by (auto simp: open_y)
  then have y1: "appAuth a1 = ?y" "appTime a1 = appTime a" by (simp_all add: sameOthers_def)
  obtain a2 where a2: "reach (app_open e) (app_step e) a2" "currentInst a2 = LoginInst origin clicked ?s2" "sameOthers a1 a2" "login_stays e a1 a2"
    using login_progress[OF a1(1) assms(2) _ a1(2), of "ChallengeAnswered (Inr demo_challenge)" origin clicked ?s2] assms(3) can(2) same self by (auto simp: y1)
  then have y2: "appAuth a2 = ?y" "appTime a2 = appTime a" using y1 by (simp_all add: sameOthers_def)
  obtain a3 where a3: "reach (app_open e) (app_step e) a3" "currentInst a3 = LoginInst origin origin ?s3" "sameOthers a2 a3" "login_stays e a2 a3"
    using login_progress[OF a2(1) assms(2) _ a2(2), of Confirms origin origin ?s3] assms(3) can(3) same self by (auto simp: y2)
  have "sameOthers a a3" using a1(3) a2(3) a3(3) by (auto simp: sameOthers_def)
  moreover have "(login_stays e)\<^sup>*\<^sup>* a a3" using a1(4) a2(4) a3(4) by (meson r_into_rtranclp rtranclp.rtrancl_into_rtrancl)
  ultimately show thesis using that[OF a3(1,2)] i by blast
qed

lemma login_cycle:
  assumes "reach (app_open e) (app_step e) a" "router_ok e" "\<not> isAuthenticated (appAuth a)" "currentInst a = LoginInst origin clicked (openLogin x)"
    and "branchPage (locBranch (weResolve e (redirectPath origin))) = Some el" "isWalletPage el"
  obtains a' where "reach (app_open e) (app_step e) a'" "currentInst a' = openInst (appAuth a') (appLoc a') el" "appLoc a' = weResolve e (redirectPath origin)"
    "session (appAuth a') = Some (sessionObject (js ''demo-user'') (appTime a + 1800000))" "appTime a' = appTime a"
    "length (appInsts a) < length (appInsts a')" "\<forall>k < length (appInsts a). k \<noteq> appCurrent a \<longrightarrow> appInsts a' ! k = appInsts a ! k"
proof -
  obtain a3 s i where a3: "reach (app_open e) (app_step e) a3" "currentInst a3 = LoginInst origin origin s" and so: "sameOthers a a3"
    and i: "pendingConfirm s = Some i" "confirmAccount i = js ''demo-user''"
    using login_asks[OF assms(1-4)] by metis
  have m: "matches a3" using screen_reachable[OF a3(1) assms(2)] by (rule onScreen_matches)
  let ?b = "confirmedApp e demo_consent i a3"
  have b: "reach (app_open e) (app_step e) ?b"
    using reach_step[OF a3(1) LoginEvent[OF confirmed_happens[OF m a3(2) i(1) demo_members(3)]]] .
  obtain a4 where a4: "timerHappens e (appCurrent a3) ?b = Some a4" "appLoc a4 = weResolve e (redirectPath origin)"
      "currentInst a4 = openInst (appAuth a4) (appLoc a4) el" "appAuth a4 = appAuth ?b" "appTime a4 = appTime a3"
      "\<forall>k < length (appInsts a3). k \<noteq> appCurrent a3 \<longrightarrow> appInsts a4 ! k = appInsts a3 ! k" "length (appInsts a4) = Suc (length (appInsts a3))"
    using timer_after_confirmed[OF m a3(2) demo_members(3) assms(2,5,6), of i] by blast
  have "session (appAuth ?b) = Some (sessionObject (js ''demo-user'') (appTime a + 1800000))"
    using so by (simp add: confirmedApp_def a3(2) Let_def confirmed_state(3)[OF demo_members(3)] clearInvalidReason_def signIn_def
        DEFAULT_SESSION_TTL_MS_def i(2) demo_user_trim sameOthers_def del: js_Cons)
  then show thesis
    using that[of a4] reach_step[OF b LoginTimer[OF a4(1)]] a4 so by (simp add: sameOthers_def)
qed

text \<open>A tab, with a router that knows one page of the wallet only.\<close>

definition demo_loc :: "element \<Rightarrow> location" where
  "demo_loc el = \<lparr>locPath = js ''/'', locSearch = [], locParam = None, locBranch = [ElRequireAuth, ElApp, el], locFrom = None, locReason = None, locEvent = None\<rparr>"

definition tab_env :: "element \<Rightarrow> web_env" where
  "tab_env el = \<lparr>weLang = demo_lang_ep, weHost = demo_host, weRnd = Fin, weOther = (\<lambda>_. []), weInherited = (\<lambda>_. None), weResolve = (\<lambda>_. demo_loc el)\<rparr>"

abbreviation demo_env :: web_env where
  "demo_env \<equiv> tab_env ElHome"

abbreviation tab_reach :: "element \<Rightarrow> web_app \<Rightarrow> bool" where
  "tab_reach el \<equiv> reach (app_open (tab_env el)) (app_step (tab_env el))"

lemma tab_env_simps [simp]: "weHost (tab_env el) = demo_host" "weResolve (tab_env el) p = demo_loc el" "locBranch (demo_loc el) = [ElRequireAuth, ElApp, el]"
  by (simp_all add: tab_env_def demo_loc_def)

lemma tab_routed: "isWalletPage el \<Longrightarrow> routed (demo_loc el)" "isWalletPage el \<Longrightarrow> router_ok (tab_env el)"
  unfolding router_ok_def routed_def all_branches by (cases el; simp)+

lemma demo_routed [simp]: "routed (demo_loc ElHome)" "router_ok demo_env"
  by (simp_all add: tab_routed)

lemma demo_branch [simp]: "branchPage [ElRequireAuth, ElApp, el] = Some el"
  by (simp add: branchPage_def)

lemma tab_turned_down:
  assumes "isWalletPage el" "\<not> isAuthenticated (appAuth a)" "appCurrent a < length (appInsts a)"
  obtains origin reason where "settleApp e (navigate (demo_loc el) a) = toLogin origin reason a"
    "currentInst (toLogin origin reason a) = LoginInst (Some origin) (Some origin) (openLogin (appAuth a))"
proof -
  have "branchPage (locBranch (demo_loc el)) = Some el" by simp
  from turned_down[OF tab_routed(1)[OF assms(1)] this assms(1,2)] show thesis using that by metis
qed

lemma tab_start:
  assumes "isWalletPage el"
  obtains a origin where "tab_reach el a" "currentInst a = LoginInst origin origin (openLogin (appAuth a))"
    "\<not> isAuthenticated (appAuth a)" "appTime a = 0"
proof -
  let ?x = "initAuth demo_host 0 None"
  let ?b = "\<lparr>appTime = 0, appChecked = 0, appAuth = ?x, appLoc = demo_loc el, appInsts = [NoPage], appCurrent = 0, appGone = []\<rparr>"
  have no: "\<not> isAuthenticated (appAuth ?b)" by (simp add: initAuth_def parseStoredSession_def isAuthenticated_def)
  obtain origin reason where n: "settleApp (tab_env el) (navigate (demo_loc el) ?b) = toLogin origin reason ?b"
      "currentInst (toLogin origin reason ?b) = LoginInst (Some origin) (Some origin) (openLogin (appAuth ?b))"
    using tab_turned_down[OF assms no] by auto
  have "tab_reach el (loadApp (tab_env el) 0 None (demo_loc el) [])"
    unfolding app_open_def by (intro reach_open exI[of _ 0] exI[of _ "demo_loc el"]) (simp add: assms tab_routed)
  then have "tab_reach el (toLogin origin reason ?b)" using n(1) by (simp add: loadApp_def)
  then show thesis using that[of "toLogin origin reason ?b"] n(2) no by (simp add: toLogin_def Let_def replacePage_def)
qed

lemmas demo_start = tab_start[of ElHome, simplified]

lemma demo_home_shown:
  obtains a where "reach (app_open demo_env) (app_step demo_env) a" "currentInst a = HomeInst 0 (openHomePage (appAuth a))" "appLoc a = demo_loc ElHome"
    "session (appAuth a) = Some (sessionObject (js ''demo-user'') 1800000)" "appTime a = 0"
proof -
  obtain a0 origin where a0: "reach (app_open demo_env) (app_step demo_env) a0" "currentInst a0 = LoginInst origin origin (openLogin (appAuth a0))"
    "\<not> isAuthenticated (appAuth a0)" "appTime a0 = 0" using demo_start .
  show thesis using login_cycle[OF a0(1) demo_routed(2) a0(3,2), of ElHome] that a0(4) by (auto simp del: js_Cons)
qed

lemma home_screen:
  assumes "currentInst a = HomeInst n (openHomePage (appAuth a))" "appLoc a = demo_loc ElHome" "isAuthenticated (appAuth a)"
  obtains t where "appView b a = Inr t" "offers t SignsOut"
proof -
  obtain inner where "homeView (btNotText b) (btBaseUrl b) (wpHome (shownPages a)) = Inr inner"
    using assms(1) by (cases "healthTone (btNotText b) (openHomePage (appAuth a))")
      (auto simp: homeView_def shownPages_def Let_def healthTone_def openHomePage_def simp del: js_Cons)
  then have "appView b a = Inr (plug (map_jsx OnHome inner) (App (appAuth a)))"
    using assms(2,3) by (simp add: appView_def guarded_branch_view shownPages_def Let_def del: viewBranch.simps)
  moreover have "offers (plug x (App (appAuth a))) SignsOut" for x by (simp add: App_def del: js_Cons)
  ultimately show thesis using that by blast
qed

theorem wallet_open_only_with_consent_witness:
  "\<exists>a s i t r. reach (app_open demo_env) (app_step demo_env) a \<and> s \<in> set (appLogins a) \<and> (i, t, Inr r) \<in> set (answers s) \<and>
     from_challenge (challenges s) i \<and> session (appAuth a) = Some (sessionObject (confirmAccount i) (t + 1800000))"
proof -
  obtain a where a: "reach (app_open demo_env) (app_step demo_env) a" "currentInst a = HomeInst 0 (openHomePage (appAuth a))" "appLoc a = demo_loc ElHome"
    "session (appAuth a) = Some (sessionObject (js ''demo-user'') 1800000)" using demo_home_shown .
  then obtain t where t: "appView demo_texts a = Inr t" "offers t SignsOut" using home_screen[of a 0 demo_texts] by (auto simp: isAuthenticated_def)
  have "json_codec (weHost demo_env)" by (simp add: demo_codec)
  from wallet_open_only_with_consent[OF this demo_routed(2) a(1) t] a(1) show ?thesis by blast
qed

definition unauthorized :: exn where
  "unauthorized = ExApi \<lparr>apiCode = js ''UNAUTHORIZED'', apiMessage = [], apiStatus = Some 401, apiRetryable = False\<rparr>"

theorem session_end_closes_wallet_witness:
  "\<exists>a. reach (app_open demo_env) (app_step demo_env) a \<and> isAuthenticated (appAuth a) \<and> sentToLogin a (Some EXPIRED_TEXT) (intervalFires demo_env a)"
proof -
  obtain a where a: "reach (app_open demo_env) (app_step demo_env) a" "currentInst a = HomeInst 0 (openHomePage (appAuth a))"
    "session (appAuth a) = Some (sessionObject (js ''demo-user'') 1800000)" "appTime a = 0" using demo_home_shown .
  let ?a = "a\<lparr>appTime := 1800000\<rparr>"
  have r: "reach (app_open demo_env) (app_step demo_env) ?a" using reach_step[OF a(1) Clock] a(4) by simp
  have w: "showsWallet ?a" using a(2) by (simp add: showsWallet_def currentInst_def)
  have "session (appAuth ?a) = Some (sessionObject (js ''demo-user'') 1800000) \<and>
      \<not> num_less (num (appTime ?a)) (expiresOf (weHost demo_env) (sessionObject (js ''demo-user'') 1800000))"
    using a(3) by (simp del: js_Cons)
  with conjunct1[OF session_end_closes_wallet[OF demo_routed(2) r w, of "sessionObject (js ''demo-user'') 1800000" 0 unauthorized NoPage _ "(0, [])" "Inl unauthorized"]]
  have "sentToLogin ?a (Some EXPIRED_TEXT) (intervalFires demo_env ?a)" by blast
  with r a(3) show ?thesis by (intro exI[of _ ?a]) (simp add: isAuthenticated_def)
qed

theorem login_leads_to_origin_witness:
  "\<exists>b b1 b2. reach (app_open demo_env) (app_step demo_env) b \<and>
     loginHappens demo_env (appCurrent b) (ConfirmationAnswered (Inr demo_consent)) b = Some b1 \<and> timerHappens demo_env (appCurrent b) b1 = Some b2 \<and>
     currentInst b2 = HomeInst 0 (openHomePage (appAuth b2)) \<and> appLoc b2 = demo_loc ElHome"
proof -
  obtain a0 origin where a0: "reach (app_open demo_env) (app_step demo_env) a0" "\<not> isAuthenticated (appAuth a0)" using demo_start by metis
  let ?loc = "demo_loc ElHome"
  let ?a = "settleApp demo_env (navigate ?loc a0)"
  have w: "branchPage (locBranch ?loc) = Some ElHome" "isWalletPage ElHome" by simp_all
  have r: "reach (app_open demo_env) (app_step demo_env) ?a" using reach_step[OF a0(1) Go[OF demo_routed(1)]] .
  obtain reason where sent: "?a = toLogin (locPath ?loc @ locSearch ?loc) reason a0"
      "currentInst (toLogin (locPath ?loc @ locSearch ?loc) reason a0) =
        LoginInst (Some (locPath ?loc @ locSearch ?loc)) (Some (locPath ?loc @ locSearch ?loc)) (openLogin (appAuth a0))"
    using turned_down[OF demo_routed(1) w a0(2)] by metis
  have no: "\<not> isAuthenticated (appAuth ?a)" using a0(2) unfolding sent(1) by (simp add: toLogin_def Let_def)
  obtain b s i where b: "currentInst b = LoginInst (Some (locPath ?loc @ locSearch ?loc)) (Some (locPath ?loc @ locSearch ?loc)) s"
      "pendingConfirm s = Some i" "(login_stays demo_env)\<^sup>*\<^sup>* ?a b"
    using login_asks[OF r demo_routed(2) no, of "Some (locPath ?loc @ locSearch ?loc)" "Some (locPath ?loc @ locSearch ?loc)" "appAuth a0"] sent
    by metis
  have "json_codec (weHost demo_env)" by (simp add: demo_codec)
  moreover have "truthy (member (Some demo_consent) (js ''success''))" using demo_members(3) unfolding succeeded_def .
  moreover have "weResolve demo_env (locPath ?loc @ locSearch ?loc) = ?loc\<lparr>locFrom := None, locReason := None, locEvent := None\<rparr>"
      "locPath ?loc @ locSearch ?loc \<noteq> []" "locPath ?loc @ locSearch ?loc \<noteq> js ''/login''" by (simp_all add: demo_loc_def)
  ultimately obtain b1 b2 where
    "loginHappens demo_env (appCurrent b) (ConfirmationAnswered (Inr demo_consent)) b = Some b1" "timerHappens demo_env (appCurrent b) b1 = Some b2"
    "appLoc b2 = ?loc\<lparr>locFrom := None, locReason := None, locEvent := None\<rparr>" "currentInst b2 = openInst (appAuth b2) (appLoc b2) ElHome"
    using login_leads_to_origin[OF _ demo_routed(2) a0 demo_routed(1) w _ _ _ b(3,1,2)] by blast
  moreover have "?loc\<lparr>locFrom := None, locReason := None, locEvent := None\<rparr> = ?loc" by (simp add: demo_loc_def)
  ultimately show ?thesis using login_stays_reach[OF b(3) r] by (intro exI[of _ b] exI[of _ b1] exI[of _ b2]) simp
qed

subsection \<open>Answers to pages that were left\<close>

text \<open>
  An answer to an earlier session ends the new one. A page that asked the server something and was left (here the home page, by signing out) still handles the answer:
  when it says that the session is invalid, the session that the user has opened in the meantime is ended, although the server has not rejected it. Only
  the detail page of an event looks whether it is still shown.
\<close>

lemma page_stays:
  assumes "onScreen a" "showsWallet a" "instElement inst = instElement (currentInst a)" "instAuth (appAuth a) inst = appAuth a"
  shows "settleApp e (adopt (appCurrent a) inst a) = adopt (appCurrent a) inst a"
proof (rule settle_wallet)
  have "matches (adopt (appCurrent a) inst a)" using matches_adopt assms(1,3) by (simp add: onScreen_def currentInst_def)
  moreover show w: "showsWallet (adopt (appCurrent a) inst a)"
    using assms(1-3) by (simp add: showsWallet_def adopt_def setInst_def currentInst_def onScreen_def matches_def)
  ultimately show "onScreen (adopt (appCurrent a) inst a)" using assms(1,2,4) by (simp add: onScreen_def adopt_def)
qed

theorem left_page_ends_new_session:
  "\<exists>a i inst. reach (app_open demo_env) (app_step demo_env) a \<and> showsWallet a \<and> isAuthenticated (appAuth a) \<and> i \<noteq> appCurrent a \<and>
     i < length (appInsts a) \<and> inst_hears demo_env (withAuth (appAuth a) (appInsts a ! i)) inst \<and>
     sentToLogin a (Some RELOGIN_TEXT) (settleApp demo_env (adopt i inst a))"
proof -
  let ?R = "reach (app_open demo_env) (app_step demo_env)"
  obtain a where a: "?R a" "currentInst a = HomeInst 0 (openHomePage (appAuth a))" using demo_home_shown by metis
  define i where "i = appCurrent a"
  define h where "h = openHomePage (appAuth a)"
  have on: "onScreen a" by (rule screen_reachable[OF a(1) demo_routed(2)])
  have w: "showsWallet a" by (simp add: showsWallet_def a(2))
  have i: "i < length (appInsts a)" using on by (simp add: i_def onScreen_def matches_def)
  let ?b = "adopt i (HomeInst 1 h) a"
  have "inst_acts demo_env (withAuth (appAuth a) (currentInst a)) (HomeInst 1 h)"
    using home_check[of demo_env 0 h] by (simp add: a(2) h_def openHomePage_def)
  from reach_step[OF a(1) Acts[OF this]] have b: "?R ?b"
    using page_stays[OF on w, of "HomeInst 1 h" demo_env] by (simp add: a(2) i_def h_def openHomePage_def)
  have bw: "showsWallet ?b" using i by (simp add: showsWallet_def adopt_def setInst_def currentInst_def i_def)
  let ?x = "clickSignOut (appAuth ?b)"
  have "matches (?b\<lparr>appAuth := ?x\<rparr>)" "showsWallet (?b\<lparr>appAuth := ?x\<rparr>)" "\<not> isAuthenticated (appAuth (?b\<lparr>appAuth := ?x\<rparr>))"
    using onScreen_matches[OF screen_reachable[OF b demo_routed(2)]] bw
    by (simp_all add: matches_def showsWallet_def currentInst_def isAuthenticated_def clickSignOut_def signOut_def)
  from settle_without_session[OF this, of demo_env]
  obtain origin reason where c: "signOutClicked demo_env ?b = toLogin origin reason (?b\<lparr>appAuth := ?x\<rparr>)" by (auto simp: signOutClicked_def)
  let ?c = "toLogin origin reason (?b\<lparr>appAuth := ?x\<rparr>)"
  have cr: "?R ?c" using reach_step[OF b ClickSignOut[OF bw]] unfolding c .
  have c': "currentInst ?c = LoginInst (Some origin) (Some origin) (openLogin ?x)" "\<not> isAuthenticated (appAuth ?c)" "appCurrent ?c = length (appInsts a)"
      "length (appInsts ?c) = Suc (length (appInsts a))" "appInsts ?c ! i = HomeInst 1 h"
    using i by (simp_all add: toLogin_def Let_def loginLocation_def isAuthenticated_def clickSignOut_def signOut_def replacePage_def adopt_def
        setInst_def currentInst_def nth_append i_def)
  obtain d where d: "?R d" "currentInst d = openInst (appAuth d) (appLoc d) ElHome" "isAuthenticated (appAuth d)"
      "length (appInsts ?c) < length (appInsts d)" "\<forall>k < length (appInsts ?c). k \<noteq> appCurrent ?c \<longrightarrow> appInsts d ! k = appInsts ?c ! k"
    using login_cycle[OF cr demo_routed(2) c'(2,1), of ElHome] by (simp add: isAuthenticated_def) metis
  have di: "appInsts d ! i = HomeInst 1 h" using d(5) c'(3,4,5) i by simp
  have "i \<noteq> appCurrent d" using d(2) di by (auto simp: currentInst_def)
  moreover have dw: "showsWallet d" by (simp add: showsWallet_def d(2))
  moreover define inst where "inst = HomeInst 0 (checkHealthEnds (weLang demo_env) (Inl unauthorized) (h\<lparr>homeAuth := appAuth d\<rparr>))"
  have hears: "inst_hears demo_env (withAuth (appAuth d) (appInsts d ! i)) inst"
    using home_answer[of demo_env 0] by (simp add: di inst_def)
  moreover have "instAuth (appAuth d) inst = endSession (appAuth d)"
    by (simp add: inst_def health.auth_after unauthorized_def isSessionInvalidError_def)
  then have "sentToLogin d (Some RELOGIN_TEXT) (settleApp demo_env (adopt i inst d))"
    using invalid_answer[OF onScreen_matches[OF screen_reachable[OF d(1) demo_routed(2)]] dw hears] by blast
  moreover have "i < length (appInsts d)" using i d(4) c'(4) by simp
  ultimately show ?thesis using d(1,3) by blast
qed

text \<open>
  A late answer makes requests overlap. The user leaves a login page before the confirmation is answered and logs in on another one. When the answer arrives, it replaces the
  session, the effects that depend on \<open>signOut\<close> run again, and the page shown has two requests under way, although its controls are
  disabled while it loads.
\<close>

theorem late_login_overlaps_requests:
  "\<exists>a i a' p. tab_reach ElNotifications a \<and> showsWallet a \<and> i \<noteq> appCurrent a \<and>
     loginHappens (tab_env ElNotifications) i (ConfirmationAnswered (Inr demo_consent)) a = Some a' \<and>
     currentInst a' = NotificationsInst p \<and> npLoading p \<and> npPending p = [0, 0]"
proof -
  let ?el = ElNotifications
  let ?e = "tab_env ElNotifications"
  have wallet: "isWalletPage ?el" and ok: "router_ok ?e" by (simp_all add: tab_routed)
  obtain a0 origin where a0: "tab_reach ?el a0" "currentInst a0 = LoginInst origin origin (openLogin (appAuth a0))" "\<not> isAuthenticated (appAuth a0)"
    using tab_start[OF wallet] by metis
  obtain b s c where b: "tab_reach ?el b" "currentInst b = LoginInst origin origin s" "sameOthers a0 b" "pendingConfirm s = Some c"
    using login_asks[OF a0(1) ok a0(3,2)] by metis
  have no: "\<not> isAuthenticated (appAuth b)" using a0(3) b(3) by (simp add: sameOthers_def)
  define i where "i = appCurrent b"
  have i: "i < length (appInsts b)" using screen_reachable[OF b(1) ok] by (simp add: i_def onScreen_def matches_def)
  obtain origin' reason where d: "settleApp ?e (navigate (demo_loc ?el) b) = toLogin origin' reason b"
      "currentInst (toLogin origin' reason b) = LoginInst (Some origin') (Some origin') (openLogin (appAuth b))"
    using tab_turned_down[OF wallet no] i by (auto simp: i_def)
  let ?d = "toLogin origin' reason b"
  have dr: "tab_reach ?el ?d" using reach_step[OF b(1) Go[of "demo_loc ?el"]] tab_routed[OF wallet] d(1) by simp
  have d': "\<not> isAuthenticated (appAuth ?d)" "appCurrent ?d = length (appInsts b)" "length (appInsts ?d) = Suc (length (appInsts b))"
      "appInsts ?d ! i = LoginInst origin origin (leave s)"
    using i no b(2) by (simp_all add: toLogin_def Let_def replacePage_def currentInst_def nth_append i_def)
  obtain a where a: "tab_reach ?el a" "currentInst a = NotificationsInst (openNotifications (appAuth a))" "isAuthenticated (appAuth a)"
      "length (appInsts ?d) < length (appInsts a)" "\<forall>k < length (appInsts ?d). k \<noteq> appCurrent ?d \<longrightarrow> appInsts a ! k = appInsts ?d ! k"
    using login_cycle[OF dr ok d'(1) d(2), of ?el] by (simp add: isAuthenticated_def) metis
  have ai: "appInsts a ! i = LoginInst origin origin (leave s)" using a(5) d'(2-4) i by simp
  have w: "showsWallet a" and cur: "i \<noteq> appCurrent a" using a(2) ai by (auto simp: showsWallet_def currentInst_def)
  have m: "matches a" using screen_reachable[OF a(1) ok] by (rule onScreen_matches)
  let ?s = "confirmEnds (weLang ?e) (weHost ?e) origin (appTime a) c (Inr demo_consent) ((leave s)\<lparr>loginAuth := appAuth a\<rparr>)"
  let ?p = "openNotifications (appAuth a)"
  let ?a1 = "adopt i (LoginInst origin origin ?s) a"
  let ?a2 = "setInst (appCurrent a) (NotificationsInst (notificationsRerun ?p)) ?a1"
  have did: "loginDo ?e (appTime a) (ConfirmationAnswered (Inr demo_consent)) (withAuth (appAuth a) (appInsts a ! i)) = Some (LoginInst origin origin ?s)"
    using b(4) by (simp add: ai leave_def)
  have a1: "currentInst ?a1 = NotificationsInst ?p" "matches ?a1"
    using cur a(2) matches_adopt[OF m, of "LoginInst origin origin ?s" i] by (simp_all add: adopt_def setInst_def currentInst_def ai)
  have "matches ?a2" using a1 by (intro matches_setInst) (simp_all add: currentInst_def adopt_def setInst_def)
  have a2: "currentInst ?a2 = NotificationsInst (notificationsRerun ?p)" "isAuthenticated (appAuth ?a2)"
    using m confirmed_state(3)[OF demo_members(3)]
    by (simp_all add: setInst_def currentInst_def matches_def adopt_def isAuthenticated_def clearInvalidReason_def signIn_def Let_def)
  have "settleApp ?e ?a2 = ?a2" using \<open>matches ?a2\<close> a2 by (intro settle_wallet) (simp_all add: onScreen_def showsWallet_def)
  moreover have "i < length (appInsts a)" using i a(4) d'(3) by simp
  ultimately have "loginHappens ?e i (ConfirmationAnswered (Inr demo_consent)) a = Some ?a2"
    using did a1(1) by (simp add: loginHappens_def Let_def)
  moreover have "npPending (notificationsRerun ?p) = [0, 0]" "npLoading (notificationsRerun ?p)" by (simp_all add: notificationsRerun_def runBegins_def openNotifications_def)
  ultimately show ?thesis using a(1) w cur a2(1) by blast
qed

end
