(* ===== verification/EnvScripts.thy ===== *)
theory EnvScripts
  imports JsonText
begin

text \<open>
  The deployment scripts \<open>soulon-wallet/scripts/validate-deploy-config.mjs\<close> and \<open>deploy-smoke.mjs\<close>, and what all scripts share:
  the reader of \<open>deploy.env\<close>, the merge with the environment of the process and the switch that skips the network. A script
  ends with the lines it wrote and an exit code. An object with text keys is the list of its members in order.
\<close>

section \<open>Reading \<open>deploy.env\<close>\<close>

text \<open>\<open>text.split(/\r?\n/)\<close>; 13 and 10 are the two characters of a line break.\<close>

fun consHead :: "jchar \<Rightarrow> jstring list \<Rightarrow> jstring list" where
  "consHead c [] = [[c]]"
| "consHead c (l # ls) = (c # l) # ls"

fun splitLines :: "jstring \<Rightarrow> jstring list" where
  "splitLines [] = [[]]"
| "splitLines [c] = (if c = 10 then [[], []] else [[c]])"
| "splitLines (c # d # s) =
     (if c = 10 then [] # splitLines (d # s)
      else if c = 13 \<and> d = 10 then [] # splitLines s
      else consHead c (splitLines (d # s)))"

text \<open>\<open>text.split(separator)\<close> for one character is \<open>splitOn\<close>; a limit keeps the first parts only.\<close>

definition ignoredLine :: "jstring \<Rightarrow> bool" where
  "ignoredLine line \<longleftrightarrow> line = [] \<or> startsWith line (js ''#'')"

definition parseEnvLine :: "jstring \<Rightarrow> (jstring \<times> jstring) list \<Rightarrow> (jstring \<times> jstring) list" where
  "parseEnvLine lineRaw result =
     (let line = trim lineRaw in
      if ignoredLine line then result
      else case take 2 (splitOn 61 line) of
        [k, v] \<Rightarrow> objSet k v result
      | _ \<Rightarrow> result)"

definition parseEnvFile :: "jstring \<Rightarrow> (jstring \<times> jstring) list" where
  "parseEnvFile raw = fold parseEnvLine (splitLines raw) []"

text \<open>\<open>{ ...fileEnv, ...process.env }\<close>\<close>

definition mergeEnv :: "(jstring \<times> jstring) list \<Rightarrow> (jstring \<times> jstring) list \<Rightarrow> (jstring \<times> jstring) list" where
  "mergeEnv fileEnv processEnv = fold (\<lambda>(k, v). objSet k v) processEnv fileEnv"

definition skipNetwork :: "(jstring \<times> jstring) list \<Rightarrow> bool" where
  "skipNetwork env =
     (let skipNetworkRaw = toLowerCase (orDefault (map_of env (js ''SOULON_SKIP_NETWORK_TEST'')) [])
      in skipNetworkRaw = js ''true'' \<or> skipNetworkRaw = js ''1'' \<or> skipNetworkRaw = js ''yes'')"

section \<open>\<open>validate-deploy-config.mjs\<close>\<close>

record script_end =
  outLines :: "jstring list"
  errLines :: "jstring list"
  exitCode :: int

definition requiredKeys :: "jstring list" where
  "requiredKeys = [js ''SOULON_ENV'', js ''SOULON_RPC'', js ''SOULON_REST'', js ''SOULON_GRPC'', js ''SOULON_CHAIN_ID'',
     js ''SOULON_BECH32_PREFIX'', js ''SOULON_DENOM'', js ''SOULON_GAS_PRICE'']"

definition keySet :: "jstring \<Rightarrow> jstring list" where
  "keySet content = map (\<lambda>line. hd (splitOn 61 line)) (filter (\<lambda>line. \<not> ignoredLine line) (map trim (splitLines content)))"

definition missingKeys :: "jstring \<Rightarrow> jstring list" where
  "missingKeys content = filter (\<lambda>k. k \<notin> set (keySet content)) requiredKeys"

definition LACKS_TEXT :: jstring where "LACKS_TEXT = [32570, 23569]"

definition validateDeployConfig :: "bool \<Rightarrow> jstring option \<Rightarrow> script_end" where
  "validateDeployConfig exampleExists envContent =
     (if \<not> exampleExists then \<lparr>outLines = [], errLines = [LACKS_TEXT @ js '' deploy/deploy.env.example''], exitCode = 1\<rparr>
      else case envContent of
        None \<Rightarrow> \<lparr>outLines = [], errLines = [LACKS_TEXT @ js '' deploy/deploy.env'' @ [65292, 35831, 20174] @
          js '' deploy.env.example '' @ [22797, 21046, 24182, 20462, 25913, 12290]], exitCode = 1\<rparr>
      | Some content \<Rightarrow>
          if missingKeys content \<noteq> [] then
            \<lparr>outLines = [], errLines = [js ''deploy.env '' @ LACKS_TEXT @ [23383, 27573] @ js '': '' @ join (js '', '') (missingKeys content)],
             exitCode = 1\<rparr>
          else \<lparr>outLines = [js ''deploy.env '' @ [37197, 32622, 26657, 39564, 36890, 36807]], errLines = [], exitCode = 0\<rparr>)"

section \<open>\<open>deploy-smoke.mjs\<close>\<close>

text \<open>\<open>fetchGet\<close>: the status of a response and its body as JSON, which may be unreadable; \<open>fetch\<close> may reject.\<close>

type_synonym 'w fetch_get = "jstring \<Rightarrow> 'w \<Rightarrow> (exn, int \<times> (exn, json) result) result \<times> 'w"

definition checkEndpoint :: "'w fetch_get \<Rightarrow> jstring \<Rightarrow> jstring \<Rightarrow> 'w \<Rightarrow> (exn, json) result \<times> 'w" where
  "checkEndpoint fetchGet url label w =
     (case fetchGet url w of
        (Inl e, w') \<Rightarrow> (Inl e, w')
      | (Inr (status, body), w') \<Rightarrow>
          if \<not> responseOk status then (Inl (ExError (label @ js '' '' @ [35831, 27714, 22833, 36133] @ js '': HTTP '' @ intString status)), w')
          else (body, w'))"

definition validatorCount :: "json \<Rightarrow> nat" where
  "validatorCount validators = (case member (Some validators) (js ''validators'') of Some (JArr vs) \<Rightarrow> length vs | _ \<Rightarrow> 0)"

definition latestHeight :: "json \<Rightarrow> json option" where
  "latestHeight latestBlock =
     (let height = member (member (member (Some latestBlock) (js ''block'')) (js ''header'')) (js ''height'')
      in if height = None \<or> height = Some JNull then Some (JStr (js ''unknown'')) else height)"

definition blocksUrl :: "jstring \<Rightarrow> jstring" where
  "blocksUrl rest = rest @ js ''/cosmos/base/tendermint/v1beta1/blocks/latest''"
definition validatorsUrl :: "jstring \<Rightarrow> jstring" where
  "validatorsUrl rest = rest @ js ''/cosmos/staking/v1beta1/validators?pagination.limit=1''"

definition SMOKE_TEXT :: jstring where "SMOKE_TEXT = [37096, 32626, 20882, 28895, 27979, 35797]"

definition smokeStarts :: "(json option \<Rightarrow> jstring) \<Rightarrow> (jstring \<times> jstring) list \<Rightarrow> jstring \<Rightarrow> jstring \<Rightarrow> jstring list" where
  "smokeStarts template env restEndpoint chainId =
     [SMOKE_TEXT @ [24320, 22987] @ js '': env='' @ template (map_option JStr (map_of env (js ''SOULON_ENV''))) @ js '', chainId='' @ chainId,
      js ''REST: '' @ restEndpoint]"

definition errorLine :: "(json option \<Rightarrow> jstring) \<Rightarrow> jstring \<Rightarrow> exn \<Rightarrow> jstring" where
  "errorLine template abortText e =
     (case e of ExError m \<Rightarrow> m | ExApi err \<Rightarrow> apiMessage err | ExAbort \<Rightarrow> abortText | ExValue t \<Rightarrow> template (Some (JStr t)))"

definition smokeChecks ::
  "(json option \<Rightarrow> jstring) \<Rightarrow> jstring \<Rightarrow> 'w fetch_get \<Rightarrow> jstring \<Rightarrow> jstring list \<Rightarrow> 'w \<Rightarrow> script_end \<times> 'w" where
  "smokeChecks template abortText fetchGet restEndpoint printed w =
     (case checkEndpoint fetchGet (blocksUrl restEndpoint) (js ''latest block'') w of
        (Inl e, w1) \<Rightarrow> (\<lparr>outLines = printed, errLines = [SMOKE_TEXT @ [22833, 36133], errorLine template abortText e], exitCode = 1\<rparr>, w1)
      | (Inr latestBlock, w1) \<Rightarrow>
          (case checkEndpoint fetchGet (validatorsUrl restEndpoint) (js ''validators'') w1 of
             (Inl e, w2) \<Rightarrow> (\<lparr>outLines = printed, errLines = [SMOKE_TEXT @ [22833, 36133], errorLine template abortText e], exitCode = 1\<rparr>, w2)
           | (Inr validators, w2) \<Rightarrow>
               (\<lparr>outLines = printed @
                  [[38142, 39640, 24230] @ js '': '' @ template (latestHeight latestBlock),
                   [39564, 35777, 20154, 26597, 35810, 36820, 22238, 25968, 37327] @ js '': '' @ natString (validatorCount validators),
                   SMOKE_TEXT @ [36890, 36807]],
                 errLines = [], exitCode = 0\<rparr>, w2)))"

definition deploySmoke ::
  "(json option \<Rightarrow> jstring) \<Rightarrow> jstring \<Rightarrow> 'w fetch_get \<Rightarrow> (jstring \<times> jstring) list \<Rightarrow> jstring option \<Rightarrow> 'w \<Rightarrow> script_end \<times> 'w" where
  "deploySmoke template abortText fetchGet processEnv envContent w =
     (case envContent of
        None \<Rightarrow> (\<lparr>outLines = [], errLines = [LACKS_TEXT @ js '' deploy/deploy.env''], exitCode = 1\<rparr>, w)
      | Some content \<Rightarrow>
          (let env = mergeEnv (parseEnvFile content) processEnv;
               restEndpoint = orDefault (map_of env (js ''SOULON_REST'')) [];
               chainId = orDefault (map_of env (js ''SOULON_CHAIN_ID'')) []
           in if restEndpoint = [] \<or> chainId = [] then
                (\<lparr>outLines = [], errLines = [js ''SOULON_REST '' @ [25110] @ js '' SOULON_CHAIN_ID '' @ [26410, 37197, 32622]], exitCode = 1\<rparr>, w)
              else if skipNetwork env then
                (\<lparr>outLines = smokeStarts template env restEndpoint chainId @
                    [[24050, 36339, 36807, 32593, 32476, 36830, 36890, 24615, 27979, 35797, 65288] @
                     js ''SOULON_SKIP_NETWORK_TEST=true/1/yes'' @ [65289]], errLines = [], exitCode = 0\<rparr>, w)
              else smokeChecks template abortText fetchGet restEndpoint (smokeStarts template env restEndpoint chainId) w))"

section \<open>Lines and parts\<close>

lemma consHead_nonempty [simp]: "consHead c ls \<noteq> []"
  by (cases ls) simp_all

lemma splitLines_break [simp]: "splitLines (10 # s) = [] # splitLines s"
  by (cases s) simp_all

text \<open>A line has no line break of its own.\<close>

definition plainLine :: "jstring \<Rightarrow> bool" where
  "plainLine l \<longleftrightarrow> 10 \<notin> set l \<and> 13 \<notin> set l"

lemma splitLines_plain: "plainLine l \<Longrightarrow> splitLines l = [l]"
  by (induction l rule: splitLines.induct) (auto simp: plainLine_def)

lemma splitLines_append: "plainLine l \<Longrightarrow> splitLines (l @ 10 # s) = l # splitLines s"
  by (induction l rule: splitLines.induct) (auto simp: plainLine_def)

lemma splitLines_join:
  assumes "ls \<noteq> []" "list_all plainLine ls"
  shows "splitLines (join [10] ls) = ls"
  using assms by (induction ls rule: induct_list012) (auto simp: splitLines_plain splitLines_append)

section \<open>Round trip\<close>

text \<open>An assignment that can be written on one line: no \<open>=\<close> in it but the first, no white space around it, no comment.\<close>

definition plainAssignment :: "jstring \<times> jstring \<Rightarrow> bool" where
  "plainAssignment kv \<longleftrightarrow> (case kv of (k, v) \<Rightarrow>
     plainLine (k @ [61] @ v) \<and> trim (k @ [61] @ v) = k @ [61] @ v \<and> 61 \<notin> set k \<and> 61 \<notin> set v \<and> \<not> startsWith k (js ''#''))"

definition envText :: "(jstring \<times> jstring) list \<Rightarrow> jstring" where
  "envText kvs = join [10] (map (\<lambda>(k, v). k @ [61] @ v) kvs)"

lemma parseEnvLine_assignment:
  assumes "plainAssignment (k, v)"
  shows "parseEnvLine (k @ [61] @ v) result = objSet k v result"
proof -
  have "\<not> startsWith (k @ [61] @ v) (js ''#'')" using assms by (cases k) (auto simp: plainAssignment_def)
  with assms show ?thesis
    by (simp add: parseEnvLine_def plainAssignment_def ignoredLine_def splitOn_append splitOn_single Let_def)
qed

lemma objSet_new: "k \<notin> fst ` set ms \<Longrightarrow> objSet k v ms = ms @ [(k, v)]"
  by (simp add: objSet_def)

lemma parse_assignments:
  assumes "list_all plainAssignment kvs" "distinct (map fst ms @ map fst kvs)"
  shows "fold parseEnvLine (map (\<lambda>(k, v). k @ [61] @ v) kvs) ms = ms @ kvs"
  using assms
proof (induction kvs arbitrary: ms)
  case (Cons kv kvs)
  obtain k v where kv: "kv = (k, v)" by fastforce
  have "k \<notin> fst ` set ms" using Cons.prems(2) by (auto simp: kv)
  then have "parseEnvLine (k @ [61] @ v) ms = ms @ [(k, v)]"
    using Cons.prems(1) parseEnvLine_assignment objSet_new by (simp add: kv)
  then show ?case using Cons.IH[of "ms @ [(k, v)]"] Cons.prems by (simp add: kv)
qed simp

lemma env_read_back:
  assumes "list_all plainAssignment kvs" "distinct (map fst kvs)"
  shows "parseEnvFile (envText kvs) = kvs"
proof (cases "kvs = []")
  case True
  then show ?thesis by (simp add: parseEnvFile_def envText_def parseEnvLine_def ignoredLine_def)
next
  case False
  have "list_all plainLine (map (\<lambda>(k, v). k @ [61] @ v) kvs)"
    using assms(1) by (auto simp: list_all_iff plainAssignment_def)
  then show ?thesis
    using parse_assignments[OF assms(1), of "[]"] assms(2) False
    by (simp add: parseEnvFile_def envText_def splitLines_join)
qed

text \<open>
  configuration round trip. A list of assignments with different keys, written one per line, is read back exactly and in order,
  provided that no value contains an equals sign.
\<close>

theorem env_roundtrip:
  assumes "list_all plainAssignment kvs" "distinct (map fst kvs)"
  shows "parseEnvFile (envText kvs) = kvs"
  by (rule env_read_back[OF assms])

definition demo_env :: "(jstring \<times> jstring) list" where
  "demo_env = [(js ''SOULON_REST'', js ''http://127.0.0.1:1317''), (js ''SOULON_CHAIN_ID'', js ''soulon-local-1'')]"

lemma demo_env_plain: "list_all plainAssignment demo_env" "distinct (map fst demo_env)"
  by (simp_all add: demo_env_def plainAssignment_def plainLine_def trim_def trimStart_def trimEnd_def isWhite_def)

theorem env_roundtrip_witness: "parseEnvFile (envText demo_env) = demo_env"
  by (rule env_roundtrip[OF demo_env_plain])

text \<open>
  A value that contains an equals sign (the query of an endpoint, a token in Base64) is cut off at it: the limit of the split drops
  the rest instead of keeping it.
\<close>

theorem env_value_truncated:
  assumes "plainAssignment (k, v)" "plainLine rest" "trim (k @ [61] @ v @ [61] @ rest) = k @ [61] @ v @ [61] @ rest"
  shows "parseEnvFile (k @ [61] @ v @ [61] @ rest) = [(k, v)]"
proof -
  have "plainLine (k @ [61] @ v @ [61] @ rest)" using assms by (auto simp: plainAssignment_def plainLine_def)
  moreover have "\<not> startsWith (k @ [61] @ v @ [61] @ rest) (js ''#'')"
    using assms(1) by (cases k) (auto simp: plainAssignment_def)
  ultimately show ?thesis
    using assms by (simp add: parseEnvFile_def splitLines_plain parseEnvLine_def ignoredLine_def plainAssignment_def
        splitOn_append objSet_new Let_def)
qed

theorem env_value_truncated_witness:
  "parseEnvFile (js ''SOULON_REST=http://h/?key=1'') = [(js ''SOULON_REST'', js ''http://h/?key'')]"
  using env_value_truncated[of "js ''SOULON_REST''" "js ''http://h/?key''" "js ''1''"]
  by (simp add: plainAssignment_def plainLine_def trim_def trimStart_def trimEnd_def isWhite_def)

section \<open>The two scripts\<close>

text \<open>
  The two deployment scripts disagree. A configuration that names every required key without a value passes the validation, and
  the smoke test then finds nothing configured and fails without any request.
\<close>

theorem bare_keys_validate_and_fail:
  "validateDeployConfig True (Some (join [10] requiredKeys)) = \<lparr>outLines = [js ''deploy.env '' @ [37197, 32622, 26657, 39564, 36890, 36807]], errLines = [], exitCode = 0\<rparr> \<and>
   parseEnvFile (join [10] requiredKeys) = [] \<and>
   exitCode (fst (deploySmoke template abortText fetchGet [] (Some (join [10] requiredKeys)) w)) = 1 \<and>
   snd (deploySmoke template abortText fetchGet [] (Some (join [10] requiredKeys)) w) = w"
proof -
  have ok: "list_all (\<lambda>k. plainLine k \<and> trim k = k \<and> k \<noteq> [] \<and> \<not> startsWith k (js ''#'') \<and> splitOn 61 k = [k]) requiredKeys"
    by (simp add: requiredKeys_def plainLine_def trim_def trimStart_def trimEnd_def isWhite_def)
  have lines: "splitLines (join [10] requiredKeys) = requiredKeys"
    by (rule splitLines_join) (use ok in \<open>auto simp: list_all_iff requiredKeys_def\<close>)
  have "map trim requiredKeys = requiredKeys" using ok by (auto simp: list_all_iff intro: map_idI)
  then have keys: "keySet (join [10] requiredKeys) = requiredKeys"
    using ok by (auto simp: keySet_def lines list_all_iff ignoredLine_def intro!: map_idI)
  have parsed: "parseEnvFile (join [10] requiredKeys) = []"
  proof -
    have "fold parseEnvLine ks [] = []" if "list_all (\<lambda>k. trim k = k \<and> splitOn 61 k = [k]) ks" for ks
      using that by (induction ks) (auto simp: parseEnvLine_def)
    then show ?thesis using ok by (auto simp: parseEnvFile_def lines list_all_iff)
  qed
  then show ?thesis
    by (simp add: validateDeployConfig_def missingKeys_def keys deploySmoke_def mergeEnv_def orDefault_def Let_def)
qed

text \<open>
  The smoke test. It succeeds exactly when endpoint and chain are configured and either the network is to be skipped or both
  requests are answered with an OK status and a JSON body; when it is to be skipped nothing is requested, and a failure always
  says why.
\<close>

theorem deploySmoke_exit:
  assumes "env = mergeEnv (parseEnvFile content) processEnv" "rest = orDefault (map_of env (js ''SOULON_REST'')) []"
    and "rest \<noteq> []" "orDefault (map_of env (js ''SOULON_CHAIN_ID'')) [] \<noteq> []"
  shows "let (end, w') = deploySmoke template abortText fetchGet processEnv (Some content) w;
      (blocks, w1) = checkEndpoint fetchGet (blocksUrl rest) (js ''latest block'') w;
      (validators, w2) = checkEndpoint fetchGet (validatorsUrl rest) (js ''validators'') w1
    in (exitCode end = 0 \<longleftrightarrow> skipNetwork env \<or> (\<exists>b v. blocks = Inr b \<and> validators = Inr v)) \<and>
      (skipNetwork env \<longrightarrow> w' = w) \<and> (exitCode end \<noteq> 0 \<longrightarrow> length (errLines end) = 2)"
proof -
  note run = deploySmoke_def smokeChecks_def assms(1,2)[symmetric] Let_def
  show ?thesis
    using assms(3,4) by (simp add: run del: js_Cons split: prod.split sum.split)
qed

definition demo_fetch :: "nat fetch_get" where
  "demo_fetch url w = (Inr (503, Inr JNull), Suc w)"

lemma demo_env_lookup:
  "map_of (mergeEnv demo_env []) (js ''SOULON_REST'') = Some (js ''http://127.0.0.1:1317'')"
  "map_of (mergeEnv demo_env []) (js ''SOULON_CHAIN_ID'') = Some (js ''soulon-local-1'')"
  "map_of (mergeEnv demo_env []) (js ''SOULON_SKIP_NETWORK_TEST'') = None"
  by (simp_all add: mergeEnv_def demo_env_def)

theorem deploySmoke_exit_witness:
  "exitCode (fst (deploySmoke (\<lambda>_. []) [] demo_fetch [] (Some (envText demo_env)) 0)) \<noteq> 0 \<and>
   length (errLines (fst (deploySmoke (\<lambda>_. []) [] demo_fetch [] (Some (envText demo_env)) 0))) = 2"
proof -
  let ?env = "mergeEnv (parseEnvFile (envText demo_env)) []"
  have env: "?env = mergeEnv demo_env []" using env_read_back[OF demo_env_plain] by simp
  have skip: "\<not> skipNetwork ?env" unfolding env skipNetwork_def demo_env_lookup by (simp add: orDefault_def Let_def)
  have set: "orDefault (map_of ?env (js ''SOULON_REST'')) [] \<noteq> []" "orDefault (map_of ?env (js ''SOULON_CHAIN_ID'')) [] \<noteq> []"
    unfolding env demo_env_lookup by (simp_all add: orDefault_def)
  show ?thesis
    using deploySmoke_exit[OF refl refl set, of "\<lambda>_. []" "[]" demo_fetch 0] skip
    by (simp add: checkEndpoint_def demo_fetch_def responseOk_def case_prod_beta Let_def del: js_Cons)
qed

end
