(* ===== verification/SecurityPrecheck.thy ===== *)
theory SecurityPrecheck
  imports JsRegex
begin

text \<open>
  \<open>soulon-wallet/scripts/security-precheck.mjs\<close>: the search for secrets written into the sources. The file system is a tree; paths are relative to
  the root of the package and use \<open>/\<close>. The patterns of the script are searched for anywhere in a file and ignore the case of letters.
\<close>

section \<open>Searching\<close>

text \<open>\<open>pattern.test(text)\<close> without anchors: some part of the text matches.\<close>

fun rx_prefix :: "rx \<Rightarrow> jstring \<Rightarrow> bool" where
  "rx_prefix r [] = nullable r"
| "rx_prefix r (c # s) = (nullable r \<or> rx_prefix (deriv c r) s)"

fun rx_search :: "rx \<Rightarrow> jstring \<Rightarrow> bool" where
  "rx_search r [] = rx_prefix r []"
| "rx_search r (c # s) = (rx_prefix r (c # s) \<or> rx_search r s)"

lemma rx_prefix_iff: "rx_prefix r s \<longleftrightarrow> (\<exists>m q. s = m @ q \<and> m \<in> rx_lang r)"
proof (induction s arbitrary: r)
  case (Cons c s)
  have "(\<exists>m q. c # s = m @ q \<and> m \<in> rx_lang r) \<longleftrightarrow> [] \<in> rx_lang r \<or> (\<exists>m q. s = m @ q \<and> c # m \<in> rx_lang r)"
    by (metis append_Cons append_Nil append_eq_Cons_conv)
  then show ?case by (simp add: Cons.IH nullable_iff deriv_iff)
qed (simp add: nullable_iff)

text \<open>Steps for evaluation.\<close>

lemma rx_prefix_Cat_Cat: "rx_prefix (Cat (Cat q q') r) s = rx_prefix (Cat q (Cat q' r)) s"
  unfolding rx_prefix_iff by (auto, (metis append_assoc)+)

lemma rx_prefix_Cat_Epsilon: "rx_prefix (Cat Epsilon r) s = rx_prefix r s"
  unfolding rx_prefix_iff by auto

lemma rx_prefix_Cat_Never: "rx_prefix (Cat Never r) s = False"
  unfolding rx_prefix_iff by auto

lemma rx_prefix_Alt: "rx_prefix (Alt q r) s = (rx_prefix q s \<or> rx_prefix r s)"
  unfolding rx_prefix_iff by auto

lemma rx_prefix_class:
  "rx_prefix (Cat (Class cl) r) (c # s) = (in_class cl c \<and> rx_prefix r s)" "rx_prefix (Cat (Class cl) r) [] = False"
  by (simp_all add: rx_prefix_Cat_Epsilon rx_prefix_Cat_Never)

lemma rx_prefix_star:
  "rx_prefix (Cat (Star (Class cl)) r) (c # s) = (rx_prefix r (c # s) \<or> in_class cl c \<and> rx_prefix (Cat (Star (Class cl)) r) s)"
  "rx_prefix (Cat (Star (Class cl)) r) [] = rx_prefix r []"
  by (auto simp: rx_prefix_Alt rx_prefix_Cat_Cat rx_prefix_Cat_Epsilon rx_prefix_Cat_Never)

lemma rx_prefix_word:
  "rx_prefix (Cat (Cat (Class cl) q) r) (c # s) = (in_class cl c \<and> rx_prefix (Cat q r) s)"
  "rx_prefix (Cat (Cat (Class cl) q) r) [] = False"
  by (simp_all only: rx_prefix_Cat_Cat rx_prefix_class)

lemma rx_search_iff: "rx_search r s \<longleftrightarrow> (\<exists>p m q. s = p @ m @ q \<and> m \<in> rx_lang r)"
proof (induction s)
  case (Cons c s)
  have "(\<exists>p m q. c # s = p @ m @ q \<and> m \<in> rx_lang r) \<longleftrightarrow>
      (\<exists>m q. c # s = m @ q \<and> m \<in> rx_lang r) \<or> (\<exists>p m q. s = p @ m @ q \<and> m \<in> rx_lang r)"
    by (metis append_Cons append_Nil append_eq_Cons_conv)
  then show ?case using rx_prefix_iff[of r "c # s"] by (simp add: Cons.IH)
qed (simp add: nullable_iff)

section \<open>The patterns\<close>

definition WHITE_CLASS :: char_class where
  "WHITE_CLASS = [(9, 13), (32, 32), (160, 160), (5760, 5760), (8192, 8202), (8232, 8233), (8239, 8239), (8287, 8287), (12288, 12288), (65279, 65279)]"

text \<open>\<open>["'`]\<close> and its complement; \<open>[:=]\<close>; \<open>[_-]?\<close>.\<close>

definition QUOTE_CLASS :: char_class where "QUOTE_CLASS = [(34, 34), (39, 39), (96, 96)]"
definition NOT_QUOTE_CLASS :: char_class where "NOT_QUOTE_CLASS = [(0, 33), (35, 38), (40, 95), (97, 65535)]"

definition anyCase :: "jchar \<Rightarrow> rx" where
  "anyCase c = (if 97 \<le> c \<and> c \<le> 122 then Class [(c, c), (c - 32, c - 32)] else chr c)"

fun litAnyCase :: "jstring \<Rightarrow> rx" where
  "litAnyCase [] = Epsilon"
| "litAnyCase (c # s) = Cat (anyCase c) (litAnyCase s)"

definition dash :: rx where "dash = opt (Class [(95, 95), (45, 45)])"

text \<open>\<open>name\s*[:=]\s*["'`][^"'`]{n,}\<close>\<close>

definition assignedSecret :: "rx \<Rightarrow> nat \<Rightarrow> rx" where
  "assignedSecret name n = Cat name (Cat (Star (Class WHITE_CLASS)) (Cat (Class [(58, 58), (61, 61)])
     (Cat (Star (Class WHITE_CLASS)) (Cat (Class QUOTE_CLASS) (repAtLeast n (Class NOT_QUOTE_CLASS))))))"

definition patterns :: "(jstring \<times> rx) list" where
  "patterns =
     [([31169, 38053, 26126, 25991, 23383, 27573],
       assignedSecret (Cat (litAnyCase (js ''private'')) (Cat dash (litAnyCase (js ''key'')))) 16),
      ([21161, 35760, 35789, 26126, 25991, 23383, 27573], assignedSecret (litAnyCase (js ''mnemonic'')) 16),
      ([30828, 32534, 30721, 23494, 38053],
       assignedSecret (Alt (Cat (litAnyCase (js ''api'')) (Cat dash (litAnyCase (js ''key'')))) (litAnyCase (js ''secret''))) 12)]"

section \<open>The files\<close>

datatype dir_entry = Dir jstring "dir_entry list" | File jstring jstring

text \<open>The text of a file comes with its path.\<close>

fun collectEntry :: "jstring \<Rightarrow> dir_entry \<Rightarrow> (jstring \<times> jstring) list" where
  "collectEntry dir (Dir name entries) =
     (if name = js ''node_modules'' \<or> name = js ''dist'' then []
      else concat (map (collectEntry (dir @ js ''/'' @ name)) entries))"
| "collectEntry dir (File name content) = [(dir @ js ''/'' @ name, content)]"

definition collectFiles :: "jstring \<Rightarrow> dir_entry list option \<Rightarrow> (jstring \<times> jstring) list" where
  "collectFiles dir entries = (case entries of None \<Rightarrow> [] | Some es \<Rightarrow> concat (map (collectEntry dir) es))"

definition scanTargets :: "jstring list" where
  "scanTargets = [js ''src'', js ''scripts'', js ''deploy'']"

definition allFiles :: "(jstring \<Rightarrow> dir_entry list option) \<Rightarrow> (jstring \<times> jstring) list" where
  "allFiles root = concat (map (\<lambda>target. collectFiles target (root target)) scanTargets)"

definition hitList :: "(jstring \<Rightarrow> dir_entry list option) \<Rightarrow> (jstring \<times> jstring) list" where
  "hitList root = concat (map (\<lambda>(file, content).
     map (\<lambda>(name, regex). (file, name)) (filter (\<lambda>(name, regex). rx_search regex content) patterns)) (allFiles root))"

text \<open>Lines to standard output, lines to standard error, exit code.\<close>

definition securityPrecheck :: "(jstring \<Rightarrow> dir_entry list option) \<Rightarrow> jstring list \<times> jstring list \<times> int" where
  "securityPrecheck root =
     (if hitList root \<noteq> [] then
        ([], [23433, 20840, 33258, 26597, 26410, 36890, 36807] # map (\<lambda>(file, rule). rule @ js '': '' @ file) (hitList root), 1)
      else ([[23433, 20840, 33258, 26597, 36890, 36807]], [], 0))"

section \<open>What is found\<close>

definition lowerAscii :: "jchar \<Rightarrow> jchar" where
  "lowerAscii c = (if 65 \<le> c \<and> c \<le> 90 then c + 32 else c)"

definition lowercaseWord :: "jstring \<Rightarrow> bool" where
  "lowercaseWord s \<longleftrightarrow> list_all (\<lambda>c. 97 \<le> c \<and> c \<le> 122) s"

lemma anyCase_class: "97 \<le> c \<Longrightarrow> c \<le> 122 \<Longrightarrow> in_class [(c, c), (c - 32, c - 32)] x \<longleftrightarrow> lowerAscii x = c"
  by (auto simp: in_class_def lowerAscii_def)

lemma litAnyCase_lang: "lowercaseWord s \<Longrightarrow> w \<in> rx_lang (litAnyCase s) \<longleftrightarrow> map lowerAscii w = s"
proof (induction s arbitrary: w)
  case (Cons c s)
  then have c: "97 \<le> c" "c \<le> 122" and s: "lowercaseWord s" by (simp_all add: lowercaseWord_def)
  have "w \<in> rx_lang (litAnyCase (c # s)) \<longleftrightarrow> (\<exists>x v. w = x # v \<and> lowerAscii x = c \<and> v \<in> rx_lang (litAnyCase s))"
    using c by (simp only: litAnyCase.simps anyCase_def cat_class_lang anyCase_class simp_thms if_True)
  then show ?case using Cons.IH[OF s] by (cases w) auto
qed simp

lemma white_class: "in_class WHITE_CLASS c \<longleftrightarrow> isWhite c"
proof -
  have one: "a \<le> c \<and> c \<le> a \<longleftrightarrow> c = a" for a by auto
  have two: "8232 \<le> c \<and> c \<le> 8233 \<longleftrightarrow> c = 8232 \<or> c = 8233" by auto
  show ?thesis unfolding in_class_def WHITE_CLASS_def isWhite_def by (simp add: one two)
qed

lemma not_quote_class: "in_class NOT_QUOTE_CLASS c \<longleftrightarrow> c < 65536 \<and> c \<notin> {34, 39, 96}"
  by (auto simp: in_class_def NOT_QUOTE_CLASS_def)

lemma cat_lang: "w \<in> rx_lang (Cat r s) \<longleftrightarrow> (\<exists>u v. w = u @ v \<and> u \<in> rx_lang r \<and> v \<in> rx_lang s)"
  by auto

lemma star_class: "w \<in> rx_lang (Star (Class cl)) \<longleftrightarrow> (\<forall>c\<in>set w. in_class cl c)"
  by simp

text \<open>A secret assigned to a name, as a reader would describe it, and a text with one in it.\<close>

definition assigns_secret :: "(jstring \<Rightarrow> bool) \<Rightarrow> nat \<Rightarrow> jstring \<Rightarrow> bool" where
  "assigns_secret name n m \<longleftrightarrow> (\<exists>k w1 sep w2 quote body. m = k @ w1 @ [sep] @ w2 @ [quote] @ body \<and> name k \<and>
     (\<forall>c\<in>set w1. isWhite c) \<and> sep \<in> {58, 61} \<and> (\<forall>c\<in>set w2. isWhite c) \<and> quote \<in> {34, 39, 96} \<and>
     n \<le> length body \<and> (\<forall>c\<in>set body. c < 65536 \<and> c \<notin> {34, 39, 96}))"

definition holds_secret :: "(jstring \<Rightarrow> bool) \<Rightarrow> nat \<Rightarrow> jstring \<Rightarrow> bool" where
  "holds_secret name n s \<longleftrightarrow> (\<exists>before m after. s = before @ m @ after \<and> assigns_secret name n m)"

lemma assignedSecret_iff: "rx_search (assignedSecret K n) s \<longleftrightarrow> holds_secret (\<lambda>k. k \<in> rx_lang K) n s"
proof -
  have seps: "in_class [(58, 58), (61, 61)] c \<longleftrightarrow> c \<in> {58, 61}" "in_class QUOTE_CLASS c \<longleftrightarrow> c \<in> {34, 39, 96}" for c
    by (auto simp: in_class_def QUOTE_CLASS_def)
  have "m \<in> rx_lang (assignedSecret K n) \<longleftrightarrow> assigns_secret (\<lambda>k. k \<in> rx_lang K) n m" for m
    unfolding assignedSecret_def cat_lang[of _ K] cat_lang[of _ "Star _"] cat_class_lang star_class
      repAtLeast_class_lang white_class not_quote_class seps assigns_secret_def
    by (intro iffI; elim exE conjE; hypsubst) (fastforce simp del: insert_iff)+
  then show ?thesis unfolding rx_search_iff holds_secret_def by blast
qed

section \<open>Properties\<close>

definition isPrivateKeyName :: "jstring \<Rightarrow> bool" where
  "isPrivateKeyName k \<longleftrightarrow> map lowerAscii k \<in> {js ''privatekey'', js ''private_key'', js ''private-key''}"

definition isMnemonicName :: "jstring \<Rightarrow> bool" where
  "isMnemonicName k \<longleftrightarrow> map lowerAscii k = js ''mnemonic''"

definition isApiSecretName :: "jstring \<Rightarrow> bool" where
  "isApiSecretName k \<longleftrightarrow> map lowerAscii k \<in> {js ''apikey'', js ''api_key'', js ''api-key'', js ''secret''}"

definition isDash :: "jstring \<Rightarrow> bool" where
  "isDash x \<longleftrightarrow> x = [] \<or> x = [95] \<or> x = [45]"

lemma dash_lang: "w \<in> rx_lang dash \<longleftrightarrow> isDash (map lowerAscii w)"
proof -
  have u: "lowerAscii c = 95 \<longleftrightarrow> c = 95" "lowerAscii c = 45 \<longleftrightarrow> c = 45" for c
    by (auto simp: lowerAscii_def)
  have c: "in_class [(95, 95), (45, 45)] c \<longleftrightarrow> c = 95 \<or> c = 45" for c
    unfolding in_class_def by (simp add: eq_iff conj_commute)
  show ?thesis
    by (cases w; cases "tl w") (simp_all add: dash_def opt_def isDash_def c u)
qed

lemma dashed_lang:
  assumes "lowercaseWord s" "lowercaseWord t"
  shows "w \<in> rx_lang (Cat (litAnyCase s) (Cat dash (litAnyCase t))) \<longleftrightarrow> map lowerAscii w \<in> {s @ t, s @ [95] @ t, s @ [45] @ t}"
proof
  assume "w \<in> rx_lang (Cat (litAnyCase s) (Cat dash (litAnyCase t)))"
  then obtain u d v where "w = u @ d @ v" "map lowerAscii u = s" "isDash (map lowerAscii d)" "map lowerAscii v = t"
    unfolding cat_lang litAnyCase_lang[OF assms(1)] litAnyCase_lang[OF assms(2)] dash_lang by blast
  then show "map lowerAscii w \<in> {s @ t, s @ [95] @ t, s @ [45] @ t}" by (auto simp: isDash_def)
next
  assume "map lowerAscii w \<in> {s @ t, s @ [95] @ t, s @ [45] @ t}"
  then obtain x where "map lowerAscii w = s @ x @ t" and x: "isDash x" by (auto simp: isDash_def)
  then obtain u r where u: "w = u @ r" "map lowerAscii u = s" "map lowerAscii r = x @ t"
    using map_eq_append_conv[of lowerAscii w s "x @ t"] by metis
  then obtain d v where "r = d @ v" "map lowerAscii d = x" "map lowerAscii v = t"
    using map_eq_append_conv[of lowerAscii r x t] by metis
  with u x show "w \<in> rx_lang (Cat (litAnyCase s) (Cat dash (litAnyCase t)))"
    unfolding cat_lang litAnyCase_lang[OF assms(1)] litAnyCase_lang[OF assms(2)] dash_lang by blast
qed

lemma names:
  "w \<in> rx_lang (Cat (litAnyCase (js ''private'')) (Cat dash (litAnyCase (js ''key'')))) \<longleftrightarrow> isPrivateKeyName w"
  "w \<in> rx_lang (litAnyCase (js ''mnemonic'')) \<longleftrightarrow> isMnemonicName w"
  "w \<in> rx_lang (Alt (Cat (litAnyCase (js ''api'')) (Cat dash (litAnyCase (js ''key'')))) (litAnyCase (js ''secret''))) \<longleftrightarrow> isApiSecretName w"
proof -
  have l: "lowercaseWord (js ''private'')" "lowercaseWord (js ''key'')" "lowercaseWord (js ''api'')" "lowercaseWord (js ''secret'')"
    "lowercaseWord (js ''mnemonic'')"
    by (simp_all add: lowercaseWord_def)
  show "w \<in> rx_lang (Cat (litAnyCase (js ''private'')) (Cat dash (litAnyCase (js ''key'')))) \<longleftrightarrow> isPrivateKeyName w"
    unfolding dashed_lang[OF l(1,2)] isPrivateKeyName_def by simp
  show "w \<in> rx_lang (litAnyCase (js ''mnemonic'')) \<longleftrightarrow> isMnemonicName w"
    unfolding litAnyCase_lang[OF l(5)] isMnemonicName_def ..
  show "w \<in> rx_lang (Alt (Cat (litAnyCase (js ''api'')) (Cat dash (litAnyCase (js ''key'')))) (litAnyCase (js ''secret''))) \<longleftrightarrow> isApiSecretName w"
    unfolding rx_lang.simps(4) Un_iff dashed_lang[OF l(3,2)] litAnyCase_lang[OF l(4)] isApiSecretName_def by auto
qed

lemma precheck_iff:
  "snd (snd (securityPrecheck root)) = 1 \<longleftrightarrow>
     (\<exists>file content. (file, content) \<in> set (allFiles root) \<and>
        (holds_secret isPrivateKeyName 16 content \<or> holds_secret isMnemonicName 16 content \<or> holds_secret isApiSecretName 12 content))"
proof -
  have "snd (snd (securityPrecheck root)) = 1 \<longleftrightarrow> hitList root \<noteq> []" by (simp add: securityPrecheck_def)
  also have "\<dots> \<longleftrightarrow> (\<exists>file content. (file, content) \<in> set (allFiles root) \<and> (\<exists>p \<in> set patterns. rx_search (snd p) content))"
    by (force simp: hitList_def filter_empty_conv case_prod_beta)
  finally show ?thesis
    unfolding patterns_def by (simp add: assignedSecret_iff names del: js_Cons rx_lang.simps)
qed

text \<open>
  C40: the security check fails exactly when some scanned file assigns, with \<open>:\<close> or \<open>=\<close> and any white space around it, a quoted text of at least
  16 characters (12 for the last) to a name spelled, in any case, private key, mnemonic, or API key or secret.
\<close>

theorem securityPrecheck_finds:
  "snd (snd (securityPrecheck root)) = 1 \<longleftrightarrow>
     (\<exists>file content. (file, content) \<in> set (allFiles root) \<and>
        (holds_secret isPrivateKeyName 16 content \<or> holds_secret isMnemonicName 16 content \<or> holds_secret isApiSecretName 12 content))"
  by (rule precheck_iff)

definition json_text :: jstring where
  "json_text = js ''{'' @ [34] @ js ''mnemonic'' @ [34] @ js '':'' @ [34] @ js ''abandon abandon about'' @ [34] @ js ''}''"

definition json_secret :: "jstring \<Rightarrow> dir_entry list option" where
  "json_secret target = (if target = js ''deploy'' then Some [File (js ''data.json'') json_text] else None)"

lemmas search_eval = rx_prefix_word rx_prefix_class rx_prefix_star rx_prefix_Cat_Epsilon in_class_def chr_def anyCase_def
  WHITE_CLASS_def QUOTE_CLASS_def assignedSecret_def

lemma holds_secret_letters:
  assumes "holds_secret name n s"
  shows "\<exists>k. name k \<and> set (map lowerAscii k) \<subseteq> lowerAscii ` set s"
  using assms unfolding holds_secret_def assigns_secret_def by fastforce

definition mnemonicPattern :: rx where
  "mnemonicPattern = assignedSecret (litAnyCase (js ''mnemonic'')) 16"

lemma mnemonic_first: "c \<noteq> 109 \<Longrightarrow> c \<noteq> 77 \<Longrightarrow> rx_prefix mnemonicPattern (c # s) = False"
proof -
  assume "c \<noteq> 109" "c \<noteq> 77"
  then have "\<not> in_class [(109, 109), (77, 77)] c" by (auto simp: in_class_def)
  then show ?thesis
    by (simp add: mnemonicPattern_def assignedSecret_def anyCase_def rx_prefix_word del: rx_prefix.simps)
qed

lemma mnemonic_quote:
  "rx_prefix mnemonicPattern (js ''mnemonic'' @ 34 # s) = False" "rx_prefix mnemonicPattern (js ''monic'' @ 34 # s) = False"
  "rx_prefix mnemonicPattern [] = False"
  by (simp_all add: mnemonicPattern_def search_eval del: rx_prefix.simps)

lemma json_text_mnemonic: "\<not> holds_secret isMnemonicName 16 json_text"
proof -
  have "\<not> rx_search mnemonicPattern json_text"
    unfolding json_text_def using mnemonic_quote by (simp add: mnemonic_first del: rx_prefix.simps)
  then show ?thesis unfolding mnemonicPattern_def assignedSecret_iff names .
qed

lemma json_text_letters: "118 \<notin> lowerAscii ` set json_text" "112 \<notin> lowerAscii ` set json_text" "115 \<notin> lowerAscii ` set json_text"
  by (simp_all add: json_text_def lowerAscii_def)

lemma json_text_others: "\<not> holds_secret isPrivateKeyName 16 json_text" "\<not> holds_secret isApiSecretName 12 json_text"
proof -
  have "118 \<in> set (map lowerAscii k)" if "isPrivateKeyName k" for k using that unfolding isPrivateKeyName_def by (elim insertE) simp_all
  then show "\<not> holds_secret isPrivateKeyName 16 json_text" using holds_secret_letters json_text_letters(1) by blast
  have "112 \<in> set (map lowerAscii k) \<or> 115 \<in> set (map lowerAscii k)" if "isApiSecretName k" for k
    using that unfolding isApiSecretName_def by (elim insertE) simp_all
  then show "\<not> holds_secret isApiSecretName 12 json_text" using holds_secret_letters json_text_letters(2,3) by blast
qed

text \<open>
  A secret under a quoted name, as every JSON file writes it, is not found: the quote between the name and the colon is not
  white space.
\<close>

theorem quoted_name_not_found: "snd (snd (securityPrecheck json_secret)) \<noteq> 1"
proof -
  have "allFiles json_secret = [(js ''deploy/data.json'', json_text)]"
    by (simp add: allFiles_def scanTargets_def collectFiles_def json_secret_def)
  then show ?thesis unfolding precheck_iff using json_text_mnemonic json_text_others by auto
qed

end
