(* ===== verification/IntegrationScripts.thy ===== *)
theory IntegrationScripts
  imports EnvScripts ChainServices
begin

text \<open>
  The two integration scripts of the SDK, \<open>soulon-wallet/scripts/wallet-business-integration.mjs\<close> and \<open>wallet-testnet-e2e.mjs\<close>,
  as programs over the models of the SDK they call. They run the transactions against a scripted client; that they
  succeed for every valid configuration is a statement about the whole chain of validation, broadcasting, retrying and
  error mapping. The members of the data files are texts (the optional ones may be absent), and times are whole numbers.
  A script keeps the client and the lines it printed.
\<close>

section \<open>What the scripts share\<close>

record 's script =
  scState :: 's
  scOut :: "jstring list"

type_synonym ('s, 'a) action = "'s script \<Rightarrow> (thrown, 'a) result \<times> 's script"

definition andThen :: "('s, 'a) action \<Rightarrow> ('a \<Rightarrow> ('s, 'b) action) \<Rightarrow> ('s, 'b) action" where
  "andThen m f s = (case m s of (r, s') \<Rightarrow> wtry r f s')"

definition onClient :: "('s \<Rightarrow> (thrown, 'a) result \<times> 's) \<Rightarrow> ('s, 'a) action" where
  "onClient m s = (case m (scState s) of (r, c) \<Rightarrow> (r, s\<lparr>scState := c\<rparr>))"

definition assertOk :: "bool \<Rightarrow> jstring \<Rightarrow> ('s, unit) action" where
  "assertOk condition failure s = (if condition then Inr () else Inl (ThrownError failure), s)"

definition consoleLog :: "jstring \<Rightarrow> ('s, unit) action" where
  "consoleLog line s = (Inr (), s\<lparr>scOut := scOut s @ [line]\<rparr>)"

text \<open>\<open>try \<dots> catch\<close> that only looks whether a wallet error with a given code was thrown.\<close>

definition throwsCode :: "jstring \<Rightarrow> ('s, 'a) action \<Rightarrow> ('s, bool) action" where
  "throwsCode expected m s =
     (case m s of (r, s') \<Rightarrow> (Inr (case r of Inl (ThrownWallet e) \<Rightarrow> code e = expected | _ \<Rightarrow> False), s'))"

definition envNetwork :: "(jstring \<times> jstring) list \<Rightarrow> NetworkConfig option" where
  "envNetwork env =
     (case (map_of env (js ''SOULON_CHAIN_ID''), map_of env (js ''SOULON_BECH32_PREFIX''), map_of env (js ''SOULON_RPC''),
            map_of env (js ''SOULON_REST''), map_of env (js ''SOULON_GRPC''), map_of env (js ''SOULON_DENOM''),
            map_of env (js ''SOULON_GAS_PRICE'')) of
        (Some a, Some b, Some c, Some d, Some e, Some f, Some g) \<Rightarrow>
          Some \<lparr>chainId = a, bech32Prefix = b, rpcEndpoint = c, restEndpoint = d, grpcEndpoint = e, denom = f, gasPrice = g\<rparr>
      | _ \<Rightarrow> None)"

text \<open>\<open>fs.existsSync(dataPath) ? dataPath : examplePath\<close>, then the file is parsed.\<close>

definition loadBusinessData :: "(rat \<Rightarrow> jsnum) \<Rightarrow> jstring \<Rightarrow> jstring option \<Rightarrow> jstring option \<Rightarrow> (thrown, json) result" where
  "loadBusinessData rnd parseMessage dataFile exampleFile =
     (case (if dataFile \<noteq> None then dataFile else exampleFile) of
        None \<Rightarrow> Inl (ThrownError (LACKS_TEXT @ js '' deploy/business-test-data.json '' @ [25110] @ js '' deploy/business-test-data.example.json''))
      | Some text \<Rightarrow> (case JSON_parse rnd text of None \<Rightarrow> Inl (ThrownError parseMessage) | Some j \<Rightarrow> Inr j))"

section \<open>\<open>wallet-business-integration.mjs\<close>\<close>

record business_data =
  bdDelegator :: jstring
  bdValidator :: jstring
  bdVoter :: jstring
  bdProposalId :: jstring
  bdDelegateAmount :: jstring
  bdUndelegateAmount :: jstring
  bdTransferFrom :: "jstring option"
  bdTransferTo :: "jstring option"
  bdTransferAmount :: "jstring option"

text \<open>\<open>createMockSigningClient\<close>: a queue of responses behind \<open>signAndBroadcast\<close>, then success.\<close>

definition response :: "int \<Rightarrow> string \<Rightarrow> string \<Rightarrow> DeliverTxResponse" where
  "response c hash raw = \<lparr>txCode = c, transactionHash = js hash, rawLog = Some (js raw)\<rparr>"

definition mockNode :: "DeliverTxResponse list node" where
  "mockNode call responses =
     (case responses of [] \<Rightarrow> (Inr (response 0 ''MOCK_HASH'' ''''), []) | r # rs \<Rightarrow> (Inr r, rs))"

type_synonym 'a mock_action = "(DeliverTxResponse list client, 'a) action"

definition pushResponses :: "DeliverTxResponse list \<Rightarrow> unit mock_action" where
  "pushResponses rs s = (Inr (), s\<lparr>scState := (scState s)\<lparr>remote := remote (scState s) @ rs\<rparr>\<rparr>)"

definition getCallCount :: "nat mock_action" where
  "getCallCount s = (Inr (length (sent (scState s))), s)"

definition transferOf :: "business_data \<Rightarrow> jstring \<Rightarrow> TransferInput" where
  "transferOf data memo =
     \<lparr>fromAddress = orDefault (bdTransferFrom data) (bdDelegator data),
      toAddress = orDefault (bdTransferTo data) (if bdVoter data = [] then bdDelegator data else bdVoter data),
      transferAmount = orDefault (bdTransferAmount data) (js ''1''), transferMemo = Some memo\<rparr>"

definition SHOULD_SUCCEED :: jstring where "SHOULD_SUCCEED = [32467, 26524, 24212, 25104, 21151]"
definition SHOULD_RETRY :: jstring where "SHOULD_RETRY = [24212, 35302, 21457, 19968, 27425, 37325, 35797]"
definition SHOULD_MAP :: jstring where "SHOULD_MAP = [22330, 26223, 24212, 25243, 20986, 26144, 23556, 38169, 35823]"

definition transferChecks :: "coin_fn \<Rightarrow> NetworkConfig \<Rightarrow> business_data \<Rightarrow> unit mock_action" where
  "transferChecks coin network data =
     andThen getCallCount (\<lambda>callsBefore.
     andThen (pushResponses [response 11 ''HASH_T1'' ''out of gas'', response 0 ''HASH_T2'' '''']) (\<lambda>_.
     andThen (onClient (sendNativeToken coin mockNode network (transferOf data (js ''integration-transfer'')))) (\<lambda>transferResult.
     andThen (assertOk (txCode transferResult = 0) (js ''transfer '' @ SHOULD_SUCCEED)) (\<lambda>_.
     andThen getCallCount (\<lambda>calls.
     andThen (assertOk (calls = callsBefore + 2) (js ''transfer '' @ SHOULD_RETRY)) (\<lambda>_.
     andThen (pushResponses [response 4 ''HASH_T3'' ''insufficient funds'']) (\<lambda>_.
     andThen (throwsCode INSUFFICIENT_FUNDS (onClient (sendNativeToken coin mockNode network
       (transferOf data (js ''integration-transfer-insufficient-funds''))))) (\<lambda>insufficientFundsThrown.
     andThen (assertOk insufficientFundsThrown (js ''transfer '' @ [20313, 39069, 19981, 36275] @ SHOULD_MAP)) (\<lambda>_.
       consoleLog [36716, 36134, 38142, 36335, 38598, 25104, 27979, 35797, 36890, 36807])))))))))"

definition stakingChecks :: "coin_fn \<Rightarrow> NetworkConfig \<Rightarrow> business_data \<Rightarrow> unit mock_action" where
  "stakingChecks coin network data =
     andThen getCallCount (\<lambda>callsBefore.
     andThen (pushResponses [response 11 ''HASH_1'' ''out of gas'', response 0 ''HASH_2'' '''']) (\<lambda>_.
     andThen (onClient (delegateToValidator coin mockNode network
       \<lparr>dg_delegator = bdDelegator data, dg_validator = bdValidator data, dg_amount = bdDelegateAmount data,
        dg_memo = Some (js ''integration-delegate'')\<rparr>)) (\<lambda>delegateResult.
     andThen (assertOk (txCode delegateResult = 0) (js ''delegate '' @ SHOULD_SUCCEED)) (\<lambda>_.
     andThen getCallCount (\<lambda>calls.
     andThen (assertOk (calls = callsBefore + 2) (js ''delegate '' @ SHOULD_RETRY)) (\<lambda>_.
     andThen (pushResponses [response 0 ''HASH_3'' '''']) (\<lambda>_.
     andThen (onClient (undelegateFromValidator coin mockNode network
       \<lparr>ud_delegator = bdDelegator data, ud_validator = bdValidator data, ud_amount = bdUndelegateAmount data,
        ud_memo = Some (js ''integration-undelegate'')\<rparr>)) (\<lambda>undelegateResult.
     andThen (assertOk (txCode undelegateResult = 0) (js ''undelegate '' @ SHOULD_SUCCEED)) (\<lambda>_.
     andThen (pushResponses [response 0 ''HASH_4'' '''']) (\<lambda>_.
     andThen (onClient (withdrawValidatorRewards mockNode network
       \<lparr>wd_delegator = bdDelegator data, wd_validator = bdValidator data, wd_memo = Some (js ''integration-withdraw'')\<rparr>)) (\<lambda>rewardResult.
       assertOk (txCode rewardResult = 0) (js ''withdraw '' @ SHOULD_SUCCEED))))))))))))"

text \<open>\<open>BigInt(text)\<close>; \<open>syntaxMessage\<close> is the message of the error for a text that is no integer.\<close>

definition bigIntText :: "jstring \<Rightarrow> jstring \<Rightarrow> (thrown, int) result" where
  "bigIntText syntaxMessage text =
     (let t = trim text; u = (if t \<noteq> [] \<and> (hd t = 45 \<or> hd t = 43) then tl t else t)
      in if t = [] then Inr 0
         else if u \<noteq> [] \<and> list_all isDigit u then Inr (if hd t = 45 then - int (digitsValue u) else int (digitsValue u))
         else case radixPrefix t of
           Some base \<Rightarrow> (case radixValue base (drop 2 t) of Some n \<Rightarrow> Inr (int n) | None \<Rightarrow> Inl (ThrownError syntaxMessage))
         | None \<Rightarrow> Inl (ThrownError syntaxMessage))"

definition voteOf :: "jstring \<Rightarrow> business_data \<Rightarrow> jstring \<Rightarrow> (thrown, VoteInput) result" where
  "voteOf syntaxMessage data memo =
     ebind (bigIntText syntaxMessage (bdProposalId data)) (\<lambda>proposalId. Inr
       \<lparr>voterAddress = bdVoter data, voteProposalId = proposalId, voteOption = VoteYes, voteMemo = Some memo\<rparr>)"

definition castVote :: "jstring \<Rightarrow> NetworkConfig \<Rightarrow> business_data \<Rightarrow> jstring \<Rightarrow> DeliverTxResponse mock_action" where
  "castVote syntaxMessage network data memo =
     wtry (voteOf syntaxMessage data memo) (\<lambda>input. onClient (voteProposal mockNode network input))"

definition voteChecks :: "jstring \<Rightarrow> NetworkConfig \<Rightarrow> business_data \<Rightarrow> unit mock_action" where
  "voteChecks syntaxMessage network data =
     andThen (pushResponses [response 0 ''HASH_5'' '''']) (\<lambda>_.
     andThen (castVote syntaxMessage network data (js ''integration-vote'')) (\<lambda>voteResult.
     andThen (assertOk (txCode voteResult = 0) (js ''vote '' @ SHOULD_SUCCEED)) (\<lambda>_.
     andThen (pushResponses [response 13 ''HASH_6'' ''unauthorized'']) (\<lambda>_.
     andThen (throwsCode UNAUTHORIZED (castVote syntaxMessage network data (js ''integration-vote-unauthorized''))) (\<lambda>unauthorizedThrown.
     andThen (assertOk unauthorizedThrown (js ''unauthorized '' @ SHOULD_MAP)) (\<lambda>_.
       consoleLog [36136, 25276, 19982, 27835, 29702, 38142, 36335, 38598, 25104, 27979, 35797, 36890, 36807]))))))"

definition runTxIntegration :: "coin_fn \<Rightarrow> jstring \<Rightarrow> NetworkConfig \<Rightarrow> business_data \<Rightarrow> unit mock_action" where
  "runTxIntegration coin syntaxMessage network data =
     andThen (transferChecks coin network data) (\<lambda>_.
     andThen (stakingChecks coin network data) (\<lambda>_.
       voteChecks syntaxMessage network data))"

text \<open>The queries run on the host; \<open>skip\<close> is the switch of the environment.\<close>

fun isObjectValue :: "json \<Rightarrow> bool" where
  "isObjectValue (JObj ms) = True"
| "isObjectValue (JArr xs) = True"
| "isObjectValue _ = False"

definition hasArray :: "json \<Rightarrow> jstring \<Rightarrow> bool" where
  "hasArray j k = (case member (Some j) k of Some (JArr xs) \<Rightarrow> True | _ \<Rightarrow> False)"

definition BAD_STRUCTURE :: jstring where "BAD_STRUCTURE = [36820, 22238, 32467, 26500, 24322, 24120]"

definition runQueryIntegration ::
  "('r, json, 'w) fetch_api \<Rightarrow> bool \<Rightarrow> NetworkConfig \<Rightarrow> business_data \<Rightarrow> ('w, unit) action" where
  "runQueryIntegration api skip network data =
     (if skip then consoleLog ([24050, 36339, 36807, 32593, 32476, 26597, 35810, 38598, 25104, 27979, 35797, 65288] @
        js ''SOULON_SKIP_NETWORK_TEST=true/1/yes'' @ [65289])
      else
        andThen (onClient (queryValidators api network)) (\<lambda>validators.
        andThen (assertOk (hasArray validators (js ''validators'')) (js ''validators '' @ BAD_STRUCTURE)) (\<lambda>_.
        andThen (onClient (queryRewards api network (bdDelegator data))) (\<lambda>rewards.
        andThen (assertOk (isObjectValue rewards) (js ''rewards '' @ BAD_STRUCTURE)) (\<lambda>_.
        andThen (onClient (queryProposals api network None)) (\<lambda>proposals.
        andThen (assertOk (hasArray proposals (js ''proposals'')) (js ''proposals '' @ BAD_STRUCTURE)) (\<lambda>_.
          consoleLog [26597, 35810, 38142, 36335, 38598, 25104, 27979, 35797, 36890, 36807])))))))"

definition thrownLine :: "thrown \<Rightarrow> jstring" where
  "thrownLine e = (case e of ThrownWallet w \<Rightarrow> message w | ThrownError m \<Rightarrow> m | ThrownValue t \<Rightarrow> t)"

definition INTEGRATION_TEXT :: jstring where "INTEGRATION_TEXT = [38065, 21253, 19994, 21153, 38598, 25104, 27979, 35797]"

definition integrationFailed :: "jstring list \<Rightarrow> thrown \<Rightarrow> script_end" where
  "integrationFailed printed e = \<lparr>outLines = printed, errLines = [INTEGRATION_TEXT @ [22833, 36133], thrownLine e], exitCode = 1\<rparr>"

text \<open>\<open>main\<close> with its \<open>catch\<close>.\<close>

definition walletIntegration ::
  "coin_fn \<Rightarrow> jstring \<Rightarrow> ('r, json, 'w) fetch_api \<Rightarrow> bool \<Rightarrow> NetworkConfig \<Rightarrow> business_data \<Rightarrow> 'w \<Rightarrow> script_end \<times> 'w" where
  "walletIntegration coin syntaxMessage api skip network data w =
     (case runTxIntegration coin syntaxMessage network data
        \<lparr>scState = \<lparr>remote = [], sent = []\<rparr>, scOut = [INTEGRATION_TEXT @ [24320, 22987]]\<rparr> of
        (Inl e, s) \<Rightarrow> (integrationFailed (scOut s) e, w)
      | (Inr _, s) \<Rightarrow>
          (case runQueryIntegration api skip network data \<lparr>scState = w, scOut = scOut s\<rparr> of
             (Inl e, t) \<Rightarrow> (integrationFailed (scOut t) e, scState t)
           | (Inr _, t) \<Rightarrow>
               (\<lparr>outLines = scOut t @ [INTEGRATION_TEXT @ [23436, 25104]], errLines = [], exitCode = 0\<rparr>, scState t)))"

section \<open>Broadcasting to the mock\<close>

lemmas mock_run = broadcastTx_def broadcastWithRetry_def broadcast_loop.simps broadcast_round_def broadcastCall_def
  broadcast_start_def signAndBroadcast_def mockNode_def no_retry_options_def

lemma mock_accepts:
  assumes "remote c = r # rs" "txCode r = 0"
  shows "broadcastTx mockNode (Inr call) c = (Inr r, c\<lparr>remote := rs, sent := sent c @ [call]\<rparr>)"
  using assms by (simp add: mock_run Let_def)

lemma mock_retries:
  assumes "remote c = r # r' # rs" "txCode r = 11" "txCode r' = 0"
  shows "broadcastTx mockNode (Inr call) c = (Inr r', c\<lparr>remote := rs, sent := sent c @ [call, call]\<rparr>)"
  using assms by (simp add: mock_run Let_def defaultRetriableCodes_def)

lemma mock_rejects:
  assumes "remote c = r # rs" "txCode r \<notin> {0, 11, 32}"
  shows "broadcastTx mockNode (Inr call) c =
    (awaitBroadcast (Inl (mapTxError (txCode r) (rawLog r))), c\<lparr>remote := rs, sent := sent c @ [call]\<rparr>)"
  using assms by (simp add: mock_run Let_def defaultRetriableCodes_def)

lemma mapped_codes:
  "map_option code (mapTxError 4 (Some (js ''insufficient funds''))) = Some INSUFFICIENT_FUNDS"
  "map_option code (mapTxError 13 (Some (js ''unauthorized''))) = Some UNAUTHORIZED"
  by (simp_all add: mapTxError_def normalizeMessage_def includesOneOf_def lowerUnit_def FUNDS_KEYWORDS_def GAS_KEYWORDS_def
      SEQUENCE_KEYWORDS_def INVALID_KEYWORDS_def UNAUTHORIZED_KEYWORDS_def wallet_error_def)

lemma throws_mapped:
  assumes "map_option code x = Some c"
  shows "(case awaitBroadcast (Inl x) of Inl (ThrownWallet e) \<Rightarrow> code e = c | _ \<Rightarrow> False)"
  using assms by (cases x) simp_all

section \<open>The checks pass\<close>

text \<open>What the script needs of its configuration.\<close>

definition data_valid :: "coin_fn \<Rightarrow> jstring \<Rightarrow> NetworkConfig \<Rightarrow> business_data \<Rightarrow> bool" where
  "data_valid coin syntaxMessage network data \<longleftrightarrow> coin_accepts_digits coin \<and> prefix_ok network \<and>
     address_of_prefix (bech32Prefix network) (trim (bdDelegator data)) \<and>
     validator_address (bech32Prefix network) (trim (bdValidator data)) \<and>
     address_of_prefix (bech32Prefix network) (trim (bdVoter data)) \<and>
     positive_integer (trim (bdDelegateAmount data)) \<and> positive_integer (trim (bdUndelegateAmount data)) \<and>
     positive_integer (orDefault (bdTransferAmount data) (js ''1'')) \<and>
     (case bigIntText syntaxMessage (bdProposalId data) of Inr n \<Rightarrow> 0 < n | Inl _ \<Rightarrow> False)"

definition sends :: "(DeliverTxResponse list client \<Rightarrow> DeliverTxResponse list service_result) \<Rightarrow> bool" where
  "sends service \<longleftrightarrow> (\<exists>call. service = broadcastTx mockNode (Inr call))"

lemma sends_mock:
  assumes "sends service"
  obtains call where
    "\<And>c r rs. remote c = r # rs \<Longrightarrow> txCode r = 0 \<Longrightarrow> service c = (Inr r, c\<lparr>remote := rs, sent := sent c @ [call]\<rparr>)"
    "\<And>c r r' rs. remote c = r # r' # rs \<Longrightarrow> txCode r = 11 \<Longrightarrow> txCode r' = 0 \<Longrightarrow>
       service c = (Inr r', c\<lparr>remote := rs, sent := sent c @ [call, call]\<rparr>)"
    "\<And>c r rs. remote c = r # rs \<Longrightarrow> txCode r \<notin> {0, 11, 32} \<Longrightarrow>
       service c = (awaitBroadcast (Inl (mapTxError (txCode r) (rawLog r))), c\<lparr>remote := rs, sent := sent c @ [call]\<rparr>)"
proof -
  obtain call where "service = broadcastTx mockNode (Inr call)" using assms by (auto simp: sends_def)
  then show thesis by (intro that[of call]) (simp_all add: mock_accepts mock_retries mock_rejects)
qed

lemma coin_positive:
  assumes "coin_accepts_digits coin" "positive_integer a"
  obtains cn where "coin a d = Inr cn"
  using assms unfolding coin_accepts_digits_def positive_integer_def by blast

lemma transfer_sends:
  assumes "data_valid coin m network data"
  shows "sends (sendNativeToken coin mockNode network (transferOf data memo))"
proof -
  obtain cn where "coin (orDefault (bdTransferAmount data) (js ''1'')) (denom network) = Inr cn"
    using assms coin_positive unfolding data_valid_def by metis
  then show ?thesis
    unfolding sends_def sendNativeToken_def by (auto simp: buildNativeTransferMessage_def transferOf_def simp del: js_Cons)
qed

lemma staking_sends:
  assumes "data_valid coin m network data"
  shows "sends (delegateToValidator coin mockNode network
      \<lparr>dg_delegator = bdDelegator data, dg_validator = bdValidator data, dg_amount = bdDelegateAmount data, dg_memo = memo\<rparr>)"
    "sends (undelegateFromValidator coin mockNode network
      \<lparr>ud_delegator = bdDelegator data, ud_validator = bdValidator data, ud_amount = bdUndelegateAmount data, ud_memo = memo\<rparr>)"
    "sends (withdrawValidatorRewards mockNode network
      \<lparr>wd_delegator = bdDelegator data, wd_validator = bdValidator data, wd_memo = memo\<rparr>)"
proof -
  have ok: "prefix_ok network" using assms by (simp add: data_valid_def)
  then have "rx_test PREFIX_REGEX (bech32Prefix network)" by (simp add: prefix_ok_def)
  then have d: "validateDelegatorAddress network (bdDelegator data) = Inr (trim (bdDelegator data))"
    using assms prefix_ok_trim[OF ok] by (simp add: data_valid_def validateDelegatorAddress_Inr)
  have v: "validateValidatorAddress network (bdValidator data) c = Inr (trim (bdValidator data))" for c
    using assms by (simp add: data_valid_def validateValidatorAddress_Inr)
  have a: "validateAmount (bdDelegateAmount data) = Inr (trim (bdDelegateAmount data))"
    "validateAmount (bdUndelegateAmount data) = Inr (trim (bdUndelegateAmount data))"
    using assms by (simp_all add: data_valid_def validateAmount_Inr)
  have coins: "\<exists>cn. coin (trim (bdDelegateAmount data)) (denom network) = Inr cn"
    "\<exists>cn. coin (trim (bdUndelegateAmount data)) (denom network) = Inr cn"
    using assms coin_positive unfolding data_valid_def by metis+
  from coins(1) show "sends (delegateToValidator coin mockNode network
      \<lparr>dg_delegator = bdDelegator data, dg_validator = bdValidator data, dg_amount = bdDelegateAmount data, dg_memo = memo\<rparr>)"
    by (auto simp: sends_def delegateToValidator_def d v a simp del: js_Cons)
  from coins(2) show "sends (undelegateFromValidator coin mockNode network
      \<lparr>ud_delegator = bdDelegator data, ud_validator = bdValidator data, ud_amount = bdUndelegateAmount data, ud_memo = memo\<rparr>)"
    by (auto simp: sends_def undelegateFromValidator_def d v a simp del: js_Cons)
  show "sends (withdrawValidatorRewards mockNode network
      \<lparr>wd_delegator = bdDelegator data, wd_validator = bdValidator data, wd_memo = memo\<rparr>)"
    by (auto simp: sends_def withdrawValidatorRewards_def d v simp del: js_Cons)
qed

lemma vote_sends:
  assumes "data_valid coin m network data"
  obtains input where "voteOf m data memo = Inr input" "sends (voteProposal mockNode network input)"
proof -
  obtain n where n: "bigIntText m (bdProposalId data) = Inr n" "0 < n"
    using assms by (auto simp: data_valid_def split: sum.splits)
  have "validateVoterAddress network (bdVoter data) = Inr (trim (bdVoter data))"
    using assms validateVoterAddress_cases[of network "bdVoter data"] by (simp add: data_valid_def)
  with n have "sends (voteProposal mockNode network
      \<lparr>voterAddress = bdVoter data, voteProposalId = n, voteOption = VoteYes, voteMemo = Some memo\<rparr>)"
    by (auto simp: sends_def voteProposal_def validateProposalId_def simp del: js_Cons)
  then show thesis using n by (intro that) (simp_all add: voteOf_def)
qed

lemmas action_defs = andThen_def onClient_def pushResponses_def getCallCount_def assertOk_def throwsCode_def consoleLog_def response_def

text \<open>A part of the script that passed: \<open>n\<close> more calls, nothing left in the queue, the lines printed.\<close>

definition passes :: "nat \<Rightarrow> jstring list \<Rightarrow> unit mock_action \<Rightarrow> bool" where
  "passes n ls m \<longleftrightarrow> (\<forall>s. remote (scState s) = [] \<longrightarrow> (\<exists>calls. length calls = n \<and>
     m s = (Inr (), s\<lparr>scState := (scState s)\<lparr>remote := [], sent := sent (scState s) @ calls\<rparr>, scOut := scOut s @ ls\<rparr>)))"

lemma passes_andThen:
  assumes "passes n ls m" "passes n' ls' m'"
  shows "passes (n + n') (ls @ ls') (andThen m (\<lambda>_. m'))"
  unfolding passes_def
proof (intro allI impI)
  fix s :: "DeliverTxResponse list client script"
  assume "remote (scState s) = []"
  then obtain calls where c: "length calls = n"
    "m s = (Inr (), s\<lparr>scState := (scState s)\<lparr>remote := [], sent := sent (scState s) @ calls\<rparr>, scOut := scOut s @ ls\<rparr>)"
    using assms(1) unfolding passes_def by blast
  let ?s = "s\<lparr>scState := (scState s)\<lparr>remote := [], sent := sent (scState s) @ calls\<rparr>, scOut := scOut s @ ls\<rparr>"
  obtain calls' where c': "length calls' = n'"
    "m' ?s = (Inr (), ?s\<lparr>scState := (scState ?s)\<lparr>remote := [], sent := sent (scState ?s) @ calls'\<rparr>, scOut := scOut ?s @ ls'\<rparr>)"
    using assms(2)[unfolded passes_def, rule_format, of ?s] by auto
  show "\<exists>calls. length calls = n + n' \<and> andThen m (\<lambda>_. m') s =
      (Inr (), s\<lparr>scState := (scState s)\<lparr>remote := [], sent := sent (scState s) @ calls\<rparr>, scOut := scOut s @ ls @ ls'\<rparr>)"
    by (rule exI[of _ "calls @ calls'"]) (simp add: andThen_def c c')
qed

definition TRANSFERS_PASSED :: jstring where
  "TRANSFERS_PASSED = [36716, 36134, 38142, 36335, 38598, 25104, 27979, 35797, 36890, 36807]"
definition STAKING_PASSED :: jstring where
  "STAKING_PASSED = [36136, 25276, 19982, 27835, 29702, 38142, 36335, 38598, 25104, 27979, 35797, 36890, 36807]"

lemma transferChecks_pass:
  assumes "data_valid coin m network data"
  shows "passes 3 [TRANSFERS_PASSED] (transferChecks coin network data)"
proof -
  obtain c1 where c1: "\<And>c r r' rs. remote c = r # r' # rs \<Longrightarrow> txCode r = 11 \<Longrightarrow> txCode r' = 0 \<Longrightarrow>
      sendNativeToken coin mockNode network (transferOf data (js ''integration-transfer'')) c =
        (Inr r', c\<lparr>remote := rs, sent := sent c @ [c1, c1]\<rparr>)"
    using sends_mock[OF transfer_sends[OF assms]] by metis
  obtain c2 where c2: "\<And>c r rs. remote c = r # rs \<Longrightarrow> txCode r \<notin> {0, 11, 32} \<Longrightarrow>
      sendNativeToken coin mockNode network (transferOf data (js ''integration-transfer-insufficient-funds'')) c =
        (awaitBroadcast (Inl (mapTxError (txCode r) (rawLog r))), c\<lparr>remote := rs, sent := sent c @ [c2]\<rparr>)"
    using sends_mock[OF transfer_sends[OF assms]] by metis
  show ?thesis
    unfolding passes_def
    by (intro allI impI exI[of _ "[c1, c1, c2]"])
      (simp add: transferChecks_def action_defs c1 c2 throws_mapped[OF mapped_codes(1)] TRANSFERS_PASSED_def del: js_Cons awaitBroadcast.simps)
qed

lemma stakingChecks_pass:
  assumes "data_valid coin m network data"
  shows "passes 4 [] (stakingChecks coin network data)"
proof -
  note s = staking_sends[OF assms]
  obtain c1 where c1: "\<And>c r r' rs. remote c = r # r' # rs \<Longrightarrow> txCode r = 11 \<Longrightarrow> txCode r' = 0 \<Longrightarrow>
      delegateToValidator coin mockNode network \<lparr>dg_delegator = bdDelegator data, dg_validator = bdValidator data,
        dg_amount = bdDelegateAmount data, dg_memo = Some (js ''integration-delegate'')\<rparr> c = (Inr r', c\<lparr>remote := rs, sent := sent c @ [c1, c1]\<rparr>)"
    using sends_mock[OF s(1)] by metis
  obtain c2 where c2: "\<And>c r rs. remote c = r # rs \<Longrightarrow> txCode r = 0 \<Longrightarrow>
      undelegateFromValidator coin mockNode network \<lparr>ud_delegator = bdDelegator data, ud_validator = bdValidator data,
        ud_amount = bdUndelegateAmount data, ud_memo = Some (js ''integration-undelegate'')\<rparr> c = (Inr r, c\<lparr>remote := rs, sent := sent c @ [c2]\<rparr>)"
    using sends_mock[OF s(2)] by metis
  obtain c3 where c3: "\<And>c r rs. remote c = r # rs \<Longrightarrow> txCode r = 0 \<Longrightarrow>
      withdrawValidatorRewards mockNode network \<lparr>wd_delegator = bdDelegator data, wd_validator = bdValidator data,
        wd_memo = Some (js ''integration-withdraw'')\<rparr> c = (Inr r, c\<lparr>remote := rs, sent := sent c @ [c3]\<rparr>)"
    using sends_mock[OF s(3)] by metis
  show ?thesis
    unfolding passes_def
    by (intro allI impI exI[of _ "[c1, c1, c2, c3]"]) (simp add: stakingChecks_def action_defs c1 c2 c3 del: js_Cons)
qed

lemma voteChecks_pass:
  assumes "data_valid coin m network data"
  shows "passes 2 [STAKING_PASSED] (voteChecks m network data)"
proof -
  obtain i1 where i1: "voteOf m data (js ''integration-vote'') = Inr i1" "sends (voteProposal mockNode network i1)"
    using vote_sends[OF assms] by metis
  obtain i2 where i2: "voteOf m data (js ''integration-vote-unauthorized'') = Inr i2" "sends (voteProposal mockNode network i2)"
    using vote_sends[OF assms] by metis
  obtain c1 where c1: "\<And>c r rs. remote c = r # rs \<Longrightarrow> txCode r = 0 \<Longrightarrow>
      voteProposal mockNode network i1 c = (Inr r, c\<lparr>remote := rs, sent := sent c @ [c1]\<rparr>)"
    using sends_mock[OF i1(2)] by metis
  obtain c2 where c2: "\<And>c r rs. remote c = r # rs \<Longrightarrow> txCode r \<notin> {0, 11, 32} \<Longrightarrow>
      voteProposal mockNode network i2 c = (awaitBroadcast (Inl (mapTxError (txCode r) (rawLog r))), c\<lparr>remote := rs, sent := sent c @ [c2]\<rparr>)"
    using sends_mock[OF i2(2)] by metis
  show ?thesis
    unfolding passes_def
    by (intro allI impI exI[of _ "[c1, c2]"])
      (simp add: voteChecks_def castVote_def i1 i2 action_defs c1 c2 throws_mapped[OF mapped_codes(2)] STAKING_PASSED_def
        del: js_Cons awaitBroadcast.simps)
qed

lemma runTxIntegration_passes:
  assumes "data_valid coin m network data"
  shows "passes 9 [TRANSFERS_PASSED, STAKING_PASSED] (runTxIntegration coin m network data)"
proof -
  have "passes (3 + (4 + 2)) ([TRANSFERS_PASSED] @ [] @ [STAKING_PASSED]) (runTxIntegration coin m network data)"
    unfolding runTxIntegration_def
    by (intro passes_andThen transferChecks_pass[OF assms] stakingChecks_pass[OF assms] voteChecks_pass[OF assms])
  then show ?thesis by simp
qed

lemma runTxIntegration_calls:
  assumes "data_valid coin m network data"
  shows "\<exists>calls. length calls = 9 \<and>
    runTxIntegration coin m network data \<lparr>scState = \<lparr>remote = [], sent = []\<rparr>, scOut = printed\<rparr> =
      (Inr (), \<lparr>scState = \<lparr>remote = [], sent = calls\<rparr>, scOut = printed @ [TRANSFERS_PASSED, STAKING_PASSED]\<rparr>)"
  using runTxIntegration_passes[OF assms, unfolded passes_def, rule_format,
      of "\<lparr>scState = \<lparr>remote = [], sent = []\<rparr>, scOut = printed\<rparr>"] by simp

text \<open>
  The five lines of a run that skips the network: the test starts, the transfer path passed, the staking and governance path
  passed, the network queries are skipped (with the variable that says so), the test is complete.
\<close>

definition integrationLines :: "jstring list" where
  "integrationLines =
     [[38065, 21253, 19994, 21153, 38598, 25104, 27979, 35797, 24320, 22987],
      [36716, 36134, 38142, 36335, 38598, 25104, 27979, 35797, 36890, 36807],
      [36136, 25276, 19982, 27835, 29702, 38142, 36335, 38598, 25104, 27979, 35797, 36890, 36807],
      [24050, 36339, 36807, 32593, 32476, 26597, 35810, 38598, 25104, 27979, 35797, 65288]
        @ js ''SOULON_SKIP_NETWORK_TEST=true/1/yes'' @ [65289],
      [38065, 21253, 19994, 21153, 38598, 25104, 27979, 35797, 23436, 25104]]"

lemma integration_skipping_network:
  assumes "data_valid coin m network data"
  shows "walletIntegration coin m api True network data w =
    (\<lparr>outLines = integrationLines, errLines = [], exitCode = 0\<rparr>, w)"
proof -
  obtain calls where "runTxIntegration coin m network data
      \<lparr>scState = \<lparr>remote = [], sent = []\<rparr>, scOut = [INTEGRATION_TEXT @ [24320, 22987]]\<rparr> =
      (Inr (), \<lparr>scState = \<lparr>remote = [], sent = calls\<rparr>,
        scOut = [INTEGRATION_TEXT @ [24320, 22987]] @ [TRANSFERS_PASSED, STAKING_PASSED]\<rparr>)"
    using runTxIntegration_calls[OF assms] by blast
  then show ?thesis
    by (simp add: walletIntegration_def runQueryIntegration_def consoleLog_def)
      (simp add: integrationLines_def INTEGRATION_TEXT_def TRANSFERS_PASSED_def STAKING_PASSED_def)
qed

text \<open>
  The integration test of the SDK passes for every valid configuration. With addresses of the network, positive amounts and a
  positive proposal id, every assertion on transactions holds: a transfer and a delegation rejected for gas are retried
  once and succeed, the rejected transfer and the rejected vote throw the mapped wallet errors, undelegation, withdrawal
  and vote succeed at once; the client sees exactly nine calls and the queue of responses is used up. With the network
  skipped the script prints its five lines, exits with 0 and touches nothing.
\<close>

theorem integration_test_passes:
  assumes "data_valid coin m network data"
  shows "(\<exists>calls. length calls = 9 \<and>
      runTxIntegration coin m network data \<lparr>scState = \<lparr>remote = [], sent = []\<rparr>, scOut = printed\<rparr> =
        (Inr (), \<lparr>scState = \<lparr>remote = [], sent = calls\<rparr>, scOut = printed @ [TRANSFERS_PASSED, STAKING_PASSED]\<rparr>)) \<and>
    walletIntegration coin m api True network data w =
      (\<lparr>outLines = integrationLines, errLines = [], exitCode = 0\<rparr>, w)"
  by (rule conjI[OF runTxIntegration_calls[OF assms] integration_skipping_network[OF assms]])

text \<open>The data file of the repository.\<close>

definition deploy_data :: business_data where
  "deploy_data = \<lparr>bdDelegator = js ''soulon1x9j33g5z6vxy8y5g4z2n6f0a9y8a5y7h3k7p9'',
     bdValidator = js ''soulonvaloper1x9j33g5z6vxy8y5g4z2n6f0a9y8a5y7h4q9'',
     bdVoter = js ''soulon1x9j33g5z6vxy8y5g4z2n6f0a9y8a5y7h3k7p9'', bdProposalId = js ''1'', bdDelegateAmount = js ''1000'',
     bdUndelegateAmount = js ''500'', bdTransferFrom = None, bdTransferTo = None, bdTransferAmount = None\<rparr>"

lemma deploy_addresses:
  "address_of_prefix (js ''soulon'') (js ''soulon1x9j33g5z6vxy8y5g4z2n6f0a9y8a5y7h3k7p9'')"
  "validator_address (js ''soulon'') (js ''soulonvaloper1x9j33g5z6vxy8y5g4z2n6f0a9y8a5y7h4q9'')"
proof -
  show "address_of_prefix (js ''soulon'') (js ''soulon1x9j33g5z6vxy8y5g4z2n6f0a9y8a5y7h3k7p9'')"
    unfolding address_of_prefix_def
    by (rule exI[of _ "js ''x9j33g5z6vxy8y5g4z2n6f0a9y8a5y7h3k7p9''"]) (simp add: in_class_def BECH32_CLASS_def)
  show "validator_address (js ''soulon'') (js ''soulonvaloper1x9j33g5z6vxy8y5g4z2n6f0a9y8a5y7h4q9'')"
    unfolding validator_address_def
    by (rule exI[of _ "js ''x9j33g5z6vxy8y5g4z2n6f0a9y8a5y7h4q9''"]) (simp add: in_class_def BECH32_CLASS_def)
qed

lemma deploy_data_valid: "data_valid demo_coin [] (getNetworkConfig Dev) deploy_data"
proof -
  have plain: "trim t = t" if "list_all (\<lambda>c. 33 \<le> c \<and> c < 127) t" for t
    using that by (intro trim_id trimmed_no_white) (auto simp: list_all_iff isWhite_def)
  have t: "trim (js ''soulon1x9j33g5z6vxy8y5g4z2n6f0a9y8a5y7h3k7p9'') = js ''soulon1x9j33g5z6vxy8y5g4z2n6f0a9y8a5y7h3k7p9''"
    "trim (js ''soulonvaloper1x9j33g5z6vxy8y5g4z2n6f0a9y8a5y7h4q9'') = js ''soulonvaloper1x9j33g5z6vxy8y5g4z2n6f0a9y8a5y7h4q9''"
    "trim (js ''1000'') = js ''1000''" "trim (js ''500'') = js ''500''" "trim (js ''1'') = js ''1''"
    by (rule plain, simp)+
  have p: "bech32Prefix (getNetworkConfig Dev) = js ''soulon''" by (simp add: getNetworkConfig_def del: js_Cons)
  have n: "positive_integer (js ''1000'')" "positive_integer (js ''500'')" "positive_integer (js ''1'')"
    by (simp_all add: positive_integer_def isDigit_def digitsValue_def)
  have "bigIntText [] (js ''1'') = Inr 1" unfolding bigIntText_def t by (simp add: isDigit_def digitsValue_def)
  then show ?thesis
    unfolding data_valid_def deploy_data_def business_data.simps p t orDefault_def
    using deploy_addresses n demo_coin_accepts_digits networks_prefix_ok by (simp del: js_Cons)
qed

definition demo_api :: "(unit, json, nat) fetch_api" where
  "demo_api = \<lparr>fetch = (\<lambda>url w. (Inr (), Suc w)), json = (\<lambda>r w. (Inr JNull, w))\<rparr>"

theorem integration_test_passes_witness:
  "exitCode (fst (walletIntegration demo_coin [] demo_api True (getNetworkConfig Dev) deploy_data 0)) = 0"
  using integration_test_passes[OF deploy_data_valid, of "[]" demo_api 0] by auto

end
