(* ===== verification/E2EScript.thy ===== *)
theory E2EScript
  imports IntegrationScripts
begin

text \<open>
  \<open>soulon-wallet/scripts/wallet-testnet-e2e.mjs\<close>: a wallet is made from a mnemonic, a transfer is sent and its receipt awaited, against mocks when
  the network is skipped and against the network otherwise. CosmJS is a parameter: how it makes wallets and accounts, and the
  signing and query clients that it connects. Waiting may not end, so a run is partial as \<open>waitForTx\<close> is. A run gives the lines it
  printed and its outcome.
\<close>

record e2e_data =
  edSenderMnemonic :: "jstring option"
  edRecipient :: "jstring option"
  edTransferAmount :: "jstring option"
  edMemo :: "jstring option"
  edTimeoutMs :: "int option"
  edPollIntervalMs :: "int option"
  edOfflineMnemonic :: "jstring option"
  edOfflineRecipient :: "jstring option"
  edOfflineHeight :: "int option"

text \<open>\<open>Number(value || fallback)\<close> for a number that may be absent.\<close>

definition orNumber :: "int option \<Rightarrow> int \<Rightarrow> int" where
  "orNumber v fallback = (case v of Some n \<Rightarrow> if n = 0 then fallback else n | None \<Rightarrow> fallback)"

definition loadE2EData :: "(rat \<Rightarrow> jsnum) \<Rightarrow> jstring \<Rightarrow> jstring option \<Rightarrow> jstring option \<Rightarrow> (thrown, json) result" where
  "loadE2EData rnd parseMessage dataFile exampleFile =
     (case (if dataFile \<noteq> None then dataFile else exampleFile) of
        None \<Rightarrow> Inl (ThrownError (LACKS_TEXT @ js '' deploy/e2e-test-data.json '' @ [25110] @ js '' deploy/e2e-test-data.example.json''))
      | Some text \<Rightarrow> (case JSON_parse rnd text of None \<Rightarrow> Inl (ThrownError parseMessage) | Some j \<Rightarrow> Inr j))"

definition OFFLINE_MNEMONIC :: jstring where
  "OFFLINE_MNEMONIC = js ''abandon abandon abandon abandon abandon abandon abandon abandon abandon abandon abandon about''"

type_synonym 'w e2e = "((thrown, unit) result \<times> jstring list \<times> 'w client host) option"

section \<open>The offline drill\<close>

definition offlineNode :: "'w node" where
  "offlineNode call w = (Inr (response 0 ''OFFLINE_E2E_HASH'' ''''), w)"

definition offlineGetTx :: "int \<Rightarrow> 'c getTx" where
  "offlineGetTx height hash h = (Inr (Some height), h)"

text \<open>\<open>openWallet\<close>: the signer from the mnemonic and its first account.\<close>

definition openWallet ::
  "('path, 'signer) fromMnemonic \<Rightarrow> ('signer \<Rightarrow> (thrown, jstring list) result) \<Rightarrow> NetworkConfig \<Rightarrow> jstring \<Rightarrow> (thrown, 'signer \<times> jstring) result" where
  "openWallet fromMnemonic getAccounts network words =
     ebind (createWalletFromMnemonic fromMnemonic
       \<lparr>mnemonic = words, walletPrefix = bech32Prefix network, bip39Passphrase = None\<rparr>) (\<lambda>walletSigner.
     ebind (getFirstAccountAddress getAccounts walletSigner None) (\<lambda>fromAddr. Inr (walletSigner, fromAddr)))"

definition runOfflineDrill ::
  "('path, 'signer) fromMnemonic \<Rightarrow> ('signer \<Rightarrow> (thrown, jstring list) result) \<Rightarrow> coin_fn \<Rightarrow> NetworkConfig \<Rightarrow> e2e_data
     \<Rightarrow> 'w client host \<Rightarrow> 'w e2e" where
  "runOfflineDrill fromMnemonic getAccounts coin network data h =
     (case openWallet fromMnemonic getAccounts network (orDefault (edOfflineMnemonic data) OFFLINE_MNEMONIC) of
        Inl e \<Rightarrow> Some (Inl e, [], h)
      | Inr (walletSigner, fromAddr) \<Rightarrow>
          (case sendNativeToken coin offlineNode network
             \<lparr>fromAddress = fromAddr, toAddress = orDefault (edOfflineRecipient data) fromAddr,
              transferAmount = orDefault (edTransferAmount data) (js ''1''), transferMemo = Some (js ''wallet-e2e-offline'')\<rparr> (chainState h) of
             (Inl e, c) \<Rightarrow> Some (Inl e, [], h\<lparr>chainState := c\<rparr>)
           | (Inr txResult, c) \<Rightarrow>
               (if txCode txResult \<noteq> 0 then Some (Inl (ThrownError [31163, 32447, 36716, 36134, 28436, 32451, 22833, 36133]), [], h\<lparr>chainState := c\<rparr>)
                else case waitForTx (offlineGetTx (orNumber (edOfflineHeight data) 1))
                  \<lparr>waitHash = transactionHash txResult, timeoutMs = Some (orNumber (edTimeoutMs data) 5000),
                   pollIntervalMs = Some (orNumber (edPollIntervalMs data) 500)\<rparr> (h\<lparr>chainState := c\<rparr>) of
                  None \<Rightarrow> None
                | Some (Inl e, h') \<Rightarrow> Some (Inl e, [], h')
                | Some (Inr receipt, h') \<Rightarrow>
                    if pollStatus receipt \<noteq> Confirmed then Some (Inl (ThrownError [31163, 32447, 22238, 25191, 30830, 35748, 22833, 36133]), [], h')
                    else Some (Inr (), [[31163, 32447, 27169, 24335, 36890, 36807] @ js '': address='' @ fromAddr @ js '', hash='' @ transactionHash txResult], h'))))"

section \<open>The run on the network\<close>

definition ONLINE_LACKS :: jstring where "ONLINE_LACKS = [22312, 32447, 27169, 24335, 32570, 23569] @ js '' ''"

text \<open>
  \<open>connectSigner\<close> and \<open>connectQuery\<close> are the connections of \<open>createSigningClient\<close> and \<open>createQueryClient\<close>: what a connected client does.
\<close>

definition accountLine :: "jstring \<Rightarrow> jstring" where
  "accountLine fromAddr = [36134, 25143, 35835, 21462, 25104, 21151] @ js '': '' @ fromAddr"

definition sentLine :: "DeliverTxResponse \<Rightarrow> jstring" where
  "sentLine txResult = [36716, 36134, 25552, 20132, 25104, 21151] @ js '': hash='' @ transactionHash txResult"

definition runOnlineE2E ::
  "('path, 'signer) fromMnemonic \<Rightarrow> ('signer \<Rightarrow> (thrown, jstring list) result) \<Rightarrow> (jstring \<Rightarrow> (thrown, 'price) result)
     \<Rightarrow> (jstring \<Rightarrow> 'signer \<Rightarrow> 'price \<Rightarrow> (thrown, 'w node) result) \<Rightarrow> (jstring \<Rightarrow> (thrown, 'w client getTx) result)
     \<Rightarrow> coin_fn \<Rightarrow> NetworkConfig \<Rightarrow> e2e_data \<Rightarrow> 'w client host \<Rightarrow> 'w e2e" where
  "runOnlineE2E fromMnemonic getAccounts priceFromString connectSigner connectQuery coin network data h =
     (if orDefault (edSenderMnemonic data) [] = [] then Some (Inl (ThrownError (ONLINE_LACKS @ js ''senderMnemonic'')), [], h)
      else if orDefault (edRecipient data) [] = [] then Some (Inl (ThrownError (ONLINE_LACKS @ js ''recipientAddress'')), [], h)
      else if orDefault (edTransferAmount data) [] = [] then Some (Inl (ThrownError (ONLINE_LACKS @ js ''transferAmount'')), [], h)
      else case openWallet fromMnemonic getAccounts network (orDefault (edSenderMnemonic data) []) of
        Inl e \<Rightarrow> Some (Inl e, [], h)
      | Inr (walletSigner, fromAddr) \<Rightarrow>
          (case createSigningClient priceFromString connectSigner network walletSigner of
             Inl e \<Rightarrow> Some (Inl e, [accountLine fromAddr], h)
           | Inr node \<Rightarrow>
               (case sendNativeToken coin node network
                  \<lparr>fromAddress = fromAddr, toAddress = orDefault (edRecipient data) [], transferAmount = orDefault (edTransferAmount data) [],
                   transferMemo = Some (orDefault (edMemo data) (js ''wallet-e2e-testnet''))\<rparr> (chainState h) of
                  (Inl e, c) \<Rightarrow> Some (Inl e, [accountLine fromAddr], h\<lparr>chainState := c\<rparr>)
                | (Inr txResult, c) \<Rightarrow>
                    (if txCode txResult \<noteq> 0
                     then Some (Inl (ThrownError ([36716, 36134, 25552, 20132, 22833, 36133] @ js '': code='' @ intString (txCode txResult))), [accountLine fromAddr], h\<lparr>chainState := c\<rparr>)
                     else case createQueryClient connectQuery network of
                       Inl e \<Rightarrow> Some (Inl e, [accountLine fromAddr, sentLine txResult], h\<lparr>chainState := c\<rparr>)
                     | Inr getTx \<Rightarrow>
                         (case waitForTx getTx
                            \<lparr>waitHash = transactionHash txResult, timeoutMs = Some (orNumber (edTimeoutMs data) 60000),
                             pollIntervalMs = Some (orNumber (edPollIntervalMs data) 2000)\<rparr> (h\<lparr>chainState := c\<rparr>) of
                            None \<Rightarrow> None
                          | Some (Inl e, h') \<Rightarrow> Some (Inl e, [accountLine fromAddr, sentLine txResult], h')
                          | Some (Inr receipt, h') \<Rightarrow>
                              if pollStatus receipt \<noteq> Confirmed
                              then Some (Inl (ThrownError [22312, 32447, 27169, 24335, 22238, 25191, 30830, 35748, 36229, 26102]), [accountLine fromAddr, sentLine txResult], h')
                              else Some (Inr (), [accountLine fromAddr, sentLine txResult,
                                [22238, 25191, 30830, 35748, 25104, 21151] @ js '': height='' @
                                  (case pollHeight receipt of Some n \<Rightarrow> intString n | None \<Rightarrow> js ''undefined'')], h'))))))"

definition E2E_TEXT :: jstring where "E2E_TEXT = [38065, 21253, 27979, 35797, 32593] @ js '' E2E ''"

text \<open>\<open>main\<close> with its \<open>catch\<close>, given the outcome of the run that the switch selects.\<close>

definition walletE2E :: "'w e2e \<Rightarrow> (script_end \<times> 'w client host) option" where
  "walletE2E run =
     (case run of
        None \<Rightarrow> None
      | Some (Inl e, ls, h) \<Rightarrow> Some (\<lparr>outLines = (E2E_TEXT @ [24320, 22987]) # ls, errLines = [E2E_TEXT @ [22833, 36133], thrownLine e], exitCode = 1\<rparr>, h)
      | Some (Inr _, ls, h) \<Rightarrow> Some (\<lparr>outLines = (E2E_TEXT @ [24320, 22987]) # ls @ [E2E_TEXT @ [23436, 25104]], errLines = [], exitCode = 0\<rparr>, h))"

section \<open>Properties\<close>

lemma offline_accepts:
  "broadcastTx offlineNode (Inr call) c = (Inr (response 0 ''OFFLINE_E2E_HASH'' ''''), c\<lparr>sent := sent c @ [call]\<rparr>)"
  by (simp add: broadcastTx_def broadcastWithRetry_def broadcast_loop.simps broadcast_round_def broadcastCall_def broadcast_start_def
      signAndBroadcast_def offlineNode_def no_retry_options_def response_def Let_def del: js_Cons)

lemma offline_found:
  "0 < t \<Longrightarrow> waitForTx (offlineGetTx n) \<lparr>waitHash = hash, timeoutMs = Some t, pollIntervalMs = i\<rparr> h =
     Some (Inr \<lparr>pollHash = hash, pollStatus = Confirmed, pollHeight = Some n\<rparr>, h)"
  by (simp add: waitForTx_def wait_loop.simps offlineGetTx_def Let_def)

text \<open>
  The offline drill passes whenever the wallet library makes a wallet with an account, the amount is digits
  and the waiting time is positive: it returns, the transfer was signed exactly once, by that account, and the line names the account and the hash.
\<close>

theorem offline_drill_passes:
  assumes "openWallet fromMnemonic getAccounts network (orDefault (edOfflineMnemonic data) OFFLINE_MNEMONIC) = Inr (walletSigner, fromAddr)"
    and "coin_accepts_digits coin" "list_all isDigit (orDefault (edTransferAmount data) (js ''1''))" "0 < orNumber (edTimeoutMs data) 5000"
  shows "\<exists>h' call. runOfflineDrill fromMnemonic getAccounts coin network data h =
    Some (Inr (), [[31163, 32447, 27169, 24335, 36890, 36807] @ js '': address='' @ fromAddr @ js '', hash='' @ js ''OFFLINE_E2E_HASH''], h') \<and>
    sent (chainState h') = sent (chainState h) @ [call] \<and> SignCall.signer call = fromAddr"
proof -
  have "orDefault (edTransferAmount data) (js ''1'') \<noteq> []" by (auto simp: orDefault_def split: option.split)
  then obtain cn where "coin (orDefault (edTransferAmount data) (js ''1'')) (denom network) = Inr cn"
    using assms(2,3) unfolding coin_accepts_digits_def by blast
  then show ?thesis
    using assms(1,4)
    by (simp add: runOfflineDrill_def sendNativeToken_def buildNativeTransferMessage_def offline_accepts offline_found response_def del: js_Cons)
qed

definition demo_fromMnemonic :: "(unit, jstring) fromMnemonic" where
  "demo_fromMnemonic words p paths pass = Inr (p @ js ''1qqqqqq'')"

definition demo_e2e :: e2e_data where
  "demo_e2e = \<lparr>edSenderMnemonic = None, edRecipient = None, edTransferAmount = Some (js ''1''), edMemo = None, edTimeoutMs = Some 60000,
     edPollIntervalMs = Some 2000, edOfflineMnemonic = None, edOfflineRecipient = None, edOfflineHeight = Some 1\<rparr>"

definition demo_host_e2e :: "unit client host" where
  "demo_host_e2e = \<lparr>clock = 0, lag = (\<lambda>_. 0), chainState = \<lparr>remote = (), sent = []\<rparr>\<rparr>"

lemma offline_words: "length (splitWhite (trim OFFLINE_MNEMONIC)) = 12" "trim OFFLINE_MNEMONIC \<noteq> []"
  by (simp_all add: OFFLINE_MNEMONIC_def trim_def trimStart_def trimEnd_def isWhite_def splitWhite.simps)

lemma demo_wallet:
  "openWallet demo_fromMnemonic (\<lambda>a. Inr [a]) (getNetworkConfig Dev) OFFLINE_MNEMONIC = Inr (js ''soulon1qqqqqq'', js ''soulon1qqqqqq'')"
proof -
  obtain ws where "validateMnemonic OFFLINE_MNEMONIC = Inr ws"
    using offline_words by (auto simp: validateMnemonic_Inr BIP39_WORD_COUNTS_def)
  moreover have p: "bech32Prefix (getNetworkConfig Dev) = js ''soulon''" by (simp add: getNetworkConfig_def del: js_Cons)
  moreover have "validatePrefix (js ''soulon'') = Inr (js ''soulon'')"
    using networks_prefix_ok[of Dev] prefix_ok_trim[OF networks_prefix_ok[of Dev]] unfolding p prefix_ok_def
    by (simp add: validatePrefix_Inr p del: js_Cons)
  ultimately show ?thesis
    by (simp add: openWallet_def createWalletFromMnemonic_def getFirstAccountAddress_def demo_fromMnemonic_def del: js_Cons) simp
qed

theorem offline_drill_passes_witness:
  "\<exists>h' call. runOfflineDrill demo_fromMnemonic (\<lambda>a. Inr [a]) demo_coin (getNetworkConfig Dev) demo_e2e demo_host_e2e =
     Some (Inr (), [[31163, 32447, 27169, 24335, 36890, 36807] @ js '': address='' @ js ''soulon1qqqqqq'' @ js '', hash='' @ js ''OFFLINE_E2E_HASH''], h') \<and>
     sent (chainState h') = [call] \<and> SignCall.signer call = js ''soulon1qqqqqq''"
proof -
  have d: "orDefault (edOfflineMnemonic demo_e2e) OFFLINE_MNEMONIC = OFFLINE_MNEMONIC" "orDefault (edTransferAmount demo_e2e) (js ''1'') = js ''1''"
    "orNumber (edTimeoutMs demo_e2e) 5000 = 60000"
    by (simp_all add: demo_e2e_def orDefault_def orNumber_def)
  have "list_all isDigit (js ''1'')" by (simp add: isDigit_def)
  moreover have "sent (chainState demo_host_e2e) = []" by (simp add: demo_host_e2e_def)
  ultimately show ?thesis
    using offline_drill_passes[of demo_fromMnemonic "\<lambda>a. Inr [a]" "getNetworkConfig Dev" demo_e2e, unfolded d, OF demo_wallet demo_coin_accepts_digits,
        of demo_host_e2e]
    by (simp del: js_Cons)
qed

lemma waitForTx_confirmed:
  assumes "waitForTx getTx input h = Some (Inr receipt, h')" "pollStatus receipt = Confirmed"
  shows "\<exists>height h0. getTx (waitHash input) h0 = (Inr (Some height), h')"
proof -
  have "poll_sound getTx (waitHash input) (clock h + nullish (timeoutMs input) 60000) (Inr receipt) h'"
    using assms(1) unfolding waitForTx_def Let_def by (rule wait_loop_sound)
  then show ?thesis using assms(2) by (cases "pollHeight receipt") (auto simp: poll_sound_def)
qed

text \<open>
  C37: a run on the network that reports success is true: the node accepted a transfer signed by the account of the wallet to the
  configured recipient with the configured amount, and the receipt, of that very transaction, was confirmed.
\<close>

theorem online_success_is_confirmed:
  assumes "runOnlineE2E fromMnemonic getAccounts priceFromString connectSigner connectQuery coin network data h = Some (Inr (), ls, h')"
  shows "\<exists>walletSigner fromAddr node cn call tx w w' getTx height h0.
    openWallet fromMnemonic getAccounts network (orDefault (edSenderMnemonic data) []) = Inr (walletSigner, fromAddr) \<and>
    createSigningClient priceFromString connectSigner network walletSigner = Inr node \<and>
    coin (orDefault (edTransferAmount data) []) (denom network) = Inr cn \<and>
    messages call = [\<lparr>typeUrl = js ''/cosmos.bank.v1beta1.MsgSend'', msgValue = MsgSend fromAddr (orDefault (edRecipient data) []) [cn]\<rparr>] \<and>
    SignCall.signer call = fromAddr \<and> node call w = (Inr tx, w') \<and> txCode tx = 0 \<and>
    createQueryClient connectQuery network = Inr getTx \<and> getTx (transactionHash tx) h0 = (Inr (Some height), h')"
proof -
  obtain walletSigner fromAddr node tx c getTx receipt where run:
    "openWallet fromMnemonic getAccounts network (orDefault (edSenderMnemonic data) []) = Inr (walletSigner, fromAddr)"
    "createSigningClient priceFromString connectSigner network walletSigner = Inr node"
    "sendNativeToken coin node network
       \<lparr>fromAddress = fromAddr, toAddress = orDefault (edRecipient data) [], transferAmount = orDefault (edTransferAmount data) [],
        transferMemo = Some (orDefault (edMemo data) (js ''wallet-e2e-testnet''))\<rparr> (chainState h) = (Inr tx, c)"
    "createQueryClient connectQuery network = Inr getTx"
    "waitForTx getTx \<lparr>waitHash = transactionHash tx, timeoutMs = Some (orNumber (edTimeoutMs data) 60000),
       pollIntervalMs = Some (orNumber (edPollIntervalMs data) 2000)\<rparr> (h\<lparr>chainState := c\<rparr>) = Some (Inr receipt, h')"
    "pollStatus receipt = Confirmed"
    using assms unfolding runOnlineE2E_def
    by (auto simp del: js_Cons split: if_splits sum.splits prod.splits option.splits)
  obtain height h0 where found: "getTx (transactionHash tx) h0 = (Inr (Some height), h')"
    using waitForTx_confirmed[OF run(5,6)] by auto
  have "fst (sendNativeToken coin node network
       \<lparr>fromAddress = fromAddr, toAddress = orDefault (edRecipient data) [], transferAmount = orDefault (edTransferAmount data) [],
        transferMemo = Some (orDefault (edMemo data) (js ''wallet-e2e-testnet''))\<rparr> (chainState h)) = Inr tx" using run(3) by simp
  from transfer.returned[OF this] obtain cn w w' where tx:
    "coin (orDefault (edTransferAmount data) []) (denom network) = Inr cn" "txCode tx = 0"
    "node \<lparr>signer = fromAddr, messages = [\<lparr>typeUrl = js ''/cosmos.bank.v1beta1.MsgSend'',
        msgValue = MsgSend fromAddr (orDefault (edRecipient data) []) [cn]\<rparr>], fee = js ''auto'',
        callMemo = orDefault (edMemo data) (js ''wallet-e2e-testnet'')\<rparr> w = (Inr tx, w')" (is "node ?call w = _")
    by (auto simp: buildNativeTransferMessage_def ebind_eq_Inr simp del: js_Cons)
  have call: "messages ?call = [\<lparr>typeUrl = js ''/cosmos.bank.v1beta1.MsgSend'',
      msgValue = MsgSend fromAddr (orDefault (edRecipient data) []) [cn]\<rparr>]" "SignCall.signer ?call = fromAddr" by simp_all
  show ?thesis
    by (rule exI[of _ walletSigner], rule exI[of _ fromAddr], rule exI[of _ node], rule exI[of _ cn], rule exI[of _ ?call])
      (use run(1,2,4) tx found call in blast)
qed

definition demo_online :: e2e_data where
  "demo_online = demo_e2e\<lparr>edSenderMnemonic := Some OFFLINE_MNEMONIC, edRecipient := Some (js ''b'')\<rparr>"

definition demo_host_online :: "nat client host" where
  "demo_host_online = \<lparr>clock = 0, lag = (\<lambda>_. 0), chainState = \<lparr>remote = 0, sent = []\<rparr>\<rparr>"

lemma demo_accepts:
  "broadcastTx demo_node (Inr call) c =
     (Inr \<lparr>txCode = 0, transactionHash = js ''AB'', rawLog = None\<rparr>, c\<lparr>remote := Suc (remote c), sent := sent c @ [call]\<rparr>)"
  by (simp add: broadcastTx_def broadcastWithRetry_def broadcast_loop.simps broadcast_round_def broadcastCall_def broadcast_start_def
      signAndBroadcast_def demo_node_def no_retry_options_def Let_def del: js_Cons)

lemma demo_online_succeeds:
  "\<exists>ls h'. runOnlineE2E demo_fromMnemonic (\<lambda>a. Inr [a]) (\<lambda>_. Inr ()) (\<lambda>_ _ _. Inr demo_node) (\<lambda>_. Inr demo_found) demo_coin
     (getNetworkConfig Dev) demo_online demo_host_online = Some (Inr (), ls, h')"
proof -
  have d: "orDefault (edSenderMnemonic demo_online) [] = OFFLINE_MNEMONIC" "orDefault (edRecipient demo_online) [] = js ''b''"
    "orDefault (edTransferAmount demo_online) [] = js ''1''" "orNumber (edTimeoutMs demo_online) 60000 = 60000"
    by (simp_all add: demo_online_def demo_e2e_def orDefault_def orNumber_def OFFLINE_MNEMONIC_def)
  have "OFFLINE_MNEMONIC \<noteq> []" "list_all isDigit (js ''1'')" by (simp_all add: OFFLINE_MNEMONIC_def isDigit_def)
  then show ?thesis
    by (simp add: runOnlineE2E_def d demo_wallet createSigningClient_def createQueryClient_def sendNativeToken_def
        buildNativeTransferMessage_def demo_coin_def demo_accepts waitForTx_def wait_loop.simps demo_found_def Let_def del: js_Cons) simp
qed

theorem online_success_is_confirmed_witness:
  "\<exists>call tx w w'. demo_node call w = (Inr tx, w') \<and> txCode tx = 0 \<and> SignCall.signer call = js ''soulon1qqqqqq''"
proof -
  obtain ls h' where "runOnlineE2E demo_fromMnemonic (\<lambda>a. Inr [a]) (\<lambda>_. Inr ()) (\<lambda>_ _ _. Inr demo_node) (\<lambda>_. Inr demo_found) demo_coin
     (getNetworkConfig Dev) demo_online demo_host_online = Some (Inr (), ls, h')" using demo_online_succeeds by blast
  moreover have "orDefault (edSenderMnemonic demo_online) [] = OFFLINE_MNEMONIC"
    by (simp add: demo_online_def orDefault_def OFFLINE_MNEMONIC_def)
  ultimately show ?thesis
    using online_success_is_confirmed[of demo_fromMnemonic "\<lambda>a. Inr [a]" "\<lambda>_. Inr ()" "\<lambda>_ _ _. Inr demo_node"
        "\<lambda>_. Inr demo_found" demo_coin "getNetworkConfig Dev" demo_online demo_host_online]
    by (auto simp: demo_wallet createSigningClient_def simp del: js_Cons)
qed

end
