(* ===== verification/ScriptFiles.thy ===== *)
theory ScriptFiles
  imports E2EScript
begin

text \<open>
  The two test scripts of the SDK as programs: from the files under \<open>deploy/\<close> and the environment of the process to what is
  printed and the exit code. \<open>files\<close> gives the text of a file, \<open>None\<close> for a file that does not exist. The test data are taken
  at the types of the example files (texts, and integers for times and heights); for other data, or for an environment in which a member of the network is not set,
  the result is \<open>None\<close>: the models of the services have no undefined texts.
\<close>

type_synonym files = "jstring \<Rightarrow> jstring option"

text \<open>An exception at the top level ends the process with exit code 1.\<close>

datatype script_run = Uncaught thrown | Ended script_end

fun runCode :: "script_run \<Rightarrow> int" where
  "runCode (Uncaught e) = 1"
| "runCode (Ended r) = exitCode r"

definition NO_ENV :: thrown where
  "NO_ENV = ThrownError (LACKS_TEXT @ js '' deploy/deploy.env'')"

section \<open>Test data\<close>

text \<open>A member that must be a text, and one that may be missing.\<close>

definition textIn :: "json \<Rightarrow> string \<Rightarrow> jstring option" where
  "textIn j k = (case member (Some j) (js k) of Some (JStr t) \<Rightarrow> Some t | _ \<Rightarrow> None)"

definition optionalIn :: "(json \<Rightarrow> 'a option) \<Rightarrow> json \<Rightarrow> string \<Rightarrow> 'a option option" where
  "optionalIn f j k =
     (case member (Some j) (js k) of
        None \<Rightarrow> Some None
      | Some v \<Rightarrow> (case f v of None \<Rightarrow> None | Some x \<Rightarrow> Some (Some x)))"

fun asText :: "json \<Rightarrow> jstring option" where
  "asText (JStr t) = Some t"
| "asText _ = None"

fun asInt :: "json \<Rightarrow> int option" where
  "asInt (JNum (Fin q)) = (if q = of_int \<lfloor>q\<rfloor> then Some \<lfloor>q\<rfloor> else None)"
| "asInt _ = None"

definition businessDataOf :: "json \<Rightarrow> business_data option" where
  "businessDataOf j =
     (case (textIn j ''delegatorAddress'', textIn j ''validatorAddress'', textIn j ''voterAddress'', textIn j ''proposalId'',
            textIn j ''delegateAmount'', textIn j ''undelegateAmount'', optionalIn asText j ''transferFromAddress'',
            optionalIn asText j ''transferToAddress'', optionalIn asText j ''transferAmount'') of
        (Some a, Some b, Some c, Some d, Some e, Some f, Some g, Some h, Some i) \<Rightarrow>
          Some \<lparr>bdDelegator = a, bdValidator = b, bdVoter = c, bdProposalId = d, bdDelegateAmount = e, bdUndelegateAmount = f,
                bdTransferFrom = g, bdTransferTo = h, bdTransferAmount = i\<rparr>
      | _ \<Rightarrow> None)"

definition e2eDataOf :: "json \<Rightarrow> e2e_data option" where
  "e2eDataOf j =
     (case (optionalIn asText j ''senderMnemonic'', optionalIn asText j ''recipientAddress'', optionalIn asText j ''transferAmount'',
            optionalIn asText j ''memo'', optionalIn asInt j ''timeoutMs'', optionalIn asInt j ''pollIntervalMs'',
            optionalIn asText j ''offlineMnemonic'', optionalIn asText j ''offlineRecipientAddress'', optionalIn asInt j ''offlineConfirmedHeight'') of
        (Some a, Some b, Some c, Some d, Some e, Some f, Some g, Some h, Some i) \<Rightarrow>
          Some \<lparr>edSenderMnemonic = a, edRecipient = b, edTransferAmount = c, edMemo = d, edTimeoutMs = e, edPollIntervalMs = f,
                edOfflineMnemonic = g, edOfflineRecipient = h, edOfflineHeight = i\<rparr>
      | _ \<Rightarrow> None)"

section \<open>The scripts\<close>

definition scriptEnv :: "jstring \<Rightarrow> (jstring \<times> jstring) list \<Rightarrow> (jstring \<times> jstring) list" where
  "scriptEnv text processEnv = mergeEnv (parseEnvFile text) processEnv"

definition integrationScript ::
  "coin_fn \<Rightarrow> jstring \<Rightarrow> (rat \<Rightarrow> jsnum) \<Rightarrow> jstring \<Rightarrow> ('r, json, 'w) fetch_api \<Rightarrow> files \<Rightarrow> (jstring \<times> jstring) list
     \<Rightarrow> 'w \<Rightarrow> (script_run \<times> 'w) option" where
  "integrationScript coin syntaxMessage rnd parseMessage api files processEnv w =
     (case files (js ''deploy/deploy.env'') of
        None \<Rightarrow> Some (Uncaught NO_ENV, w)
      | Some text \<Rightarrow>
          (case loadBusinessData rnd parseMessage (files (js ''deploy/business-test-data.json''))
             (files (js ''deploy/business-test-data.example.json'')) of
             Inl e \<Rightarrow> Some (Uncaught e, w)
           | Inr j \<Rightarrow>
               (case (envNetwork (scriptEnv text processEnv), businessDataOf j) of
                  (Some network, Some data) \<Rightarrow>
                    (case walletIntegration coin syntaxMessage api (skipNetwork (scriptEnv text processEnv)) network data w of
                       (r, w') \<Rightarrow> Some (Ended r, w'))
                | _ \<Rightarrow> None)))"

text \<open>\<open>online\<close> is \<open>runOnlineE2E\<close> on its connections.\<close>

definition e2eScript ::
  "('path, 'signer) fromMnemonic \<Rightarrow> ('signer \<Rightarrow> (thrown, jstring list) result) \<Rightarrow> coin_fn
     \<Rightarrow> (NetworkConfig \<Rightarrow> e2e_data \<Rightarrow> 'w client host \<Rightarrow> 'w e2e) \<Rightarrow> (rat \<Rightarrow> jsnum) \<Rightarrow> jstring \<Rightarrow> files \<Rightarrow> (jstring \<times> jstring) list
     \<Rightarrow> 'w client host \<Rightarrow> (script_run \<times> 'w client host) option" where
  "e2eScript fromMnemonic getAccounts coin online rnd parseMessage files processEnv h =
     (case files (js ''deploy/deploy.env'') of
        None \<Rightarrow> Some (Uncaught NO_ENV, h)
      | Some text \<Rightarrow>
          (case loadE2EData rnd parseMessage (files (js ''deploy/e2e-test-data.json'')) (files (js ''deploy/e2e-test-data.example.json'')) of
             Inl e \<Rightarrow> Some (Uncaught e, h)
           | Inr j \<Rightarrow>
               (case (envNetwork (scriptEnv text processEnv), e2eDataOf j) of
                  (Some network, Some data) \<Rightarrow>
                    map_option (\<lambda>(r, h'). (Ended r, h')) (walletE2E
                      (if skipNetwork (scriptEnv text processEnv) then runOfflineDrill fromMnemonic getAccounts coin network data h
                       else online network data h))
                | _ \<Rightarrow> None)))"

section \<open>Properties\<close>

text \<open>The program with a readable configuration, and its start without one.\<close>

lemma integrationScript_configured:
  assumes "files (js ''deploy/deploy.env'') = Some t0"
    and t: "files (js ''deploy/business-test-data.json'') = Some t \<or>
      files (js ''deploy/business-test-data.json'') = None \<and> files (js ''deploy/business-test-data.example.json'') = Some t"
    and "JSON_parse rnd t = Some j" "businessDataOf j = Some data" "envNetwork (scriptEnv t0 processEnv) = Some network"
  shows "integrationScript coin m rnd parseMessage api files processEnv w =
    (case walletIntegration coin m api (skipNetwork (scriptEnv t0 processEnv)) network data w of (r, w') \<Rightarrow> Some (Ended r, w'))"
proof -
  have "loadBusinessData rnd parseMessage (files (js ''deploy/business-test-data.json''))
      (files (js ''deploy/business-test-data.example.json'')) = Inr j"
    using t unfolding loadBusinessData_def
    by (elim disjE conjE) (simp_all only: option.case assms(3) if_True if_False option.distinct simp_thms)
  then show ?thesis unfolding integrationScript_def assms(1) by (simp only: option.case sum.case prod.case assms(4,5))
qed

lemma e2eScript_configured:
  assumes "files (js ''deploy/deploy.env'') = Some t0" "files (js ''deploy/e2e-test-data.json'') = None"
    and "files (js ''deploy/e2e-test-data.example.json'') = Some t" "JSON_parse rnd t = Some j"
    and "e2eDataOf j = Some data" "envNetwork (scriptEnv t0 processEnv) = Some network" "skipNetwork (scriptEnv t0 processEnv)"
  shows "e2eScript fromMnemonic getAccounts coin online rnd parseMessage files processEnv h =
    map_option (\<lambda>(r, h'). (Ended r, h')) (walletE2E (runOfflineDrill fromMnemonic getAccounts coin network data h))"
  unfolding e2eScript_def loadE2EData_def assms by (simp only: option.case sum.case prod.case assms if_True if_False simp_thms)

lemma integrationScript_unconfigured:
  "files (js ''deploy/deploy.env'') = None \<Longrightarrow>
     integrationScript coin m rnd parseMessage api files processEnv w = Some (Uncaught NO_ENV, w)"
  "files (js ''deploy/deploy.env'') = Some t0 \<Longrightarrow> files (js ''deploy/business-test-data.json'') = None \<Longrightarrow>
     files (js ''deploy/business-test-data.example.json'') = None \<Longrightarrow>
     integrationScript coin m rnd parseMessage api files processEnv w =
       Some (Uncaught (ThrownError (LACKS_TEXT @ js '' deploy/business-test-data.json '' @ [25110] @ js '' deploy/business-test-data.example.json'')), w)"
  unfolding integrationScript_def loadBusinessData_def by (simp_all only: option.case sum.case if_False simp_thms)

text \<open>
  C36: the integration test as a program. Without \<open>deploy.env\<close> it fails with the message that this file is missing, without both
  data files with the message that names the two, before anything is sent. With a readable configuration, data from the data file
  or, where there is none, from the example file, data that are valid for the network, and the network skipped, it prints exactly
  its five lines and nothing on the error output, exits with 0 and leaves the network alone.
\<close>

theorem integration_script_outcome:
  assumes "result = integrationScript coin m rnd parseMessage api files processEnv w"
  shows "(files (js ''deploy/deploy.env'') = None \<longrightarrow>
      result = Some (Uncaught (ThrownError ([32570, 23569] @ js '' deploy/deploy.env'')), w)) \<and>
    (\<forall>text. files (js ''deploy/deploy.env'') = Some text \<longrightarrow>
      (files (js ''deploy/business-test-data.json'') = None \<longrightarrow> files (js ''deploy/business-test-data.example.json'') = None \<longrightarrow>
        result = Some (Uncaught (ThrownError ([32570, 23569] @ js '' deploy/business-test-data.json '' @ [25110]
          @ js '' deploy/business-test-data.example.json'')), w)) \<and>
      (\<forall>t j data network.
        files (js ''deploy/business-test-data.json'') = Some t \<or>
        files (js ''deploy/business-test-data.json'') = None \<and> files (js ''deploy/business-test-data.example.json'') = Some t \<longrightarrow>
        JSON_parse rnd t = Some j \<longrightarrow>
        businessDataOf j = Some data \<longrightarrow> envNetwork (scriptEnv text processEnv) = Some network \<longrightarrow>
        skipNetwork (scriptEnv text processEnv) \<longrightarrow> data_valid coin m network data \<longrightarrow>
        result = Some (Ended \<lparr>outLines = integrationLines, errLines = [], exitCode = 0\<rparr>, w)))"
proof (intro conjI allI impI)
  fix t0 t j data network
  assume cfg: "files (js ''deploy/deploy.env'') = Some t0"
    "files (js ''deploy/business-test-data.json'') = Some t \<or>
      files (js ''deploy/business-test-data.json'') = None \<and> files (js ''deploy/business-test-data.example.json'') = Some t"
    "JSON_parse rnd t = Some j" "businessDataOf j = Some data" "envNetwork (scriptEnv t0 processEnv) = Some network"
    and skip: "skipNetwork (scriptEnv t0 processEnv)" and valid: "data_valid coin m network data"
  from skip have "skipNetwork (scriptEnv t0 processEnv) = True" by (rule eqTrueI)
  then show "result = Some (Ended \<lparr>outLines = integrationLines, errLines = [], exitCode = 0\<rparr>, w)"
    unfolding assms integrationScript_configured[OF cfg] by (simp only: integration_skipping_network[OF valid] prod.case)
next
  fix t0
  assume "files (js ''deploy/deploy.env'') = Some t0" "files (js ''deploy/business-test-data.json'') = None"
    "files (js ''deploy/business-test-data.example.json'') = None"
  from integrationScript_unconfigured(2)[OF this]
  show "result = Some (Uncaught (ThrownError ([32570, 23569] @ js '' deploy/business-test-data.json '' @ [25110]
          @ js '' deploy/business-test-data.example.json'')), w)"
    unfolding assms LACKS_TEXT_def .
qed (unfold assms, drule integrationScript_unconfigured(1), simp only: NO_ENV_def LACKS_TEXT_def)

subsection \<open>The files of the repository\<close>

definition deployEnvFile :: jstring where
  \<open>deployEnvFile = concat
     [js ''SOULON_ENV=dev'', [10],
      js ''SOULON_RPC=http://127.0.0.1:26657'', [10],
      js ''SOULON_REST=http://127.0.0.1:1317'', [10],
      js ''SOULON_GRPC=http://127.0.0.1:9090'', [10],
      js ''SOULON_CHAIN_ID=soulon-local-1'', [10],
      js ''SOULON_BECH32_PREFIX=soulon'', [10],
      js ''SOULON_DENOM=usoul'', [10],
      js ''SOULON_GAS_PRICE=0.025usoul'', [10]]\<close>

definition businessDataFile :: jstring where
  \<open>businessDataFile = concat
     [js ''{'', [10],
      js ''  "delegatorAddress": "soulon1x9j33g5z6vxy8y5g4z2n6f0a9y8a5y7h3k7p9",'', [10],
      js ''  "validatorAddress": "soulonvaloper1x9j33g5z6vxy8y5g4z2n6f0a9y8a5y7h4q9",'', [10],
      js ''  "voterAddress": "soulon1x9j33g5z6vxy8y5g4z2n6f0a9y8a5y7h3k7p9",'', [10],
      js ''  "proposalId": "1",'', [10],
      js ''  "delegateAmount": "1000",'', [10],
      js ''  "undelegateAmount": "500"'', [10],
      js ''}'', [10]]\<close>

definition e2eDataFile :: jstring where
  \<open>e2eDataFile = concat
     [js ''{'', [10],
      js ''  "senderMnemonic": "",'', [10],
      js ''  "recipientAddress": "",'', [10],
      js ''  "transferAmount": "1",'', [10],
      js ''  "memo": "wallet-e2e-testnet",'', [10],
      js ''  "timeoutMs": 60000,'', [10],
      js ''  "pollIntervalMs": 2000,'', [10],
      js ''  "offlineMnemonic": "abandon abandon abandon abandon abandon abandon abandon abandon abandon abandon abandon about",'', [10],
      js ''  "offlineRecipientAddress": "",'', [10],
      js ''  "offlineConfirmedHeight": 1'', [10],
      js ''}'', [10]]\<close>

definition repositoryFiles :: files where
  "repositoryFiles fname =
     (if fname = js ''deploy/deploy.env'' then Some deployEnvFile
      else if fname = js ''deploy/business-test-data.json'' then Some businessDataFile
      else if fname = js ''deploy/e2e-test-data.example.json'' then Some e2eDataFile else None)"

definition skipEnv :: "(jstring \<times> jstring) list" where
  "skipEnv = [(js ''SOULON_SKIP_NETWORK_TEST'', js ''true'')]"

text \<open>\<open>deploy.env\<close> names another chain than the network table of the SDK does for the development environment.\<close>

definition deployNetwork :: NetworkConfig where
  "deployNetwork = (getNetworkConfig Dev)\<lparr>chainId := js ''soulon-local-1''\<rparr>"

definition deployAssignments :: "(jstring \<times> jstring) list" where
  "deployAssignments =
     [(js ''SOULON_ENV'', js ''dev''), (js ''SOULON_RPC'', js ''http://127.0.0.1:26657''), (js ''SOULON_REST'', js ''http://127.0.0.1:1317''),
      (js ''SOULON_GRPC'', js ''http://127.0.0.1:9090''), (js ''SOULON_CHAIN_ID'', js ''soulon-local-1''),
      (js ''SOULON_BECH32_PREFIX'', js ''soulon''), (js ''SOULON_DENOM'', js ''usoul''), (js ''SOULON_GAS_PRICE'', js ''0.025usoul'')]"

lemma deployAssignments_plain: "list_all plainAssignment deployAssignments" "distinct (map fst deployAssignments)"
  by (simp_all add: deployAssignments_def plainAssignment_def plainLine_def trim_def trimStart_def trimEnd_def isWhite_def)

lemma env_lines_read_back:
  assumes "list_all plainAssignment kvs" "distinct (map fst kvs)"
  shows "parseEnvFile (concat (map (\<lambda>(k, v). k @ [61] @ v @ [10]) kvs)) = kvs"
proof -
  have "splitLines (concat (map (\<lambda>(k, v). k @ [61] @ v @ [10]) kvs)) = map (\<lambda>(k, v). k @ [61] @ v) kvs @ [[]]"
    using assms(1)
  proof (induction kvs)
    case (Cons kv kvs)
    obtain k v where kv: "kv = (k, v)" by fastforce
    then have "plainLine (k @ [61] @ v)" using Cons.prems by (simp add: plainAssignment_def)
    from splitLines_append[OF this] show ?case using Cons by (simp add: kv)
  qed simp
  then show ?thesis
    using parse_assignments[OF assms(1), of "[]"] assms(2) by (simp add: parseEnvFile_def parseEnvLine_def ignoredLine_def trim_def trimStart_def trimEnd_def)
qed

lemma deployEnv_parsed: "parseEnvFile deployEnvFile = deployAssignments"
proof -
  have "deployEnvFile = concat (map (\<lambda>(k, v). k @ [61] @ v @ [10]) deployAssignments)"
    by (simp add: deployEnvFile_def deployAssignments_def)
  then show ?thesis using env_lines_read_back[OF deployAssignments_plain] by simp
qed

lemma deployEnv_read:
  "envNetwork (scriptEnv deployEnvFile skipEnv) = Some deployNetwork" "skipNetwork (scriptEnv deployEnvFile skipEnv)"
  unfolding scriptEnv_def deployEnv_parsed
  by (simp_all add: mergeEnv_def deployAssignments_def skipEnv_def envNetwork_def skipNetwork_def deployNetwork_def getNetworkConfig_def
      orDefault_def objSet_def lowerUnit_def Let_def)

definition e2eData :: json where
  "e2eData = JObj
     [(js ''senderMnemonic'', JStr []), (js ''recipientAddress'', JStr []), (js ''transferAmount'', JStr (js ''1'')),
      (js ''memo'', JStr (js ''wallet-e2e-testnet'')), (js ''timeoutMs'', JNum (num 60000)), (js ''pollIntervalMs'', JNum (num 2000)),
      (js ''offlineMnemonic'', JStr OFFLINE_MNEMONIC), (js ''offlineRecipientAddress'', JStr []), (js ''offlineConfirmedHeight'', JNum (num 1))]"

lemma e2e_numbers:
  "numberJson other (num 60000) = js ''60000''" "numberJson other (num 2000) = js ''2000''" "numberJson other (num 1) = js ''1''"
  by (simp_all add: numberJson_def num_def intString_def natString.simps[of "60000"] natString.simps[of 6000] natString.simps[of 600]
      natString.simps[of 60] natString.simps[of 6] natString.simps[of 2000] natString.simps[of 200] natString.simps[of 20]
      natString.simps[of 2] natString.simps[of "Suc 0"])

text \<open>One line of the file: a member of the object.\<close>

definition memberLine :: "jstring \<Rightarrow> json \<Rightarrow> jstring" where
  "memberLine k v = keyJson (js ''  '') k @ stringifyAt (\<lambda>_. []) (js ''  '') 1 v"

lemma quoteUnit_plain [simp]: "32 \<le> c \<Longrightarrow> c < 127 \<Longrightarrow> c \<noteq> 34 \<Longrightarrow> c \<noteq> 92 \<Longrightarrow> quoteUnit c = [c]"
  by (simp add: quoteUnit_def isSurrogate_def isHighSurrogate_def isLowSurrogate_def)

lemma quoteBody_plain: "list_all (\<lambda>c. 32 \<le> c \<and> c < 127 \<and> c \<noteq> 34 \<and> c \<noteq> 92) s \<Longrightarrow> quoteBody s = s"
  by (induction s rule: quoteBody.induct) (auto simp: isHighSurrogate_def)

lemma e2eDataFile_lines:
  \<open>js ''  "senderMnemonic": "",'' = js ''  '' @ memberLine (js ''senderMnemonic'') (JStr []) @ [44]\<close>
  \<open>js ''  "recipientAddress": "",'' = js ''  '' @ memberLine (js ''recipientAddress'') (JStr []) @ [44]\<close>
  \<open>js ''  "transferAmount": "1",'' = js ''  '' @ memberLine (js ''transferAmount'') (JStr (js ''1'')) @ [44]\<close>
  \<open>js ''  "memo": "wallet-e2e-testnet",'' = js ''  '' @ memberLine (js ''memo'') (JStr (js ''wallet-e2e-testnet'')) @ [44]\<close>
  \<open>js ''  "timeoutMs": 60000,'' = js ''  '' @ memberLine (js ''timeoutMs'') (JNum (num 60000)) @ [44]\<close>
  \<open>js ''  "pollIntervalMs": 2000,'' = js ''  '' @ memberLine (js ''pollIntervalMs'') (JNum (num 2000)) @ [44]\<close>
  \<open>js ''  "offlineMnemonic": "abandon abandon abandon abandon abandon abandon abandon abandon abandon abandon abandon about",'' = js ''  '' @ memberLine (js ''offlineMnemonic'') (JStr OFFLINE_MNEMONIC) @ [44]\<close>
  \<open>js ''  "offlineRecipientAddress": "",'' = js ''  '' @ memberLine (js ''offlineRecipientAddress'') (JStr []) @ [44]\<close>
  \<open>js ''  "offlineConfirmedHeight": 1'' = js ''  '' @ memberLine (js ''offlineConfirmedHeight'') (JNum (num 1)) @ []\<close>
  by (simp_all add: memberLine_def keyJson_def quoteJson_def quoteBody_plain e2e_numbers OFFLINE_MNEMONIC_def del: quoteBody.simps)

lemma e2eDataFile_text: "e2eDataFile = JSON_stringify (\<lambda>_. []) (js ''  '') e2eData @ [10]"
proof -
  have brace: \<open>js ''{'' = [123]\<close> \<open>js ''}'' = [125]\<close> and "js ''  '' \<noteq> []" by simp_all
  then show ?thesis
    unfolding e2eDataFile_def e2eDataFile_lines e2eData_def JSON_stringify_def brace
    by (simp add: enclose_def lineBreak_def memberLine_def del: js_Cons)
qed

definition businessData :: json where
  "businessData = JObj
     [(js ''delegatorAddress'', JStr (js ''soulon1x9j33g5z6vxy8y5g4z2n6f0a9y8a5y7h3k7p9'')),
      (js ''validatorAddress'', JStr (js ''soulonvaloper1x9j33g5z6vxy8y5g4z2n6f0a9y8a5y7h4q9'')),
      (js ''voterAddress'', JStr (js ''soulon1x9j33g5z6vxy8y5g4z2n6f0a9y8a5y7h3k7p9'')),
      (js ''proposalId'', JStr (js ''1'')),
      (js ''delegateAmount'', JStr (js ''1000'')),
      (js ''undelegateAmount'', JStr (js ''500''))]"

lemma businessDataFile_lines:
  \<open>js ''  "delegatorAddress": "soulon1x9j33g5z6vxy8y5g4z2n6f0a9y8a5y7h3k7p9",'' = js ''  '' @ memberLine (js ''delegatorAddress'') (JStr (js ''soulon1x9j33g5z6vxy8y5g4z2n6f0a9y8a5y7h3k7p9'')) @ [44]\<close>
  \<open>js ''  "validatorAddress": "soulonvaloper1x9j33g5z6vxy8y5g4z2n6f0a9y8a5y7h4q9",'' = js ''  '' @ memberLine (js ''validatorAddress'') (JStr (js ''soulonvaloper1x9j33g5z6vxy8y5g4z2n6f0a9y8a5y7h4q9'')) @ [44]\<close>
  \<open>js ''  "voterAddress": "soulon1x9j33g5z6vxy8y5g4z2n6f0a9y8a5y7h3k7p9",'' = js ''  '' @ memberLine (js ''voterAddress'') (JStr (js ''soulon1x9j33g5z6vxy8y5g4z2n6f0a9y8a5y7h3k7p9'')) @ [44]\<close>
  \<open>js ''  "proposalId": "1",'' = js ''  '' @ memberLine (js ''proposalId'') (JStr (js ''1'')) @ [44]\<close>
  \<open>js ''  "delegateAmount": "1000",'' = js ''  '' @ memberLine (js ''delegateAmount'') (JStr (js ''1000'')) @ [44]\<close>
  \<open>js ''  "undelegateAmount": "500"'' = js ''  '' @ memberLine (js ''undelegateAmount'') (JStr (js ''500'')) @ []\<close>
  by (simp_all add: memberLine_def keyJson_def quoteJson_def quoteBody_plain del: quoteBody.simps)

lemma businessDataFile_text: "businessDataFile = JSON_stringify (\<lambda>_. []) (js ''  '') businessData @ [10]"
proof -
  have brace: \<open>js ''{'' = [123]\<close> \<open>js ''}'' = [125]\<close> and "js ''  '' \<noteq> []" by simp_all
  then show ?thesis
    unfolding businessDataFile_def businessDataFile_lines businessData_def JSON_stringify_def brace
    by (simp add: enclose_def lineBreak_def memberLine_def del: js_Cons)
qed

text \<open>A file that is an object written with two spaces and a line break at the end is read back.\<close>

lemma file_read_back:
  assumes "wfJson Fin (\<lambda>_. []) j"
  shows "JSON_parse Fin (JSON_stringify (\<lambda>_. []) (js ''  '') j @ [10]) = Some j"
proof -
  have gap: "isGap (js ''  '')" by (simp add: isGap_def)
  show ?thesis
    using readValue_stringifyAt[OF gap assms, of "[10]" 0] by (simp add: JSON_parse_def JSON_stringify_def ends_value_def isDigit_def)
qed

lemma businessData_parsed: "JSON_parse Fin businessDataFile = Some businessData"
proof -
  have order: "propOrder ms = ms" if "businessData = JObj ms" for ms
    by (rule propOrder_no_index) (use that in \<open>auto simp: businessData_def not_index_key isDigit_def\<close>)
  have "wfJson Fin (\<lambda>_. []) businessData" using order by (simp add: businessData_def)
  then show ?thesis unfolding businessDataFile_text by (rule file_read_back)
qed

lemma businessData_read: "businessDataOf businessData = Some deploy_data"
  by (simp add: businessDataOf_def businessData_def textIn_def optionalIn_def deploy_data_def)

lemma e2eData_parsed: "JSON_parse Fin e2eDataFile = Some e2eData"
proof -
  have n: "wfNumber Fin (\<lambda>_. []) (num i)" if "\<bar>i\<bar> < 100000" for i
    using that by (intro wfNumber_small) (simp_all add: num_def)
  have order: "propOrder ms = ms" if "e2eData = JObj ms" for ms
    by (rule propOrder_no_index) (use that in \<open>auto simp: e2eData_def not_index_key isDigit_def\<close>)
  have "wfJson Fin (\<lambda>_. []) e2eData"
    using order by (simp add: e2eData_def n)
  then show ?thesis unfolding e2eDataFile_text by (rule file_read_back)
qed

text \<open>The data the program takes from the file.\<close>

definition deployE2E :: e2e_data where
  "deployE2E = \<lparr>edSenderMnemonic = Some [], edRecipient = Some [], edTransferAmount = Some (js ''1''), edMemo = Some (js ''wallet-e2e-testnet''),
     edTimeoutMs = Some 60000, edPollIntervalMs = Some 2000, edOfflineMnemonic = Some OFFLINE_MNEMONIC, edOfflineRecipient = Some [],
     edOfflineHeight = Some 1\<rparr>"

lemma e2eData_read: "e2eDataOf e2eData = Some deployE2E"
  by (simp add: e2eDataOf_def e2eData_def optionalIn_def deployE2E_def num_def)

lemma repositoryFiles_simps:
  "repositoryFiles (js ''deploy/deploy.env'') = Some deployEnvFile" "repositoryFiles (js ''deploy/business-test-data.json'') = Some businessDataFile"
  "repositoryFiles (js ''deploy/e2e-test-data.json'') = None" "repositoryFiles (js ''deploy/e2e-test-data.example.json'') = Some e2eDataFile"
  by (simp_all add: repositoryFiles_def)

lemma deploy_data_valid_chain: "data_valid demo_coin [] deployNetwork deploy_data"
  using deploy_data_valid by (simp add: data_valid_def deployNetwork_def prefix_ok_def del: js_Cons)

theorem integration_script_outcome_witness:
  "integrationScript demo_coin [] Fin [] demo_api repositoryFiles skipEnv 0 =
     Some (Ended \<lparr>outLines = integrationLines, errLines = [], exitCode = 0\<rparr>, 0)"
  using integration_script_outcome[OF refl, of repositoryFiles demo_coin "[]" Fin "[]" demo_api skipEnv 0]
    repositoryFiles_simps(1,2) businessData_parsed businessData_read deployEnv_read deploy_data_valid_chain by blast

text \<open>
  The offline end-to-end test on the files of the repository: it signs one transfer by the account of the mnemonic and exits with 0.
\<close>

theorem e2e_script_passes:
  assumes "openWallet fromMnemonic getAccounts deployNetwork OFFLINE_MNEMONIC = Inr (walletSigner, fromAddr)" "coin_accepts_digits coin"
  shows "\<exists>r h' call. e2eScript fromMnemonic getAccounts coin online Fin parseMessage repositoryFiles skipEnv h = Some (Ended r, h') \<and>
    exitCode r = 0 \<and> length (outLines r) = 3 \<and> sent (chainState h') = sent (chainState h) @ [call] \<and> SignCall.signer call = fromAddr"
proof -
  have d: "orDefault (edOfflineMnemonic deployE2E) OFFLINE_MNEMONIC = OFFLINE_MNEMONIC" "orDefault (edTransferAmount deployE2E) (js ''1'') = js ''1''"
    "orNumber (edTimeoutMs deployE2E) 5000 = 60000"
    by (simp_all add: deployE2E_def orDefault_def orNumber_def OFFLINE_MNEMONIC_def)
  have "list_all isDigit (js ''1'')" by (simp add: isDigit_def)
  with offline_drill_passes[of fromMnemonic getAccounts deployNetwork deployE2E, unfolded d, OF assms]
  obtain h' call ls where run: "runOfflineDrill fromMnemonic getAccounts coin deployNetwork deployE2E h = Some (Inr (), [ls], h')"
    "sent (chainState h') = sent (chainState h) @ [call]" "SignCall.signer call = fromAddr" by fastforce
  show ?thesis
    unfolding e2eScript_configured[OF repositoryFiles_simps(1,3,4) e2eData_parsed e2eData_read deployEnv_read] run(1)
    using run(2,3) by (simp add: walletE2E_def)
qed

end
