(* ===== verification/PopupStore.thy ===== *)
theory PopupStore
  imports JsString
begin

text \<open>
  \<open>wallet-extension/src/popup/popup_types.ts\<close>, \<open>routes.ts\<close> and \<open>popup_store.ts\<close>: the state of the
  extension popup and the actions on it. The store applies an updater to the state and then
  notifies the listeners, which only render; an action is therefore a function on states.
  The navigation stack has its root first and its top last, as in the source.
\<close>

datatype PopupTabKey = Tokens | Collectibles | Activity

datatype CloseBehavior = GoBack | PopRootOnce | PopRootTwice | Reset

datatype PopupScreenId = Tabs | TokenDetail | ActivityDetail | CollectiblesDetail | CollectiblesCollection
  | Search | WalletDrawer | AvatarPopover | SendToken | SendAddress | SendAmount | SendConfirm | Receive
  | Settings | Unlock

datatype PopupPresentation = Push | Modal | TransparentModal

record PopupRoute =
  routeId :: PopupScreenId
  presentation :: PopupPresentation
  title :: "jstring option"
  showClose :: "bool option"
  closeBehavior :: "CloseBehavior option"
  paramId :: "jstring option"

record WalletSummary =
  walletId :: jstring
  walletName :: jstring
  walletAddress :: jstring

datatype item_status = StatusDefault | StatusSuccess | StatusWarning | StatusDanger

record list_item =
  itemId :: jstring
  itemTitle :: jstring
  itemDescription :: jstring
  itemMeta :: jstring
  itemStatus :: item_status

record TokenListItem = list_item +
  tokenSymbol :: jstring

record SendDraft =
  draftTokenId :: jstring
  draftTo :: jstring
  draftAmount :: jstring
  draftMemo :: jstring

record SendDraftErrors =
  errTokenId :: "jstring option"
  errTo :: "jstring option"
  errAmount :: "jstring option"
  errMemo :: "jstring option"

datatype feedback_tone = Neutral | ToneError | ToneSuccess

record PopupState =
  activeTab :: PopupTabKey
  stack :: "PopupRoute list"
  wallets :: "WalletSummary list"
  activeWalletId :: jstring
  isLocked :: bool
  searchInputValue :: jstring
  searchKeyword :: jstring
  sendDraft :: SendDraft
  sendDraftErrors :: SendDraftErrors
  sendFeedback :: jstring
  sendFeedbackTone :: feedback_tone
  sendSubmitting :: bool

section \<open>Routes\<close>

definition routeTokens :: jstring where "routeTokens = js ''/popup/tokens''"
definition routeCollectibles :: jstring where "routeCollectibles = js ''/popup/collectibles''"
definition routeActivity :: jstring where "routeActivity = js ''/popup/activity''"
definition routeSendToken :: jstring where "routeSendToken = js ''/popup/send/token''"
definition routeSendAddress :: jstring where "routeSendAddress = js ''/popup/send/address''"
definition routeSendAmount :: jstring where "routeSendAmount = js ''/popup/send/amount''"
definition routeSendConfirm :: jstring where "routeSendConfirm = js ''/popup/send/confirm''"
definition routeUnlock :: jstring where "routeUnlock = js ''/popup/unlock''"

section \<open>The initial state\<close>

definition defaultWallets :: "WalletSummary list" where
  "defaultWallets =
     [\<lparr>walletId = js ''wallet-1'', walletName = js ''Account 1'',
       walletAddress = js ''cosmos1k8pa9c38g4nq2f08d63a9gn6vdg8v3duaw2sp4''\<rparr>,
      \<lparr>walletId = js ''wallet-2'', walletName = js ''Account 2'',
       walletAddress = js ''cosmos1l3l7m9q2f08d63a9gn6vdg8v3duaw2sp4k8pa9c''\<rparr>]"

definition plainRoute :: "PopupScreenId \<Rightarrow> PopupPresentation \<Rightarrow> PopupRoute" where
  "plainRoute i p = \<lparr>routeId = i, presentation = p, title = None, showClose = None, closeBehavior = None,
     paramId = None\<rparr>"

definition rootRoute :: PopupRoute where
  "rootRoute = plainRoute Tabs Push"

definition noErrors :: SendDraftErrors where
  "noErrors = \<lparr>errTokenId = None, errTo = None, errAmount = None, errMemo = None\<rparr>"

definition initialState :: PopupState where
  "initialState =
     \<lparr>activeTab = Tokens, stack = [rootRoute], wallets = defaultWallets, activeWalletId = js ''wallet-1'',
      isLocked = False, searchInputValue = [], searchKeyword = [],
      sendDraft = \<lparr>draftTokenId = js ''token-1'', draftTo = [], draftAmount = [], draftMemo = []\<rparr>,
      sendDraftErrors = noErrors, sendFeedback = [], sendFeedbackTone = Neutral, sendSubmitting = False\<rparr>"

section \<open>Actions\<close>

definition setActiveTab :: "PopupTabKey \<Rightarrow> PopupState \<Rightarrow> PopupState" where
  "setActiveTab tab prev = prev\<lparr>activeTab := tab\<rparr>"

definition push :: "PopupRoute \<Rightarrow> PopupState \<Rightarrow> PopupState" where
  "push route prev = prev\<lparr>stack := stack prev @ [route]\<rparr>"

definition replace :: "PopupRoute \<Rightarrow> PopupState \<Rightarrow> PopupState" where
  "replace route prev =
     (if length (stack prev) \<le> 1 then prev\<lparr>stack := [rootRoute, route]\<rparr>
      else prev\<lparr>stack := butlast (stack prev) @ [route]\<rparr>)"

definition pop :: "PopupState \<Rightarrow> PopupState" where
  "pop prev = (if length (stack prev) \<le> 1 then prev else prev\<lparr>stack := butlast (stack prev)\<rparr>)"

text \<open>\<open>[prev.stack[0]]\<close>; the stack is never empty, see \<open>popup_wf\<close>.\<close>

definition popToRoot :: "PopupState \<Rightarrow> PopupState" where
  "popToRoot prev = prev\<lparr>stack := take 1 (stack prev)\<rparr>"

text \<open>The search from the top for a route that is pushed; zero when there is none.\<close>

fun lastPush :: "PopupRoute list \<Rightarrow> nat \<Rightarrow> nat" where
  "lastPush st 0 = 0"
| "lastPush st (Suc i) = (if presentation (st ! i) = Push then i else lastPush st i)"

definition popToBase :: "PopupState \<Rightarrow> PopupState" where
  "popToBase prev =
     (let baseIndex = lastPush (stack prev) (length (stack prev))
      in prev\<lparr>stack := take (baseIndex + 1) (stack prev)\<rparr>)"

definition resetToRoot :: "PopupState \<Rightarrow> PopupState" where
  "resetToRoot prev = prev\<lparr>stack := take 1 (stack prev)\<rparr>"

definition setLocked :: "bool \<Rightarrow> PopupState \<Rightarrow> PopupState" where
  "setLocked b prev = prev\<lparr>isLocked := b\<rparr>"

definition setActiveWallet :: "jstring \<Rightarrow> PopupState \<Rightarrow> PopupState" where
  "setActiveWallet i prev = prev\<lparr>activeWalletId := i\<rparr>"

definition setSearchInput :: "jstring \<Rightarrow> PopupState \<Rightarrow> PopupState" where
  "setSearchInput v prev = prev\<lparr>searchInputValue := v, searchKeyword := toLowerCase (trim v)\<rparr>"

definition resetSendFeedback :: "PopupState \<Rightarrow> PopupState" where
  "resetSendFeedback prev = prev\<lparr>sendDraftErrors := noErrors, sendFeedback := [], sendFeedbackTone := Neutral\<rparr>"

datatype draft_key = KeyTokenId | KeyTo | KeyAmount | KeyMemo

fun setDraft :: "draft_key \<Rightarrow> jstring \<Rightarrow> SendDraft \<Rightarrow> SendDraft" where
  "setDraft KeyTokenId v d = d\<lparr>draftTokenId := v\<rparr>"
| "setDraft KeyTo v d = d\<lparr>draftTo := v\<rparr>"
| "setDraft KeyAmount v d = d\<lparr>draftAmount := v\<rparr>"
| "setDraft KeyMemo v d = d\<lparr>draftMemo := v\<rparr>"

definition updateSendDraft :: "draft_key \<Rightarrow> jstring \<Rightarrow> PopupState \<Rightarrow> PopupState" where
  "updateSendDraft key v prev = prev\<lparr>sendDraft := setDraft key v (sendDraft prev)\<rparr>"

definition setSendSubmitting :: "bool \<Rightarrow> PopupState \<Rightarrow> PopupState" where
  "setSendSubmitting b prev = prev\<lparr>sendSubmitting := b\<rparr>"

definition setSendFeedback :: "jstring \<Rightarrow> feedback_tone \<Rightarrow> PopupState \<Rightarrow> PopupState" where
  "setSendFeedback m tone prev = prev\<lparr>sendFeedback := m, sendFeedbackTone := tone\<rparr>"

definition setSendErrors :: "SendDraftErrors \<Rightarrow> PopupState \<Rightarrow> PopupState" where
  "setSendErrors errs prev = prev\<lparr>sendDraftErrors := errs\<rparr>"

lemmas action_defs = setActiveTab_def push_def replace_def pop_def popToRoot_def popToBase_def resetToRoot_def
  setLocked_def setActiveWallet_def setSearchInput_def resetSendFeedback_def updateSendDraft_def
  setSendSubmitting_def setSendFeedback_def setSendErrors_def

section \<open>Facts about the stack\<close>

text \<open>
  A stack is well formed when its root is the tabs screen and every other route is
  presented the way its screen is meant to be; the screens of the send flow close to the
  screen below them.
\<close>

definition route_ok :: "PopupRoute \<Rightarrow> bool" where
  "route_ok r \<longleftrightarrow> presentation r =
     (if routeId r \<in> {TokenDetail, ActivityDetail, CollectiblesDetail} then Push
      else if routeId r = Search then TransparentModal else Modal) \<and>
     routeId r \<notin> {Tabs, CollectiblesCollection, Unlock} \<and>
     (routeId r \<in> {SendToken, SendAddress, SendAmount, SendConfirm} \<longrightarrow>
        showClose r = Some True \<and> closeBehavior r \<in> {Some Reset, Some PopRootTwice})"

definition stack_ok :: "PopupRoute list \<Rightarrow> bool" where
  "stack_ok st \<longleftrightarrow> (\<exists>rest. st = rootRoute # rest \<and> (\<forall>r\<in>set rest. route_ok r))"

lemma stack_ok_initial: "stack_ok [rootRoute]"
  by (simp add: stack_ok_def)

lemma stack_ok_push: "stack_ok st \<Longrightarrow> route_ok r \<Longrightarrow> stack_ok (st @ [r])"
  by (auto simp: stack_ok_def)

lemma stack_ok_take: "stack_ok st \<Longrightarrow> 0 < n \<Longrightarrow> stack_ok (take n st)"
  by (cases n) (auto simp: stack_ok_def, meson in_set_takeD)

lemma stack_ok_butlast: "stack_ok st \<Longrightarrow> 1 < length st \<Longrightarrow> stack_ok (butlast st)"
  by (auto simp: butlast_conv_take intro: stack_ok_take)

lemma lastPush_less: "0 < n \<Longrightarrow> lastPush st n < n"
proof (induction n)
  case (Suc n)
  then show ?case by (cases n) auto
qed simp

lemma lastPush_above: "lastPush st n < i \<Longrightarrow> i < n \<Longrightarrow> presentation (st ! i) \<noteq> Push"
proof (induction n)
  case (Suc n)
  then show ?case by (cases "i = n") (auto split: if_splits)
qed simp

lemma lastPush_is_push:
  "presentation (st ! 0) = Push \<Longrightarrow> presentation (st ! lastPush st n) = Push"
  by (induction n) auto

lemma lastPush_unique:
  assumes "i < n" "presentation (st ! i) = Push" "\<And>j. i < j \<Longrightarrow> j < n \<Longrightarrow> presentation (st ! j) \<noteq> Push"
  shows "lastPush st n = i"
proof -
  have "\<not> lastPush st n < i" using lastPush_above[of st n i] assms(1,2) by blast
  moreover have "\<not> i < lastPush st n"
  proof
    assume lt: "i < lastPush st n"
    have "presentation (st ! lastPush st n) = Push \<or> lastPush st n = 0"
      by (induction n) auto
    then show False using lt assms(3) lastPush_less[of n st] assms(1) by auto
  qed
  ultimately show ?thesis by simp
qed

lemma stack_ok_nonempty: "stack_ok st \<Longrightarrow> st \<noteq> [] \<and> st ! 0 = rootRoute"
  by (auto simp: stack_ok_def)

lemma rootRoute_push [simp]: "presentation rootRoute = Push" "routeId rootRoute = Tabs"
  by (simp_all add: rootRoute_def plainRoute_def)

end
