(* ===== verification/PopupScreens.thy ===== *)
theory PopupScreens
  imports PopupStore JsRegex JsNumber
begin

text \<open>
  \<open>wallet-extension/src/popup/popup_screens.ts\<close>: the fixed data, search, validation of the
  send form, and the rendering of a state to HTML text. The renderers return the very text
  of the template literals, as code units (10 is the newline, other numbers are Chinese
  characters), so that what user text can do to the markup is a statement about strings.
\<close>

section \<open>Data\<close>

definition tokenItems :: "TokenListItem list" where
  \<open>tokenItems =
     [\<lparr>itemId = js ''token-1'', itemTitle = js ''SOUL'',
       itemDescription = [21487, 29992, 20313, 39069] @ js '' 1,243.66'',
       itemMeta = js ''24h +2.8%'', itemStatus = StatusSuccess, tokenSymbol = js ''SOUL''\<rparr>,
      \<lparr>itemId = js ''token-2'', itemTitle = js ''stSOUL'',
       itemDescription = [36136, 25276, 20313, 39069] @ js '' 325.24'',
       itemMeta = [39044, 35745, 24180, 21270] @ js '' 11.2%'', itemStatus = StatusDefault, tokenSymbol = js ''stSOUL''\<rparr>,
      \<lparr>itemId = js ''token-3'', itemTitle = js ''uUSDC'',
       itemDescription = [21487, 29992, 20313, 39069] @ js '' 845.20'',
       itemMeta = [36328, 38142, 36890, 36947] @ js '' channel-8'', itemStatus = StatusWarning, tokenSymbol = js ''uUSDC''\<rparr>]\<close>

definition activityItems :: "list_item list" where
  \<open>activityItems =
     [\<lparr>itemId = js ''activity-1'', itemTitle = [21457, 36865, 25104, 21151],
       itemDescription = [21521] @ js '' cosmos1...k2r9 '' @ [36716, 36134] @ js '' 8.50 SOUL'',
       itemMeta = js ''2 '' @ [20998, 38047, 21069] @ js '' '' @ [183] @ js '' Tx#B34B'', itemStatus = StatusSuccess\<rparr>,
      \<lparr>itemId = js ''activity-2'', itemTitle = [24453, 30830, 35748],
       itemDescription = [21521] @ js '' osmo1...tc94 '' @ [36716, 36134] @ js '' 32.00 uUSDC'',
       itemMeta = [21018, 21018] @ js '' '' @ [183] @ js '' '' @ [31561, 24453, 21306, 22359, 30830, 35748], itemStatus = StatusWarning\<rparr>,
      \<lparr>itemId = js ''activity-3'', itemTitle = [22833, 36133, 37325, 35797],
       itemDescription = js ''Gas '' @ [20272, 31639, 19981, 36275, 65292, 20132, 26131, 26410, 19978, 38142],
       itemMeta = js ''12 '' @ [20998, 38047, 21069] @ js '' '' @ [183] @ js '' '' @ [21487, 37325, 35797], itemStatus = StatusDanger\<rparr>]\<close>

definition collectibleItems :: "list_item list" where
  \<open>collectibleItems =
     [\<lparr>itemId = js ''collectible-1'', itemTitle = js ''Mad Lads #1844'',
       itemDescription = js ''Collection: Mad Lads'',
       itemMeta = js ''Floor 64.1 SOL'', itemStatus = StatusWarning\<rparr>,
      \<lparr>itemId = js ''collectible-2'', itemTitle = js ''xNFT Badge'',
       itemDescription = js ''Collection: Backpack'',
       itemMeta = js ''Verified'', itemStatus = StatusDefault\<rparr>,
      \<lparr>itemId = js ''collectible-3'', itemTitle = js ''Genesis Access'',
       itemDescription = js ''Collection: Coral'',
       itemMeta = js ''Unlisted'', itemStatus = StatusSuccess\<rparr>]\<close>

section \<open>Helpers\<close>

definition replaceAll :: "jchar \<Rightarrow> jstring \<Rightarrow> jstring \<Rightarrow> jstring" where
  "replaceAll c r s = concat (map (\<lambda>x. if x = c then r else [x]) s)"

definition escapeHtml :: "jstring \<Rightarrow> jstring" where
  "escapeHtml v =
     replaceAll 39 (js ''&#039;'')
       (replaceAll 34 (js ''&quot;'')
         (replaceAll 62 (js ''&gt;'')
           (replaceAll 60 (js ''&lt;'')
             (replaceAll 38 (js ''&amp;'') v))))"

fun getStatusClass :: "item_status \<Rightarrow> jstring" where
  "getStatusClass StatusSuccess = js ''status-success''"
| "getStatusClass StatusWarning = js ''status-warning''"
| "getStatusClass StatusDanger = js ''status-danger''"
| "getStatusClass StatusDefault = []"

fun statusText :: "item_status \<Rightarrow> jstring" where
  "statusText StatusSuccess = js ''success''"
| "statusText StatusWarning = js ''warning''"
| "statusText StatusDanger = js ''danger''"
| "statusText StatusDefault = js ''default''"

definition formatAddressShort :: "jstring \<Rightarrow> jstring" where
  "formatAddressShort address =
     (if length address \<le> 12 then address
      else take 8 address @ js ''...'' @ drop (length address - 4) address)"

record view =
  viewBase :: PopupRoute
  viewOverlay :: "PopupRoute list"
  viewTransparent :: "PopupRoute list"

definition getBaseAndOverlay :: "PopupRoute list \<Rightarrow> view" where
  "getBaseAndOverlay st =
     (let baseIndex = lastPush st (length st)
      in \<lparr>viewBase = st ! baseIndex,
          viewOverlay = filter (\<lambda>r. presentation r = Modal) (drop (baseIndex + 1) st),
          viewTransparent = filter (\<lambda>r. presentation r = TransparentModal) (drop (baseIndex + 1) st)\<rparr>)"

fun getTabTitle :: "PopupTabKey \<Rightarrow> jstring" where
  "getTabTitle Tokens = js ''Tokens''"
| "getTabTitle Collectibles = js ''Collectibles''"
| "getTabTitle Activity = js ''Activity''"

fun tabKey :: "PopupTabKey \<Rightarrow> jstring" where
  "tabKey Tokens = js ''tokens''"
| "tabKey Collectibles = js ''collectibles''"
| "tabKey Activity = js ''activity''"

definition getTabItems :: "PopupState \<Rightarrow> list_item list" where
  "getTabItems state =
     (if activeTab state = Tokens then map list_item.truncate tokenItems
      else if activeTab state = Collectibles then collectibleItems
      else activityItems)"

definition getSearchResults :: "PopupState \<Rightarrow> list_item list" where
  "getSearchResults state =
     (let keyword = searchKeyword state in
      if keyword = [] then []
      else filter (\<lambda>item. includesStr
             (toLowerCase (itemTitle item @ js '' '' @ itemDescription item @ js '' '' @ itemMeta item)) keyword)
           (map list_item.truncate tokenItems @ collectibleItems @ activityItems))"

text \<open>\<open>xs.find(p) ?? xs[0]\<close> on a list that is not empty.\<close>

definition findOr :: "('a \<Rightarrow> bool) \<Rightarrow> 'a list \<Rightarrow> 'a" where
  "findOr P xs = (case find P xs of Some x \<Rightarrow> x | None \<Rightarrow> hd xs)"

definition ifText :: "bool \<Rightarrow> jstring \<Rightarrow> jstring" where
  "ifText b t = (if b then t else [])"

definition boolText :: "bool \<Rightarrow> jstring" where
  "boolText b = (if b then js ''true'' else js ''false'')"

section \<open>The send form\<close>

text \<open>\<open>/^cosmos1[0-9a-z]{20,}$/\<close> and \<open>/^\\d+(\\.\\d{1,6})?$/\<close>\<close>

definition SEND_TO_REGEX :: rx where
  "SEND_TO_REGEX = Cat (lit (js ''cosmos1'')) (repAtLeast 20 (Class [(48, 57), (97, 122)]))"

definition SEND_AMOUNT_REGEX :: rx where
  "SEND_AMOUNT_REGEX =
     Cat (repPlus (Class [(48, 57)])) (opt (Cat (chr 46) (repBetween 1 6 (Class [(48, 57)]))))"

definition SEND_TO_ERROR :: jstring where
  "SEND_TO_ERROR = [35831, 36755, 20837, 26377, 25928] @ js '' cosmos '' @ [22320, 22336, 65288] @ js ''cosmos1...'' @ [65289]"
definition SEND_AMOUNT_ERROR :: jstring where
  "SEND_AMOUNT_ERROR = [35831, 36755, 20837, 22823, 20110] @ js '' 0 '' @ [30340, 37329, 39069, 65292, 26368, 22810] @ js '' 6 '' @ [20301, 23567, 25968]"
definition SEND_MEMO_ERROR :: jstring where
  "SEND_MEMO_ERROR = [22791, 27880, 38656, 19981, 36229, 36807] @ js '' 60 '' @ [20010, 23383, 31526]"

definition validateSendDraft :: "PopupState \<Rightarrow> SendDraftErrors" where
  "validateSendDraft state =
     (let trimmedTo = toLowerCase (trim (draftTo (sendDraft state)));
          trimmedAmount = trim (draftAmount (sendDraft state));
          trimmedMemo = trim (draftMemo (sendDraft state));
          e1 = (if \<not> rx_test SEND_TO_REGEX trimmedTo then noErrors\<lparr>errTo := Some SEND_TO_ERROR\<rparr> else noErrors);
          e2 = (if \<not> rx_test SEND_AMOUNT_REGEX trimmedAmount \<or> decimalNumberLeZero trimmedAmount
                then e1\<lparr>errAmount := Some SEND_AMOUNT_ERROR\<rparr> else e1)
      in if length trimmedMemo > 60 then e2\<lparr>errMemo := Some SEND_MEMO_ERROR\<rparr> else e2)"

section \<open>Rendering\<close>

definition renderLockedScreen :: "jstring" where
  \<open>renderLockedScreen =
     concat
      [[10], js ''    <div class="popup-shell">'',
       [10], js ''      <header class="popup-header">'',
       [10], js ''        <div class="popup-title-block">'',
       [10], js ''          <p class="popup-eyebrow">Wallet Extension</p>'',
       [10], js ''          <h1 class="popup-title">Soulon Wallet</h1>'',
       [10], js ''          <p class="popup-subtitle">'',
       [24403, 21069, 36335, 24452, 65306],
       routeUnlock,
       js ''</p>'',
       [10], js ''        </div>'',
       [10], js ''      </header>'',
       [10], js ''      <section class="ext-card">'',
       [10], js ''        <div class="page-head">'',
       [10], js ''          <h2>'',
       [35299, 38145, 38065, 21253],
       js ''</h2>'',
       [10], js ''        </div>'',
       [10], js ''        <div class="page-scroll">'',
       [10], js ''          <label class="field-block">'',
       [10], js ''            '',
       [23494, 30721, 10],
       js ''            <input class="ext-input" data-field="unlock" type="password" placeholder="'',
       [36755, 20837, 23494, 30721],
       js ''" />'',
       [10], js ''          </label>'',
       [10], js ''          <div class="popup-action-row">'',
       [10], js ''            <button class="ext-button" data-action="unlock">'',
       [35299, 38145],
       js ''</button>'',
       [10], js ''          </div>'',
       [10], js ''        </div>'',
       [10], js ''      </section>'',
       [10], js ''    </div>'',
       [10], js ''  '']\<close>

definition renderRootHeader :: "WalletSummary \<Rightarrow> jstring" where
  \<open>renderRootHeader activeWallet =
     concat
      [[10], js ''    <header class="popup-header">'',
       [10], js ''      <button class="icon-button" data-action="avatar" aria-label="avatar">'',
       [10], js ''        <span class="avatar-circle">A</span>'',
       [10], js ''      </button>'',
       [10], js ''      <button class="wallet-button" data-action="wallet-drawer" aria-label="wallet">'',
       [10], js ''        <span class="wallet-name">'',
       escapeHtml (walletName activeWallet),
       js ''</span>'',
       [10], js ''        <span class="wallet-address">'',
       escapeHtml (formatAddressShort (walletAddress activeWallet)),
       js ''</span>'',
       [10], js ''      </button>'',
       [10], js ''      <button class="icon-button" data-action="settings" aria-label="settings">'',
       [10], js ''        <span class="icon-dot"></span>'',
       [10], js ''      </button>'',
       [10], js ''    </header>'',
       [10], js ''  '']\<close>

definition renderTab :: "PopupTabKey \<Rightarrow> PopupTabKey \<Rightarrow> jstring" where
  \<open>renderTab current tab =
     concat
      [js ''<button class="tab-item '',
       ifText (tab = current) (js ''active''),
       js ''" role="tab" aria-selected="'',
       boolText (tab = current),
       js ''" data-tab="'',
       tabKey tab,
       js ''">'',
       getTabTitle tab,
       js ''</button>'']\<close>

definition renderTopTabs :: "PopupTabKey \<Rightarrow> jstring" where
  \<open>renderTopTabs current =
     concat
      [[10], js ''    <div class="tab-nav" role="tablist">'',
       [10], js ''      '',
       concat (map (renderTab current) [Tokens, Collectibles, Activity]),
       [10], js ''    </div>'',
       [10], js ''  '']\<close>

definition renderSearchHint :: "PopupState \<Rightarrow> jstring" where
  \<open>renderSearchHint state =
     (let hint = (if searchKeyword state \<noteq> [] then concat [[24050, 31579, 36873],
            js '' '',
            natString (length (getSearchResults state)),
            js '' '',
            [26465, 32467, 26524]]
          else [25353] @ js '' / '' @ [38190, 25171, 24320, 25628, 32034])
      in concat [js ''<p class="search-feedback">'',
       hint,
       js ''</p>''])\<close>

definition renderPrimaryActions :: "jstring" where
  \<open>renderPrimaryActions =
     concat
      [[10], js ''    <div class="popup-action-row">'',
       [10], js ''      <button class="ext-button" data-action="open-send">'',
       [21457, 36865],
       js ''</button>'',
       [10], js ''      <button class="ext-button ghost" data-action="open-receive">'',
       [25509, 25910],
       js ''</button>'',
       [10], js ''    </div>'',
       [10], js ''  '']\<close>

definition itemAttrs :: "PopupTabKey \<Rightarrow> list_item \<Rightarrow> jstring" where
  \<open>itemAttrs tab item =
     (case tab of
        Tokens \<Rightarrow> concat [js ''data-action="open-token-detail" data-id="'',
         itemId item,
         js ''"'']
      | Activity \<Rightarrow> concat [js ''data-action="open-activity-detail" data-id="'',
         itemId item,
         js ''"'']
      | Collectibles \<Rightarrow> concat [js ''data-action="open-collectible-detail" data-id="'',
         itemId item,
         js ''"''])\<close>

definition renderItem :: "PopupTabKey \<Rightarrow> list_item \<Rightarrow> jstring" where
  \<open>renderItem tab item =
     concat
      [[10], js ''        <article class="ext-card clickable" '',
       itemAttrs tab item,
       js ''>'',
       [10], js ''          <div class="item-row">'',
       [10], js ''            <div>'',
       [10], js ''              <p class="item-title">'',
       escapeHtml (itemTitle item),
       js ''</p>'',
       [10], js ''              <p class="item-desc">'',
       escapeHtml (itemDescription item),
       js ''</p>'',
       [10], js ''              <p class="item-meta">'',
       escapeHtml (itemMeta item),
       js ''</p>'',
       [10], js ''            </div>'',
       [10], js ''            <span class="ext-badge '',
       getStatusClass (itemStatus item),
       js ''">'',
       (if itemStatus item = StatusDefault then [20449, 24687] else statusText (itemStatus item)),
       js ''</span>'',
       [10], js ''          </div>'',
       [10], js ''        </article>'',
       [10], js ''      '']\<close>

definition renderItemList :: "PopupTabKey \<Rightarrow> list_item list \<Rightarrow> jstring" where
  \<open>renderItemList tab items =
     (if items = [] then concat [js ''<div class="empty-state ext-card">'',
         [26242, 26080, 25968, 25454],
         js ''</div>'']
      else concat (map (renderItem tab) items))\<close>

definition renderHeaderWithBack :: "jstring \<Rightarrow> jstring \<Rightarrow> jstring" where
  \<open>renderHeaderWithBack heading action =
     concat
      [[10], js ''    <header class="popup-header simple">'',
       [10], js ''      <button class="icon-button" data-action="'',
       action,
       js ''" aria-label="back">'',
       [8592],
       js ''</button>'',
       [10], js ''      <div class="popup-title-inline">'',
       escapeHtml heading,
       js ''</div>'',
       [10], js ''      <div class="header-spacer"></div>'',
       [10], js ''    </header>'',
       [10], js ''  '']\<close>

definition renderHeaderWithClose :: "jstring \<Rightarrow> jstring" where
  \<open>renderHeaderWithClose heading =
     concat
      [[10], js ''    <header class="popup-header simple">'',
       [10], js ''      <button class="icon-button" data-action="close" aria-label="close">'',
       [10005],
       js ''</button>'',
       [10], js ''      <div class="popup-title-inline">'',
       escapeHtml heading,
       js ''</div>'',
       [10], js ''      <div class="header-spacer"></div>'',
       [10], js ''    </header>'',
       [10], js ''  '']\<close>

definition renderTabsScreen :: "PopupState \<Rightarrow> WalletSummary \<Rightarrow> jstring" where
  \<open>renderTabsScreen state activeWallet =
     (let tab = activeTab state;
          currentItems = getTabItems state;
          routeText = (if tab = Tokens then routeTokens else if tab = Collectibles then routeCollectibles else routeActivity)
      in concat
      [[10], js ''    <div class="popup-shell">'',
       [10], js ''      '',
       renderRootHeader activeWallet,
       [10], js ''      '',
       renderTopTabs tab,
       [10], js ''      '',
       renderSearchHint state,
       [10], js ''      '',
       renderPrimaryActions,
       [10], js ''      <section class="ext-card">'',
       [10], js ''        <div class="page-head">'',
       [10], js ''          <h2>'',
       getTabTitle tab,
       js ''</h2>'',
       [10], js ''          <span class="ext-badge">'',
       natString (length currentItems),
       js '' '',
       [26465],
       js ''</span>'',
       [10], js ''        </div>'',
       [10], js ''        <div class="page-scroll">'',
       [10], js ''          '',
       renderItemList tab currentItems,
       [10], js ''        </div>'',
       [10], js ''      </section>'',
       [10], js ''      <p class="footer-note">'',
       [24403, 21069, 36335, 24452, 65306],
       routeText,
       js ''</p>'',
       [10], js ''    </div>'',
       [10], js ''  ''])\<close>

text \<open>The parameter \<open>id\<close> of the route on top of the stack.\<close>

definition topParam :: "PopupState \<Rightarrow> jstring" where
  "topParam state = nullish (paramId (last (stack state))) []"

definition shownToken :: "PopupState \<Rightarrow> TokenListItem" where
  "shownToken state = findOr (\<lambda>item. itemId item = topParam state) tokenItems"

definition shownActivity :: "PopupState \<Rightarrow> list_item" where
  "shownActivity state = findOr (\<lambda>item. itemId item = topParam state) activityItems"

definition renderTokenDetailScreen :: "PopupState \<Rightarrow> WalletSummary \<Rightarrow> jstring" where
  \<open>renderTokenDetailScreen state activeWallet =
     (let token = shownToken state in concat
      [[10], js ''    <div class="popup-shell">'',
       [10], js ''      '',
       renderHeaderWithBack (tokenSymbol token) (js ''back''),
       [10], js ''      <section class="ext-card">'',
       [10], js ''        <div class="page-scroll">'',
       [10], js ''          <div class="detail-head">'',
       [10], js ''            <h2>'',
       escapeHtml (itemTitle token),
       js ''</h2>'',
       [10], js ''            <p class="detail-sub">'',
       escapeHtml (itemDescription token),
       js ''</p>'',
       [10], js ''            <p class="detail-meta">'',
       escapeHtml (itemMeta token),
       js ''</p>'',
       [10], js ''          </div>'',
       [10], js ''          <div class="detail-grid">'',
       [10], js ''            <div class="detail-row"><span>'',
       [38065, 21253],
       js ''</span><strong>'',
       escapeHtml (walletName activeWallet),
       js ''</strong></div>'',
       [10], js ''            <div class="detail-row"><span>'',
       [22320, 22336],
       js ''</span><strong>'',
       escapeHtml (formatAddressShort (walletAddress activeWallet)),
       js ''</strong></div>'',
       [10], js ''          </div>'',
       [10], js ''        </div>'',
       [10], js ''      </section>'',
       [10], js ''    </div>'',
       [10], js ''  ''])\<close>

definition renderActivityDetailScreen :: "PopupState \<Rightarrow> jstring" where
  \<open>renderActivityDetailScreen state =
     (let activity = shownActivity state in concat
      [[10], js ''    <div class="popup-shell">'',
       [10], js ''      '',
       renderHeaderWithBack (js ''Activity'') (js ''back''),
       [10], js ''      <section class="ext-card">'',
       [10], js ''        <div class="page-scroll">'',
       [10], js ''          <div class="detail-head">'',
       [10], js ''            <h2>'',
       escapeHtml (itemTitle activity),
       js ''</h2>'',
       [10], js ''            <p class="detail-sub">'',
       escapeHtml (itemDescription activity),
       js ''</p>'',
       [10], js ''            <p class="detail-meta">'',
       escapeHtml (itemMeta activity),
       js ''</p>'',
       [10], js ''          </div>'',
       [10], js ''          <div class="detail-grid">'',
       [10], js ''            <div class="detail-row"><span>'',
       [29366, 24577],
       js ''</span><strong>'',
       escapeHtml (statusText (itemStatus activity)),
       js ''</strong></div>'',
       [10], js ''            <div class="detail-row"><span>'',
       [22791, 27880],
       js ''</span><strong>Mock Detail</strong></div>'',
       [10], js ''          </div>'',
       [10], js ''        </div>'',
       [10], js ''      </section>'',
       [10], js ''    </div>'',
       [10], js ''  ''])\<close>

definition renderCollectiblesDetailScreen :: "jstring" where
  \<open>renderCollectiblesDetailScreen =
     concat
      [[10], js ''    <div class="popup-shell">'',
       [10], js ''      '',
       renderHeaderWithBack (js ''Collectible'') (js ''back''),
       [10], js ''      <section class="ext-card">'',
       [10], js ''        <div class="page-scroll">'',
       [10], js ''          <div class="empty-state ext-card">'',
       [25910, 34255, 21697, 35814, 24773, 26242, 20197, 21344, 20301, 21576, 29616],
       js ''</div>'',
       [10], js ''        </div>'',
       [10], js ''      </section>'',
       [10], js ''    </div>'',
       [10], js ''  '']\<close>

definition renderCollectiblesCollectionScreen :: "jstring" where
  \<open>renderCollectiblesCollectionScreen =
     concat
      [[10], js ''    <div class="popup-shell">'',
       [10], js ''      '',
       renderHeaderWithBack (js ''Collection'') (js ''back''),
       [10], js ''      <section class="ext-card">'',
       [10], js ''        <div class="page-scroll">'',
       [10], js ''          <div class="empty-state ext-card">'',
       [38598, 21512, 39029, 26242, 20197, 21344, 20301, 21576, 29616],
       js ''</div>'',
       [10], js ''        </div>'',
       [10], js ''      </section>'',
       [10], js ''    </div>'',
       [10], js ''  '']\<close>

definition renderBaseContent :: "PopupState \<Rightarrow> PopupRoute \<Rightarrow> WalletSummary \<Rightarrow> jstring" where
  \<open>renderBaseContent state base activeWallet =
     (if isLocked state then renderLockedScreen
      else if routeId base = TokenDetail then renderTokenDetailScreen state activeWallet
      else if routeId base = ActivityDetail then renderActivityDetailScreen state
      else if routeId base = CollectiblesDetail then renderCollectiblesDetailScreen
      else if routeId base = CollectiblesCollection then renderCollectiblesCollectionScreen
      else renderTabsScreen state activeWallet)\<close>

definition renderDrawerItem :: "jstring \<Rightarrow> WalletSummary \<Rightarrow> jstring" where
  \<open>renderDrawerItem current wallet =
     concat
      [[10], js ''            <button class="drawer-item '',
       ifText (walletId wallet = current) (js ''active''),
       js ''" data-action="select-wallet" data-id="'',
       walletId wallet,
       js ''">'',
       [10], js ''              <span class="drawer-title">'',
       escapeHtml (walletName wallet),
       js ''</span>'',
       [10], js ''              <span class="drawer-sub">'',
       escapeHtml (formatAddressShort (walletAddress wallet)),
       js ''</span>'',
       [10], js ''            </button>'',
       [10], js ''          '']\<close>

definition renderWalletDrawer :: "WalletSummary list \<Rightarrow> jstring \<Rightarrow> jstring" where
  \<open>renderWalletDrawer ws current =
     concat
      [[10], js ''    <div class="drawer-list">'',
       [10], js ''      '',
       concat (map (renderDrawerItem current) ws),
       [10], js ''    </div>'',
       [10], js ''  '']\<close>

definition renderSendFeedback :: "PopupState \<Rightarrow> jstring" where
  \<open>renderSendFeedback state =
     (if sendFeedback state = [] then []
      else concat [js ''<div class="form-feedback '',
         (case sendFeedbackTone state of ToneError \<Rightarrow> js ''error'' | ToneSuccess \<Rightarrow> js ''success'' | Neutral \<Rightarrow> []),
         js ''">'',
         escapeHtml (sendFeedback state),
         js ''</div>''])\<close>

definition renderSendTokenItem :: "jstring \<Rightarrow> TokenListItem \<Rightarrow> jstring" where
  \<open>renderSendTokenItem current token =
     concat
      [[10], js ''            <button class="drawer-item '',
       ifText (itemId token = current) (js ''active''),
       js ''" data-action="select-send-token" data-id="'',
       itemId token,
       js ''">'',
       [10], js ''              <span class="drawer-title">'',
       escapeHtml (tokenSymbol token),
       js ''</span>'',
       [10], js ''              <span class="drawer-sub">'',
       escapeHtml (itemDescription token),
       js ''</span>'',
       [10], js ''            </button>'',
       [10], js ''          '']\<close>

definition renderSendTokenScreen :: "PopupState \<Rightarrow> jstring" where
  \<open>renderSendTokenScreen state =
     concat
      [[10], js ''    '',
       renderHeaderWithClose ([36873, 25321] @ js '' Token''),
       [10], js ''    <div class="modal-content">'',
       [10], js ''      '',
       concat (map (renderSendTokenItem (draftTokenId (sendDraft state))) tokenItems),
       [10], js ''      <div class="modal-actions">'',
       [10], js ''        <button class="ext-button ghost" data-action="close-send" data-close-behavior="reset">'',
       [21462, 28040],
       js ''</button>'',
       [10], js ''        <button class="ext-button" data-action="send-next" data-next="SendAddress">'',
       [19979, 19968, 27493],
       js ''</button>'',
       [10], js ''      </div>'',
       [10], js ''    </div>'',
       [10], js ''  '']\<close>

text \<open>A field error is shown when it is a non-empty string.\<close>

definition hasError :: "jstring option \<Rightarrow> bool" where
  "hasError e = (case e of None \<Rightarrow> False | Some t \<Rightarrow> t \<noteq> [])"

definition renderSendAddressScreen :: "PopupState \<Rightarrow> jstring" where
  \<open>renderSendAddressScreen state =
     concat
      [[10], js ''    '',
       renderHeaderWithBack ([25910, 27454, 22320, 22336]) (js ''send-prev''),
       [10], js ''    <div class="modal-content">'',
       [10], js ''      <label class="field-block">'',
       [10], js ''        '',
       [25910, 27454, 22320, 22336, 10],
       js ''        <input id="send-to-input" class="ext-input '',
       ifText (hasError (errTo (sendDraftErrors state))) (js ''field-error''),
       js ''" data-field="send-to" value="'',
       escapeHtml (draftTo (sendDraft state)),
       js ''" />'',
       [10], js ''        '',
       (case errTo (sendDraftErrors state) of None \<Rightarrow> [] | Some e \<Rightarrow> ifText (e \<noteq> []) (concat [js ''<span class="field-feedback error">'', escapeHtml e, js ''</span>''])),
       [10], js ''      </label>'',
       [10], js ''      '',
       renderSendFeedback state,
       [10], js ''      <div class="modal-actions">'',
       [10], js ''        <button class="ext-button ghost" data-action="send-prev">'',
       [36820, 22238],
       js ''</button>'',
       [10], js ''        <button class="ext-button" data-action="send-next" data-next="SendAmount">'',
       [19979, 19968, 27493],
       js ''</button>'',
       [10], js ''      </div>'',
       [10], js ''    </div>'',
       [10], js ''  '']\<close>

definition renderSendAmountScreen :: "PopupState \<Rightarrow> jstring" where
  \<open>renderSendAmountScreen state =
     concat
      [[10], js ''    '',
       renderHeaderWithBack ([22635, 20889, 37329, 39069]) (js ''send-prev''),
       [10], js ''    <div class="modal-content">'',
       [10], js ''      <label class="field-block">'',
       [10], js ''        '',
       [37329, 39069, 10],
       js ''        <input id="send-amount-input" class="ext-input '',
       ifText (hasError (errAmount (sendDraftErrors state))) (js ''field-error''),
       js ''" data-field="send-amount" value="'',
       escapeHtml (draftAmount (sendDraft state)),
       js ''" />'',
       [10], js ''        '',
       (case errAmount (sendDraftErrors state) of None \<Rightarrow> [] | Some e \<Rightarrow> ifText (e \<noteq> []) (concat [js ''<span class="field-feedback error">'', escapeHtml e, js ''</span>''])),
       [10], js ''      </label>'',
       [10], js ''      <label class="field-block">'',
       [10], js ''        '',
       [22791, 27880, 10],
       js ''        <input id="send-memo-input" class="ext-input '',
       ifText (hasError (errMemo (sendDraftErrors state))) (js ''field-error''),
       js ''" data-field="send-memo" value="'',
       escapeHtml (draftMemo (sendDraft state)),
       js ''" />'',
       [10], js ''        '',
       (case errMemo (sendDraftErrors state) of None \<Rightarrow> [] | Some e \<Rightarrow> ifText (e \<noteq> []) (concat [js ''<span class="field-feedback error">'', escapeHtml e, js ''</span>''])),
       [10], js ''      </label>'',
       [10], js ''      '',
       renderSendFeedback state,
       [10], js ''      <div class="modal-actions">'',
       [10], js ''        <button class="ext-button ghost" data-action="send-prev">'',
       [36820, 22238],
       js ''</button>'',
       [10], js ''        <button class="ext-button" data-action="send-next" data-next="SendConfirm">'',
       [30830, 35748],
       js ''</button>'',
       [10], js ''      </div>'',
       [10], js ''    </div>'',
       [10], js ''  '']\<close>

definition renderSendConfirmScreen :: "PopupState \<Rightarrow> jstring" where
  \<open>renderSendConfirmScreen state =
     (let token = findOr (\<lambda>item. itemId item = draftTokenId (sendDraft state)) tokenItems in concat
      [[10], js ''    '',
       renderHeaderWithBack ([30830, 35748, 21457, 36865]) (js ''send-prev''),
       [10], js ''    <div class="modal-content">'',
       [10], js ''      <div class="modal-grid"><span>Token</span><strong>'',
       escapeHtml (tokenSymbol token),
       js ''</strong></div>'',
       [10], js ''      <div class="modal-grid"><span>'',
       [25910, 27454, 26041],
       js ''</span><strong>'',
       escapeHtml (formatAddressShort (draftTo (sendDraft state))),
       js ''</strong></div>'',
       [10], js ''      <div class="modal-grid"><span>'',
       [37329, 39069],
       js ''</span><strong>'',
       escapeHtml (draftAmount (sendDraft state)),
       js ''</strong></div>'',
       [10], js ''      <div class="modal-grid"><span>'',
       [22791, 27880],
       js ''</span><strong>'',
       escapeHtml (if draftMemo (sendDraft state) \<noteq> [] then draftMemo (sendDraft state) else js ''-''),
       js ''</strong></div>'',
       [10], js ''      '',
       renderSendFeedback state,
       [10], js ''      <div class="modal-actions">'',
       [10], js ''        <button class="ext-button ghost" data-action="send-prev">'',
       [36820, 22238, 20462, 25913],
       js ''</button>'',
       [10], js ''        <button class="ext-button" data-action="send-submit" '',
       ifText (sendSubmitting state) (js ''disabled''),
       js ''>'',
       (if sendSubmitting state then [24191, 25773, 20013] @ js ''...'' else [30830, 35748, 21457, 36865]),
       js ''</button>'',
       [10], js ''      </div>'',
       [10], js ''    </div>'',
       [10], js ''  ''])\<close>

definition renderModalScreen :: "PopupState \<Rightarrow> PopupRoute \<Rightarrow> WalletSummary \<Rightarrow> jstring" where
  \<open>renderModalScreen state route activeWallet =
     (if routeId route = WalletDrawer then concat [[10], js ''      '',
         renderHeaderWithClose (js ''Wallets''),
         [10], js ''      <div class="modal-content">'',
         [10], js ''        '',
         renderWalletDrawer (wallets state) (walletId activeWallet),
         [10], js ''      </div>'',
         [10], js ''    '']
      else if routeId route = AvatarPopover then concat [[10], js ''      '',
         renderHeaderWithClose (js ''Account''),
         [10], js ''      <div class="modal-content">'',
         [10], js ''        <div class="modal-grid"><span>'',
         [24403, 21069, 38065, 21253],
         js ''</span><strong>'',
         escapeHtml (walletName activeWallet),
         js ''</strong></div>'',
         [10], js ''        <div class="modal-actions">'',
         [10], js ''          <button class="ext-button ghost" data-action="lock">'',
         [38145, 23450],
         js ''</button>'',
         [10], js ''          <button class="ext-button" data-action="open-settings">'',
         [35774, 32622],
         js ''</button>'',
         [10], js ''        </div>'',
         [10], js ''      </div>'',
         [10], js ''    '']
      else if routeId route = Settings then concat [[10], js ''      '',
         renderHeaderWithClose (js ''Settings''),
         [10], js ''      <div class="modal-content">'',
         [10], js ''        <div class="modal-grid"><span>Network</span><strong>Mainnet</strong></div>'',
         [10], js ''        <div class="modal-grid"><span>Currency</span><strong>USD</strong></div>'',
         [10], js ''        <div class="modal-actions">'',
         [10], js ''          <button class="ext-button ghost" data-action="lock">'',
         [38145, 23450],
         js ''</button>'',
         [10], js ''          <button class="ext-button" data-action="close">'',
         [23436, 25104],
         js ''</button>'',
         [10], js ''        </div>'',
         [10], js ''      </div>'',
         [10], js ''    '']
      else if routeId route = Receive then concat [[10], js ''      '',
         renderHeaderWithClose (js ''Receive''),
         [10], js ''      <div class="modal-content">'',
         [10], js ''        <div class="modal-grid"><span>'',
         [22320, 22336],
         js ''</span><strong>'',
         escapeHtml (walletAddress activeWallet),
         js ''</strong></div>'',
         [10], js ''        <div class="modal-actions">'',
         [10], js ''          <button class="ext-button ghost" data-action="copy-address">'',
         [22797, 21046, 22320, 22336],
         js ''</button>'',
         [10], js ''          <button class="ext-button" data-action="close">'',
         [23436, 25104],
         js ''</button>'',
         [10], js ''        </div>'',
         [10], js ''      </div>'',
         [10], js ''    '']
      else if routeId route = SendToken then renderSendTokenScreen state
      else if routeId route = SendAddress then renderSendAddressScreen state
      else if routeId route = SendAmount then renderSendAmountScreen state
      else if routeId route = SendConfirm then renderSendConfirmScreen state
      else concat [[10], js ''    '',
         renderHeaderWithClose (js ''Modal''),
         [10], js ''    <div class="modal-content">'',
         [10], js ''      <div class="empty-state ext-card">'',
         [26410, 23454, 29616, 30340, 27169, 24577, 39029, 38754],
         js ''</div>'',
         [10], js ''    </div>'',
         [10], js ''  ''])\<close>

definition renderModal :: "PopupState \<Rightarrow> PopupRoute \<Rightarrow> WalletSummary \<Rightarrow> jstring" where
  \<open>renderModal state route activeWallet =
     concat
      [[10], js ''    <div class="ext-modal-mask modal-open" data-action="modal-mask">'',
       [10], js ''      <div class="ext-modal" role="dialog" aria-modal="true">'',
       [10], js ''        '',
       renderModalScreen state route activeWallet,
       [10], js ''      </div>'',
       [10], js ''    </div>'',
       [10], js ''  '']\<close>

definition renderSearchResult :: "list_item \<Rightarrow> jstring" where
  \<open>renderSearchResult item =
     concat
      [[10], js ''        <article class="ext-card">'',
       [10], js ''          <div class="item-row">'',
       [10], js ''            <div>'',
       [10], js ''              <p class="item-title">'',
       escapeHtml (itemTitle item),
       js ''</p>'',
       [10], js ''              <p class="item-desc">'',
       escapeHtml (itemDescription item),
       js ''</p>'',
       [10], js ''              <p class="item-meta">'',
       escapeHtml (itemMeta item),
       js ''</p>'',
       [10], js ''            </div>'',
       [10], js ''          </div>'',
       [10], js ''        </article>'',
       [10], js ''      '']\<close>

definition renderTransparentModal :: "PopupState \<Rightarrow> PopupRoute \<Rightarrow> jstring" where
  \<open>renderTransparentModal state route =
     (if routeId route \<noteq> Search then []
      else let results = getSearchResults state in concat
      [[10], js ''    <div class="ext-modal-mask modal-transparent" data-action="search-mask">'',
       [10], js ''      <div class="ext-modal transparent" role="dialog" aria-modal="true">'',
       [10], js ''        '',
       renderHeaderWithClose (js ''Search''),
       [10], js ''        <div class="modal-content">'',
       [10], js ''          <label class="field-block">'',
       [10], js ''            '',
       [25628, 32034, 10],
       js ''            <input id="search-input" class="ext-input" data-field="search" value="'',
       escapeHtml (searchInputValue state),
       js ''" placeholder="Search tokens, collectibles, activity" />'',
       [10], js ''          </label>'',
       [10], js ''          <div class="page-scroll">'',
       [10], js ''            '',
       (if results \<noteq> [] then concat (map renderSearchResult results) else js ''<div class="empty-state ext-card">'' @ [26080, 21305, 37197, 32467, 26524] @ js ''</div>''),
       [10], js ''          </div>'',
       [10], js ''        </div>'',
       [10], js ''      </div>'',
       [10], js ''    </div>'',
       [10], js ''  ''])\<close>

definition activeWalletOf :: "PopupState \<Rightarrow> WalletSummary" where
  \<open>activeWalletOf state =
     findOr (\<lambda>wallet. walletId wallet = activeWalletId state) (wallets state)\<close>

definition renderAppShell :: "PopupState \<Rightarrow> PopupRoute \<Rightarrow> PopupRoute list \<Rightarrow> PopupRoute list \<Rightarrow> jstring" where
  \<open>renderAppShell state base overlay transparent =
     (let activeWallet = activeWalletOf state;
          baseContent = renderBaseContent state base activeWallet;
          overlayContent = (if overlay \<noteq> [] then renderModal state (last overlay) activeWallet else []);
          transparentContent = (if transparent \<noteq> [] then renderTransparentModal state (last transparent) else [])
      in concat
      [[10], js ''    <div class="popup-root">'',
       [10], js ''      '',
       baseContent,
       [10], js ''      '',
       overlayContent,
       [10], js ''      '',
       transparentContent,
       [10], js ''    </div>'',
       [10], js ''  ''])\<close>

section \<open>Escaping\<close>

definition escapeUnit :: "jchar \<Rightarrow> jstring" where
  "escapeUnit c =
     (if c = 38 then js ''&amp;'' else if c = 60 then js ''&lt;'' else if c = 62 then js ''&gt;''
      else if c = 34 then js ''&quot;'' else if c = 39 then js ''&#039;'' else [c])"

lemma replaceAll_Nil [simp]: "replaceAll c r [] = []"
  by (simp add: replaceAll_def)

lemma replaceAll_Cons: "replaceAll c r (x # s) = (if x = c then r else [x]) @ replaceAll c r s"
  by (simp add: replaceAll_def)

lemma replaceAll_append: "replaceAll c r (s @ t) = replaceAll c r s @ replaceAll c r t"
  by (simp add: replaceAll_def)

lemma escapeHtml_append: "escapeHtml (s @ t) = escapeHtml s @ escapeHtml t"
  by (simp add: escapeHtml_def replaceAll_append del: js_Cons)

lemma escapeHtml_unit: "escapeHtml [c] = escapeUnit c"
  by (simp add: escapeHtml_def escapeUnit_def replaceAll_Cons)

lemma escapeHtml_one_pass: "escapeHtml s = concat (map escapeUnit s)"
proof (induction s)
  case (Cons c s)
  have "escapeHtml (c # s) = escapeHtml [c] @ escapeHtml s" by (metis append_Cons append_Nil escapeHtml_append)
  with Cons show ?case by (simp add: escapeHtml_unit)
qed (simp add: escapeHtml_def)

text \<open>The code units that delimit tags and attribute values.\<close>

definition isMarkup :: "jchar \<Rightarrow> bool" where
  "isMarkup c \<longleftrightarrow> c = 60 \<or> c = 62 \<or> c = 34 \<or> c = 39"

definition markup :: "jstring \<Rightarrow> jstring" where
  "markup s = filter isMarkup s"

lemma markup_append [simp]: "markup (s @ t) = markup s @ markup t"
  by (simp add: markup_def)

lemma markup_Cons [simp]: "markup (c # s) = (if isMarkup c then [c] else []) @ markup s"
  by (simp add: markup_def)

lemma markup_concat [simp]: "markup (concat ss) = concat (map markup ss)"
  by (simp add: markup_def[abs_def] filter_concat)

lemma markup_escapeUnit: "markup (escapeUnit c) = []"
  by (simp add: markup_def escapeUnit_def isMarkup_def)

lemma markup_escapeHtml [simp]: "markup (escapeHtml s) = []"
  by (simp add: escapeHtml_one_pass markup_escapeUnit comp_def)

text \<open>Reading the five entities back.\<close>

fun unescapeHtml :: "jstring \<Rightarrow> jstring" where
  "unescapeHtml [] = []"
| "unescapeHtml (c # s) =
     (if c \<noteq> 38 then c # unescapeHtml s
      else if take 4 s = js ''amp;'' then 38 # unescapeHtml (drop 4 s)
      else if take 3 s = js ''lt;'' then 60 # unescapeHtml (drop 3 s)
      else if take 3 s = js ''gt;'' then 62 # unescapeHtml (drop 3 s)
      else if take 5 s = js ''quot;'' then 34 # unescapeHtml (drop 5 s)
      else if take 5 s = js ''#039;'' then 39 # unescapeHtml (drop 5 s)
      else c # unescapeHtml s)"

lemma unescape_unit: "unescapeHtml (escapeUnit c @ s) = c # unescapeHtml s"
  by (simp add: escapeUnit_def)

lemma unescape_escape: "unescapeHtml (escapeHtml s) = s"
  unfolding escapeHtml_one_pass by (induction s) (auto simp: unescape_unit)

section \<open>Rendering and user text\<close>

text \<open>A state with other user text: the draft fields, the search box, names and addresses.\<close>

record user_text =
  utTo :: jstring
  utAmount :: jstring
  utMemo :: jstring
  utSearch :: jstring
  utName :: "WalletSummary \<Rightarrow> jstring"
  utAddress :: "WalletSummary \<Rightarrow> jstring"

definition renameWallet :: "user_text \<Rightarrow> WalletSummary \<Rightarrow> WalletSummary" where
  "renameWallet ut w = w\<lparr>walletName := utName ut w, walletAddress := utAddress ut w\<rparr>"

definition withUserText :: "user_text \<Rightarrow> PopupState \<Rightarrow> PopupState" where
  "withUserText ut state = state\<lparr>
     sendDraft := (sendDraft state)\<lparr>draftTo := utTo ut, draftAmount := utAmount ut, draftMemo := utMemo ut\<rparr>,
     searchInputValue := utSearch ut, wallets := map (renameWallet ut) (wallets state)\<rparr>"

lemma renameWallet_id [simp]: "walletId (renameWallet ut w) = walletId w"
  by (simp add: renameWallet_def)

lemma withUserText_simps [simp]:
  "activeTab (withUserText ut s) = activeTab s" "stack (withUserText ut s) = stack s"
  "isLocked (withUserText ut s) = isLocked s" "searchKeyword (withUserText ut s) = searchKeyword s"
  "sendDraftErrors (withUserText ut s) = sendDraftErrors s" "sendFeedback (withUserText ut s) = sendFeedback s"
  "sendFeedbackTone (withUserText ut s) = sendFeedbackTone s" "sendSubmitting (withUserText ut s) = sendSubmitting s"
  "activeWalletId (withUserText ut s) = activeWalletId s" "wallets (withUserText ut s) = map (renameWallet ut) (wallets s)"
  "draftTokenId (sendDraft (withUserText ut s)) = draftTokenId (sendDraft s)"
  by (simp_all add: withUserText_def)

lemma find_map_id: "find (\<lambda>w. walletId w = i) (map (renameWallet ut) ws) = map_option (renameWallet ut) (find (\<lambda>w. walletId w = i) ws)"
  by (induction ws) auto

lemma activeWallet_withUserText:
  "wallets s \<noteq> [] \<Longrightarrow> activeWalletOf (withUserText ut s) = renameWallet ut (activeWalletOf s)"
  by (simp add: activeWalletOf_def findOr_def find_map_id hd_map split: option.splits)

lemma getters_withUserText [simp]:
  "getTabItems (withUserText ut s) = getTabItems s" "getSearchResults (withUserText ut s) = getSearchResults s"
  "shownToken (withUserText ut s) = shownToken s" "shownActivity (withUserText ut s) = shownActivity s"
  "renderSearchHint (withUserText ut s) = renderSearchHint s" "renderSendFeedback (withUserText ut s) = renderSendFeedback s"
  "renderSendTokenScreen (withUserText ut s) = renderSendTokenScreen s"
  by (simp_all add: getTabItems_def getSearchResults_def shownToken_def shownActivity_def topParam_def
      renderSearchHint_def renderSendFeedback_def renderSendTokenScreen_def del: js_Cons)

lemma markup_rootHeader: "markup (renderRootHeader w) = markup (renderRootHeader w')"
  unfolding renderRootHeader_def markup_concat by (simp del: js_Cons)

lemma markup_drawer:
  "markup (renderWalletDrawer (map (renameWallet ut) ws) i) = markup (renderWalletDrawer ws i)"
proof -
  have item: "markup (renderDrawerItem i (renameWallet ut w)) = markup (renderDrawerItem i w)" for w
    unfolding renderDrawerItem_def markup_concat by (simp del: js_Cons)
  show ?thesis unfolding renderWalletDrawer_def markup_concat by (simp add: comp_def item del: js_Cons)
qed

lemma markup_sendAddress:
  "markup (renderSendAddressScreen (withUserText ut s)) = markup (renderSendAddressScreen s)"
  unfolding renderSendAddressScreen_def markup_concat by (simp del: js_Cons)

lemma markup_sendAmount:
  "markup (renderSendAmountScreen (withUserText ut s)) = markup (renderSendAmountScreen s)"
  unfolding renderSendAmountScreen_def markup_concat by (simp del: js_Cons)

lemma markup_sendConfirm:
  "markup (renderSendConfirmScreen (withUserText ut s)) = markup (renderSendConfirmScreen s)"
  unfolding renderSendConfirmScreen_def Let_def markup_concat by (simp del: js_Cons)

lemma markup_tokenDetail:
  "markup (renderTokenDetailScreen (withUserText ut s) w') = markup (renderTokenDetailScreen s w)"
  unfolding renderTokenDetailScreen_def Let_def markup_concat by (simp del: js_Cons)

lemma markup_tabs:
  "markup (renderTabsScreen (withUserText ut s) w') = markup (renderTabsScreen s w)"
  unfolding renderTabsScreen_def Let_def markup_concat by (simp add: markup_rootHeader[of w' w] del: js_Cons)

lemma markup_base:
  "markup (renderBaseContent (withUserText ut s) base w') = markup (renderBaseContent s base w)"
  by (simp add: renderBaseContent_def markup_tokenDetail[of ut s w' w] markup_tabs[of ut s w' w]
      renderActivityDetailScreen_def del: js_Cons)

lemma markup_modal:
  "markup (renderModal (withUserText ut s) r (renameWallet ut w)) = markup (renderModal s r w)"
proof -
  have "markup (renderModalScreen (withUserText ut s) r (renameWallet ut w)) = markup (renderModalScreen s r w)"
    unfolding renderModalScreen_def
    by (simp add: markup_sendAddress markup_sendAmount markup_sendConfirm markup_drawer del: js_Cons)
  then show ?thesis unfolding renderModal_def markup_concat by (simp del: js_Cons)
qed

lemma markup_transparent:
  "markup (renderTransparentModal (withUserText ut s) r) = markup (renderTransparentModal s r)"
  by (simp add: renderTransparentModal_def Let_def del: js_Cons)

text \<open>
  C19: user text can not change the structure of the page. For every state and view, replacing
  the recipient, amount and memo of the draft, the text in the search box and the names and
  addresses of the wallets by arbitrary strings leaves the sequence of tag and quote
  characters of the rendered HTML unchanged; and each such text can be read back from its
  escaped form.
\<close>

theorem rendering_isolates_user_text:
  assumes "wallets s \<noteq> []"
  shows "markup (renderAppShell (withUserText ut s) base overlay transparent)
      = markup (renderAppShell s base overlay transparent) \<and> unescapeHtml (escapeHtml txt) = txt"
  using assms
  by (simp add: renderAppShell_def Let_def activeWallet_withUserText markup_base[of ut s base _ "activeWalletOf s"]
      markup_modal markup_transparent unescape_escape del: js_Cons)

theorem rendering_isolates_user_text_witness:
  "markup (renderAppShell (withUserText
      \<lparr>utTo = js ''<script>'', utAmount = [34], utMemo = [39], utSearch = [], utName = (\<lambda>_. js ''<b>''), utAddress = (\<lambda>_. [])\<rparr>
      initialState) rootRoute [] []) = markup (renderAppShell initialState rootRoute [] [])"
  using rendering_isolates_user_text[of initialState] by (simp add: initialState_def defaultWallets_def del: js_Cons)

end
