(* ===== verification/PopupController.thy ===== *)
theory PopupController
  imports PopupScreens
begin

text \<open>
  \<open>wallet-extension/src/popup/popup_controller.ts\<close>: the event handlers of the popup as functions
  on the state of the user interface (the store, the pending timers of a submission, and
  what was written to the clipboard), the step relation of one event at a time, and its
  invariants. Every event may occur in every state: the relation allows more orders than
  the rendered page offers.
\<close>

section \<open>Handlers\<close>

definition routeWith ::
  "PopupScreenId \<Rightarrow> PopupPresentation \<Rightarrow> jstring \<Rightarrow> bool option \<Rightarrow> CloseBehavior option \<Rightarrow> jstring option \<Rightarrow> PopupRoute" where
  "routeWith i p t sc cb pid =
     \<lparr>routeId = i, presentation = p, title = Some t, showClose = sc, closeBehavior = cb, paramId = pid\<rparr>"

definition openSearch :: "PopupState \<Rightarrow> PopupState" where
  "openSearch state =
     (let transparentOverlay = viewTransparent (getBaseAndOverlay (stack state)) in
      if transparentOverlay \<noteq> [] \<and> routeId (last transparentOverlay) = Search then state
      else push (routeWith Search TransparentModal (js ''Search'') (Some True) None None) state)"

definition openSend :: "PopupState \<Rightarrow> PopupState" where
  "openSend state =
     push (routeWith SendToken Modal routeSendToken (Some True) (Some Reset) None) (resetSendFeedback state)"

definition closeByBehavior :: "CloseBehavior \<Rightarrow> PopupState \<Rightarrow> PopupState" where
  "closeByBehavior behavior state =
     (if behavior = GoBack then pop state
      else if behavior = PopRootOnce \<or> behavior = PopRootTwice then popToBase state
      else popToBase state)"

definition closeTop :: "PopupState \<Rightarrow> PopupState" where
  "closeTop state =
     (if length (stack state) \<le> 1 then state
      else
        (let top = last (stack state) in
         case closeBehavior top of
           Some behavior \<Rightarrow> if showClose top = Some True then closeByBehavior behavior state else pop state
         | None \<Rightarrow> pop state))"

definition SEND_FAIL_TEXT :: jstring where
  "SEND_FAIL_TEXT = [23383, 27573, 26657, 39564, 26410, 36890, 36807, 65292, 35831, 20462, 27491, 21518, 32487, 32493, 12290]"
definition SEND_PENDING_TEXT :: jstring where
  "SEND_PENDING_TEXT = [20132, 26131, 24191, 25773, 20013, 65292, 35831, 31245, 20505] @ js ''...''"
definition SEND_DONE_TEXT :: jstring where
  "SEND_DONE_TEXT = [20132, 26131, 24050, 25552, 20132, 65292, 27491, 22312, 31561, 24453, 38142, 19978, 30830, 35748, 12290]"

definition failSend :: "SendDraftErrors \<Rightarrow> PopupState \<Rightarrow> PopupState" where
  "failSend errors state = setSendFeedback SEND_FAIL_TEXT ToneError (setSendErrors errors state)"

text \<open>The errors are computed on the state before the reset, as in the source.\<close>

definition goSendNext :: "PopupScreenId \<Rightarrow> PopupState \<Rightarrow> PopupState" where
  "goSendNext nxt state =
     (let cleared = resetSendFeedback state; errors = validateSendDraft state in
      if nxt = SendAddress then
        push (routeWith SendAddress Modal routeSendAddress (Some True) (Some PopRootTwice) None) cleared
      else if nxt = SendAmount then
        (if hasError (errTo errors) then failSend errors cleared
         else push (routeWith SendAmount Modal routeSendAmount (Some True) (Some PopRootTwice) None)
                (setSendErrors ((sendDraftErrors state)\<lparr>errTo := None\<rparr>) cleared))
      else if nxt = SendConfirm then
        (if hasError (errTo errors) \<or> hasError (errAmount errors) \<or> hasError (errMemo errors)
         then failSend errors cleared
         else push (routeWith SendConfirm Modal routeSendConfirm (Some True) (Some PopRootTwice) None)
                (setSendErrors noErrors cleared))
      else cleared)"

record popup_ui =
  popup :: PopupState
  timers :: nat
  clipboard :: "jstring list"

definition submitSend :: "popup_ui \<Rightarrow> popup_ui" where
  "submitSend ui =
     (let errors = validateSendDraft (popup ui) in
      if hasError (errTo errors) \<or> hasError (errAmount errors) \<or> hasError (errMemo errors)
      then ui\<lparr>popup := failSend errors (popup ui)\<rparr>
      else ui\<lparr>popup := setSendFeedback SEND_PENDING_TEXT Neutral (setSendSubmitting True (popup ui)),
              timers := Suc (timers ui)\<rparr>)"

definition submitTimer :: "popup_ui \<Rightarrow> popup_ui" where
  "submitTimer ui =
     ui\<lparr>popup := setSendFeedback SEND_DONE_TEXT ToneSuccess (setSendSubmitting False (popup ui)),
        timers := timers ui - 1\<rparr>"

definition copyAddress :: "popup_ui \<Rightarrow> popup_ui" where
  "copyAddress ui =
     (case find (\<lambda>w. walletId w = activeWalletId (popup ui)) (wallets (popup ui)) of
        None \<Rightarrow> ui
      | Some w \<Rightarrow> ui\<lparr>clipboard := clipboard ui @ [walletAddress w]\<rparr>)"

definition shouldHandleSlash :: "jstring \<Rightarrow> jstring option \<Rightarrow> bool" where
  "shouldHandleSlash key tag \<longleftrightarrow> key = js ''/'' \<and> tag \<noteq> Some (js ''INPUT'') \<and> tag \<noteq> Some (js ''TEXTAREA'')"

definition isEscape :: "jstring \<Rightarrow> bool" where
  "isEscape key \<longleftrightarrow> key = js ''Escape''"

declare isEscape_def [simp]

definition keyDown :: "jstring \<Rightarrow> jstring option \<Rightarrow> PopupState \<Rightarrow> PopupState" where
  "keyDown key tag state =
     (if shouldHandleSlash key tag then openSearch state
      else if isEscape key then
        (if viewTransparent (getBaseAndOverlay (stack state)) \<noteq> [] then closeTop state
         else if list_ex (\<lambda>r. presentation r = Modal) (stack state) then closeTop state
         else state)
      else state)"

datatype popup_event =
    ClickTab PopupTabKey
  | OpenTokenDetail jstring
  | OpenActivityDetail jstring
  | OpenCollectibleDetail
  | ClickBack
  | ClickClose
  | ClickSettings
  | ClickWalletDrawer
  | ClickAvatar
  | ClickOpenSettings
  | ClickLock
  | ClickUnlock
  | ClickReceive
  | ClickCopyAddress
  | ClickSend
  | ClickMask bool
  | SelectWallet jstring
  | InputSearch jstring
  | InputSend draft_key jstring
  | SelectSendToken jstring
  | SendPrev
  | CloseSend CloseBehavior
  | SendNext PopupScreenId
  | SendSubmit
  | KeyDown jstring "jstring option"

text \<open>The handlers that only act on the store.\<close>

fun onStore :: "popup_event \<Rightarrow> PopupState \<Rightarrow> PopupState" where
  "onStore (ClickTab tab) s = setActiveTab tab s"
| "onStore (OpenTokenDetail i) s = push (routeWith TokenDetail Push (js ''Token'') None None (Some i)) s"
| "onStore (OpenActivityDetail i) s = push (routeWith ActivityDetail Push (js ''Activity'') None None (Some i)) s"
| "onStore OpenCollectibleDetail s = push (routeWith CollectiblesDetail Push (js ''Collectible'') None None None) s"
| "onStore ClickBack s = pop s"
| "onStore ClickClose s = closeTop s"
| "onStore ClickSettings s = push (routeWith Settings Modal (js ''Settings'') (Some True) None None) s"
| "onStore ClickWalletDrawer s = push (routeWith WalletDrawer Modal (js ''Wallets'') (Some True) None None) s"
| "onStore ClickAvatar s = push (routeWith AvatarPopover Modal (js ''Account'') (Some True) None None) s"
| "onStore ClickOpenSettings s =
     push (routeWith Settings Modal (js ''Settings'') (Some True) None None) (closeTop s)"
| "onStore ClickLock s = popToRoot (setLocked True s)"
| "onStore ClickUnlock s = setLocked False s"
| "onStore ClickReceive s = push (routeWith Receive Modal (js ''Receive'') (Some True) None None) s"
| "onStore ClickSend s = openSend s"
| "onStore (ClickMask onMask) s = (if onMask then closeTop s else s)"
| "onStore (SelectWallet i) s = closeTop (setActiveWallet i s)"
| "onStore (InputSearch v) s = setSearchInput v s"
| "onStore (InputSend key v) s = updateSendDraft key v s"
| "onStore (SelectSendToken i) s = updateSendDraft KeyTokenId i s"
| "onStore SendPrev s = pop (resetSendFeedback s)"
| "onStore (CloseSend behavior) s = closeByBehavior behavior s"
| "onStore (SendNext nxt) s = goSendNext nxt s"
| "onStore (KeyDown key tag) s = keyDown key tag s"
| "onStore ClickCopyAddress s = s"
| "onStore SendSubmit s = s"

definition onEvent :: "popup_event \<Rightarrow> popup_ui \<Rightarrow> popup_ui" where
  "onEvent ev ui =
     (case ev of
        ClickCopyAddress \<Rightarrow> copyAddress ui
      | SendSubmit \<Rightarrow> submitSend ui
      | _ \<Rightarrow> ui\<lparr>popup := onStore ev (popup ui)\<rparr>)"

definition mountPopup :: popup_ui where
  "mountPopup = \<lparr>popup = initialState, timers = 0, clipboard = []\<rparr>"

text \<open>One step: an event is handled, or the timer of a submission fires.\<close>

inductive popup_step :: "popup_ui \<Rightarrow> popup_ui \<Rightarrow> bool" where
  event: "popup_step ui (onEvent ev ui)"
| timer: "0 < timers ui \<Longrightarrow> popup_step ui (submitTimer ui)"

inductive popup_reachable :: "popup_ui \<Rightarrow> bool" where
  start: "popup_reachable mountPopup"
| step: "popup_reachable ui \<Longrightarrow> popup_step ui ui' \<Longrightarrow> popup_reachable ui'"

inductive_cases popup_step_cases: "popup_step ui ui'"

section \<open>The navigation stack\<close>

lemma stack_frame [simp]:
  "stack (setActiveTab tab s) = stack s" "stack (setLocked b s) = stack s" "stack (setActiveWallet x s) = stack s"
  "stack (setSearchInput x s) = stack s" "stack (resetSendFeedback s) = stack s"
  "stack (updateSendDraft k x s) = stack s" "stack (setSendSubmitting b s) = stack s"
  "stack (setSendFeedback x t s) = stack s" "stack (setSendErrors e s) = stack s" "stack (failSend e s) = stack s"
  by (simp_all add: action_defs failSend_def)

lemma submitting_frame [simp]:
  "sendSubmitting (setActiveTab tab s) = sendSubmitting s" "sendSubmitting (setLocked b s) = sendSubmitting s"
  "sendSubmitting (setActiveWallet x s) = sendSubmitting s" "sendSubmitting (setSearchInput x s) = sendSubmitting s"
  "sendSubmitting (resetSendFeedback s) = sendSubmitting s" "sendSubmitting (updateSendDraft k x s) = sendSubmitting s"
  "sendSubmitting (setSendFeedback x t s) = sendSubmitting s" "sendSubmitting (setSendErrors e s) = sendSubmitting s"
  "sendSubmitting (push r s) = sendSubmitting s" "sendSubmitting (pop s) = sendSubmitting s"
  "sendSubmitting (popToRoot s) = sendSubmitting s" "sendSubmitting (popToBase s) = sendSubmitting s"
  "sendSubmitting (failSend e s) = sendSubmitting s"
  by (simp_all add: action_defs failSend_def Let_def)

lemma stack_ok_actions:
  assumes "stack_ok (stack s)"
  shows "route_ok r \<Longrightarrow> stack_ok (stack (push r s))" "stack_ok (stack (pop s))" "stack_ok (stack (popToRoot s))"
    "stack_ok (stack (popToBase s))" "stack_ok (stack (closeByBehavior b s))" "stack_ok (stack (closeTop s))"
proof -
  show "route_ok r \<Longrightarrow> stack_ok (stack (push r s))" using assms by (simp add: push_def stack_ok_push)
  show pop: "stack_ok (stack (pop s))" using assms by (auto simp: pop_def intro: stack_ok_butlast)
  show "stack_ok (stack (popToRoot s))" using assms by (simp add: popToRoot_def stack_ok_take)
  show base: "stack_ok (stack (popToBase s))" using assms by (simp add: popToBase_def Let_def stack_ok_take)
  show cb: "stack_ok (stack (closeByBehavior b s))" for b using pop base by (simp add: closeByBehavior_def)
  show "stack_ok (stack (closeTop s))"
    using assms pop cb by (simp add: closeTop_def Let_def split: option.splits)
qed

lemma routes_ok [simp]:
  "route_ok (routeWith Search TransparentModal t sc cb i)" "route_ok (routeWith SendToken Modal t (Some True) (Some Reset) i)"
  "route_ok (routeWith SendAddress Modal t (Some True) (Some PopRootTwice) i)" "route_ok (routeWith SendAmount Modal t (Some True) (Some PopRootTwice) i)"
  "route_ok (routeWith SendConfirm Modal t (Some True) (Some PopRootTwice) i)" "route_ok (routeWith TokenDetail Push t sc cb i)"
  "route_ok (routeWith ActivityDetail Push t sc cb i)" "route_ok (routeWith CollectiblesDetail Push t sc cb i)"
  "route_ok (routeWith Settings Modal t sc cb i)" "route_ok (routeWith WalletDrawer Modal t sc cb i)"
  "route_ok (routeWith AvatarPopover Modal t sc cb i)" "route_ok (routeWith Receive Modal t sc cb i)"
  by (simp_all add: route_ok_def routeWith_def)

lemma stack_ok_onStore: "stack_ok (stack s) \<Longrightarrow> stack_ok (stack (onStore ev s))"
  by (cases ev)
     (simp_all add: stack_ok_actions goSendNext_def openSend_def openSearch_def keyDown_def Let_def del: js_Cons)

lemma submitting_onStore: "sendSubmitting (onStore ev s) = sendSubmitting s"
  by (cases ev)
     (simp_all add: goSendNext_def openSend_def openSearch_def keyDown_def closeTop_def closeByBehavior_def Let_def
        del: js_Cons split: option.splits)

definition popup_wf :: "popup_ui \<Rightarrow> bool" where
  "popup_wf ui \<longleftrightarrow> stack_ok (stack (popup ui)) \<and> (sendSubmitting (popup ui) \<longrightarrow> 0 < timers ui)"

lemma popup_wf_mount: "popup_wf mountPopup"
  by (simp add: popup_wf_def mountPopup_def initialState_def stack_ok_initial)

lemma popup_wf_event: "popup_wf ui \<Longrightarrow> popup_wf (onEvent ev ui)"
proof (cases ev)
  case ClickCopyAddress
  then show "popup_wf ui \<Longrightarrow> ?thesis" by (simp add: onEvent_def copyAddress_def popup_wf_def split: option.splits)
next
  case SendSubmit
  then show "popup_wf ui \<Longrightarrow> ?thesis" by (simp add: onEvent_def submitSend_def popup_wf_def Let_def)
qed (simp_all add: onEvent_def popup_wf_def stack_ok_onStore submitting_onStore del: onStore.simps)

lemma popup_wf_step: "popup_step ui ui' \<Longrightarrow> popup_wf ui \<Longrightarrow> popup_wf ui'"
  by (erule popup_step_cases)
     (simp_all add: popup_wf_event, simp add: submitTimer_def popup_wf_def setSendSubmitting_def)

lemma popup_reachable_wf: "popup_reachable ui \<Longrightarrow> popup_wf ui"
  by (induction rule: popup_reachable.induct) (auto simp: popup_wf_mount intro: popup_wf_step)

section \<open>Views\<close>

lemma view_of_base:
  assumes "stack_ok st"
  shows "presentation (viewBase (getBaseAndOverlay st)) = Push" "viewBase (getBaseAndOverlay st) \<in> set st"
    "r \<in> set (drop (Suc (lastPush st (length st))) st) \<Longrightarrow> presentation r \<noteq> Push"
proof -
  have ne: "st \<noteq> []" "presentation (st ! 0) = Push" using stack_ok_nonempty[OF assms] by auto
  show "presentation (viewBase (getBaseAndOverlay st)) = Push"
    using lastPush_is_push[OF ne(2)] by (simp add: getBaseAndOverlay_def Let_def)
  show "viewBase (getBaseAndOverlay st) \<in> set st"
    using lastPush_less[of "length st" st] ne(1) by (simp add: getBaseAndOverlay_def Let_def)
  show "presentation r \<noteq> Push" if "r \<in> set (drop (Suc (lastPush st (length st))) st)"
  proof -
    obtain i where "i < length (drop (Suc (lastPush st (length st))) st)" "r = drop (Suc (lastPush st (length st))) st ! i"
      using \<open>r \<in> set (drop (Suc (lastPush st (length st))) st)\<close> by (metis in_set_conv_nth)
    then show ?thesis using lastPush_above[of st "length st" "Suc (lastPush st (length st)) + i"] by simp
  qed
qed

lemma view_popToBase:
  assumes "stack_ok (stack s)"
  shows "getBaseAndOverlay (stack (popToBase s)) =
    \<lparr>viewBase = viewBase (getBaseAndOverlay (stack s)), viewOverlay = [], viewTransparent = []\<rparr>"
proof -
  let ?st = "stack s" and ?b = "lastPush (stack s) (length (stack s))"
  have ne: "?st \<noteq> []" "presentation (?st ! 0) = Push" using stack_ok_nonempty[OF assms] by auto
  have b: "?b < length ?st" using lastPush_less[of "length ?st" ?st] ne(1) by simp
  have "lastPush (take (Suc ?b) ?st) (Suc ?b) = ?b"
    using lastPush_is_push[OF ne(2), of "length ?st"] by (intro lastPush_unique) simp_all
  with b show ?thesis by (simp add: popToBase_def getBaseAndOverlay_def Let_def min_absorb2)
qed

text \<open>
  C20: in every reachable state of the popup the navigation stack starts with the tabs screen,
  every other route is presented as its screen requires, the screen that is rendered as the
  base is a pushed one of the stack, and a submission that is shown as running has a pending
  timer that will end it.
\<close>

theorem popup_invariant:
  assumes "popup_reachable ui"
  shows "stack_ok (stack (popup ui)) \<and>
    presentation (viewBase (getBaseAndOverlay (stack (popup ui)))) = Push \<and>
    viewBase (getBaseAndOverlay (stack (popup ui))) \<in> set (stack (popup ui)) \<and>
    (sendSubmitting (popup ui) \<longrightarrow> 0 < timers ui)"
  using popup_reachable_wf[OF assms] view_of_base[of "stack (popup ui)"] by (simp add: popup_wf_def)

lemma demo_reachable: "popup_reachable (onEvent (SendNext SendAddress) (onEvent ClickSend mountPopup))"
  by (rule popup_reachable.step[OF popup_reachable.step[OF popup_reachable.start popup_step.event] popup_step.event])

theorem popup_invariant_witness:
  "stack_ok (stack (popup (onEvent (SendNext SendAddress) (onEvent ClickSend mountPopup))))"
  using popup_invariant[OF demo_reachable] by blast

text \<open>
  closing a screen of the send flow, from whichever step and however the flow was entered,
  shows the screen below the flow again, the same base as before, with no modal and no search
  overlay left.
\<close>

theorem closing_send_flow_restores_base:
  assumes "popup_reachable ui"
    and "routeId (last (stack (popup ui))) \<in> {SendToken, SendAddress, SendAmount, SendConfirm}"
  shows "getBaseAndOverlay (stack (closeTop (popup ui))) =
    \<lparr>viewBase = viewBase (getBaseAndOverlay (stack (popup ui))), viewOverlay = [], viewTransparent = []\<rparr>"
proof -
  let ?st = "stack (popup ui)"
  have ok: "stack_ok ?st" using popup_reachable_wf[OF assms(1)] by (simp add: popup_wf_def)
  then obtain rest where st: "?st = rootRoute # rest" "\<forall>r\<in>set rest. route_ok r" unfolding stack_ok_def by blast
  have "rest \<noteq> []" using assms(2) st(1) by auto
  then have len: "1 < length ?st" and "last ?st \<in> set rest" using st(1) by auto
  then have "route_ok (last ?st)" using st(2) by blast
  then have "showClose (last ?st) = Some True" "closeBehavior (last ?st) \<in> {Some Reset, Some PopRootTwice}"
    using assms(2) unfolding route_ok_def by blast+
  then have "closeTop (popup ui) = popToBase (popup ui)"
    using len by (auto simp: closeTop_def closeByBehavior_def Let_def)
  then show ?thesis using view_popToBase[OF ok] by simp
qed

theorem closing_send_flow_restores_base_witness:
  "viewOverlay (getBaseAndOverlay (stack (closeTop (popup
     (onEvent (SendNext SendAddress) (onEvent ClickSend mountPopup)))))) = []"
proof -
  have "routeId (last (stack (popup (onEvent (SendNext SendAddress) (onEvent ClickSend mountPopup))))) = SendAddress"
    by (simp add: onEvent_def goSendNext_def push_def routeWith_def Let_def)
  then show ?thesis using closing_send_flow_restores_base[OF demo_reachable] by simp
qed

section \<open>The send form\<close>

definition send_to_ok :: "jstring \<Rightarrow> bool" where
  "send_to_ok t \<longleftrightarrow> (\<exists>d. t = js ''cosmos1'' @ d \<and> 20 \<le> length d \<and>
     (\<forall>c\<in>set d. isDigit c \<or> (97 \<le> c \<and> c \<le> 122)))"

definition send_amount_ok :: "jstring \<Rightarrow> bool" where
  "send_amount_ok t \<longleftrightarrow> (\<exists>ip fp. ip \<noteq> [] \<and> list_all isDigit (ip @ fp) \<and> length fp \<le> 6 \<and>
     t = (if fp = [] then ip else ip @ 46 # fp) \<and> 0 < digitsValue (ip @ fp))"

definition send_ok :: "SendDraft \<Rightarrow> bool" where
  "send_ok d \<longleftrightarrow> send_to_ok (toLowerCase (trim (draftTo d))) \<and> send_amount_ok (trim (draftAmount d)) \<and>
     length (trim (draftMemo d)) \<le> 60"

lemma send_to_regex: "rx_test SEND_TO_REGEX t \<longleftrightarrow> send_to_ok t"
proof -
  have "in_class [(48, 57), (97, 122)] c \<longleftrightarrow> isDigit c \<or> (97 \<le> c \<and> c \<le> 122)" for c
    by (auto simp: in_class_def isDigit_def)
  then show ?thesis
    unfolding SEND_TO_REGEX_def rx_test_iff cat_lit_lang repAtLeast_class_lang send_to_ok_def by simp
qed

definition amount_shape :: "jstring \<Rightarrow> jstring \<Rightarrow> jstring \<Rightarrow> bool" where
  "amount_shape t ip fp \<longleftrightarrow> ip \<noteq> [] \<and> list_all isDigit (ip @ fp) \<and> length fp \<le> 6 \<and>
     t = (if fp = [] then ip else ip @ 46 # fp)"

lemma send_amount_regex: "rx_test SEND_AMOUNT_REGEX t \<longleftrightarrow> (\<exists>ip fp. amount_shape t ip fp)"
proof -
  have cls: "in_class [(48, 57)] c \<longleftrightarrow> isDigit c" for c by (simp add: in_class_def isDigit_def)
  have dot: "x \<in> rx_lang (Cat (chr 46) (repBetween 1 6 (Class [(48, 57)]))) \<longleftrightarrow>
      (\<exists>fp. x = 46 # fp \<and> 1 \<le> length fp \<and> length fp \<le> 6 \<and> (\<forall>c\<in>set fp. isDigit c))" for x
    unfolding chr_def cat_class_lang by (simp add: repBetween_class_lang cls)
  have split: "t \<in> rx_lang (Cat a (Alt Epsilon b)) \<longleftrightarrow>
      (\<exists>u v. t = u @ v \<and> u \<in> rx_lang a \<and> (v = [] \<or> v \<in> rx_lang b))" for a b by auto
  have "rx_test SEND_AMOUNT_REGEX t \<longleftrightarrow> (\<exists>ip x. t = ip @ x \<and> ip \<noteq> [] \<and> (\<forall>c\<in>set ip. isDigit c) \<and>
      (x = [] \<or> (\<exists>fp. x = 46 # fp \<and> 1 \<le> length fp \<and> length fp \<le> 6 \<and> (\<forall>c\<in>set fp. isDigit c))))"
    unfolding rx_test_iff SEND_AMOUNT_REGEX_def opt_def split repPlus_class_lang dot cls
    by (simp only: conj_assoc)
  also have "\<dots> \<longleftrightarrow> (\<exists>ip fp. amount_shape t ip fp)"
  proof (intro iffI; elim exE conjE disjE)
    fix ip x fp
    assume "t = ip @ x" "ip \<noteq> []" "\<forall>c\<in>set ip. isDigit c" "x = 46 # fp" "1 \<le> length fp" "length fp \<le> 6"
      "\<forall>c\<in>set fp. isDigit c"
    then have "amount_shape t ip fp" by (auto simp: amount_shape_def list_all_iff)
    then show "\<exists>ip fp. amount_shape t ip fp" by blast
  next
    fix ip x
    assume "t = ip @ x" "ip \<noteq> []" "\<forall>c\<in>set ip. isDigit c" "x = []"
    then have "amount_shape t ip []" by (simp add: amount_shape_def list_all_iff)
    then show "\<exists>ip fp. amount_shape t ip fp" by blast
  next
    fix ip fp
    assume s: "amount_shape t ip fp"
    then have "t = ip @ (if fp = [] then [] else 46 # fp)" "ip \<noteq> []" "\<forall>c\<in>set ip. isDigit c" "\<forall>c\<in>set fp. isDigit c"
      "length fp \<le> 6" by (auto simp: amount_shape_def list_all_iff)
    then show "\<exists>ip x. t = ip @ x \<and> ip \<noteq> [] \<and> (\<forall>c\<in>set ip. isDigit c) \<and>
      (x = [] \<or> (\<exists>fp. x = 46 # fp \<and> 1 \<le> length fp \<and> length fp \<le> 6 \<and> (\<forall>c\<in>set fp. isDigit c)))"
      by (intro exI[of _ ip] exI[of _ "if fp = [] then [] else 46 # fp"]) (simp add: Suc_le_eq)
  qed
  finally show ?thesis .
qed

lemma amount_shape_value:
  assumes "amount_shape t ip fp"
  shows "decimalValue t = of_nat (digitsValue (ip @ fp)) / 10 ^ length fp"
proof -
  have "\<forall>c\<in>set ip. 48 \<le> c" using assms by (auto simp: amount_shape_def list_all_iff isDigit_def)
  then have "46 \<notin> set ip" by force
  then have "indexOf (ip @ 46 # fp) 46 = Some (length ip)" "indexOf ip 46 = None"
    by (simp_all add: indexOf_append_stop indexOf_None)
  then show ?thesis
    using assms by (cases "fp = []") (simp_all add: amount_shape_def decimalValue_def)
qed

lemma amount_positive:
  assumes "amount_shape t ip fp"
  shows "decimalNumberLeZero t \<longleftrightarrow> digitsValue (ip @ fp) = 0"
proof
  assume le: "decimalNumberLeZero t"
  show "digitsValue (ip @ fp) = 0"
  proof (rule ccontr)
    assume "digitsValue (ip @ fp) \<noteq> 0"
    then have "(1::rat) \<le> of_nat (digitsValue (ip @ fp))" by simp
    moreover have "(10::rat) ^ length fp \<le> 10 ^ 6"
      using assms by (intro power_increasing) (auto simp: amount_shape_def)
    ultimately have "(1::rat) / 10 ^ 6 \<le> of_nat (digitsValue (ip @ fp)) / 10 ^ length fp"
      by (intro frac_le) auto
    also have "\<dots> \<le> 1 / 2 ^ 1075"
      using le unfolding decimalNumberLeZero_def amount_shape_value[OF assms] .
    finally have "(1::rat) / 10 ^ 6 \<le> 1 / 2 ^ 1075" .
    then show False by simp
  qed
qed (simp add: decimalNumberLeZero_def amount_shape_value[OF assms])

lemma send_amount_check:
  "rx_test SEND_AMOUNT_REGEX t \<and> \<not> decimalNumberLeZero t \<longleftrightarrow> send_amount_ok t"
proof -
  have "send_amount_ok t \<longleftrightarrow> (\<exists>ip fp. amount_shape t ip fp \<and> 0 < digitsValue (ip @ fp))"
    unfolding send_amount_ok_def amount_shape_def by blast
  also have "\<dots> \<longleftrightarrow> (\<exists>ip fp. amount_shape t ip fp \<and> \<not> decimalNumberLeZero t)"
    using amount_positive by fastforce
  finally show ?thesis unfolding send_amount_regex by blast
qed

lemma validateSendDraft_none:
  "\<not> (hasError (errTo (validateSendDraft s)) \<or> hasError (errAmount (validateSendDraft s)) \<or>
      hasError (errMemo (validateSendDraft s))) \<longleftrightarrow> send_ok (sendDraft s)"
proof -
  have "SEND_TO_ERROR \<noteq> []" "SEND_AMOUNT_ERROR \<noteq> []" "SEND_MEMO_ERROR \<noteq> []"
    by (simp_all add: SEND_TO_ERROR_def SEND_AMOUNT_ERROR_def SEND_MEMO_ERROR_def)
  then show ?thesis
    unfolding send_ok_def send_to_regex[symmetric] send_amount_check[symmetric]
    by (simp add: validateSendDraft_def Let_def hasError_def noErrors_def)
qed

text \<open>
  C10: a submission starts only by the submit button and only with a valid draft: the recipient is
  \<open>cosmos1\<close> and at least twenty lower case letters or digits (after trimming and lower-casing),
  the amount is a positive decimal number with at most six decimal places, the memo has at
  most sixty characters. Exactly one timer is started for it, and nothing else of the
  navigation changes.
\<close>

theorem submission_requires_valid_draft:
  assumes "popup_step ui ui'" "\<not> sendSubmitting (popup ui)" "sendSubmitting (popup ui')"
  shows "ui' = onEvent SendSubmit ui \<and> send_ok (sendDraft (popup ui)) \<and> timers ui' = Suc (timers ui) \<and>
    stack (popup ui') = stack (popup ui) \<and> sendDraft (popup ui') = sendDraft (popup ui)"
proof -
  consider ev where "ui' = onEvent ev ui" | "ui' = submitTimer ui" using assms(1) by (auto elim: popup_step_cases)
  then show ?thesis
  proof cases
  case (1 ev)
  have "ev = SendSubmit"
  proof (rule ccontr)
    assume "ev \<noteq> SendSubmit"
    then have "sendSubmitting (popup (onEvent ev ui)) = sendSubmitting (popup ui)"
      by (cases ev)
         (simp_all add: onEvent_def submitting_onStore copyAddress_def del: onStore.simps split: option.splits)
    with 1 assms(2,3) show False by simp
  qed
  moreover have "send_ok (sendDraft (popup ui))"
    using 1 \<open>ev = SendSubmit\<close> assms(2,3) validateSendDraft_none[of "popup ui"]
    by (auto simp: onEvent_def submitSend_def Let_def split: if_splits)
  ultimately show ?thesis
    using 1 validateSendDraft_none[of "popup ui"]
    by (simp add: onEvent_def submitSend_def Let_def setSendFeedback_def setSendSubmitting_def)
next
  case 2
  then show ?thesis using assms(3) by (simp add: submitTimer_def setSendSubmitting_def)
  qed
qed

definition demo_draft :: SendDraft where
  "demo_draft = \<lparr>draftTokenId = js ''token-1'', draftTo = js ''cosmos1qqqqqqqqqqqqqqqqqqqq'', draftAmount = js ''1.5'',
     draftMemo = []\<rparr>"

lemma demo_draft_ok: "send_ok demo_draft"
proof -
  have "send_to_ok (js ''cosmos1qqqqqqqqqqqqqqqqqqqq'')" by (simp add: send_to_ok_def isDigit_def)
  moreover have "send_amount_ok (js ''1.5'')"
    unfolding send_amount_ok_def by (intro exI[of _ "[49]"] exI[of _ "[53]"]) (simp add: isDigit_def digitsValue_def)
  ultimately show ?thesis
    by (simp add: send_ok_def demo_draft_def trim_def trimStart_def trimEnd_def isWhite_def lowerUnit_def)
qed

theorem submission_requires_valid_draft_witness:
  "timers (onEvent SendSubmit (mountPopup\<lparr>popup := initialState\<lparr>sendDraft := demo_draft\<rparr>\<rparr>)) = 1"
proof -
  let ?ui = "mountPopup\<lparr>popup := initialState\<lparr>sendDraft := demo_draft\<rparr>\<rparr>"
  have "\<not> sendSubmitting (popup ?ui)" by (simp add: initialState_def)
  moreover have "sendSubmitting (popup (onEvent SendSubmit ?ui))"
    using demo_draft_ok validateSendDraft_none[of "initialState\<lparr>sendDraft := demo_draft\<rparr>"]
    by (simp add: onEvent_def submitSend_def Let_def setSendFeedback_def setSendSubmitting_def)
  ultimately show ?thesis
    using submission_requires_valid_draft[OF popup_step.event, of ?ui SendSubmit] by (simp add: mountPopup_def)
qed

section \<open>Where the code departs from what it means to do\<close>

text \<open>
  An error of a field the user has not reached is shown. When the recipient is rejected while
  the amount is still invalid, the errors of both fields are stored; the corrected recipient
  then leads to the amount screen with its error already displayed and no feedback text,
  because the errors are taken from the state before the reset.
\<close>

theorem stale_amount_error_shown:
  assumes "hasError (errTo (validateSendDraft s))" "hasError (errAmount (validateSendDraft s))"
    and "send_to_ok (toLowerCase (trim v))"
  shows "let s1 = goSendNext SendAmount s; s2 = onStore (InputSend KeyTo v) s1; s3 = goSendNext SendAmount s2
    in stack s1 = stack s \<and> routeId (last (stack s3)) = SendAmount \<and> sendFeedback s3 = [] \<and>
       hasError (errAmount (sendDraftErrors s3))"
proof -
  define s1 where "s1 = goSendNext SendAmount s"
  define s2 where "s2 = onStore (InputSend KeyTo v) s1"
  have s1: "s1 = failSend (validateSendDraft s) (resetSendFeedback s)"
    using assms(1) by (simp add: s1_def goSendNext_def Let_def)
  have "draftTo (sendDraft s2) = v" "sendDraftErrors s2 = validateSendDraft s"
    by (simp_all add: s2_def s1 action_defs failSend_def)
  moreover from this have "\<not> hasError (errTo (validateSendDraft s2))"
    using assms(3) by (simp add: validateSendDraft_def Let_def send_to_regex hasError_def noErrors_def)
  ultimately have "goSendNext SendAmount s2 =
      push (routeWith SendAmount Modal routeSendAmount (Some True) (Some PopRootTwice) None)
        (setSendErrors ((validateSendDraft s)\<lparr>errTo := None\<rparr>) (resetSendFeedback s2))"
    by (simp add: goSendNext_def Let_def)
  then show ?thesis
    using assms(2) unfolding Let_def s1_def[symmetric] s2_def[symmetric]
    by (simp add: s1) (simp add: action_defs routeWith_def)
qed

theorem stale_amount_error_shown_witness:
  "hasError (errAmount (sendDraftErrors (goSendNext SendAmount (onStore (InputSend KeyTo (js ''cosmos1qqqqqqqqqqqqqqqqqqqq''))
     (goSendNext SendAmount initialState)))))"
proof -
  have "\<not> send_to_ok []" by (simp add: send_to_ok_def)
  moreover have "\<not> send_amount_ok []" by (auto simp: send_amount_ok_def)
  ultimately have "hasError (errTo (validateSendDraft initialState))" "hasError (errAmount (validateSendDraft initialState))"
    unfolding send_to_regex[symmetric] send_amount_check[symmetric]
    by (simp_all add: validateSendDraft_def Let_def hasError_def noErrors_def initialState_def SEND_TO_ERROR_def
        SEND_AMOUNT_ERROR_def)
  moreover have "send_to_ok (toLowerCase (trim (js ''cosmos1qqqqqqqqqqqqqqqqqqqq'')))"
    using demo_draft_ok by (simp add: send_ok_def demo_draft_def del: js_Cons)
  ultimately show ?thesis
    using stale_amount_error_shown[of initialState "js ''cosmos1qqqqqqqqqqqqqqqqqqqq''"] by (simp add: Let_def del: js_Cons)
qed

text \<open>
  Opening the search over the detail of a token changes the token that is shown. The detail
  screen reads the parameter of the top of the stack, which is then the search route, and
  falls back to the first token, while the base of the view is still the detail of \<open>i\<close>.
\<close>

theorem search_over_detail_shows_first_token:
  "let s' = openSearch (onStore (OpenTokenDetail i) s)
   in routeId (viewBase (getBaseAndOverlay (stack s'))) = TokenDetail \<and>
      paramId (viewBase (getBaseAndOverlay (stack s'))) = Some i \<and> shownToken s' = hd tokenItems"
proof -
  let ?d = "routeWith TokenDetail Push (js ''Token'') None None (Some i)"
  let ?r = "routeWith Search TransparentModal (js ''Search'') (Some True) None None"
  have base: "lastPush (stack s @ [?d]) (Suc (length (stack s))) = length (stack s)"
    by (simp add: routeWith_def nth_append)
  have base2: "lastPush (stack s @ [?d, ?r]) (Suc (Suc (length (stack s)))) = length (stack s)"
    by (simp add: routeWith_def nth_append)
  have "viewTransparent (getBaseAndOverlay (stack s @ [?d])) = []"
    using base by (simp add: getBaseAndOverlay_def Let_def)
  then have st: "stack (openSearch (onStore (OpenTokenDetail i) s)) = stack s @ [?d, ?r]"
    by (simp add: openSearch_def push_def Let_def del: js_Cons)
  have "viewBase (getBaseAndOverlay (stack s @ [?d, ?r])) = ?d"
    using base2 by (simp add: getBaseAndOverlay_def Let_def nth_append del: js_Cons)
  moreover have "shownToken s' = hd tokenItems" if "stack s' = stack s @ [?d, ?r]" for s'
    using that by (simp add: shownToken_def topParam_def findOr_def routeWith_def tokenItems_def)
  ultimately show ?thesis using st by (simp add: Let_def routeWith_def del: js_Cons)
qed

text \<open>
  The lock does not cover the search. After the popup is locked, the slash key opens the
  search over the locked screen and a search text lists the wallet's tokens.
\<close>

theorem search_works_while_locked:
  assumes "stack_ok (stack s)"
  shows "let s' = onStore (InputSearch (js ''soul'')) (keyDown (js ''/'') None (onStore ClickLock s))
    in isLocked s' \<and> map routeId (viewTransparent (getBaseAndOverlay (stack s'))) = [Search] \<and>
       list_item.truncate (hd tokenItems) \<in> set (getSearchResults s')"
proof -
  let ?r = "routeWith Search TransparentModal (js ''Search'') (Some True) None None"
  have locked: "stack (onStore ClickLock s) = [rootRoute]" "isLocked (onStore ClickLock s)"
    using assms by (auto simp: action_defs stack_ok_def)
  then have "viewTransparent (getBaseAndOverlay (stack (onStore ClickLock s))) = []"
    by (simp add: getBaseAndOverlay_def Let_def del: onStore.simps)
  then have k: "keyDown (js ''/'') None (onStore ClickLock s) = push ?r (onStore ClickLock s)"
    by (simp add: keyDown_def shouldHandleSlash_def openSearch_def Let_def del: onStore.simps)
  define s' where "s' = onStore (InputSearch (js ''soul'')) (keyDown (js ''/'') None (onStore ClickLock s))"
  have "stack s' = [rootRoute, ?r]" "isLocked s'" "searchKeyword s' = js ''soul''"
    using locked unfolding s'_def k
    by (simp_all add: setSearchInput_def push_def trim_def trimStart_def trimEnd_def isWhite_def lowerUnit_def
        del: onStore.simps(11))
  moreover from this(1) have "map routeId (viewTransparent (getBaseAndOverlay (stack s'))) = [Search]"
    by (simp add: getBaseAndOverlay_def Let_def routeWith_def)
  moreover have "includesStr (toLowerCase (itemTitle (hd tokenItems) @ x)) (js ''soul'')" for x
  proof -
    have "toLowerCase (itemTitle (hd tokenItems)) = js ''soul''" by (simp add: tokenItems_def lowerUnit_def)
    then show ?thesis unfolding toLowerCase_append includesStr_iff by (metis append_Nil)
  qed
  moreover have "itemTitle (list_item.truncate (hd tokenItems)) = itemTitle (hd tokenItems)"
    by (simp add: list_item.truncate_def)
  moreover have "list_item.truncate (hd tokenItems) \<in> set (map list_item.truncate tokenItems)"
    unfolding set_map by (intro imageI hd_in_set) (simp add: tokenItems_def)
  moreover have "js ''soul'' \<noteq> []" by simp
  ultimately show ?thesis
    unfolding Let_def s'_def[symmetric] getSearchResults_def
    by (simp only: if_False) (simp del: toLowerCase_append js_Cons)
qed

theorem search_works_while_locked_witness:
  "isLocked (onStore (InputSearch (js ''soul'')) (keyDown (js ''/'') None (onStore ClickLock initialState)))"
  using search_works_while_locked[of initialState] stack_ok_initial by (simp add: initialState_def Let_def)

end
