(* ===== verification/PopupDom.thy ===== *)
theory PopupDom
  imports PopupController
begin

text \<open>
  The elements of the rendered popup. \<open>root.innerHTML = ...\<close> makes elements of the text, and
  \<open>root.querySelectorAll('[data-action="..."]')\<close> finds those with an attribute. The reader below follows the rules
  of HTML for the text that the renderers produce (names, attributes in double quotes, attributes without a value); it keeps
  the attributes that the controller looks at. For every state, the exact list of controls on the page is computed from the exact text: user text, which is
  escaped, neither adds nor hides one.
\<close>

section \<open>Reading tags\<close>

datatype reader =
    InText
  | InName
  | InTag "(jstring \<times> jstring) list"
  | InAttr "(jstring \<times> jstring) list" jstring
  | AfterEq "(jstring \<times> jstring) list" jstring
  | InValue "(jstring \<times> jstring) list" jstring jstring
  | InSkipped "(jstring \<times> jstring) list"

type_synonym control = "(jstring \<times> jstring) list"

definition watched :: "jstring list" where
  "watched = [js ''data-action'', js ''data-field'', js ''data-tab'', js ''data-id'', js ''data-next'',
     js ''data-close-behavior'', js ''disabled'', js ''id'']"

definition bareAttr :: "jstring \<Rightarrow> control \<Rightarrow> control" where
  "bareAttr n attrs = (if rev n \<in> set watched then attrs @ [(rev n, [])] else attrs)"

definition closeTag :: "control \<Rightarrow> control list \<Rightarrow> reader \<times> control list" where
  "closeTag attrs out = (InText, if attrs = [] then out else out @ [attrs])"

fun rd :: "jchar \<Rightarrow> reader \<times> control list \<Rightarrow> reader \<times> control list" where
  "rd c (InText, out) = (if c = 60 then InName else InText, out)"
| "rd c (InName, out) = (if c = 62 then (InText, out) else if c = 32 \<or> c = 10 then (InTag [], out) else (InName, out))"
| "rd c (InTag attrs, out) =
     (if c = 62 then closeTag attrs out
      else if c = 32 \<or> c = 10 \<or> c = 47 then (InTag attrs, out) else (InAttr attrs [c], out))"
| "rd c (InAttr attrs n, out) =
     (if c = 61 then (AfterEq attrs n, out)
      else if c = 32 \<or> c = 10 then (InTag (bareAttr n attrs), out)
      else if c = 62 then closeTag (bareAttr n attrs) out
      else (InAttr attrs (c # n), out))"
| "rd c (AfterEq attrs n, out) =
     (if c = 34 then (if rev n \<in> set watched then InValue attrs (rev n) [] else InSkipped attrs, out)
      else (AfterEq attrs n, out))"
| "rd c (InValue attrs n v, out) = (if c = 34 then InTag (attrs @ [(n, rev v)]) else InValue attrs n (c # v), out)"
| "rd c (InSkipped attrs, out) = (if c = 34 then InTag attrs else InSkipped attrs, out)"

definition scan :: "jstring \<Rightarrow> reader \<times> control list \<Rightarrow> reader \<times> control list" where
  "scan s st = fold rd s st"

lemma scan_simps [simp]: "scan [] st = st" "scan (c # s) st = scan s (rd c st)" "scan (s @ t) st = scan t (scan s st)"
  by (simp_all add: scan_def)

lemma escape_chars: "c \<in> set (escapeHtml t) \<Longrightarrow> \<not> isMarkup c"
  using markup_escapeHtml[of t] by (auto simp: markup_def filter_empty_conv)

lemma scan_text: "60 \<notin> set s \<Longrightarrow> scan s (InText, out) = (InText, out)"
  by (induction s) auto

lemma scan_skipped: "34 \<notin> set s \<Longrightarrow> scan s (InSkipped attrs, out) = (InSkipped attrs, out)"
  by (induction s) auto

lemma scan_value: "34 \<notin> set s \<Longrightarrow> scan s (InValue attrs n v, out) = (InValue attrs n (rev s @ v), out)"
  by (induction s arbitrary: v) auto

lemma scan_escaped [simp]:
  "scan (escapeHtml t) (InText, out) = (InText, out)" "scan (escapeHtml t) (InSkipped attrs, out) = (InSkipped attrs, out)"
  using escape_chars[of _ t] by (auto simp: isMarkup_def intro!: scan_text scan_skipped)

lemmas dom_eval = closeTag_def bareAttr_def watched_def

abbreviation act :: "string \<Rightarrow> jstring \<times> jstring" where "act a \<equiv> (js ''data-action'', js a)"
abbreviation field :: "string \<Rightarrow> jstring \<times> jstring" where "field a \<equiv> (js ''data-field'', js a)"
abbreviation dataId :: "jstring \<Rightarrow> jstring \<times> jstring" where "dataId v \<equiv> (js ''data-id'', v)"

section \<open>The controls of each screen\<close>

lemma scan_ifText [simp]:
  "34 \<notin> set t \<Longrightarrow> scan (ifText b t) (InSkipped attrs, out) = (InSkipped attrs, out)"
  by (simp add: ifText_def scan_skipped)

lemma scan_names [simp]:
  "scan (tabKey tab) (InValue attrs n v, out) = (InValue attrs n (rev (tabKey tab) @ v), out)"
  "scan (getTabTitle tab) (InText, out) = (InText, out)"
  "scan (boolText b) (InSkipped attrs, out) = (InSkipped attrs, out)"
  "scan (getStatusClass st) (InSkipped attrs, out) = (InSkipped attrs, out)"
  "scan (statusText st) (InText, out) = (InText, out)"
  "scan (natString k) (InText, out) = (InText, out)"
proof -
  show "scan (tabKey tab) (InValue attrs n v, out) = (InValue attrs n (rev (tabKey tab) @ v), out)"
    by (cases tab) (simp_all)
  show "scan (natString k) (InText, out) = (InText, out)"
    using natString_digits[of 60 k] by (intro scan_text) (auto simp: isDigit_def)
qed ((cases tab; simp), simp add: boolText_def, (cases st; simp), (cases st; simp))

lemma scan_primary: "scan renderPrimaryActions (InText, out) = (InText, out @ [[act ''open-send''], [act ''open-receive'']])"
  by (simp add: renderPrimaryActions_def dom_eval)

lemma scan_locked: "scan renderLockedScreen (InText, out) = (InText, out @ [[field ''unlock''], [act ''unlock'']])"
  by (simp add: renderLockedScreen_def routeUnlock_def dom_eval)

lemma scan_rootHeader:
  "scan (renderRootHeader w) (InText, out) = (InText, out @ [[act ''avatar''], [act ''wallet-drawer''], [act ''settings'']])"
  by (simp add: renderRootHeader_def dom_eval)

lemma scan_tab: "scan (renderTab current tab) (InText, out) = (InText, out @ [[(js ''data-tab'', tabKey tab)]])"
  by (simp add: renderTab_def dom_eval)

lemma scan_topTabs:
  "scan (renderTopTabs current) (InText, out) =
     (InText, out @ map (\<lambda>tab. [(js ''data-tab'', tabKey tab)]) [Tokens, Collectibles, Activity])"
  by (simp add: renderTopTabs_def scan_tab dom_eval del: tabKey.simps)

lemma scan_hint: "scan (renderSearchHint s) (InText, out) = (InText, out)"
  by (simp add: renderSearchHint_def Let_def dom_eval)

definition detailAction :: "PopupTabKey \<Rightarrow> string" where
  "detailAction tab = (case tab of Tokens \<Rightarrow> ''open-token-detail'' | Activity \<Rightarrow> ''open-activity-detail''
     | Collectibles \<Rightarrow> ''open-collectible-detail'')"

lemma scan_item:
  assumes "34 \<notin> set (itemId item)"
  shows "scan (renderItem tab item) (InText, out) = (InText, out @ [[act (detailAction tab), dataId (itemId item)]])"
  using assms by (cases tab) (simp_all add: renderItem_def itemAttrs_def detailAction_def scan_value dom_eval)

lemma scan_concat_map:
  assumes "\<And>x out. x \<in> set xs \<Longrightarrow> scan (f x) (InText, out) = (InText, out @ g x)"
  shows "scan (concat (map f xs)) (InText, out) = (InText, out @ concat (map g xs))"
  using assms by (induction xs arbitrary: out) simp_all

lemma items_quote_free: "item \<in> set (getTabItems s) \<Longrightarrow> 34 \<notin> set (itemId item)"
  by (auto simp: getTabItems_def tokenItems_def collectibleItems_def activityItems_def list_item.defs split: if_splits)

lemma scan_itemList:
  "scan (renderItemList tab (getTabItems s)) (InText, out) =
     (InText, out @ map (\<lambda>item. [act (detailAction tab), dataId (itemId item)]) (getTabItems s))"
proof -
  have "getTabItems s \<noteq> []"
    by (simp add: getTabItems_def tokenItems_def collectibleItems_def activityItems_def)
  then show ?thesis
    using scan_concat_map[of "getTabItems s" "renderItem tab" "\<lambda>item. [[act (detailAction tab), dataId (itemId item)]]" out]
    by (simp add: renderItemList_def scan_item items_quote_free concat_map_singleton del: js_Cons)
qed

lemma scan_headers:
  "34 \<notin> set a \<Longrightarrow> scan (renderHeaderWithBack h a) (InText, out) = (InText, out @ [[(js ''data-action'', a)]])"
  "scan (renderHeaderWithClose h) (InText, out) = (InText, out @ [[act ''close'']])"
  by (simp_all add: renderHeaderWithBack_def renderHeaderWithClose_def scan_value dom_eval)

lemma scan_tabs:
  "scan (renderTabsScreen s w) (InText, out) = (InText, out @ [[act ''avatar''], [act ''wallet-drawer''], [act ''settings'']] @
     map (\<lambda>tab. [(js ''data-tab'', tabKey tab)]) [Tokens, Collectibles, Activity] @ [[act ''open-send''], [act ''open-receive'']] @
     map (\<lambda>item. [act (detailAction (activeTab s)), dataId (itemId item)]) (getTabItems s))"
  by (simp add: renderTabsScreen_def Let_def scan_rootHeader scan_topTabs scan_hint scan_primary scan_itemList
      routeTokens_def routeCollectibles_def routeActivity_def dom_eval del: tabKey.simps)

lemma scan_details:
  "scan (renderTokenDetailScreen s w) (InText, out) = (InText, out @ [[act ''back'']])"
  "scan (renderActivityDetailScreen s) (InText, out) = (InText, out @ [[act ''back'']])"
  "scan renderCollectiblesDetailScreen (InText, out) = (InText, out @ [[act ''back'']])"
  "scan renderCollectiblesCollectionScreen (InText, out) = (InText, out @ [[act ''back'']])"
  by (simp_all add: renderTokenDetailScreen_def renderActivityDetailScreen_def renderCollectiblesDetailScreen_def
      renderCollectiblesCollectionScreen_def Let_def scan_headers dom_eval)

lemma scan_base:
  "scan (renderBaseContent s base w) (InText, out) = (InText, out @
     (if isLocked s then [[field ''unlock''], [act ''unlock'']]
      else if routeId base \<in> {TokenDetail, ActivityDetail, CollectiblesDetail, CollectiblesCollection} then [[act ''back'']]
      else [[act ''avatar''], [act ''wallet-drawer''], [act ''settings'']] @
        map (\<lambda>tab. [(js ''data-tab'', tabKey tab)]) [Tokens, Collectibles, Activity] @ [[act ''open-send''], [act ''open-receive'']] @
        map (\<lambda>item. [act (detailAction (activeTab s)), dataId (itemId item)]) (getTabItems s)))"
  by (simp add: renderBaseContent_def scan_locked scan_details scan_tabs del: js_Cons tabKey.simps)

lemma scan_drawer:
  assumes "\<forall>w\<in>set ws. 34 \<notin> set (walletId w)"
  shows "scan (renderWalletDrawer ws current) (InText, out) =
    (InText, out @ map (\<lambda>w. [act ''select-wallet'', dataId (walletId w)]) ws)"
proof -
  have "scan (renderDrawerItem current w) (InText, out) = (InText, out @ [[act ''select-wallet'', dataId (walletId w)]])"
    if "w \<in> set ws" for w out
    using assms that by (simp add: renderDrawerItem_def scan_value dom_eval)
  then show ?thesis
    using scan_concat_map[of ws "renderDrawerItem current" "\<lambda>w. [[act ''select-wallet'', dataId (walletId w)]]"]
    by (simp add: renderWalletDrawer_def dom_eval concat_map_singleton)
qed

lemma scan_feedback: "scan (renderSendFeedback s) (InText, out) = (InText, out)"
  by (cases "sendFeedbackTone s") (simp_all add: renderSendFeedback_def dom_eval)

lemma scan_fieldError:
  \<open>scan (case e of None \<Rightarrow> [] | Some t \<Rightarrow> ifText (t \<noteq> []) (concat [js ''<span class="field-feedback error">'', escapeHtml t, js ''</span>'']))
     (InText, out) = (InText, out)\<close>
  by (cases e) (simp_all add: ifText_def dom_eval)

lemma scan_sendToken:
  "scan (renderSendTokenScreen s) (InText, out) = (InText, out @ [[act ''close'']] @
     map (\<lambda>token. [act ''select-send-token'', dataId (itemId token)]) tokenItems @
     [[act ''close-send'', (js ''data-close-behavior'', js ''reset'')], [act ''send-next'', (js ''data-next'', js ''SendAddress'')]])"
proof -
  have item: "scan (renderSendTokenItem i token) (InText, out) = (InText, out @ [[act ''select-send-token'', dataId (itemId token)]])"
    if "token \<in> set tokenItems" for i token out
  proof -
    have "34 \<notin> set (itemId token)" using that by (auto simp: tokenItems_def)
    then show ?thesis by (simp add: renderSendTokenItem_def scan_value dom_eval)
  qed
  note items = scan_concat_map[of tokenItems "renderSendTokenItem i" "\<lambda>token. [[act ''select-send-token'', dataId (itemId token)]]" for i,
      OF item]
  show ?thesis by (simp add: renderSendTokenScreen_def scan_headers items dom_eval concat_map_singleton)
qed

lemma scan_sendAddress:
  "scan (renderSendAddressScreen s) (InText, out) = (InText, out @ [[act ''send-prev''],
     [(js ''id'', js ''send-to-input''), field ''send-to''], [act ''send-prev''],
     [act ''send-next'', (js ''data-next'', js ''SendAmount'')]])"
  by (simp add: renderSendAddressScreen_def scan_headers scan_feedback scan_fieldError[simplified] dom_eval)

lemma scan_sendAmount:
  "scan (renderSendAmountScreen s) (InText, out) = (InText, out @ [[act ''send-prev''],
     [(js ''id'', js ''send-amount-input''), field ''send-amount''], [(js ''id'', js ''send-memo-input''), field ''send-memo''],
     [act ''send-prev''], [act ''send-next'', (js ''data-next'', js ''SendConfirm'')]])"
  by (simp add: renderSendAmountScreen_def scan_headers scan_feedback scan_fieldError[simplified] dom_eval)

lemma scan_sendConfirm:
  "scan (renderSendConfirmScreen s) (InText, out) = (InText, out @ [[act ''send-prev''], [act ''send-prev''],
     act ''send-submit'' # (if sendSubmitting s then [(js ''disabled'', [])] else [])])"
  by (simp add: renderSendConfirmScreen_def Let_def scan_headers scan_feedback ifText_def dom_eval)

fun modalControls :: "PopupScreenId \<Rightarrow> PopupState \<Rightarrow> control list" where
  "modalControls WalletDrawer s = [act ''close''] # map (\<lambda>w. [act ''select-wallet'', dataId (walletId w)]) (wallets s)"
| "modalControls AvatarPopover s = [[act ''close''], [act ''lock''], [act ''open-settings'']]"
| "modalControls Settings s = [[act ''close''], [act ''lock''], [act ''close'']]"
| "modalControls Receive s = [[act ''close''], [act ''copy-address''], [act ''close'']]"
| "modalControls SendToken s = [[act ''close'']] @
     map (\<lambda>token. [act ''select-send-token'', dataId (itemId token)]) tokenItems @
     [[act ''close-send'', (js ''data-close-behavior'', js ''reset'')], [act ''send-next'', (js ''data-next'', js ''SendAddress'')]]"
| "modalControls SendAddress s = [[act ''send-prev''], [(js ''id'', js ''send-to-input''), field ''send-to''],
     [act ''send-prev''], [act ''send-next'', (js ''data-next'', js ''SendAmount'')]]"
| "modalControls SendAmount s = [[act ''send-prev''], [(js ''id'', js ''send-amount-input''), field ''send-amount''],
     [(js ''id'', js ''send-memo-input''), field ''send-memo''], [act ''send-prev''],
     [act ''send-next'', (js ''data-next'', js ''SendConfirm'')]]"
| "modalControls SendConfirm s = [[act ''send-prev''], [act ''send-prev''],
     act ''send-submit'' # (if sendSubmitting s then [(js ''disabled'', [])] else [])]"
| "modalControls _ s = [[act ''close'']]"

lemma scan_modal:
  assumes "\<forall>w\<in>set (wallets s). 34 \<notin> set (walletId w)"
  shows "scan (renderModal s r w) (InText, out) = (InText, out @ [act ''modal-mask''] # modalControls (routeId r) s)"
proof -
  have "scan (renderModalScreen s r w) (InText, out) = (InText, out @ modalControls (routeId r) s)" for out
    using assms
    by (cases "routeId r")
      (simp_all add: renderModalScreen_def scan_headers scan_drawer scan_sendToken scan_sendAddress scan_sendAmount
        scan_sendConfirm dom_eval)
  then show ?thesis by (simp add: renderModal_def dom_eval del: modalControls.simps)
qed

lemma scan_search:
  "scan (renderTransparentModal s r) (InText, out) = (InText, out @ (if routeId r \<noteq> Search then [] else
     [[act ''search-mask''], [act ''close''], [(js ''id'', js ''search-input''), field ''search'']]))"
proof -
  have "scan (concat (map renderSearchResult items)) (InText, out) = (InText, out)" for items out
    using scan_concat_map[of items renderSearchResult "\<lambda>_. []"] by (simp add: renderSearchResult_def dom_eval)
  then show ?thesis by (simp add: renderTransparentModal_def Let_def scan_headers dom_eval)
qed

section \<open>The page and its events\<close>

definition renderState :: "PopupState \<Rightarrow> jstring" where
  "renderState s = (let v = getBaseAndOverlay (stack s) in renderAppShell s (viewBase v) (viewOverlay v) (viewTransparent v))"

definition controls :: "jstring \<Rightarrow> control list" where
  "controls html = snd (scan html (InText, []))"

lemma controls_renderState:
  assumes "\<forall>w\<in>set (wallets s). 34 \<notin> set (walletId w)"
  shows "controls (renderState s) = (let v = getBaseAndOverlay (stack s) in
    snd (scan (renderBaseContent s (viewBase v) (activeWalletOf s)) (InText, [])) @
    (if viewOverlay v = [] then [] else [act ''modal-mask''] # modalControls (routeId (last (viewOverlay v))) s) @
    (if viewTransparent v = [] \<or> routeId (last (viewTransparent v)) \<noteq> Search then [] else
       [[act ''search-mask''], [act ''close''], [(js ''id'', js ''search-input''), field ''search'']]))"
  by (simp add: controls_def renderState_def renderAppShell_def Let_def scan_base scan_modal[OF assms] scan_search dom_eval
      del: modalControls.simps tabKey.simps)

end
