(* ===== verification/PopupPage.thy ===== *)
theory PopupPage
  imports PopupDom PageLoad
begin

text \<open>
  The popup at run time: \<open>popupStore\<close> with its listener, \<open>mountPopup\<close>, \<open>bindEvents\<close> and \<open>bindFocus\<close>. In contrast to the
  step relation of \<open>PopupController\<close>, in which every event may occur in every state, an event occurs here only if the page has a
  control for it. This is what makes statements about what a user can do provable: that a transaction is submitted once, that a
  locked popup is sealed, and that the send flow can be completed.
\<close>

section \<open>The handlers of the controls\<close>

definition attr :: "control \<Rightarrow> string \<Rightarrow> jstring option" where
  "attr el name = map_of el (js name)"

definition action :: "control \<Rightarrow> jstring option" where
  "action el = attr el ''data-action''"

definition closeBehaviorOf :: "jstring \<Rightarrow> CloseBehavior" where
  "closeBehaviorOf t = (if t = js ''go-back'' then GoBack else if t = js ''pop-root-once'' then PopRootOnce
     else if t = js ''pop-root-twice'' then PopRootTwice else Reset)"

fun screenName :: "PopupScreenId \<Rightarrow> jstring" where
  "screenName Tabs = js ''Tabs''"
| "screenName TokenDetail = js ''TokenDetail''"
| "screenName ActivityDetail = js ''ActivityDetail''"
| "screenName CollectiblesDetail = js ''CollectiblesDetail''"
| "screenName CollectiblesCollection = js ''CollectiblesCollection''"
| "screenName Search = js ''Search''"
| "screenName WalletDrawer = js ''WalletDrawer''"
| "screenName AvatarPopover = js ''AvatarPopover''"
| "screenName SendToken = js ''SendToken''"
| "screenName SendAddress = js ''SendAddress''"
| "screenName SendAmount = js ''SendAmount''"
| "screenName SendConfirm = js ''SendConfirm''"
| "screenName Receive = js ''Receive''"
| "screenName Settings = js ''Settings''"
| "screenName Unlock = js ''Unlock''"

text \<open>
  \<open>bindEvents\<close>: which events the listeners of an element produce. A disabled button receives no clicks.
\<close>

fun triggers :: "control \<Rightarrow> popup_event \<Rightarrow> bool" where
  "triggers el (ClickTab tab) = (attr el ''data-tab'' = Some (tabKey tab))"
| "triggers el (OpenTokenDetail i) = (action el = Some (js ''open-token-detail'') \<and> nullish (attr el ''data-id'') [] = i)"
| "triggers el (OpenActivityDetail i) = (action el = Some (js ''open-activity-detail'') \<and> nullish (attr el ''data-id'') [] = i)"
| "triggers el OpenCollectibleDetail = (action el = Some (js ''open-collectible-detail''))"
| "triggers el ClickBack = (action el = Some (js ''back''))"
| "triggers el ClickClose = (action el = Some (js ''close''))"
| "triggers el ClickSettings = (action el = Some (js ''settings''))"
| "triggers el ClickWalletDrawer = (action el = Some (js ''wallet-drawer''))"
| "triggers el ClickAvatar = (action el = Some (js ''avatar''))"
| "triggers el ClickOpenSettings = (action el = Some (js ''open-settings''))"
| "triggers el ClickLock = (action el = Some (js ''lock''))"
| "triggers el ClickUnlock = (action el = Some (js ''unlock''))"
| "triggers el ClickReceive = (action el = Some (js ''open-receive''))"
| "triggers el ClickCopyAddress = (action el = Some (js ''copy-address''))"
| "triggers el ClickSend = (action el = Some (js ''open-send''))"
| "triggers el (ClickMask onMask) = (action el = Some (js ''modal-mask'') \<or> action el = Some (js ''search-mask''))"
| "triggers el (SelectWallet i) = (action el = Some (js ''select-wallet'') \<and> nullish (attr el ''data-id'') [] = i)"
| "triggers el (InputSearch v) = (attr el ''data-field'' = Some (js ''search''))"
| "triggers el (InputSend KeyTo v) = (attr el ''data-field'' = Some (js ''send-to''))"
| "triggers el (InputSend KeyAmount v) = (attr el ''data-field'' = Some (js ''send-amount''))"
| "triggers el (InputSend KeyMemo v) = (attr el ''data-field'' = Some (js ''send-memo''))"
| "triggers el (InputSend KeyTokenId v) = False"
| "triggers el (SelectSendToken i) =
     (action el = Some (js ''select-send-token'') \<and> nullish (attr el ''data-id'') (itemId (hd tokenItems)) = i)"
| "triggers el SendPrev = (action el = Some (js ''send-prev''))"
| "triggers el (CloseSend b) =
     (action el = Some (js ''close-send'') \<and> closeBehaviorOf (nullish (attr el ''data-close-behavior'') (js ''reset'')) = b)"
| "triggers el (SendNext nxt) = (action el = Some (js ''send-next'') \<and> attr el ''data-next'' = Some (screenName nxt))"
| "triggers el SendSubmit = (action el = Some (js ''send-submit''))"
| "triggers el (KeyDown key tag) = False"

definition enabled :: "control \<Rightarrow> bool" where
  "enabled el \<longleftrightarrow> attr el ''disabled'' = None"

definition offered :: "jstring \<Rightarrow> popup_event \<Rightarrow> bool" where
  "offered html ev \<longleftrightarrow> list_ex (\<lambda>el. enabled el \<and> triggers el ev) (controls html)"

text \<open>Key presses go to a listener of the window, which needs no control.\<close>

fun isKeyDown :: "popup_event \<Rightarrow> bool" where
  "isKeyDown (KeyDown _ _) = True"
| "isKeyDown _ = False"

section \<open>The running popup\<close>

text \<open>
  \<open>rendering\<close> counts the times the page was rendered. A timer of \<open>bindFocus\<close> belongs to the elements of one rendering;
  focusing an element that has been replaced does nothing. \<open>focus\<close> is the identifier of the active element.
\<close>

record popup_page =
  pageUi :: popup_ui
  rootHtml :: jstring
  subscribed :: bool
  rendering :: nat
  focus :: "jstring option"
  focusTimers :: "(nat \<times> jstring) list"

definition hasId :: "jstring \<Rightarrow> string \<Rightarrow> bool" where
  "hasId html i \<longleftrightarrow> list_ex (\<lambda>el. attr el ''id'' = Some (js i)) (controls html)"

definition bindFocus :: "popup_page \<Rightarrow> popup_page" where
  "bindFocus p =
     (if hasId (rootHtml p) ''search-input'' \<and> focus p \<noteq> Some (js ''search-input'')
      then p\<lparr>focusTimers := focusTimers p @ [(rendering p, js ''search-input'')]\<rparr>
      else if hasId (rootHtml p) ''send-to-input'' \<and> focus p \<noteq> Some (js ''send-to-input'')
      then p\<lparr>focusTimers := focusTimers p @ [(rendering p, js ''send-to-input'')]\<rparr>
      else p)"

text \<open>The listener: all elements are replaced, the focus falls back to the body.\<close>

definition renderPage :: "popup_page \<Rightarrow> popup_page" where
  "renderPage p = bindFocus (p\<lparr>rootHtml := renderState (popup (pageUi p)), rendering := Suc (rendering p), focus := None\<rparr>)"

definition notify :: "popup_page \<Rightarrow> popup_page" where
  "notify p = (if subscribed p then renderPage p else p)"

definition unsubscribe :: "popup_page \<Rightarrow> popup_page" where
  "unsubscribe p = p\<lparr>subscribed := False\<rparr>"

definition startPopup :: popup_page where
  "startPopup = renderPage \<lparr>pageUi = mountPopup, rootHtml = [], subscribed = True, rendering = 0, focus = None, focusTimers = []\<rparr>"

text \<open>\<open>main.ts\<close>: the popup is mounted in the root element of the document, if there is one.\<close>

definition popupMain :: "bool \<Rightarrow> (exn, popup_page) result" where
  "popupMain hasRoot = (if \<not> hasRoot then Inl (ExError (js ''popup root not found'')) else Inr startPopup)"

text \<open>
  Whether a handler updates the store at all. A handler that updates it more than once renders each time; the
  last rendering is the one that remains.
\<close>

definition closesTop :: "PopupState \<Rightarrow> bool" where
  "closesTop s \<longleftrightarrow> 1 < length (stack s)"

definition opensSearch :: "PopupState \<Rightarrow> bool" where
  "opensSearch s = (let t = viewTransparent (getBaseAndOverlay (stack s)) in \<not> (t \<noteq> [] \<and> routeId (last t) = Search))"

fun updates :: "popup_event \<Rightarrow> PopupState \<Rightarrow> bool" where
  "updates ClickClose s = closesTop s"
| "updates (ClickMask onMask) s = (onMask \<and> closesTop s)"
| "updates ClickCopyAddress s = False"
| "updates (KeyDown key tag) s =
     (if shouldHandleSlash key tag then opensSearch s
      else isEscape key \<and> (viewTransparent (getBaseAndOverlay (stack s)) \<noteq> [] \<or>
        list_ex (\<lambda>r. presentation r = Modal) (stack s)) \<and> closesTop s)"
| "updates _ s = True"

definition handle :: "popup_event \<Rightarrow> popup_page \<Rightarrow> popup_page" where
  "handle ev p =
     (let p1 = p\<lparr>pageUi := onEvent ev (pageUi p)\<rparr>
      in if updates ev (popup (pageUi p)) then notify p1 else p1)"

definition submitFires :: "popup_page \<Rightarrow> popup_page" where
  "submitFires p = notify (p\<lparr>pageUi := submitTimer (pageUi p)\<rparr>)"

definition focusFires :: "nat \<times> jstring \<Rightarrow> popup_page \<Rightarrow> popup_page" where
  "focusFires t p =
     (let p1 = p\<lparr>focusTimers := remove1 t (focusTimers p)\<rparr>
      in if fst t = rendering p then p1\<lparr>focus := Some (snd t)\<rparr> else p1)"

inductive page_step :: "popup_page \<Rightarrow> popup_page \<Rightarrow> bool" where
  page_event: "subscribed p \<Longrightarrow> offered (rootHtml p) ev \<Longrightarrow> page_step p (handle ev p)"
| page_key: "subscribed p \<Longrightarrow> page_step p (handle (KeyDown key tag) p)"
| page_submitted: "subscribed p \<Longrightarrow> 0 < timers (pageUi p) \<Longrightarrow> page_step p (submitFires p)"
| page_focus: "t \<in> set (focusTimers p) \<Longrightarrow> page_step p (focusFires t p)"
| page_select: "hasId (rootHtml p) i \<Longrightarrow> page_step p (p\<lparr>focus := Some (js i)\<rparr>)"
| page_unload: "page_step p (unsubscribe p)"

definition page_open :: "popup_page \<Rightarrow> bool" where
  "page_open p \<longleftrightarrow> p = startPopup"

section \<open>What each screen offers\<close>

lemma attr_simps [simp]:
  "attr [] n = None" "attr ((js m, v) # el) n = (if m = n then Some v else attr el n)"
  by (auto simp: attr_def)

lemma triggers_input:
  "triggers el (InputSend k v) \<longleftrightarrow> (case k of KeyTokenId \<Rightarrow> False | KeyTo \<Rightarrow> attr el ''data-field'' = Some (js ''send-to'')
     | KeyAmount \<Rightarrow> attr el ''data-field'' = Some (js ''send-amount'') | KeyMemo \<Rightarrow> attr el ''data-field'' = Some (js ''send-memo''))"
  by (cases k) simp_all

lemma default_wallets_quote_free: "\<forall>w\<in>set defaultWallets. 34 \<notin> set (walletId w)"
  by (simp add: defaultWallets_def)

lemma offered_parts:
  assumes "wallets s = defaultWallets"
  shows "offered (renderState s) ev \<longleftrightarrow> (let v = getBaseAndOverlay (stack s) in
    list_ex (\<lambda>el. enabled el \<and> triggers el ev)
      (snd (scan (renderBaseContent s (viewBase v) (activeWalletOf s)) (InText, []))) \<or>
    viewOverlay v \<noteq> [] \<and> list_ex (\<lambda>el. enabled el \<and> triggers el ev)
      ([act ''modal-mask''] # modalControls (routeId (last (viewOverlay v))) s) \<or>
    viewTransparent v \<noteq> [] \<and> routeId (last (viewTransparent v)) = Search \<and>
      list_ex (\<lambda>el. enabled el \<and> triggers el ev) [[act ''search-mask''], [act ''close''], [(js ''id'', js ''search-input''), field ''search'']])"
  using controls_renderState[of s] default_wallets_quote_free assms
  by (simp add: offered_def Let_def del: js_Cons modalControls.simps)

lemma submit_offered:
  assumes "wallets s = defaultWallets" "offered (renderState s) SendSubmit"
  shows "\<not> sendSubmitting s"
proof -
  have "\<not> list_ex (\<lambda>el. enabled el \<and> triggers el SendSubmit) (snd (scan (renderBaseContent s b w) (InText, [])))" for b w
    by (simp add: scan_base action_def list_ex_iff detailAction_def split: PopupTabKey.splits del: js_Cons)
  moreover have "\<not> list_ex (\<lambda>el. enabled el \<and> triggers el SendSubmit) ([act ''modal-mask''] # modalControls i s)"
    if "sendSubmitting s" for i
    using that by (cases i) (simp_all add: action_def enabled_def list_ex_iff del: js_Cons)
  ultimately show ?thesis
    using assms(2) unfolding offered_parts[OF assms(1)] Let_def by (auto simp: action_def simp del: js_Cons)
qed

definition searchOnly :: "PopupRoute list \<Rightarrow> bool" where
  "searchOnly st \<longleftrightarrow> st = [rootRoute] \<or> (\<exists>r. st = [rootRoute, r] \<and> routeId r = Search \<and> presentation r = TransparentModal)"

lemma searchOnly_view:
  assumes "searchOnly st"
  shows "getBaseAndOverlay st = \<lparr>viewBase = rootRoute, viewOverlay = [], viewTransparent = tl st\<rparr>"
  using assms by (auto simp: searchOnly_def getBaseAndOverlay_def Let_def)

lemma locked_offers:
  assumes "wallets s = defaultWallets" "isLocked s" "searchOnly (stack s)" "offered (renderState s) ev"
  shows "ev = ClickUnlock \<or> ev = ClickClose \<or> (\<exists>b. ev = ClickMask b) \<or> (\<exists>v. ev = InputSearch v)"
  using assms(2,4) unfolding offered_parts[OF assms(1)] searchOnly_view[OF assms(3)] Let_def
  by (cases ev) (auto simp: scan_base action_def enabled_def triggers_input split: draft_key.splits simp del: js_Cons)

section \<open>Invariants of the running popup\<close>

lemma wallets_frame: "wallets (onStore ev s) = wallets s"
  by (cases ev)
     (simp_all add: action_defs goSendNext_def openSend_def openSearch_def keyDown_def closeTop_def closeByBehavior_def
        failSend_def Let_def del: js_Cons split: option.splits)

lemma locked_frame:
  "isLocked (onStore ev s) = (if ev = ClickLock then True else if ev = ClickUnlock then False else isLocked s)"
  by (cases ev)
     (simp_all add: action_defs goSendNext_def openSend_def openSearch_def keyDown_def closeTop_def closeByBehavior_def
        failSend_def Let_def del: js_Cons split: option.splits)

lemma popup_onEvent:
  "popup (onEvent ev ui) = (if ev = SendSubmit then popup (submitSend ui) else onStore ev (popup ui))"
  "timers (onEvent ev ui) = (if ev = SendSubmit then timers (submitSend ui) else timers ui)"
  by (cases ev; simp add: onEvent_def copyAddress_def split: option.splits)+

lemma submitSend_frame:
  "wallets (popup (submitSend ui)) = wallets (popup ui)" "isLocked (popup (submitSend ui)) = isLocked (popup ui)"
  "stack (popup (submitSend ui)) = stack (popup ui)"
  by (simp_all add: submitSend_def Let_def action_defs failSend_def)

lemma no_update:
  assumes "\<not> updates ev (popup ui)"
  shows "popup (onEvent ev ui) = popup ui"
  using assms
  by (cases ev) (auto simp: popup_onEvent closesTop_def opensSearch_def closeTop_def openSearch_def keyDown_def Let_def
      simp del: js_Cons split: if_splits)

lemma bindFocus_frame [simp]:
  "pageUi (bindFocus p) = pageUi p" "rootHtml (bindFocus p) = rootHtml p" "subscribed (bindFocus p) = subscribed p"
  "rendering (bindFocus p) = rendering p" "focus (bindFocus p) = focus p"
  by (simp_all add: bindFocus_def)

lemma notify_frame [simp]:
  "pageUi (notify p) = pageUi p" "subscribed (notify p) = subscribed p"
  by (simp_all add: notify_def renderPage_def)

lemma handle_frame [simp]: "pageUi (handle ev p) = onEvent ev (pageUi p)" "subscribed (handle ev p) = subscribed p"
  by (simp_all add: handle_def Let_def)

lemma notify_html: "subscribed p \<Longrightarrow> rootHtml (notify p) = renderState (popup (pageUi p))"
  by (simp add: notify_def renderPage_def)

lemma handle_html:
  assumes "subscribed p" "rootHtml p = renderState (popup (pageUi p))"
  shows "rootHtml (handle ev p) = renderState (popup (pageUi (handle ev p)))"
  using assms by (simp add: handle_def Let_def notify_html no_update)

definition locked_ok :: "PopupState \<Rightarrow> bool" where
  "locked_ok s \<longleftrightarrow> (isLocked s \<longrightarrow> searchOnly (stack s))"

definition page_inv :: "popup_page \<Rightarrow> bool" where
  "page_inv p \<longleftrightarrow> (subscribed p \<longrightarrow> rootHtml p = renderState (popup (pageUi p))) \<and> popup_wf (pageUi p) \<and>
     wallets (popup (pageUi p)) = defaultWallets \<and> locked_ok (popup (pageUi p)) \<and>
     timers (pageUi p) = (if sendSubmitting (popup (pageUi p)) then 1 else 0)"

lemma searchOnly_actions:
  assumes "searchOnly (stack s)"
  shows "searchOnly (stack (closeTop s))" "searchOnly (stack (openSearch s))" "searchOnly (stack (keyDown key tag s))"
proof -
  show c: "searchOnly (stack (closeTop s))"
    using assms by (auto simp: searchOnly_def closeTop_def closeByBehavior_def pop_def popToBase_def Let_def split: option.splits)
  show o: "searchOnly (stack (openSearch s))"
    using assms by (auto simp: openSearch_def searchOnly_view push_def Let_def searchOnly_def routeWith_def)
  show "searchOnly (stack (keyDown key tag s))"
    using c o assms by (simp add: keyDown_def)
qed

lemma locked_ok_event:
  assumes "page_inv p" "subscribed p" "offered (rootHtml p) ev \<or> isKeyDown ev"
  shows "locked_ok (popup (onEvent ev (pageUi p)))"
proof -
  let ?s = "popup (pageUi p)"
  have inv: "rootHtml p = renderState ?s" "stack_ok (stack ?s)" "wallets ?s = defaultWallets" "locked_ok ?s"
    using assms(1,2) by (simp_all add: page_inv_def popup_wf_def)
  consider "ev = ClickLock" | "ev = ClickUnlock" | "ev = SendSubmit" | "ev \<notin> {ClickLock, ClickUnlock, SendSubmit}" by blast
  then show ?thesis
  proof cases
    case 1
    then show ?thesis using inv(2)
      by (auto simp: popup_onEvent locked_ok_def searchOnly_def action_defs stack_ok_def)
  next
    case 4
    have "searchOnly (stack (onStore ev ?s))" if "isLocked ?s"
    proof -
      have so: "searchOnly (stack ?s)" using inv(4) that by (simp add: locked_ok_def)
      have "isKeyDown ev \<or> ev = ClickClose \<or> (\<exists>b. ev = ClickMask b) \<or> (\<exists>v. ev = InputSearch v)"
        using locked_offers[OF inv(3) that so] assms(3) 4 inv(1) by auto
      then show ?thesis using so by (cases ev) (auto simp: searchOnly_actions simp del: js_Cons)
    qed
    then show ?thesis using 4 by (simp add: popup_onEvent locked_ok_def locked_frame)
  qed (use inv(4) in \<open>simp_all add: popup_onEvent locked_ok_def setLocked_def submitSend_frame\<close>)
qed

lemma submit_timers:
  assumes "\<not> sendSubmitting (popup ui)" "timers ui = 0"
  shows "timers (submitSend ui) = (if sendSubmitting (popup (submitSend ui)) then 1 else 0)"
  using assms by (simp add: submitSend_def Let_def setSendSubmitting_def setSendFeedback_def failSend_def setSendErrors_def)

lemma page_inv_handle:
  assumes "page_inv p" "subscribed p" "offered (rootHtml p) ev \<or> isKeyDown ev"
  shows "page_inv (handle ev p)"
proof -
  let ?s = "popup (pageUi p)"
  have inv: "rootHtml p = renderState ?s" "popup_wf (pageUi p)" "wallets ?s = defaultWallets"
    "timers (pageUi p) = (if sendSubmitting ?s then 1 else 0)"
    using assms(1,2) by (simp_all add: page_inv_def)
  have "timers (onEvent ev (pageUi p)) = (if sendSubmitting (popup (onEvent ev (pageUi p))) then 1 else 0)"
  proof (cases "ev = SendSubmit")
    case True
    then have "\<not> sendSubmitting ?s" using submit_offered[OF inv(3)] assms(3) inv(1) by auto
    then show ?thesis using True inv(4) by (simp add: popup_onEvent submit_timers)
  next
    case False
    then show ?thesis using inv(4) by (simp add: popup_onEvent submitting_onStore)
  qed
  moreover have "wallets (popup (onEvent ev (pageUi p))) = defaultWallets"
    using inv(3) by (simp add: popup_onEvent wallets_frame submitSend_frame)
  ultimately show ?thesis
    using locked_ok_event[OF assms] handle_html[OF assms(2) inv(1)] popup_wf_event[OF inv(2)]
    by (simp add: page_inv_def)
qed

lemma page_inv_submitted:
  assumes "page_inv p" "subscribed p" "0 < timers (pageUi p)"
  shows "page_inv (submitFires p)"
proof -
  have "popup_wf (submitTimer (pageUi p))"
    using assms popup_wf_step[OF popup_step.timer] by (simp add: page_inv_def)
  then show ?thesis
    using assms by (auto simp: page_inv_def submitFires_def notify_html submitTimer_def locked_ok_def setSendSubmitting_def
        setSendFeedback_def split: if_splits)
qed

lemma page_inv_start: "page_inv startPopup"
  using popup_wf_mount
  by (simp add: page_inv_def startPopup_def renderPage_def locked_ok_def mountPopup_def initialState_def)

lemma page_inv_step:
  assumes "page_step p p'" "page_inv p"
  shows "page_inv p'"
  using assms(1)
proof cases
  case (page_event ev)
  then show ?thesis using page_inv_handle[OF assms(2)] by simp
next
  case (page_key key tag)
  then show ?thesis using page_inv_handle[OF assms(2)] by simp
next
  case page_submitted
  then show ?thesis using page_inv_submitted[OF assms(2)] by simp
qed (use assms(2) in \<open>simp_all add: page_inv_def focusFires_def unsubscribe_def Let_def\<close>)

lemma page_reachable: "reach page_open page_step p \<Longrightarrow> page_inv p"
  by (induction rule: reach_invariant) (auto simp: page_open_def page_inv_start page_inv_step)

section \<open>The send flow\<close>

text \<open>The flow shows the screen \<open>scr\<close> on top of the tabs, with the draft \<open>d\<close>.\<close>

definition flowAt :: "PopupScreenId \<Rightarrow> SendDraft \<Rightarrow> popup_page \<Rightarrow> bool" where
  "flowAt scr d p \<longleftrightarrow> reach page_open page_step p \<and> subscribed p \<and> \<not> sendSubmitting (popup (pageUi p)) \<and>
     sendDraft (popup (pageUi p)) = d \<and> (\<exists>ms r. stack (popup (pageUi p)) = rootRoute # ms @ [r] \<and>
       (\<forall>m\<in>set (ms @ [r]). presentation m = Modal) \<and> routeId r = scr)"

lemma modal_view:
  assumes "st = rootRoute # ms" "\<forall>m\<in>set ms. presentation m = Modal"
  shows "getBaseAndOverlay st = \<lparr>viewBase = rootRoute, viewOverlay = ms, viewTransparent = []\<rparr>"
proof -
  have "lastPush st (length st) = 0"
    using assms by (intro lastPush_unique) (auto simp: nth_Cons' )
  then show ?thesis using assms by (auto simp: getBaseAndOverlay_def Let_def filter_id_conv filter_empty_conv)
qed

lemma flow_event:
  assumes "flowAt scr d p" "list_ex (\<lambda>el. enabled el \<and> triggers el ev) (modalControls scr (popup (pageUi p)))"
  shows "reach page_open page_step (handle ev p)"
proof -
  let ?s = "popup (pageUi p)"
  from assms(1) obtain ms r where p: "reach page_open page_step p" "subscribed p" "stack ?s = rootRoute # ms @ [r]"
    "\<forall>m\<in>set (ms @ [r]). presentation m = Modal" "routeId r = scr" by (auto simp: flowAt_def)
  have inv: "rootHtml p = renderState ?s" "wallets ?s = defaultWallets"
    using page_reachable[OF p(1)] p(2) by (simp_all add: page_inv_def)
  have "offered (rootHtml p) ev"
    using assms(2) modal_view[OF p(3,4)] p(5) unfolding inv(1) offered_parts[OF inv(2)]
    by (simp add: Let_def del: js_Cons modalControls.simps)
  then show ?thesis using reach_step[OF p(1)] page_event[OF p(2)] by blast
qed

lemma flow_input:
  assumes "flowAt scr d p" "(scr, key) \<in> {(SendAddress, KeyTo), (SendAmount, KeyAmount), (SendAmount, KeyMemo)}"
  shows "flowAt scr (setDraft key v d) (handle (InputSend key v) p)"
proof -
  have "reach page_open page_step (handle (InputSend key v) p)"
    using assms(2) by (intro flow_event[OF assms(1)]) (auto simp: enabled_def simp del: js_Cons)
  then show ?thesis
    using assms(1) by (auto simp: flowAt_def popup_onEvent updateSendDraft_def)
qed

lemma flow_token:
  assumes "flowAt SendToken d p" "i \<in> set (map itemId tokenItems)"
  shows "flowAt SendToken (d\<lparr>draftTokenId := i\<rparr>) (handle (SelectSendToken i) p)"
proof -
  have "reach page_open page_step (handle (SelectSendToken i) p)"
    using assms(2) by (intro flow_event[OF assms(1)]) (auto simp: enabled_def action_def list_ex_iff simp del: js_Cons)
  then show ?thesis
    using assms(1) by (auto simp: flowAt_def popup_onEvent updateSendDraft_def)
qed

lemma flow_next:
  assumes "flowAt scr d p" "(scr, nxt) \<in> {(SendToken, SendAddress), (SendAddress, SendAmount), (SendAmount, SendConfirm)}"
    and "nxt = SendAmount \<longrightarrow> send_to_ok (toLowerCase (trim (draftTo d)))" "nxt = SendConfirm \<longrightarrow> send_ok d"
  shows "flowAt nxt d (handle (SendNext nxt) p)"
proof -
  let ?s = "popup (pageUi p)"
  from assms(1) obtain ms r where p: "reach page_open page_step p" "subscribed p" "stack ?s = rootRoute # ms @ [r]"
    "\<forall>m\<in>set (ms @ [r]). presentation m = Modal" "routeId r = scr" "sendDraft ?s = d" "\<not> sendSubmitting ?s"
    by (auto simp: flowAt_def)
  have "reach page_open page_step (handle (SendNext nxt) p)"
    using assms(2) by (intro flow_event[OF assms(1)]) (auto simp: enabled_def action_def simp del: js_Cons)
  moreover have "\<not> hasError (errTo (validateSendDraft ?s))" if "nxt = SendAmount"
    using assms(3) that p(6) by (simp add: validateSendDraft_def Let_def send_to_regex hasError_def noErrors_def)
  moreover have "\<not> (hasError (errTo (validateSendDraft ?s)) \<or> hasError (errAmount (validateSendDraft ?s)) \<or>
      hasError (errMemo (validateSendDraft ?s)))" if "nxt = SendConfirm"
    using assms(4) that p(6) validateSendDraft_none[of ?s] by simp
  ultimately have "reach page_open page_step (handle (SendNext nxt) p)"
    "\<exists>q. stack (goSendNext nxt ?s) = rootRoute # (ms @ [r]) @ [q] \<and> presentation q = Modal \<and> routeId q = nxt"
    "sendDraft (goSendNext nxt ?s) = d"
    using assms(2) p(3,6) by (auto simp: goSendNext_def Let_def action_defs routeWith_def simp del: js_Cons)
  then show ?thesis
    using p(2,4,7) submitting_onStore[of "SendNext nxt" ?s] unfolding flowAt_def
    by (auto simp: popup_onEvent intro!: exI[of _ "ms @ [r]"])
qed

lemma start_event:
  assumes "ev \<in> {ClickSend, ClickSettings}"
  shows "reach page_open page_step (handle ev startPopup)"
proof -
  have r: "reach page_open page_step startPopup" by (rule reach_open) (simp add: page_open_def)
  have s: "popup (pageUi startPopup) = initialState" "subscribed startPopup"
    by (simp_all add: startPopup_def renderPage_def mountPopup_def)
  have v: "getBaseAndOverlay (stack initialState) = \<lparr>viewBase = rootRoute, viewOverlay = [], viewTransparent = []\<rparr>"
    using modal_view[of "stack initialState" "[]"] by (simp add: initialState_def)
  have "rootHtml startPopup = renderState initialState"
    using page_reachable[OF r] s by (simp add: page_inv_def)
  moreover have "offered (renderState initialState) ClickSend" "offered (renderState initialState) ClickSettings"
    using offered_parts[of initialState] v
    by (simp_all add: Let_def scan_base initialState_def action_def enabled_def del: js_Cons)
  ultimately show ?thesis using assms reach_step[OF r] page_event[OF s(2)] by auto
qed

lemma start_state: "popup (pageUi startPopup) = initialState" "subscribed startPopup"
  by (simp_all add: startPopup_def renderPage_def mountPopup_def)

lemma flow_open:
  "flowAt SendToken (sendDraft initialState) (handle ClickSend startPopup)"
  "flowAt Settings (sendDraft initialState) (handle ClickSettings startPopup)"
  using start_event
  by (simp_all add: flowAt_def popup_onEvent start_state openSend_def push_def routeWith_def)
    (simp_all add: initialState_def resetSendFeedback_def)

lemma flow_submit:
  assumes "flowAt SendConfirm d p" "send_ok d"
  shows "reach page_open page_step (handle SendSubmit p) \<and> subscribed (handle SendSubmit p) \<and>
    sendDraft (popup (pageUi (handle SendSubmit p))) = d \<and> sendSubmitting (popup (pageUi (handle SendSubmit p)))"
proof -
  have "reach page_open page_step (handle SendSubmit p)"
    using assms(1) by (intro flow_event[OF assms(1)]) (simp add: flowAt_def enabled_def action_def del: js_Cons)
  moreover have "send_ok (sendDraft (popup (pageUi p)))" using assms by (simp add: flowAt_def)
  ultimately show ?thesis
    using assms(1) validateSendDraft_none[of "popup (pageUi p)"]
    by (simp add: flowAt_def popup_onEvent submitSend_def Let_def setSendFeedback_def setSendSubmitting_def)
qed

section \<open>Properties\<close>

text \<open>
  C8: the popup shows its state and nothing else, and a transaction is never submitted twice. In every reachable state of the running
  popup the page is the rendering of the current state, at most one submission is under way, the state says so exactly
  while its timer is pending, and no control on the page submits again before it has ended.
\<close>

theorem popup_submits_once:
  assumes "reach page_open page_step p" "subscribed p"
  shows "rootHtml p = renderState (popup (pageUi p)) \<and>
    timers (pageUi p) = (if sendSubmitting (popup (pageUi p)) then 1 else 0) \<and>
    (sendSubmitting (popup (pageUi p)) \<longrightarrow> \<not> offered (rootHtml p) SendSubmit)"
  using page_reachable[OF assms(1)] assms(2) submit_offered[of "popup (pageUi p)"] by (auto simp: page_inv_def)

theorem popup_submits_once_witness:
  "rootHtml (handle ClickSend startPopup) = renderState (onStore ClickSend initialState)"
proof -
  have "reach page_open page_step (handle ClickSend startPopup)" by (rule start_event) simp
  from popup_submits_once[OF this] show ?thesis by (simp add: start_state popup_onEvent)
qed

text \<open>
  C9: a locked popup offers nothing of the wallet. In every reachable state that is locked, the only controls on the page are the one that
  unlocks it and those of the search: no event that shows an address, opens a detail, or starts or continues a transfer can be
  triggered from it.
\<close>

theorem locked_popup_is_sealed:
  assumes "reach page_open page_step p" "subscribed p" "isLocked (popup (pageUi p))" "offered (rootHtml p) ev"
  shows "ev = ClickUnlock \<or> ev = ClickClose \<or> (\<exists>b. ev = ClickMask b) \<or> (\<exists>v. ev = InputSearch v)"
  using page_reachable[OF assms(1)] assms(2-4) locked_offers[of "popup (pageUi p)" ev]
  by (auto simp: page_inv_def locked_ok_def)

definition lockedPopup :: popup_page where
  "lockedPopup = handle ClickLock (handle ClickSettings startPopup)"

lemma lockedPopup_state:
  "reach page_open page_step lockedPopup" "subscribed lockedPopup" "isLocked (popup (pageUi lockedPopup))"
  "stack (popup (pageUi lockedPopup)) = [rootRoute]"
proof -
  show "reach page_open page_step lockedPopup"
    unfolding lockedPopup_def by (rule flow_event[OF flow_open(2)]) (simp add: action_def enabled_def del: js_Cons)
qed (simp_all add: lockedPopup_def popup_onEvent start_state action_defs initialState_def)

lemma lockedPopup_offers: "offered (rootHtml lockedPopup) ClickUnlock"
proof -
  let ?s = "popup (pageUi lockedPopup)"
  have "rootHtml lockedPopup = renderState ?s" "wallets ?s = defaultWallets"
    using page_reachable[OF lockedPopup_state(1)] lockedPopup_state(2) by (simp_all add: page_inv_def)
  moreover have "getBaseAndOverlay (stack ?s) = \<lparr>viewBase = rootRoute, viewOverlay = [], viewTransparent = []\<rparr>"
    using modal_view[of "stack ?s" "[]"] lockedPopup_state(4) by simp
  ultimately show ?thesis
    using lockedPopup_state(3) offered_parts[of ?s ClickUnlock]
    by (simp add: Let_def scan_base action_def enabled_def del: js_Cons)
qed

theorem locked_popup_is_sealed_witness:
  "reach page_open page_step lockedPopup \<and> isLocked (popup (pageUi lockedPopup)) \<and>
   offered (rootHtml lockedPopup) ClickUnlock \<and> \<not> offered (rootHtml lockedPopup) ClickSend"
  using lockedPopup_state lockedPopup_offers
    locked_popup_is_sealed[OF lockedPopup_state(1-3), of ClickUnlock] locked_popup_is_sealed[OF lockedPopup_state(1-3), of ClickSend]
  by blast

text \<open>
  C22: the send flow can be completed, from the controls on the page alone. For every draft that satisfies the rules and names one of the tokens there is a
  run of the popup, each event of which is offered by the page at that moment, to a state in which exactly this draft is being
  submitted; and when the timer fires, the page reports the submission and is ready for another one.
\<close>

theorem send_flow_completes:
  assumes "send_ok d" "draftTokenId d \<in> set (map itemId tokenItems)"
  shows "\<exists>p. reach page_open page_step p \<and> sendDraft (popup (pageUi p)) = d \<and> sendSubmitting (popup (pageUi p)) \<and>
    page_step p (submitFires p) \<and> \<not> sendSubmitting (popup (pageUi (submitFires p))) \<and>
    sendFeedback (popup (pageUi (submitFires p))) = SEND_DONE_TEXT"
proof -
  have to: "send_to_ok (toLowerCase (trim (draftTo d)))" using assms(1) by (simp add: send_ok_def Let_def)
  obtain p1 where "flowAt SendToken ((sendDraft initialState)\<lparr>draftTokenId := draftTokenId d\<rparr>) p1"
    using flow_token[OF flow_open(1) assms(2)] by blast
  from flow_next[OF this, of SendAddress] obtain p2
    where "flowAt SendAddress ((sendDraft initialState)\<lparr>draftTokenId := draftTokenId d\<rparr>) p2" by auto
  from flow_input[OF this, of KeyTo "draftTo d"] obtain p3
    where "flowAt SendAddress ((sendDraft initialState)\<lparr>draftTokenId := draftTokenId d, draftTo := draftTo d\<rparr>) p3" by auto
  from flow_next[OF this, of SendAmount] to obtain p4
    where "flowAt SendAmount ((sendDraft initialState)\<lparr>draftTokenId := draftTokenId d, draftTo := draftTo d\<rparr>) p4" by auto
  from flow_input[OF this, of KeyAmount "draftAmount d"] obtain p5 where "flowAt SendAmount
    ((sendDraft initialState)\<lparr>draftTokenId := draftTokenId d, draftTo := draftTo d, draftAmount := draftAmount d\<rparr>) p5" by auto
  from flow_input[OF this, of KeyMemo "draftMemo d"] obtain p6 where "flowAt SendAmount ((sendDraft initialState)
    \<lparr>draftTokenId := draftTokenId d, draftTo := draftTo d, draftAmount := draftAmount d, draftMemo := draftMemo d\<rparr>) p6" by auto
  moreover have "(sendDraft initialState)\<lparr>draftTokenId := draftTokenId d, draftTo := draftTo d,
    draftAmount := draftAmount d, draftMemo := draftMemo d\<rparr> = d" by simp
  ultimately have "flowAt SendAmount d p6" by metis
  from flow_next[OF this, of SendConfirm] assms(1) obtain p7 where "flowAt SendConfirm d p7" by auto
  from flow_submit[OF this assms(1)] obtain p where p: "reach page_open page_step p" "subscribed p"
    "sendDraft (popup (pageUi p)) = d" "sendSubmitting (popup (pageUi p))" by blast
  have "0 < timers (pageUi p)" using page_reachable[OF p(1)] p(4) by (simp add: page_inv_def)
  then have "page_step p (submitFires p)" using page_submitted[OF p(2)] by blast
  with p show ?thesis
    by (intro exI[of _ p]) (simp add: submitFires_def submitTimer_def setSendFeedback_def setSendSubmitting_def)
qed

theorem send_flow_completes_witness:
  "\<exists>p. reach page_open page_step p \<and> sendDraft (popup (pageUi p)) = demo_draft \<and> sendSubmitting (popup (pageUi p))"
  using send_flow_completes[OF demo_draft_ok] by (auto simp: demo_draft_def tokenItems_def simp del: js_Cons)

section \<open>Where the code departs from what it means to do\<close>

text \<open>
  The popup is unlocked without a password: the page has a field for it, but nothing reads the field, and the button unlocks in every locked state.
\<close>

theorem unlock_needs_no_password:
  assumes "reach page_open page_step p" "subscribed p" "isLocked (popup (pageUi p))"
  shows "page_step p (handle ClickUnlock p) \<and> \<not> isLocked (popup (pageUi (handle ClickUnlock p))) \<and>
    (\<forall>ev. \<not> triggers [field ''unlock''] ev)"
proof -
  let ?s = "popup (pageUi p)"
  have inv: "rootHtml p = renderState ?s" "wallets ?s = defaultWallets"
    using page_reachable[OF assms(1)] assms(2) by (simp_all add: page_inv_def)
  have "offered (rootHtml p) ClickUnlock"
    unfolding inv(1) offered_parts[OF inv(2)] Let_def using assms(3)
    by (simp add: scan_base action_def enabled_def del: js_Cons)
  moreover have "\<not> triggers [field ''unlock''] ev" for ev
    by (cases ev) (auto simp: action_def triggers_input split: draft_key.splits simp del: js_Cons)
  ultimately show ?thesis
    using page_event[OF assms(2)] by (simp add: popup_onEvent locked_frame setLocked_def)
qed

theorem unlock_needs_no_password_witness: "\<not> isLocked (popup (pageUi (handle ClickUnlock lockedPopup)))"
  using unlock_needs_no_password[OF lockedPopup_state(1-3)] by blast

lemma timers_current:
  assumes "reach page_open page_step p"
  shows "\<forall>t\<in>set (focusTimers p). fst t \<le> rendering p"
  using assms
proof (induction rule: reach_invariant)
  case (step p p')
  have "\<forall>t\<in>set (focusTimers (notify q)). fst t \<le> rendering (notify q)"
    if "focusTimers q = focusTimers p" "rendering q = rendering p" for q
    using step(1) that by (auto simp: notify_def renderPage_def bindFocus_def)
  note rendered = this[rule_format]
  have handled: "\<forall>t\<in>set (focusTimers (handle ev p)). fst t \<le> rendering (handle ev p)" for ev
    using step(1) rendered by (simp add: handle_def Let_def)
  from step(2) show ?case
  proof cases
    case page_submitted
    then show ?thesis using rendered by (simp add: submitFires_def)
  next
    case (page_focus t)
    then show ?thesis using step(1) by (auto simp: focusFires_def Let_def dest: notin_set_remove1)
  qed (use step(1) handled in \<open>simp_all add: unsubscribe_def\<close>)
qed (auto simp: page_open_def startPopup_def renderPage_def bindFocus_def)

text \<open>
  Typing into the amount field loses the focus after every character: each keystroke renders the page anew, \<open>bindFocus\<close> only looks for the search
  field and the recipient field, and so no element is active and no pending timer will focus one.
\<close>

theorem amount_field_loses_focus:
  assumes "flowAt SendAmount d p"
  shows "let p' = handle (InputSend KeyAmount v) p in
    focus p' = None \<and> (\<forall>t\<in>set (focusTimers p'). focus (focusFires t p') = None)"
proof -
  let ?p = "handle (InputSend KeyAmount v) p"
  let ?s = "popup (pageUi ?p)"
  have f: "flowAt SendAmount (setDraft KeyAmount v d) ?p" by (rule flow_input[OF assms]) simp
  then obtain ms r where st: "stack ?s = rootRoute # ms @ [r]" "\<forall>m\<in>set (ms @ [r]). presentation m = Modal" "routeId r = SendAmount"
    by (auto simp: flowAt_def)
  have inv: "page_inv ?p" "subscribed ?p" "subscribed p" using f assms page_reachable by (auto simp: flowAt_def)
  have "\<not> isLocked ?s"
    using inv(1) st by (auto simp: page_inv_def locked_ok_def searchOnly_def)
  then have ids: "\<not> hasId (renderState ?s) ''search-input''" "\<not> hasId (renderState ?s) ''send-to-input''"
    using inv(1) modal_view[OF st(1,2)] st(3) default_wallets_quote_free
    by (simp_all add: page_inv_def hasId_def controls_renderState Let_def scan_base list_ex_iff del: js_Cons)
  have "?p = renderPage (p\<lparr>pageUi := onEvent (InputSend KeyAmount v) (pageUi p)\<rparr>)"
    using inv(3) by (simp add: handle_def notify_def Let_def)
  also have "\<dots> = p\<lparr>pageUi := onEvent (InputSend KeyAmount v) (pageUi p), rootHtml := renderState ?s,
      rendering := Suc (rendering p), focus := None\<rparr>"
    using ids by (simp add: renderPage_def bindFocus_def)
  finally have "?p = p\<lparr>pageUi := onEvent (InputSend KeyAmount v) (pageUi p), rootHtml := renderState ?s,
      rendering := Suc (rendering p), focus := None\<rparr>" .
  then have "focusTimers ?p = focusTimers p" "rendering ?p = Suc (rendering p)" "focus ?p = None"
    by simp_all
  moreover have "\<forall>t\<in>set (focusTimers p). fst t \<le> rendering p"
    using assms timers_current by (simp add: flowAt_def)
  ultimately show ?thesis by (auto simp: Let_def focusFires_def)
qed

end
