(* ===== verification/Spec2Isabelle.thy ===== *)
theory Spec2Isabelle
  imports Broadcast Nonce TxPoll WalletAccount Bip21 Network TxService Staking ChainServices MessageTypes
    ApiClient WebSession ApiContract LoginPage EventExport StatusPages NotificationsPage EventDetailPage AppRoutes
    BrowserDownload PageViews WebsitePages AppViews SessionLease WebApp
    EnvScripts SecurityPrecheck IntegrationScripts E2EScript ScriptFiles
    PopupStore PopupScreens PopupController PopupPage
begin

text \<open>
  Soulon Wallet, the TypeScript and JavaScript parts: a model of the wallet SDK (\<open>soulon-wallet/src\<close>) and its
  scripts (\<open>soulon-wallet/scripts\<close>), of the web application (\<open>wallet-app/src\<close>) and of the browser
  extension (\<open>wallet-extension/src\<close>), with the theorems that make them correct.

  \<^bold>\<open>The program.\<close> The SDK validates what users type (mnemonics, derivation paths, addresses,
  amounts, payment URIs), builds Cosmos messages, signs and broadcasts them with retries through
  CosmJS, hands out nonces and polls for the confirmation. The web application logs a user in with
  a challenge of the backend, keeps a session in \<open>sessionStorage\<close>, talks to the backend through an
  HTTP client with retries, and shows state, events and notifications on guarded pages, which it can
  export. The scripts of the SDK check a deployment and run its services against a scripted node. The
  extension is a popup with a navigation stack in a store, renderers from the store to HTML, and event handlers.

  \<^bold>\<open>Language and values.\<close> A string of the language is a list of UTF-16 code units (\<open>JsString\<close>:
  trimming, case folding, search, splitting, decimal numerals). Regular expressions are a small
  datatype with an executable matcher that is proved equal to the language of the expression
  (\<open>JsRegex\<close>). Numbers are integers where the code only uses them as such, and
  \<open>jsnum\<close> (not-a-number, infinities, rationals) where other values get through (\<open>JsNumber\<close>).
  \<open>encodeURIComponent\<close> and the form encoding of \<open>URLSearchParams\<close>, in both directions, are exact down to surrogate pairs (\<open>UrlEncoding\<close>). Exceptions
  are the left values of \<open>result\<close>; \<open>ebind\<close> and \<open>nullish\<close> of \<open>Prelude\<close> are sequencing and \<open>??\<close>.
  \<open>JsonText\<close> is the printer of \<open>JSON.stringify\<close> with indentation and a reader that is proved to invert it.

  \<^bold>\<open>The SDK.\<close>
  \<^item> \<open>WalletErrors\<close>: \<open>core/errors.ts\<close>, the error class and the two classifiers that the services below use.
  \<^item> \<open>RetryLoop\<close>: the locale \<open>bounded_rounds\<close>, the contract of a loop with a bounded number of
    rounds. It is interpreted on the loops of \<open>Broadcast\<close>, \<open>ApiClient\<close> and \<open>EventExport\<close>.
  \<^item> \<open>Broadcast\<close>: \<open>core/broadcast.ts\<close>. The loop refines an abstract reading of a sequence of
    outcomes: result, number of executions and pauses.
  \<^item> \<open>Nonce\<close>: \<open>core/nonce.ts\<close>, with a step relation whose steps are the parts of the asynchronous
    calls between their \<open>await\<close>s: from the creation of the manager on no nonce is handed out twice, on two conditions
    that two counterexamples show to be needed.
  \<^item> \<open>TxPoll\<close>: \<open>core/tx.ts\<close>. The loop depends on a clock and may not end, so it is a
    \<open>partial_function\<close>; that it ends is a theorem.
  \<^item> \<open>WalletAccount\<close>: \<open>core/wallet.ts\<close> and \<open>core/identity.ts\<close> over a CosmJS given as a parameter.
  \<^item> \<open>Bip21\<close>: \<open>core/bip21.ts\<close> and the form layer \<open>wallet-app/src/lib/bip21.ts\<close>, with both round trips.
  \<^item> \<open>Network\<close>: \<open>config/network.ts\<close>, \<open>core/client.ts\<close>, \<open>core/gas.ts\<close>.
  \<^item> \<open>TxService\<close>: the locale \<open>tx_service\<close> (a service prepares a call from its input and broadcasts
    it) and \<open>services/transfer.ts\<close>; \<open>Staking\<close>: \<open>services/staking.ts\<close>; \<open>ChainServices\<close>:
    \<open>services/governance.ts\<close>, \<open>services/ibc.ts\<close>, \<open>services/authz.ts\<close>. The locale is interpreted on
    every transaction of these services; what may be sent is proved once inside it.
  \<^item> \<open>MessageTypes\<close>: all ten transactions as one step relation; whatever is signed is well typed.

  \<^bold>\<open>The web application.\<close>
  \<^item> \<open>ApiErrors\<close> and \<open>ApiClient\<close>: \<open>api/errors.ts\<close>, \<open>config/env.ts\<close>, \<open>api/client.ts\<close>. A browser (clock,
    \<open>fetch\<close>, timers, URL parser) is a record of functions on an arbitrary state. The lifecycle
    theorem gives the attempts, pauses, result and events of every request with a whole number of retries.
  \<^item> \<open>WebSession\<close>: \<open>api/walletApi.ts\<close>, \<open>auth/*\<close>. Reloads restore exactly the session; a session
    lasts exactly thirty minutes. \<open>SessionLease\<close>: the provider refines a lease, an account with a deadline.
  \<^item> \<open>LoginPage\<close>: \<open>pages/LoginPage.tsx\<close> as a step relation with an invariant by rule induction.
  \<^item> \<open>EventExport\<close>: \<open>lib/eventExport.ts\<close>. The CSV and the JSON text are inverted by readers; the
    collection of pages is complete and bounded.
  \<^item> \<open>PageLoad\<close>: the interfaces of the pages. \<open>request_page\<close> (a handler that answers a request ends the session
    exactly on a session error), \<open>loading_page\<close> (and sets and clears the loading flag) and \<open>single_load\<close> (requests
    overlap only after the session was replaced), each with its consequences; the pages below interpret them.
  \<^item> \<open>StatusPages\<close>: \<open>pages/StatePage.tsx\<close> and \<open>pages/HomePage.tsx\<close> (health check, payment form).
  \<^item> \<open>NotificationsPage\<close>: \<open>pages/NotificationsPage.tsx\<close>, pages of notifications and the merging of the stream.
  \<^item> \<open>EventsPage\<close>: \<open>pages/EventsPage.tsx\<close>, filters, paging, the lifecycle display, exports with progress and
    cancellation. A step relation covers every handler, and requests and exports are answered at any later step.
  \<^item> \<open>EventDetailPage\<close>: \<open>pages/EventDetailPage.tsx\<close>, whose effect starts runs that may outlive their route.
  \<^item> \<open>AppRoutes\<close>: \<open>router.tsx\<close> and the header of \<open>App.tsx\<close>; every page of the wallet is behind the guard.
  \<^item> \<open>ApiContract\<close>: \<open>api/chainApiContract.ts\<close>, the list of endpoints; the request for a single event is for none of them.
  \<^item> \<open>BrowserDownload\<close>: \<open>downloadTextFile\<close> on the object URLs, anchors and saved files of a browser.
  \<^item> \<open>Markup\<close>: JSX as a datatype, the actions a rendered page offers, and the locale \<open>controlled_page\<close>, the contract between the markup
    of a page and its handlers. \<open>PageViews\<close>: the complete markup of the six pages as functions of their states, with the locale interpreted on
    the five that have controls: what a page does not offer would change nothing. The models of the buttons are the handlers behind
    the \<open>disabled\<close> attributes of the source. \<open>WebsitePages\<close>: the website under \<open>/site\<close>.
    \<open>AppViews\<close>: the frame of \<open>App.tsx\<close>, the guard and the nesting of the elements of a branch: without
    a session a branch of the wallet is the redirect and nothing else.
  \<^item> \<open>WebApp\<close>: \<open>main.tsx\<close>, all of the above as one state machine: the session provider around the router, the address, the clock, loads of
    the tab, and every instance of a page that was opened, since a page that was left still receives the answers to its requests. The locale
    \<open>session_client\<close> (a page leaves the shared session alone or ends it) is interpreted on the step relations of the pages and on the instances. Over all runs of a
    tab: the wallet is open only with the consent of the server, whatever ends the session closes it, and a login leads back to
    the address that the guard had turned down.
  The last section of this theory follows a lost session from any page to the login page and back.

  \<^bold>\<open>The scripts.\<close>
  \<^item> \<open>EnvScripts\<close>: \<open>deploy-smoke.mjs\<close> and \<open>validate-deploy-config.mjs\<close>, down to the text of the \<open>.env\<close> file.
  \<^item> \<open>SecurityPrecheck\<close>: \<open>security-precheck.mjs\<close>, its patterns as expressions of \<open>JsRegex\<close>.
  \<^item> \<open>IntegrationScripts\<close> and \<open>E2EScript\<close>: \<open>wallet-business-integration.mjs\<close> and \<open>wallet-testnet-e2e.mjs\<close>, run
    on the models of the services above: the test of the repository passes as a theorem.
  \<^item> \<open>ScriptFiles\<close>: both tests as programs, from the files under \<open>deploy/\<close> and the environment to the output and the exit code,
    also for missing files, and on the files that the repository has.

  \<^bold>\<open>The extension.\<close>
  \<^item> \<open>PopupStore\<close>: \<open>popup_types.ts\<close>, \<open>routes.ts\<close>, \<open>popup_store.ts\<close>.
  \<^item> \<open>PopupScreens\<close>: \<open>popup_screens.ts\<close>; every renderer yields the exact text of the source's
    template, and user text is proved not to change the structure of the page.
  \<^item> \<open>PopupController\<close>: \<open>popup_controller.ts\<close>; events and timers as steps, the invariant of
    reachable states, the send flow.
  \<^item> \<open>PopupDom\<close>: a reader of the rendered HTML, and the exact list of controls it finds in the rendering of every state. \<open>PopupPage\<close>: the popup at run time:
    the page shows the rendering of the store, a user can use only the controls that are in the page and not
    disabled, the listener, the focus and the two kinds of timers. Over all runs: nothing is submitted twice, a locked popup offers nothing but the unlock
    button and the search, and every valid draft can be sent by the controls that the page offers.

  \<^bold>\<open>Bounds and fuel.\<close> No model uses fuel. Loops with a bound of their own terminate by a measure;
  \<open>waitForTx\<close> is partial and its termination is proved from the two facts it needs (a positive
  interval, a clock that queries do not move back). Integers are unbounded: values of the program
  stay far below \<open>2 ^ 53\<close>, and where doubles round (the gas estimate) the rounding is a parameter with
  the properties of IEEE arithmetic that the theorem uses.

  \<^bold>\<open>Parameters.\<close> CosmJS (wallets, coins, signing clients), \<open>fetch\<close>, \<open>URL\<close>, \<open>JSON.parse\<close>, clocks and random
  numbers are arguments; where a theorem needs a law of theirs it is a named hypothesis
  (\<open>coin_accepts_digits\<close>, \<open>rounds_to_double\<close>, \<open>json_codec\<close>, \<open>router_ok\<close>, \<open>serves\<close>, \<open>fetch_plain\<close>) and the witness
  gives an instance. The answers of the backend on the events, notifications and detail pages are taken at
  the types that \<open>walletApi.ts\<close> declares for them; the health and state answers are arbitrary JSON.

  \<^bold>\<open>Not modelled.\<close> \<open>index.ts\<close> of the SDK re-exports the modelled functions; style sheets are not
  part of the markup. React is modelled as far as the pages use it: states, effects with their dependencies and clean-ups, and instances that are kept while the
  same page stays on the screen; effects run right after the change that they depend on, as in a production build (\<open>StrictMode\<close> repeats them in development). A value in a leaf of the markup is the one given to React: how React writes it is not modelled.
  Matching an address against the route table belongs to the router library and is a parameter of \<open>WebApp\<close>. The types of answers of the backend that the code only declares have no definition of
  their own. The Flutter application (Dart), the PowerShell scripts, the backend and the chain node (Go) are
  other programs; what they answer is an input of the model.
\<close>

section \<open>A lost session, from any page to the login page and back\<close>

text \<open>Sessions after a failed request of the five pages.\<close>

definition auths_after_failure ::
  "lang \<Rightarrow> exn \<Rightarrow> state_page \<Rightarrow> home_page \<Rightarrow> notifications_page \<Rightarrow> events_page \<Rightarrow> jstring \<Rightarrow> detail_page \<Rightarrow> auth list" where
  "auths_after_failure lang e st hm np ep target dp =
     [stateAuth (loadStateEnds lang (Inl e) st), homeAuth (checkHealthEnds lang (Inl e) hm),
      npAuth (runEnds lang (npOffset np) (Inl e) np), epAuth (loadEventsEnds lang (epOffset ep, epQuery ep) (Inl e) ep),
      dpAuth (detailShows lang target (Inl e) dp)]"

lemma auths_after_lost_session:
  assumes "isSessionInvalidError e" "a \<in> set (auths_after_failure lang e st hm np ep target dp)"
  shows "\<exists>a0. a = endSession a0"
  using assms(2) unfolding auths_after_failure_def runEnds_def loadEventsEnds_def
  by (auto simp: state_load.lost[OF assms(1)] health.lost[OF assms(1)] np_load.lost[OF assms(1)]
      ep_load.lost[OF assms(1)] dp_load.lost[OF assms(1)])

text \<open>
  C16: an expired session never shows data and loses no place. After a request of any page fails
  with an error of the session, no session is stored, every page of the wallet shows the redirect to the login page instead of itself,
  the login page names the reason and stays open, and after the login it returns to the address that was left.
\<close>

theorem lost_session_returns_to_page:
  assumes "isSessionInvalidError e" "a \<in> set (auths_after_failure lang e st hm np ep target dp)"
    and "b \<in> set allBranches" "isWalletPage (last (fst b))"
    and "pathname @ search \<notin> {[], js ''/login''}"
  shows "storage a = None \<and>
    renderBranch a pathname search (fst b) = Some (LoginRedirect (pathname @ search) (Some RELOGIN_TEXT)) \<and>
    sessionMessage (Some RELOGIN_TEXT) a = RELOGIN_TEXT \<and>
    redirectEffect (Some (pathname @ search)) (openLogin a) = openLogin a \<and>
    redirectPath (Some (pathname @ search)) = pathname @ search"
proof -
  obtain a0 where a: "a = endSession a0" using auths_after_lost_session[OF assms(1,2)] by blast
  obtain el where "fst b = [ElRequireAuth, ElApp, el]" using wallet_branch_cases[OF assms(3,4)] by blast
  then show ?thesis
    using assms(5)
    by (simp add: a RequireAuth_def isAuthenticated_def sessionMessage_def orDefault_def RELOGIN_TEXT_def
        redirectEffect_def openLogin_def redirectPath_def del: js_Cons)
qed

theorem lost_session_returns_to_page_witness:
  "renderBranch (npAuth (runEnds demo_lang 0 (Inl (ExApi (httpError None 401))) (openNotifications demo_auth)))
     (js ''/notifications'') [] [ElRequireAuth, ElApp, ElNotifications] =
   Some (LoginRedirect (js ''/notifications'') (Some RELOGIN_TEXT))"
proof -
  have e: "isSessionInvalidError (ExApi (httpError None 401))"
    by (simp add: isSessionInvalidError_def httpError_def resolveStructuredErrorPayload_def Let_def)
  have a: "npAuth (runEnds demo_lang 0 (Inl (ExApi (httpError None 401))) (openNotifications demo_auth)) \<in>
    set (auths_after_failure demo_lang (ExApi (httpError None 401)) (openStatePage demo_auth) (openHomePage demo_auth)
      (openNotifications demo_auth) (openEventsPage demo_auth) [] (openDetail demo_auth None None))"
    by (simp add: auths_after_failure_def openNotifications_def runBegins_def)
  have b: "([ElRequireAuth, ElApp, ElNotifications], [js ''/'', js ''notifications'']) \<in> set allBranches"
    by (simp add: allBranches_def appRouter_def del: js_Cons)
  show ?thesis using lost_session_returns_to_page[OF e a b, of "js ''/notifications''" "[]"] by simp
qed

end
